(* ===== verification/Lazer_Prelude.thy ===== *)
theory Lazer_Prelude
  imports Main "HOL-Library.Word" "HOL-Library.Signed_Division"
begin

unbundle bit_operations_syntax

text \<open>
  Shared vocabulary of the development: the machine integer types of the Rust sources as words,
  \<^verbatim>\<open>Result\<close> as a sum with the \<^verbatim>\<open>?\<close> operator as \<open>and_then\<close>, the checked and saturating
  integer operations of the Rust standard library, the byte encodings of integers
  (\<^verbatim>\<open>to_le_bytes\<close>, \<^verbatim>\<open>to_be_bytes\<close> and the \<^verbatim>\<open>byteorder\<close> readers), slices, and a locale for
  codecs (an encoder with a decoder that reads a prefix of its input).  Everything here is generic;
  the component theories import it.
\<close>

named_theorems word_range \<open>range and conversion facts of machine integers\<close>
named_theorems codec_simps \<open>decoding what was encoded\<close>

section \<open>Machine integers\<close>

type_synonym u8 = "8 word"
type_synonym u16 = "16 word"
type_synonym u32 = "32 word"
type_synonym u64 = "64 word"
type_synonym u128 = "128 word"
type_synonym i16 = "16 word"
type_synonym i32 = "32 word"
type_synonym i64 = "64 word"
type_synonym i128 = "128 word"
type_synonym bytes = "u8 list"

text \<open>
  A signed Rust integer is a word read with \<open>sint\<close>; an unsigned one is a word read with \<open>uint\<close>.
  \<open>to_signed\<close> and \<open>to_unsigned\<close> are the range checks behind \<^verbatim>\<open>checked_*\<close> and \<^verbatim>\<open>try_into\<close>:
  the mathematical value if the type holds it, and \<open>None\<close> otherwise.
\<close>

definition to_signed :: "int \<Rightarrow> 'a::len word option" where
  "to_signed x = (if - (2 ^ (LENGTH('a) - 1)) \<le> x \<and> x < 2 ^ (LENGTH('a) - 1)
                  then Some (word_of_int x) else None)"

definition to_unsigned :: "int \<Rightarrow> 'a::len word option" where
  "to_unsigned x = (if 0 \<le> x \<and> x < 2 ^ LENGTH('a) then Some (word_of_int x) else None)"

definition checked_add_s :: "'a::len word \<Rightarrow> 'a word \<Rightarrow> 'a word option" where
  "checked_add_s a b = to_signed (sint a + sint b)"

definition checked_sub_s :: "'a::len word \<Rightarrow> 'a word \<Rightarrow> 'a word option" where
  "checked_sub_s a b = to_signed (sint a - sint b)"

definition checked_mul_s :: "'a::len word \<Rightarrow> 'a word \<Rightarrow> 'a word option" where
  "checked_mul_s a b = to_signed (sint a * sint b)"

text \<open>Signed division truncates toward zero and fails on a zero divisor and on \<^verbatim>\<open>MIN / -1\<close>.\<close>

definition checked_div_s :: "'a::len word \<Rightarrow> 'a word \<Rightarrow> 'a word option" where
  "checked_div_s a b = (if b = 0 then None else to_signed (sint a sdiv sint b))"

definition checked_neg_s :: "'a::len word \<Rightarrow> 'a word option" where
  "checked_neg_s a = to_signed (- sint a)"

definition checked_add_u :: "'a::len word \<Rightarrow> 'a word \<Rightarrow> 'a word option" where
  "checked_add_u a b = to_unsigned (uint a + uint b)"

definition checked_sub_u :: "'a::len word \<Rightarrow> 'a word \<Rightarrow> 'a word option" where
  "checked_sub_u a b = to_unsigned (uint a - uint b)"

definition checked_mul_u :: "'a::len word \<Rightarrow> 'a word \<Rightarrow> 'a word option" where
  "checked_mul_u a b = to_unsigned (uint a * uint b)"

definition checked_div_u :: "'a::len word \<Rightarrow> 'a word \<Rightarrow> 'a word option" where
  "checked_div_u a b = (if b = 0 then None else Some (a div b))"

definition checked_rem_u :: "'a::len word \<Rightarrow> 'a word \<Rightarrow> 'a word option" where
  "checked_rem_u a b = (if b = 0 then None else Some (a mod b))"

definition saturating_add_u :: "'a::len word \<Rightarrow> 'a word \<Rightarrow> 'a word" where
  "saturating_add_u a b = (case checked_add_u a b of Some c \<Rightarrow> c | None \<Rightarrow> - 1)"

definition saturating_sub_u :: "'a::len word \<Rightarrow> 'a word \<Rightarrow> 'a word" where
  "saturating_sub_u a b = (if a < b then 0 else a - b)"

lemma sint_range: "- (2 ^ (LENGTH('a) - 1)) \<le> sint (w :: 'a::len word)"
  and sint_range_upper: "sint (w :: 'a::len word) < 2 ^ (LENGTH('a) - 1)"
  using sint_greater_eq [of w] sint_less [of w] by simp_all

lemma uint_range_upper: "uint (w :: 'a::len word) < 2 ^ LENGTH('a)"
  by (rule uint_bounded)

lemma to_signed_Some_iff [word_range]:
  "to_signed x = Some w \<longleftrightarrow> sint w = x" for w :: "'a::len word"
proof
  assume "to_signed x = Some w"
  then have r: "- (2 ^ (LENGTH('a) - 1)) \<le> x" "x < 2 ^ (LENGTH('a) - 1)" and w: "w = word_of_int x"
    by (auto simp: to_signed_def split: if_splits)
  show "sint w = x"
    unfolding w using r by (simp add: signed_of_int signed_take_bit_int_eq_self)
next
  assume "sint w = x"
  then show "to_signed x = Some w"
    using sint_range [of w] sint_range_upper [of w] by (auto simp: to_signed_def)
qed

lemma to_signed_None_iff [word_range]:
  "(to_signed x :: 'a::len word option) = None \<longleftrightarrow>
     x < - (2 ^ (LENGTH('a) - 1)) \<or> 2 ^ (LENGTH('a) - 1) \<le> x"
  by (auto simp: to_signed_def)

lemma to_unsigned_Some_iff [word_range]:
  "to_unsigned x = Some w \<longleftrightarrow> uint w = x" for w :: "'a::len word"
proof
  assume "to_unsigned x = Some w"
  then show "uint w = x"
    by (auto simp: to_unsigned_def uint_word_of_int_eq take_bit_int_eq_self split: if_splits)
next
  assume "uint w = x"
  then show "to_unsigned x = Some w"
    using uint_range_upper [of w] by (auto simp: to_unsigned_def)
qed

lemma to_unsigned_None_iff [word_range]:
  "(to_unsigned x :: 'a::len word option) = None \<longleftrightarrow> x < 0 \<or> 2 ^ LENGTH('a) \<le> x"
  by (auto simp: to_unsigned_def)

lemma to_signed_in_range:
  assumes "- (2 ^ (LENGTH('a) - 1)) \<le> x" and "x < 2 ^ (LENGTH('a) - 1)"
  obtains w :: "'a::len word" where "to_signed x = Some w" and "sint w = x"
proof -
  have "to_signed x = Some (word_of_int x :: 'a word)" using assms by (simp add: to_signed_def)
  moreover from this have "sint (word_of_int x :: 'a word) = x" by (simp add: to_signed_Some_iff)
  ultimately show ?thesis by (rule that)
qed

lemma to_unsigned_in_range:
  assumes "0 \<le> x" and "x < 2 ^ LENGTH('a)"
  obtains w :: "'a::len word" where "to_unsigned x = Some w" and "uint w = x"
proof -
  have "to_unsigned x = Some (word_of_int x :: 'a word)" using assms by (simp add: to_unsigned_def)
  moreover from this have "uint (word_of_int x :: 'a word) = x" by (simp add: to_unsigned_Some_iff)
  ultimately show ?thesis by (rule that)
qed

lemma uint_word_of_int_small:
  "0 \<le> x \<Longrightarrow> x < 2 ^ LENGTH('a) \<Longrightarrow> uint (word_of_int x :: 'a::len word) = x"
  using to_unsigned_Some_iff [of x "word_of_int x :: 'a word"] by (simp add: to_unsigned_def)

lemma sint_small: "uint w < 2 ^ (LENGTH('a) - 1) \<Longrightarrow> sint w = uint w" for w :: "'a::len word"
proof -
  assume a: "uint w < 2 ^ (LENGTH('a) - 1)"
  have "- (2 ^ (LENGTH('a) - 1)) \<le> uint w" by (rule order_trans [OF _ uint_ge_0]) simp
  with a have "to_signed (uint w) = Some w" by (simp add: to_signed_def)
  then show "sint w = uint w" by (simp add: to_signed_Some_iff)
qed

lemma sdiv_nonneg: "0 \<le> n \<Longrightarrow> 0 < d \<Longrightarrow> n sdiv d = n div d" for n d :: int
  by (cases "n = 0") (simp_all add: signed_divide_int_def sgn_if)

lemma smod_nonneg: "0 \<le> n \<Longrightarrow> 0 < d \<Longrightarrow> n smod d = n mod d" for n d :: int
  by (cases "n = 0") (simp_all add: signed_modulo_int_def sgn_if)

lemmas checked_defs = checked_add_s_def checked_sub_s_def checked_mul_s_def checked_div_s_def
  checked_neg_s_def checked_add_u_def checked_sub_u_def checked_mul_u_def checked_div_u_def
  checked_rem_u_def

lemma checked_add_u_ok:
  "uint a + uint b < 2 ^ LENGTH('a) \<Longrightarrow> checked_add_u a b = Some (a + b)" for a b :: "'a::len word"
  using uint_ge_0 [of a] uint_ge_0 [of b] by (simp add: checked_add_u_def to_unsigned_def)

lemma checked_mul_u_ok:
  "uint a * uint b < 2 ^ LENGTH('a) \<Longrightarrow> checked_mul_u a b = Some (a * b)" for a b :: "'a::len word"
  using uint_ge_0 [of a] uint_ge_0 [of b] by (simp add: checked_mul_u_def to_unsigned_def)

lemma checked_sub_u_ok:
  "b \<le> a \<Longrightarrow> checked_sub_u a b = Some (a - b)" for a b :: "'a::len word"
  using uint_range_upper [of a] uint_ge_0 [of b]
  by (simp add: checked_sub_u_def to_unsigned_def word_le_def del: uint_ge_0)

lemma checked_add_u_Some_iff [word_range]:
  "checked_add_u a b = Some c \<longleftrightarrow> c = a + b \<and> uint c = uint a + uint b"
  unfolding checked_add_u_def to_unsigned_Some_iff by (metis of_int_add word_of_int_uint)

lemma checked_mul_u_Some_iff [word_range]:
  "checked_mul_u a b = Some c \<longleftrightarrow> c = a * b \<and> uint c = uint a * uint b"
  unfolding checked_mul_u_def to_unsigned_Some_iff by (metis of_int_mult word_of_int_uint)

lemma checked_sub_u_Some_iff [word_range]:
  "checked_sub_u a b = Some c \<longleftrightarrow> c = a - b \<and> b \<le> a"
  by (auto simp: checked_sub_u_ok) (auto simp: checked_sub_u_def to_unsigned_def word_le_def split: if_splits)

lemma unat_checked_add: "checked_add_u a b = Some c \<Longrightarrow> unat c = unat a + unat b" for a b c :: "'a::len word"
proof -
  assume "checked_add_u a b = Some c"
  then have "uint c = uint a + uint b" unfolding checked_add_u_Some_iff by blast
  then have "int (unat c) = int (unat a) + int (unat b)" by (simp only: uint_nat)
  then show "unat c = unat a + unat b" by linarith
qed

lemma unat_checked_sub:
  "checked_sub_u a b = Some c \<Longrightarrow> unat c = unat a - unat b \<and> unat b \<le> unat a" for a b c :: "'a::len word"
  by (auto simp: checked_sub_u_Some_iff unat_sub word_le_nat_alt)

lemma uint_saturating_add:
  "uint (saturating_add_u a b) = min (uint a + uint b) (2 ^ LENGTH('a) - 1)"
  for a b :: "'a::len word"
proof (cases "checked_add_u a b")
  case None
  then have "2 ^ LENGTH('a) \<le> uint a + uint b"
    using uint_ge_0 [of a] uint_ge_0 [of b] by (simp add: checked_add_u_def to_unsigned_None_iff)
  with None show ?thesis
    by (simp add: saturating_add_u_def unsigned_minus_1_eq_mask mask_eq_exp_minus_1)
next
  case (Some c)
  then have "uint c = uint a + uint b" by (simp add: checked_add_u_def to_unsigned_Some_iff)
  with Some uint_range_upper [of c] show ?thesis by (simp add: saturating_add_u_def)
qed

lemma uint_saturating_sub: "uint (saturating_sub_u a b) = max 0 (uint a - uint b)"
  by (auto simp: saturating_sub_u_def word_less_def uint_sub_if' max_def)

lemma unat_u8_less [simp]: "unat (n :: u8) < 256" and unat_u16_less [simp]: "unat (k :: u16) < 65536"
  using unsigned_less [of n, where 'a = nat] unsigned_less [of k, where 'a = nat] by simp_all

section \<open>Results\<close>

text \<open>\<^verbatim>\<open>Result<T, E>\<close> is \<open>'e + 'a\<close>, \<open>Inl\<close> the error; \<open>and_then\<close> is the \<^verbatim>\<open>?\<close> operator.\<close>

fun and_then :: "'e + 'a \<Rightarrow> ('a \<Rightarrow> 'e + 'b) \<Rightarrow> 'e + 'b" where
  "and_then (Inl e) f = Inl e"
| "and_then (Inr x) f = f x"

fun ok_or :: "'e \<Rightarrow> 'a option \<Rightarrow> 'e + 'a" where
  "ok_or e None = Inl e"
| "ok_or e (Some x) = Inr x"

fun map_ok :: "('a \<Rightarrow> 'b) \<Rightarrow> 'e + 'a \<Rightarrow> 'e + 'b" where
  "map_ok f (Inl e) = Inl e"
| "map_ok f (Inr x) = Inr (f x)"

fun map_err :: "('e \<Rightarrow> 'f) \<Rightarrow> 'e + 'a \<Rightarrow> 'f + 'a" where
  "map_err f (Inl e) = Inl (f e)"
| "map_err f (Inr x) = Inr x"

definition is_ok :: "'e + 'a \<Rightarrow> bool" where
  "is_ok r = (case r of Inl _ \<Rightarrow> False | Inr _ \<Rightarrow> True)"

lemma is_ok_simps [simp]: "is_ok (Inr x)" "\<not> is_ok (Inl e)"
  by (simp_all add: is_ok_def)

lemma is_ok_iff: "is_ok r \<longleftrightarrow> (\<exists>x. r = Inr x)"
  by (cases r) simp_all

lemma and_then_Inr_iff [simp]: "and_then m f = Inr y \<longleftrightarrow> (\<exists>x. m = Inr x \<and> f x = Inr y)"
  by (cases m) auto

lemma and_then_Inl_iff: "and_then m f = Inl e \<longleftrightarrow> m = Inl e \<or> (\<exists>x. m = Inr x \<and> f x = Inl e)"
  by (cases m) auto

lemma and_then_assoc: "and_then (and_then m f) g = and_then m (\<lambda>x. and_then (f x) g)"
  by (cases m) auto

lemma and_then_cong [fundef_cong]:
  "m = m' \<Longrightarrow> (\<And>x. m' = Inr x \<Longrightarrow> f x = g x) \<Longrightarrow> and_then m f = and_then m' g"
  by (cases m') auto

lemma ok_or_Inr_iff [simp]: "ok_or e m = Inr y \<longleftrightarrow> m = Some y"
  by (cases m) auto

lemma ok_or_Inl_iff [simp]: "ok_or e m = Inl d \<longleftrightarrow> m = None \<and> d = e"
  by (cases m) auto

lemma map_ok_Inr_iff [simp]: "map_ok f m = Inr y \<longleftrightarrow> (\<exists>x. m = Inr x \<and> y = f x)"
  by (cases m) auto

lemma map_err_Inr_iff [simp]: "map_err f m = Inr y \<longleftrightarrow> m = Inr y"
  by (cases m) auto

lemma map_err_Inl_iff: "map_err f m = Inl d \<longleftrightarrow> (\<exists>e. m = Inl e \<and> d = f e)"
  by (cases m) auto

text \<open>
  The opaque \<^verbatim>\<open>anyhow::Error\<close> of the off-chain crates: an I/O error of a reader (always
  \<^verbatim>\<open>UnexpectedEof\<close> for an in-memory reader), a failed integer conversion, or the message of a
  \<^verbatim>\<open>bail!\<close> or \<^verbatim>\<open>context\<close> call.
\<close>

datatype anyhow = UnexpectedEof | TryFromIntError | Message string

section \<open>Bytes\<close>

text \<open>
  \<open>le_bytes n w\<close> are the low \<open>n\<close> bytes of \<open>w\<close>, least significant first; \<open>le_word\<close> reads such a
  byte string back.  \<^verbatim>\<open>byteorder\<close>'s type parameter is the argument of \<open>put_uint\<close> and \<open>get_uint\<close>.
\<close>

fun le_bytes :: "nat \<Rightarrow> 'a::len word \<Rightarrow> bytes" where
  "le_bytes 0 w = []"
| "le_bytes (Suc n) w = ucast w # le_bytes n (drop_bit 8 w)"

fun le_word :: "bytes \<Rightarrow> 'a::len word" where
  "le_word [] = 0"
| "le_word (b # bs) = ucast b OR push_bit 8 (le_word bs)"

datatype byte_order = LE | BE

fun put_uint :: "byte_order \<Rightarrow> nat \<Rightarrow> 'a::len word \<Rightarrow> bytes" where
  "put_uint LE n w = le_bytes n w"
| "put_uint BE n w = rev (le_bytes n w)"

fun get_uint :: "byte_order \<Rightarrow> bytes \<Rightarrow> 'a::len word" where
  "get_uint LE bs = le_word bs"
| "get_uint BE bs = le_word (rev bs)"

lemma ucast_u8_u32 [simp]: "ucast (ucast (b :: u8) :: u32) = b"
  by (simp add: ucast_down_ucast_id is_down_def target_size_def source_size_def)

lemma ucast_u8_less: "(ucast (b :: u8) :: u32) < 256"
proof -
  have "uint (ucast b :: u32) = uint b"
    using uint_range_upper [of b] by (simp add: unsigned_ucast_eq take_bit_int_eq_self)
  then show ?thesis
    using uint_range_upper [of b] by (simp add: word_less_def)
qed

lemma ucast_u32_u8: "w < 256 \<Longrightarrow> ucast (ucast (w :: u32) :: u8) = w"
  by (simp add: word_uint_eq_iff unsigned_ucast_eq unsigned_take_bit_eq word_less_def take_bit_int_eq_self)

lemma length_le_bytes [simp]: "length (le_bytes n w) = n"
  by (induction n w rule: le_bytes.induct) simp_all

lemma length_put_uint [simp]: "length (put_uint bo n w) = n"
  by (cases bo) simp_all

lemma bit_le_word:
  "bit (le_word bs :: 'a::len word) i \<longleftrightarrow>
     i < LENGTH('a) \<and> i div 8 < length bs \<and> bit (bs ! (i div 8)) (i mod 8)"
proof (induction bs arbitrary: i)
  case (Cons b bs)
  show ?case
  proof (cases "i < 8")
    case True
    then show ?thesis by (auto simp: bit_or_iff bit_push_bit_iff bit_ucast_iff)
  next
    case False
    then obtain j where i: "i = j + 8" by (metis le_add_diff_inverse2 not_less)
    have d: "(j + 8) div 8 = Suc (j div 8)" by simp
    show ?thesis
      unfolding i using Cons [of j]
      by (auto simp: d bit_or_iff bit_push_bit_iff bit_ucast_iff dest: bit_imp_le_length)
  qed
qed simp

lemma nth_le_bytes: "k < n \<Longrightarrow> le_bytes n w ! k = ucast (drop_bit (8 * k) w)"
  by (induction n w arbitrary: k rule: le_bytes.induct) (auto simp: nth_Cons' drop_bit_drop_bit algebra_simps
      intro!: arg_cong [where f = ucast] arg_cong2 [where f = drop_bit])

lemma le_word_le_bytes:
  assumes "LENGTH('a) \<le> 8 * n"
  shows "le_word (le_bytes n w) = (w :: 'a::len word)"
proof (rule bit_word_eqI)
  fix i assume "i < LENGTH('a)"
  with assms have "i div 8 < n" by simp
  moreover have "8 * (i div 8) + i mod 8 = i" by simp
  ultimately show "bit (le_word (le_bytes n w) :: 'a word) i = bit w i"
    using \<open>i < LENGTH('a)\<close> by (simp add: bit_le_word nth_le_bytes bit_ucast_iff bit_drop_bit_eq)
qed

lemma le_bytes_le_word:
  assumes "8 * length bs \<le> LENGTH('a)"
  shows "le_bytes (length bs) (le_word bs :: 'a::len word) = bs"
proof (rule nth_equalityI)
  fix k assume "k < length (le_bytes (length bs) (le_word bs :: 'a word))"
  then have k: "k < length bs" by simp
  show "le_bytes (length bs) (le_word bs :: 'a word) ! k = bs ! k"
  proof (rule bit_word_eqI)
    fix i assume "i < LENGTH(8)"
    then have "i < 8" by simp
    moreover from this k assms have "8 * k + i < LENGTH('a)" by simp
    ultimately show "bit (le_bytes (length bs) (le_word bs :: 'a word) ! k) i = bit (bs ! k) i"
      using k by (simp add: nth_le_bytes bit_ucast_iff bit_drop_bit_eq bit_le_word)
  qed
qed simp

lemma le_word_append: "le_word (xs @ ys) = le_word xs OR push_bit (8 * length xs) (le_word ys)"
  by (induction xs) (simp_all add: push_bit_or push_bit_push_bit ac_simps)

lemma ucast_le_word:
  assumes "8 * length bs \<le> LENGTH('b)"
  shows "ucast (le_word bs :: 'b::len word) = (le_word bs :: 'a::len word)"
proof (rule bit_word_eqI)
  fix i assume "i < LENGTH('a)"
  moreover have "i div 8 < length bs \<Longrightarrow> i < LENGTH('b)" using assms by simp
  ultimately show "bit (ucast (le_word bs :: 'b word) :: 'a word) i = bit (le_word bs :: 'a word) i"
    by (auto simp: bit_ucast_iff bit_le_word)
qed

lemma get_put_uint:
  "LENGTH('a) \<le> 8 * n \<Longrightarrow> get_uint bo (put_uint bo n w) = (w :: 'a::len word)"
  by (cases bo) (simp_all add: le_word_le_bytes)

lemma put_get_uint:
  "length bs = n \<Longrightarrow> 8 * n \<le> LENGTH('a) \<Longrightarrow> put_uint bo n (get_uint bo bs :: 'a::len word) = bs"
  using le_bytes_le_word [of bs, where 'a = 'a] le_bytes_le_word [of "rev bs", where 'a = 'a]
  by (cases bo) (auto simp: rev_swap)

declare put_uint.simps [simp del] get_uint.simps [simp del]

lemmas uint_simps = put_uint.simps get_uint.simps

section \<open>Readers\<close>

text \<open>
  An in-memory \<^verbatim>\<open>Read\<close> (a \<^verbatim>\<open>Cursor\<close> over a slice) is the list of the bytes still to be read; a
  reading function returns what it read and the rest.
\<close>

definition read_exact :: "nat \<Rightarrow> bytes \<Rightarrow> anyhow + bytes \<times> bytes" where
  "read_exact n bs = (if n \<le> length bs then Inr (take n bs, drop n bs) else Inl UnexpectedEof)"

definition read_uint :: "byte_order \<Rightarrow> nat \<Rightarrow> bytes \<Rightarrow> anyhow + 'a::len word \<times> bytes" where
  "read_uint bo n bs = map_ok (\<lambda>(x, r). (get_uint bo x, r)) (read_exact n bs)"

fun read_u8 :: "bytes \<Rightarrow> anyhow + u8 \<times> bytes" where
  "read_u8 [] = Inl UnexpectedEof"
| "read_u8 (b # bs) = Inr (b, bs)"

abbreviation read_u16 :: "byte_order \<Rightarrow> bytes \<Rightarrow> anyhow + u16 \<times> bytes" where
  "read_u16 bo \<equiv> read_uint bo 2"

abbreviation read_u32 :: "byte_order \<Rightarrow> bytes \<Rightarrow> anyhow + u32 \<times> bytes" where
  "read_u32 bo \<equiv> read_uint bo 4"

abbreviation read_u64 :: "byte_order \<Rightarrow> bytes \<Rightarrow> anyhow + u64 \<times> bytes" where
  "read_u64 bo \<equiv> read_uint bo 8"

text \<open>\<^verbatim>\<open>for _ in 0..n { v.push(read(&mut reader)?) }\<close>\<close>

fun read_many :: "(bytes \<Rightarrow> 'e + 'a \<times> bytes) \<Rightarrow> nat \<Rightarrow> bytes \<Rightarrow> 'e + 'a list \<times> bytes" where
  "read_many f 0 bs = Inr ([], bs)"
| "read_many f (Suc n) bs =
     and_then (f bs) (\<lambda>(x, r). and_then (read_many f n r) (\<lambda>(xs, r'). Inr (x # xs, r')))"

lemma read_exact_append [codec_simps]: "length xs = n \<Longrightarrow> read_exact n (xs @ r) = Inr (xs, r)"
  by (simp add: read_exact_def)

lemma read_exact_Inr_iff: "read_exact n bs = Inr (xs, r) \<longleftrightarrow> length xs = n \<and> bs = xs @ r"
  by (auto simp: read_exact_def)

lemma read_exact_Inl_iff: "read_exact n bs = Inl e \<longleftrightarrow> length bs < n \<and> e = UnexpectedEof"
  by (auto simp: read_exact_def)

lemma read_u8_Inr_iff: "read_u8 bs = Inr (x, r) \<longleftrightarrow> bs = x # r"
  by (cases bs) auto

lemma read_uint_put:
  "LENGTH('a) \<le> 8 * n \<Longrightarrow> read_uint bo n (put_uint bo n w @ r) = Inr (w :: 'a::len word, r)"
  by (simp add: read_uint_def read_exact_append get_put_uint)

lemma read_uint_Inr_iff:
  assumes "LENGTH('a) = 8 * n"
  shows "read_uint bo n bs = Inr (w :: 'a::len word, r) \<longleftrightarrow> bs = put_uint bo n w @ r"
  using assms
  by (auto simp: read_uint_def read_exact_Inr_iff put_get_uint get_put_uint intro!: exI [of _ "put_uint bo n w"])

lemma read_words_put [codec_simps]:
  "read_uint bo 2 (put_uint bo 2 (a :: u16) @ r) = Inr (a, r)"
  "read_uint bo 4 (put_uint bo 4 (b :: u32) @ r) = Inr (b, r)"
  "read_uint bo 8 (put_uint bo 8 (c :: u64) @ r) = Inr (c, r)"
  by (simp_all add: read_uint_put)

lemma read_many_length: "read_many f n bs = Inr (xs, r) \<Longrightarrow> length xs = n"
  by (induction n arbitrary: bs xs) (auto split: prod.splits)

text \<open>\<^verbatim>\<open>data.get(a..b)\<close> of a slice: \<^verbatim>\<open>None\<close> unless \<open>a \<le> b \<le> length\<close>.\<close>

definition get_range :: "nat \<Rightarrow> nat \<Rightarrow> 'a list \<Rightarrow> 'a list option" where
  "get_range a b xs = (if a \<le> b \<and> b \<le> length xs then Some (take (b - a) (drop a xs)) else None)"

section \<open>Codecs\<close>

text \<open>
  The contract of an encoder and a decoder of one format: decoding what was encoded gives the value
  back and leaves what follows it untouched.  Injectivity and the decoding of sequences follow.  A
  canonical codec also promises that the decoder accepts nothing but encodings.
\<close>

locale codec =
  fixes enc :: "'a \<Rightarrow> bytes"
    and dec :: "bytes \<Rightarrow> 'e + 'a \<times> bytes"
    and valid :: "'a \<Rightarrow> bool"
  assumes dec_enc: "valid a \<Longrightarrow> dec (enc a @ r) = Inr (a, r)"
begin

lemma enc_prefix_free:
  assumes "valid a" and "valid b" and "enc a @ r = enc b @ s"
  shows "a = b \<and> r = s"
proof -
  have "Inr (a, r) = dec (enc a @ r)" by (rule dec_enc [OF assms(1), symmetric])
  also have "\<dots> = dec (enc b @ s)" by (rule arg_cong [OF assms(3)])
  also have "\<dots> = Inr (b, s)" by (rule dec_enc [OF assms(2)])
  finally show ?thesis by simp
qed

lemma read_many_enc:
  "list_all valid xs \<Longrightarrow> read_many dec (length xs) (concat (map enc xs) @ r) = Inr (xs, r)"
  by (induction xs) (simp_all add: dec_enc)

end

locale canonical_codec = codec +
  assumes enc_dec: "dec bs = Inr (a, r) \<Longrightarrow> valid a \<and> bs = enc a @ r"
begin

lemma dec_iff: "dec bs = Inr (a, r) \<longleftrightarrow> valid a \<and> bs = enc a @ r"
  using enc_dec dec_enc by blast

lemma read_many_iff:
  "read_many dec n bs = Inr (xs, r) \<longleftrightarrow>
     length xs = n \<and> list_all valid xs \<and> bs = concat (map enc xs) @ r"
proof (induction n arbitrary: bs xs)
  case 0
  then show ?case by auto
next
  case (Suc n)
  have "read_many dec (Suc n) bs = Inr (xs, r) \<longleftrightarrow>
      (\<exists>x r' ys. dec bs = Inr (x, r') \<and> read_many dec n r' = Inr (ys, r) \<and> xs = x # ys)"
    by (cases "dec bs") (simp_all split: prod.splits, metis)
  also have "\<dots> \<longleftrightarrow> (\<exists>x ys. valid x \<and> length ys = n \<and> list_all valid ys
      \<and> bs = enc x @ concat (map enc ys) @ r \<and> xs = x # ys)"
    by (simp only: dec_iff Suc.IH) blast
  also have "\<dots> \<longleftrightarrow> length xs = Suc n \<and> list_all valid xs \<and> bs = concat (map enc xs) @ r"
    by (cases xs) auto
  finally show ?case .
qed

end

end
