(* ===== verification/Soroban_Host.thy ===== *)
theory Soroban_Host
  imports Lazer_Prelude
begin

text \<open>
  The part of the Soroban host that the Stellar contracts and their SDK use: how an invocation
  ends, indexed reads of \<^verbatim>\<open>Bytes\<close>, checked arithmetic (the contracts are built with
  \<^verbatim>\<open>overflow-checks = true\<close>) and the time-to-live of storage entries.  The host's cryptography,
  address and XDR functions are parameters of the definitions that call them.
\<close>

section \<open>How a contract function ends\<close>

text \<open>
  A contract function returns, fails with one of the contract's error codes, or traps (a Rust
  panic or a host error).  A function that does not return has no effect: the host discards the
  storage writes of a failed invocation, so a failure carries no state.
\<close>

datatype 'e fault = Fail 'e | Trap

definition or_trap :: "'a option \<Rightarrow> 'e fault + 'a" where
  "or_trap x = ok_or Trap x"

lemma or_trap_Inr_iff [simp]: "or_trap m = Inr y \<longleftrightarrow> m = Some y"
  by (simp add: or_trap_def)

section \<open>Bytes\<close>

text \<open>\<^verbatim>\<open>Bytes::get\<close>, and the loop that fills an array from consecutive offsets.\<close>

definition bytes_get :: "bytes \<Rightarrow> nat \<Rightarrow> u8 option" where
  "bytes_get data i = (if i < length data then Some (data ! i) else None)"

fun get_array :: "'e \<Rightarrow> bytes \<Rightarrow> nat \<Rightarrow> nat \<Rightarrow> 'e + bytes" where
  "get_array e data off 0 = Inr []"
| "get_array e data off (Suc n) =
     and_then (ok_or e (bytes_get data off)) (\<lambda>b.
     and_then (get_array e data (Suc off) n) (\<lambda>bs. Inr (b # bs)))"

text \<open>\<^verbatim>\<open>Bytes::slice\<close> of a range inside the value; every caller checks the range first.\<close>

definition slice :: "bytes \<Rightarrow> nat \<Rightarrow> nat \<Rightarrow> bytes" where
  "slice data a b = take (b - a) (drop a data)"

lemma bytes_get_iff: "bytes_get data i = Some b \<longleftrightarrow> i < length data \<and> b = data ! i"
  by (auto simp: bytes_get_def)

lemma bytes_get_None [simp]: "bytes_get data i = None \<longleftrightarrow> length data \<le> i"
  by (auto simp: bytes_get_def)

lemma bytes_get_append:
  "bytes_get (xs @ ys) i = (if i < length xs then bytes_get xs i else bytes_get ys (i - length xs))"
  by (auto simp: bytes_get_def nth_append)

lemma get_array_eq:
  "get_array e data off n = (if n = 0 \<or> off + n \<le> length data then Inr (take n (drop off data)) else Inl e)"
proof (induction n arbitrary: off)
  case (Suc n)
  show ?case
  proof (cases "off < length data")
    case True
    then show ?thesis
      using Suc [of "Suc off"]
      by (auto simp: bytes_get_def Cons_nth_drop_Suc [symmetric] take_Cons')
  next
    case False
    then show ?thesis by (simp add: bytes_get_def)
  qed
qed simp

lemma get_array_in_range [simp]:
  "off + n \<le> length data \<Longrightarrow> get_array e data off n = Inr (take n (drop off data))"
  by (simp add: get_array_eq)

lemma length_slice [simp]: "b \<le> length data \<Longrightarrow> length (slice data a b) = b - a"
  by (simp add: slice_def)

lemma slice_full: "slice data a (length data) = drop a data"
  by (simp add: slice_def)

lemma take_drop_Suc:
  "i < length xs \<Longrightarrow> take (Suc n) (drop i xs) = xs ! i # take n (drop (Suc i) xs)"
  by (simp add: Cons_nth_drop_Suc [symmetric])

section \<open>Storage time-to-live\<close>

text \<open>
  A storage entry has a remaining time-to-live in ledgers and can be read while it is positive.
  \<open>extended\<close> is the documented effect of \<^verbatim>\<open>extend_ttl(threshold, extend_to)\<close> on an entry.
\<close>

definition extended :: "nat \<Rightarrow> nat \<Rightarrow> nat \<Rightarrow> nat" where
  "extended threshold extend_to ttl = (if ttl < threshold then extend_to else ttl)"

lemma extended_ge: "threshold \<le> extend_to \<Longrightarrow> threshold \<le> extended threshold extend_to ttl"
  by (simp add: extended_def)

lemma extended_mono: "ttl \<le> extend_to \<or> threshold \<le> ttl \<Longrightarrow> ttl \<le> extended threshold extend_to ttl"
  by (auto simp: extended_def)

end
