(* ===== verification/Executor_Guardian.thy ===== *)
theory Executor_Guardian
  imports Soroban_Host
begin

text \<open>
  The storage of the Wormhole executor contract
  (\<^verbatim>\<open>contracts/stellar/contracts/wormhole-executor-stellar/src/guardian.rs\<close> and \<^verbatim>\<open>error.rs\<close>):
  the guardian sets by index, the two authorised emitters, the chain id and the high-water mark of
  executed governance sequences, with every function that reads or writes them.
\<close>

section \<open>Errors\<close>

datatype executor_error =
    InvalidVaaVersion | TruncatedData | InvalidGuardianIndex | NoQuorum
  | GuardianSignatureMismatch | InvalidEmitterChain | InvalidEmitterAddress | StaleSequence
  | AlreadyInitialized | NotInitialized | DuplicateGuardianSignature | InvalidGuardianSetIndex
  | InvalidGuardianSetUpgrade | EmptyGuardianSet | InvalidPtgmMagic | InvalidPtgmModule
  | InvalidTargetChain | InvalidGovernanceAction | InvalidExecutorAddress | InvalidRecoveryId
  | InvalidGovernanceModule | InvalidTargetContract | GuardianSetNotFound | GuardianSetExpired
  | InvalidFunctionName | InvalidArgsEncoding | SequenceNotFound

type_synonym exec_fault = "executor_error fault"

section \<open>State\<close>

text \<open>
  One field per \<^verbatim>\<open>DataKey\<close>.  The instance entries live and die with the contract; the
  persistent entries \<^verbatim>\<open>GuardianSetIndex\<close>, \<^verbatim>\<open>LastExecutedSequence\<close> and \<^verbatim>\<open>GuardianSetByIndex(i)\<close>
  have a time-to-live each and cannot be read once it is zero.  \<open>min_ttl\<close> is the network's
  initial time-to-live of a new entry and \<open>timestamp\<close> the ledger's close time.
\<close>

record stored_guardian_set =
  gs_keys :: "bytes list"
  gs_expiration_time :: "u64 option"

datatype data_key =
    Initialized | GuardianSetIndex | ChainId | OwnerEmitterChain | OwnerEmitterAddress
  | GsUpgradeEmitterChain | GsUpgradeEmitterAddress | LastExecutedSequence
  | GuardianSetByIndex u32

record executor_env =
  timestamp :: u64
  min_ttl :: nat
  initialized :: "bool option"
  chain_id :: "u32 option"
  owner_emitter_chain :: "u32 option"
  owner_emitter_address :: "bytes option"
  gs_upgrade_emitter_chain :: "u32 option"
  gs_upgrade_emitter_address :: "bytes option"
  instance_ttl :: nat
  guardian_set_index :: "u32 option"
  last_executed_sequence :: "u64 option"
  guardian_sets :: "u32 \<Rightarrow> stored_guardian_set option"
  ttl :: "data_key \<Rightarrow> nat"

definition TTL_THRESHOLD :: nat where "TTL_THRESHOLD = 100000"
definition TTL_EXTEND_TO :: nat where "TTL_EXTEND_TO = 500000"
definition GUARDIAN_SET_EXPIRY :: u64 where "GUARDIAN_SET_EXPIRY = 86400"

text \<open>Reading a persistent entry: \<open>None\<close> when it was never written or its time-to-live ran out.\<close>

definition live :: "executor_env \<Rightarrow> data_key \<Rightarrow> 'a option \<Rightarrow> 'a option" where
  "live env k v = (if 0 < ttl env k then v else None)"

text \<open>A write keeps the time-to-live of a live entry and gives a new one the network's minimum.\<close>

definition touch :: "data_key \<Rightarrow> executor_env \<Rightarrow> executor_env" where
  "touch k env = (if 0 < ttl env k then env else env\<lparr>ttl := (ttl env)(k := min_ttl env)\<rparr>)"

section \<open>Operations\<close>

text \<open>\<^verbatim>\<open>extend_ttl\<close> on a persistent entry traps when the entry cannot be read.\<close>

definition extend_ttl :: "data_key \<Rightarrow> bool \<Rightarrow> executor_env \<Rightarrow> exec_fault + executor_env" where
  "extend_ttl k present env =
     (if present
      then Inr (env\<lparr>ttl := (ttl env)(k := extended TTL_THRESHOLD TTL_EXTEND_TO (ttl env k))\<rparr>)
      else Inl Trap)"

definition read_guardian_set :: "executor_env \<Rightarrow> u32 \<Rightarrow> stored_guardian_set option" where
  "read_guardian_set env index = live env (GuardianSetByIndex index) (guardian_sets env index)"

definition extend_guardian_set_by_index_ttl :: "u32 \<Rightarrow> executor_env \<Rightarrow> exec_fault + executor_env" where
  "extend_guardian_set_by_index_ttl index env =
     (if read_guardian_set env index \<noteq> None
      then extend_ttl (GuardianSetByIndex index) True env else Inr env)"

definition extend_persistent_ttl :: "executor_env \<Rightarrow> exec_fault + executor_env" where
  "extend_persistent_ttl env =
     and_then (extend_ttl GuardianSetIndex
                 (live env GuardianSetIndex (guardian_set_index env) \<noteq> None) env) (\<lambda>env.
     extend_ttl LastExecutedSequence
       (live env LastExecutedSequence (last_executed_sequence env) \<noteq> None) env)"

definition extend_instance_ttl :: "executor_env \<Rightarrow> executor_env" where
  "extend_instance_ttl env =
     env\<lparr>instance_ttl := extended TTL_THRESHOLD TTL_EXTEND_TO (instance_ttl env)\<rparr>"

definition put_guardian_set :: "u32 \<Rightarrow> stored_guardian_set \<Rightarrow> executor_env \<Rightarrow> executor_env" where
  "put_guardian_set index gs env =
     touch (GuardianSetByIndex index) (env\<lparr>guardian_sets := (guardian_sets env)(index \<mapsto> gs)\<rparr>)"

definition put_guardian_set_index :: "u32 \<Rightarrow> executor_env \<Rightarrow> executor_env" where
  "put_guardian_set_index index env =
     touch GuardianSetIndex (env\<lparr>guardian_set_index := Some index\<rparr>)"

definition put_last_sequence :: "u64 \<Rightarrow> executor_env \<Rightarrow> executor_env" where
  "put_last_sequence sequence env =
     touch LastExecutedSequence (env\<lparr>last_executed_sequence := Some sequence\<rparr>)"

definition initialize ::
  "u32 \<Rightarrow> u32 \<Rightarrow> bytes \<Rightarrow> u32 \<Rightarrow> bytes \<Rightarrow> bytes list \<Rightarrow> u32 \<Rightarrow> executor_env \<Rightarrow> exec_fault + executor_env" where
  "initialize chain own_chain own_address up_chain up_address initial_guardian_set index env =
     (if initial_guardian_set = [] then Inl (Fail EmptyGuardianSet)
      else if initialized env \<noteq> None then Inl (Fail AlreadyInitialized)
      else
        let env = env\<lparr>initialized := Some True\<rparr>;
            env = put_guardian_set index
                    \<lparr>gs_keys = initial_guardian_set, gs_expiration_time = None\<rparr> env;
            env = put_guardian_set_index index env;
            env = env\<lparr>chain_id := Some chain, owner_emitter_chain := Some own_chain,
                      owner_emitter_address := Some own_address,
                      gs_upgrade_emitter_chain := Some up_chain,
                      gs_upgrade_emitter_address := Some up_address\<rparr>;
            env = put_last_sequence 0 env
        in and_then (extend_guardian_set_by_index_ttl index env) (\<lambda>env.
           and_then (extend_persistent_ttl env) (\<lambda>env.
           Inr (extend_instance_ttl env))))"

definition require_initialized :: "executor_env \<Rightarrow> exec_fault + unit" where
  "require_initialized env =
     (if initialized env = None then Inl (Fail NotInitialized) else Inr ())"

definition get_guardian_set_by_index ::
  "u32 \<Rightarrow> executor_env \<Rightarrow> exec_fault + stored_guardian_set \<times> executor_env" where
  "get_guardian_set_by_index index env =
     and_then (extend_guardian_set_by_index_ttl index env) (\<lambda>env.
     and_then (ok_or (Fail GuardianSetNotFound) (read_guardian_set env index)) (\<lambda>gs.
     Inr (gs, env)))"

definition get_guardian_set_index :: "executor_env \<Rightarrow> exec_fault + u32" where
  "get_guardian_set_index env =
     ok_or (Fail NotInitialized) (live env GuardianSetIndex (guardian_set_index env))"

definition get_guardian_set :: "executor_env \<Rightarrow> exec_fault + bytes list \<times> executor_env" where
  "get_guardian_set env =
     and_then (get_guardian_set_index env) (\<lambda>index.
     and_then (get_guardian_set_by_index index env) (\<lambda>(stored, env).
     Inr (gs_keys stored, env)))"

definition get_chain_id :: "executor_env \<Rightarrow> exec_fault + u32" where
  "get_chain_id env = ok_or (Fail NotInitialized) (chain_id env)"

definition get_owner_emitter_chain :: "executor_env \<Rightarrow> exec_fault + u32" where
  "get_owner_emitter_chain env = ok_or (Fail NotInitialized) (owner_emitter_chain env)"

definition get_owner_emitter_address :: "executor_env \<Rightarrow> exec_fault + bytes" where
  "get_owner_emitter_address env = ok_or (Fail NotInitialized) (owner_emitter_address env)"

definition get_gs_upgrade_emitter_chain :: "executor_env \<Rightarrow> exec_fault + u32" where
  "get_gs_upgrade_emitter_chain env = ok_or (Fail NotInitialized) (gs_upgrade_emitter_chain env)"

definition get_gs_upgrade_emitter_address :: "executor_env \<Rightarrow> exec_fault + bytes" where
  "get_gs_upgrade_emitter_address env =
     ok_or (Fail NotInitialized) (gs_upgrade_emitter_address env)"

definition get_last_executed_sequence :: "executor_env \<Rightarrow> exec_fault + u64" where
  "get_last_executed_sequence env =
     ok_or (Fail SequenceNotFound) (live env LastExecutedSequence (last_executed_sequence env))"

definition set_last_executed_sequence :: "u64 \<Rightarrow> executor_env \<Rightarrow> exec_fault + executor_env" where
  "set_last_executed_sequence sequence env =
     (let env = put_last_sequence sequence env
      in extend_ttl LastExecutedSequence
           (live env LastExecutedSequence (last_executed_sequence env) \<noteq> None) env)"

text \<open>
  \<^verbatim>\<open>store_guardian_set\<close>: the subtraction and the addition are overflow-checked; the set that
  is replaced gets an expiration only when it can still be read.
\<close>

definition store_guardian_set ::
  "bytes list \<Rightarrow> u32 \<Rightarrow> executor_env \<Rightarrow> exec_fault + executor_env" where
  "store_guardian_set new_guardian_set new_index env =
     and_then (or_trap (checked_sub_u new_index 1)) (\<lambda>old_index.
     and_then
       (case read_guardian_set env old_index of
          None \<Rightarrow> Inr env
        | Some old_set \<Rightarrow>
            and_then (or_trap (checked_add_u (timestamp env) GUARDIAN_SET_EXPIRY)) (\<lambda>t.
            extend_guardian_set_by_index_ttl old_index
              (put_guardian_set old_index (old_set\<lparr>gs_expiration_time := Some t\<rparr>) env))) (\<lambda>env.
     let env = put_guardian_set new_index
                 \<lparr>gs_keys = new_guardian_set, gs_expiration_time = None\<rparr> env;
         env = put_guardian_set_index new_index env
     in and_then (extend_guardian_set_by_index_ttl new_index env) extend_persistent_ttl))"

text \<open>\<^verbatim>\<open>eth_address_from_pubkey\<close> over the host's Keccak function.\<close>

definition eth_address_from_pubkey :: "(bytes \<Rightarrow> bytes) \<Rightarrow> bytes \<Rightarrow> bytes" where
  "eth_address_from_pubkey keccak256 uncompressed =
     take 20 (drop 12 (keccak256 (take 64 (drop 1 uncompressed))))"

definition quorum :: "u32 \<Rightarrow> exec_fault + u32" where
  "quorum num_guardians =
     and_then (or_trap (checked_mul_u num_guardians 10)) (\<lambda>scaled.
     and_then (or_trap (checked_mul_u (scaled div 3) 2)) (\<lambda>doubled.
     or_trap (checked_add_u (doubled div 10) 1)))"

section \<open>Frame facts\<close>

text \<open>
  Everything an invocation leaves alone: the clock, the network parameter and the instance
  entries written by the constructor.
\<close>

definition same_config :: "executor_env \<Rightarrow> executor_env \<Rightarrow> bool" where
  "same_config env env' \<longleftrightarrow>
     timestamp env' = timestamp env \<and> min_ttl env' = min_ttl env \<and>
     initialized env' = initialized env \<and> chain_id env' = chain_id env \<and>
     owner_emitter_chain env' = owner_emitter_chain env \<and>
     owner_emitter_address env' = owner_emitter_address env \<and>
     gs_upgrade_emitter_chain env' = gs_upgrade_emitter_chain env \<and>
     gs_upgrade_emitter_address env' = gs_upgrade_emitter_address env"

text \<open>Values of the persistent entries, whatever their time-to-live.\<close>

definition same_values :: "executor_env \<Rightarrow> executor_env \<Rightarrow> bool" where
  "same_values env env' \<longleftrightarrow>
     guardian_set_index env' = guardian_set_index env \<and>
     last_executed_sequence env' = last_executed_sequence env \<and>
     guardian_sets env' = guardian_sets env"

lemma same_config_refl [simp]: "same_config env env" and same_values_refl [simp]: "same_values env env"
  by (simp_all add: same_config_def same_values_def)

lemma same_config_trans [trans]: "same_config a b \<Longrightarrow> same_config b c \<Longrightarrow> same_config a c"
  by (simp add: same_config_def)

lemma same_values_trans [trans]: "same_values a b \<Longrightarrow> same_values b c \<Longrightarrow> same_values a c"
  by (simp add: same_values_def)

lemma touch_fields [simp]:
  "timestamp (touch k env) = timestamp env" "min_ttl (touch k env) = min_ttl env"
  "initialized (touch k env) = initialized env" "chain_id (touch k env) = chain_id env"
  "owner_emitter_chain (touch k env) = owner_emitter_chain env"
  "owner_emitter_address (touch k env) = owner_emitter_address env"
  "gs_upgrade_emitter_chain (touch k env) = gs_upgrade_emitter_chain env"
  "gs_upgrade_emitter_address (touch k env) = gs_upgrade_emitter_address env"
  "guardian_set_index (touch k env) = guardian_set_index env"
  "last_executed_sequence (touch k env) = last_executed_sequence env"
  "guardian_sets (touch k env) = guardian_sets env"
  "instance_ttl (touch k env) = instance_ttl env"
  by (simp_all add: touch_def)

lemma ttl_touch: "ttl (touch k env) j = (if j = k \<and> ttl env k = 0 then min_ttl env else ttl env j)"
  by (simp add: touch_def)

lemma extend_ttl_Inr_iff:
  "extend_ttl k present env = Inr env' \<longleftrightarrow>
     present \<and> env' = env\<lparr>ttl := (ttl env)(k := extended TTL_THRESHOLD TTL_EXTEND_TO (ttl env k))\<rparr>"
  by (auto simp: extend_ttl_def)

lemma extend_ttl_frame:
  "extend_ttl k present env = Inr env' \<Longrightarrow> same_config env env' \<and> same_values env env'"
  by (auto simp: extend_ttl_Inr_iff same_config_def same_values_def)

lemma extend_guardian_set_frame:
  "extend_guardian_set_by_index_ttl i env = Inr env' \<Longrightarrow> same_config env env' \<and> same_values env env'"
  by (auto simp: extend_guardian_set_by_index_ttl_def dest: extend_ttl_frame split: if_splits)

lemma extend_persistent_frame:
  "extend_persistent_ttl env = Inr env' \<Longrightarrow> same_config env env' \<and> same_values env env'"
  unfolding extend_persistent_ttl_def
  by (auto dest!: extend_ttl_frame intro: same_config_trans same_values_trans)

lemma extend_instance_frame:
  "same_config env (extend_instance_ttl env)" "same_values env (extend_instance_ttl env)"
  by (simp_all add: extend_instance_ttl_def same_config_def same_values_def)

lemma get_guardian_set_by_index_spec:
  assumes "get_guardian_set_by_index i env = Inr (gs, env')"
  shows "same_config env env'" and "same_values env env'" and "guardian_sets env i = Some gs"
    and "read_guardian_set env i = Some gs"
proof -
  from assms obtain e where e: "extend_guardian_set_by_index_ttl i env = Inr e"
    and gs: "read_guardian_set e i = Some gs" and env': "env' = e"
    by (auto simp: get_guardian_set_by_index_def)
  from extend_guardian_set_frame [OF e] env' show c: "same_config env env'" and v: "same_values env env'"
    by simp_all
  from gs have "guardian_sets e i = Some gs" by (simp add: read_guardian_set_def live_def split: if_splits)
  with v env' show set: "guardian_sets env i = Some gs" by (simp add: same_values_def)
  show "read_guardian_set env i = Some gs"
    using e gs set
    by (auto simp: extend_guardian_set_by_index_ttl_def read_guardian_set_def live_def split: if_splits)
qed

lemma get_guardian_set_by_index_complete:
  assumes "read_guardian_set env i = Some gs"
  shows "\<exists>env'. get_guardian_set_by_index i env = Inr (gs, env')"
  using assms
  by (auto simp: get_guardian_set_by_index_def extend_guardian_set_by_index_ttl_def
      extend_ttl_def read_guardian_set_def live_def extended_def TTL_EXTEND_TO_def split: if_splits)

section \<open>What the writers do\<close>

lemma set_last_executed_sequence_spec:
  assumes "set_last_executed_sequence q env = Inr env'"
  shows "same_config env env'" and "guardian_set_index env' = guardian_set_index env"
    and "guardian_sets env' = guardian_sets env" and "last_executed_sequence env' = Some q"
    and "TTL_THRESHOLD \<le> ttl env' LastExecutedSequence"
    and "k \<noteq> LastExecutedSequence \<Longrightarrow> ttl env' k = ttl env k"
  using assms
  by (auto simp: set_last_executed_sequence_def extend_ttl_Inr_iff put_last_sequence_def Let_def
      same_config_def touch_def extended_def TTL_THRESHOLD_def TTL_EXTEND_TO_def)

lemma set_last_executed_sequence_ok:
  "0 < min_ttl env \<Longrightarrow> \<exists>env'. set_last_executed_sequence q env = Inr env'"
  by (auto simp: set_last_executed_sequence_def put_last_sequence_def extend_ttl_def live_def
      ttl_touch Let_def)

lemma store_guardian_set_spec:
  assumes store: "store_guardian_set ks new env = Inr env'"
    and old: "read_guardian_set env (new - 1) = Some old_set"
  shows "same_config env env'"
    and "guardian_set_index env' = Some new"
    and "last_executed_sequence env' = last_executed_sequence env"
    and "guardian_sets env' = (guardian_sets env)
           (new - 1 \<mapsto> old_set\<lparr>gs_expiration_time := Some (timestamp env + GUARDIAN_SET_EXPIRY)\<rparr>,
            new \<mapsto> \<lparr>gs_keys = ks, gs_expiration_time = None\<rparr>)"
    and "uint (timestamp env + GUARDIAN_SET_EXPIRY) = uint (timestamp env) + 86400"
    and "0 < new"
proof -
  from store obtain old_index e2 where sub: "checked_sub_u new 1 = Some old_index"
    and c: "(case read_guardian_set env old_index of
          None \<Rightarrow> Inr env
        | Some old_set \<Rightarrow>
            and_then (or_trap (checked_add_u (timestamp env) GUARDIAN_SET_EXPIRY)) (\<lambda>t.
            extend_guardian_set_by_index_ttl old_index
              (put_guardian_set old_index (old_set\<lparr>gs_expiration_time := Some t\<rparr>) env))) = Inr e2"
    and rest: "and_then (extend_guardian_set_by_index_ttl new (put_guardian_set_index new
       (put_guardian_set new \<lparr>gs_keys = ks, gs_expiration_time = None\<rparr> e2))) extend_persistent_ttl = Inr env'"
    by (auto simp: store_guardian_set_def Let_def)
  then have oi: "old_index = new - 1" and "1 \<le> new" by (simp_all add: checked_sub_u_Some_iff)
  then show "0 < new" by (simp add: word_le_def word_less_def)
  from c old oi obtain t e1 where t: "checked_add_u (timestamp env) GUARDIAN_SET_EXPIRY = Some t"
    and ext: "extend_guardian_set_by_index_ttl (new - 1)
        (put_guardian_set (new - 1) (old_set\<lparr>gs_expiration_time := Some t\<rparr>) env) = Inr e2"
    by auto
  from t have teq: "t = timestamp env + GUARDIAN_SET_EXPIRY"
    and "uint t = uint (timestamp env) + uint GUARDIAN_SET_EXPIRY"
    unfolding checked_add_u_Some_iff by blast+
  from this(2) have ut: "uint t = uint (timestamp env) + 86400" by (simp add: GUARDIAN_SET_EXPIRY_def)
  from ut show "uint (timestamp env + GUARDIAN_SET_EXPIRY) = uint (timestamp env) + 86400"
    unfolding teq .
  from extend_guardian_set_frame [OF ext]
  have e2: "same_config env e2" "guardian_set_index e2 = guardian_set_index env"
      "last_executed_sequence e2 = last_executed_sequence env"
      "guardian_sets e2 = (guardian_sets env)(new - 1 \<mapsto> old_set\<lparr>gs_expiration_time := Some t\<rparr>)"
    by (simp_all add: put_guardian_set_def same_config_def same_values_def)
  from rest obtain e3 where x3: "extend_guardian_set_by_index_ttl new (put_guardian_set_index new
       (put_guardian_set new \<lparr>gs_keys = ks, gs_expiration_time = None\<rparr> e2)) = Inr e3"
    and x4: "extend_persistent_ttl e3 = Inr env'"
    by auto
  from extend_guardian_set_frame [OF x3] extend_persistent_frame [OF x4]
  show "same_config env env'" "guardian_set_index env' = Some new"
    "last_executed_sequence env' = last_executed_sequence env"
    "guardian_sets env' = (guardian_sets env)
           (new - 1 \<mapsto> old_set\<lparr>gs_expiration_time := Some (timestamp env + GUARDIAN_SET_EXPIRY)\<rparr>,
            new \<mapsto> \<lparr>gs_keys = ks, gs_expiration_time = None\<rparr>)"
    using e2 by (simp_all add: put_guardian_set_def put_guardian_set_index_def same_config_def same_values_def teq)
qed

lemma store_guardian_set_new:
  assumes "store_guardian_set ks new env = Inr env'"
  shows "guardian_sets env' new = Some \<lparr>gs_keys = ks, gs_expiration_time = None\<rparr>"
proof -
  from assms obtain e2 e3 where x3: "extend_guardian_set_by_index_ttl new (put_guardian_set_index new
       (put_guardian_set new \<lparr>gs_keys = ks, gs_expiration_time = None\<rparr> e2)) = Inr e3"
    and x4: "extend_persistent_ttl e3 = Inr env'"
    by (auto simp: store_guardian_set_def Let_def)
  from extend_guardian_set_frame [OF x3] extend_persistent_frame [OF x4] show ?thesis
    by (simp add: put_guardian_set_def put_guardian_set_index_def same_values_def)
qed

text \<open>
  Storing a set succeeds whenever the entries it extends can be read (the index and the sequence
  mark were written by the constructor), the index is not zero and the clock is not at its end.
\<close>

lemma extend_guardian_set_total: "\<exists>e. extend_guardian_set_by_index_ttl i env = Inr e"
  by (simp add: extend_guardian_set_by_index_ttl_def extend_ttl_def)

lemma extend_guardian_set_ttl:
  "extend_guardian_set_by_index_ttl i env = Inr e \<Longrightarrow> k \<noteq> GuardianSetByIndex i \<Longrightarrow> ttl e k = ttl env k"
  by (auto simp: extend_guardian_set_by_index_ttl_def extend_ttl_def split: if_splits)

lemma extend_persistent_total:
  assumes "guardian_set_index env \<noteq> None" "0 < ttl env GuardianSetIndex"
    "last_executed_sequence env \<noteq> None" "0 < ttl env LastExecutedSequence"
  shows "\<exists>e. extend_persistent_ttl env = Inr e"
  using assms by (simp add: extend_persistent_ttl_def extend_ttl_def live_def)

lemma store_guardian_set_total:
  assumes "1 \<le> new" and "uint (timestamp env) + 86400 < 2 ^ 64"
    and "0 < ttl env GuardianSetIndex" and "last_executed_sequence env \<noteq> None" "0 < ttl env LastExecutedSequence"
  shows "\<exists>env'. store_guardian_set ks new env = Inr env'"
proof -
  let ?set = "\<lparr>gs_keys = ks, gs_expiration_time = None\<rparr>"
  have sub: "checked_sub_u new 1 = Some (new - 1)"
    using assms(1) by (rule checked_sub_u_ok)
  have add: "checked_add_u (timestamp env) GUARDIAN_SET_EXPIRY = Some (timestamp env + GUARDIAN_SET_EXPIRY)"
    using assms(2) by (intro checked_add_u_ok) (simp add: GUARDIAN_SET_EXPIRY_def)
  have keep: "\<exists>e. extend_guardian_set_by_index_ttl i (put_guardian_set i g env) = Inr e \<and>
      (\<forall>k. k \<noteq> GuardianSetByIndex i \<longrightarrow> ttl e k = ttl env k) \<and>
      last_executed_sequence e = last_executed_sequence env" for i g
    using extend_guardian_set_total [of i "put_guardian_set i g env"]
      extend_guardian_set_ttl [of i "put_guardian_set i g env"] extend_guardian_set_frame [of i "put_guardian_set i g env"]
    by (fastforce simp: put_guardian_set_def ttl_touch same_values_def)
  obtain e2 where e2: "(case read_guardian_set env (new - 1) of
          None \<Rightarrow> Inr env
        | Some old_set \<Rightarrow>
            and_then (or_trap (checked_add_u (timestamp env) GUARDIAN_SET_EXPIRY)) (\<lambda>t.
            extend_guardian_set_by_index_ttl (new - 1)
              (put_guardian_set (new - 1) (old_set\<lparr>gs_expiration_time := Some t\<rparr>) env))) = Inr e2"
    "\<forall>k. k \<noteq> GuardianSetByIndex (new - 1) \<longrightarrow> ttl e2 k = ttl env k"
    "last_executed_sequence e2 = last_executed_sequence env"
    by (cases "read_guardian_set env (new - 1)")
      (simp, use keep [of "new - 1"] in \<open>simp add: add or_trap_def, blast\<close>)
  let ?e = "put_guardian_set_index new (put_guardian_set new ?set e2)"
  obtain e3 where e3: "extend_guardian_set_by_index_ttl new ?e = Inr e3"
    using extend_guardian_set_total by blast
  have "guardian_set_index e3 \<noteq> None" "last_executed_sequence e3 \<noteq> None"
    using extend_guardian_set_frame [OF e3] e2(3) assms(4)
    by (simp_all add: same_values_def put_guardian_set_index_def put_guardian_set_def)
  moreover have "0 < ttl e3 GuardianSetIndex" "0 < ttl e3 LastExecutedSequence"
    using extend_guardian_set_ttl [OF e3] e2(2) assms(3,5)
    by (simp_all add: put_guardian_set_index_def put_guardian_set_def ttl_touch)
  ultimately obtain e4 where "extend_persistent_ttl e3 = Inr e4"
    using extend_persistent_total by blast
  with e2(1) e3 sub show ?thesis by (simp add: store_guardian_set_def Let_def or_trap_def)
qed

section \<open>Quorum\<close>

lemma quorum_arith: "((n * 10) div 3 * 2) div 10 + 1 = 2 * n div 3 + (1 :: int)"
proof -
  define k r where "k = n div 3" and "r = n mod 3"
  then have n: "n = r + 3 * k" and "0 \<le> r" "r < 3" by simp_all
  have a: "(n * 10) div 3 = 10 * k + (r * 10) div 3" and c: "2 * n div 3 = 2 * k + 2 * r div 3"
    unfolding n by (simp_all add: algebra_simps)
  have "((n * 10) div 3 * 2) div 10 = 2 * k + ((r * 10) div 3 * 2) div 10"
    unfolding a by (simp add: algebra_simps)
  moreover from \<open>0 \<le> r\<close> \<open>r < 3\<close> have "r = 0 \<or> r = 1 \<or> r = 2" by linarith
  ultimately show ?thesis using c by auto
qed

lemma quorum_Inr:
  assumes "quorum n = Inr q"
  shows "uint q = 2 * uint n div 3 + 1"
  using assms
  by (auto simp: quorum_def checked_mul_u_Some_iff checked_add_u_Some_iff uint_div quorum_arith)

lemma quorum_total:
  assumes "uint n * 10 < 2 ^ 32"
  shows "\<exists>q. quorum n = Inr q"
proof -
  have 1: "checked_mul_u n 10 = Some (n * 10)" and u1: "uint (n * 10) = uint n * 10"
    using assms checked_mul_u_ok [of n 10] by (simp_all add: checked_mul_u_Some_iff)
  have 2: "checked_mul_u ((n * 10) div 3) 2 = Some ((n * 10) div 3 * 2)"
    and u2: "uint ((n * 10) div 3 * 2) = uint ((n * 10) div 3) * 2"
    using assms u1 checked_mul_u_ok [of "(n * 10) div 3" 2]
    by (simp_all add: checked_mul_u_Some_iff uint_div)
  have "uint ((n * 10) div 3 * 2 div 10) + uint (1 :: u32) < 2 ^ 32"
    using assms by (simp add: uint_div u1 u2)
  then have "checked_add_u ((n * 10) div 3 * 2 div 10) 1 = Some ((n * 10) div 3 * 2 div 10 + 1)"
    by (intro checked_add_u_ok) simp
  with 1 2 show ?thesis by (simp add: quorum_def)
qed

end
