(* ===== verification/Executor_Vaa.thy ===== *)
theory Executor_Vaa
  imports Executor_Guardian
begin

text \<open>
  Wormhole VAAs in the executor contract
  (\<^verbatim>\<open>contracts/stellar/contracts/wormhole-executor-stellar/src/bytes.rs\<close> and \<^verbatim>\<open>vaa.rs\<close>): the
  big-endian readers, the parser and the verification of guardian signatures.  The wire format is
  also given as an encoder, and the parser is proved to accept exactly the encodings.
\<close>

section \<open>Readers (bytes.rs)\<close>

definition or_truncated :: "'a option \<Rightarrow> exec_fault + 'a" where
  "or_truncated v = ok_or (Fail TruncatedData) v"

definition get_byte :: "bytes \<Rightarrow> nat \<Rightarrow> exec_fault + u8" where
  "get_byte data index = or_truncated (bytes_get data index)"

definition read_be_u16 :: "bytes \<Rightarrow> nat \<Rightarrow> exec_fault + u16" where
  "read_be_u16 data offset =
     and_then (get_byte data offset) (\<lambda>b0.
     and_then (get_byte data (offset + 1)) (\<lambda>b1.
     Inr (push_bit 8 (ucast b0) OR ucast b1)))"

definition read_be_u32 :: "bytes \<Rightarrow> nat \<Rightarrow> exec_fault + u32" where
  "read_be_u32 data offset =
     and_then (get_byte data offset) (\<lambda>b0.
     and_then (get_byte data (offset + 1)) (\<lambda>b1.
     and_then (get_byte data (offset + 2)) (\<lambda>b2.
     and_then (get_byte data (offset + 3)) (\<lambda>b3.
     Inr (push_bit 24 (ucast b0) OR push_bit 16 (ucast b1) OR push_bit 8 (ucast b2) OR ucast b3)))))"

definition read_be_u64 :: "bytes \<Rightarrow> nat \<Rightarrow> exec_fault + u64" where
  "read_be_u64 data offset =
     and_then (get_byte data offset) (\<lambda>b0.
     and_then (get_byte data (offset + 1)) (\<lambda>b1.
     and_then (get_byte data (offset + 2)) (\<lambda>b2.
     and_then (get_byte data (offset + 3)) (\<lambda>b3.
     and_then (get_byte data (offset + 4)) (\<lambda>b4.
     and_then (get_byte data (offset + 5)) (\<lambda>b5.
     and_then (get_byte data (offset + 6)) (\<lambda>b6.
     and_then (get_byte data (offset + 7)) (\<lambda>b7.
     Inr (push_bit 56 (ucast b0) OR push_bit 48 (ucast b1) OR push_bit 40 (ucast b2) OR
          push_bit 32 (ucast b3) OR push_bit 24 (ucast b4) OR push_bit 16 (ucast b5) OR
          push_bit 8 (ucast b6) OR ucast b7)))))))))"

section \<open>Data (vaa.rs)\<close>

definition SIGNATURE_ENTRY_SIZE :: nat where "SIGNATURE_ENTRY_SIZE = 66"
definition VAA_HEADER_SIZE :: nat where "VAA_HEADER_SIZE = 6"
definition MIN_BODY_SIZE :: nat where "MIN_BODY_SIZE = 51"

record guardian_signature =
  sig_guardian_index :: u32
  sig_signature :: bytes
  sig_recovery_id :: u32

record vaa_body =
  vb_timestamp :: u32
  vb_nonce :: u32
  vb_emitter_chain :: u16
  vb_emitter_address :: bytes
  vb_sequence :: u64
  vb_consistency_level :: u8
  vb_payload :: bytes

record vaa =
  vaa_guardian_set_index :: u32
  vaa_signatures :: "guardian_signature list"
  vaa_body :: vaa_body
  vaa_body_bytes :: bytes

section \<open>Parsing\<close>

text \<open>The signature loop \<^verbatim>\<open>for i in 0..num_signatures\<close>, from index \<open>i\<close> with \<open>n\<close> rounds left.\<close>

fun parse_signatures :: "bytes \<Rightarrow> nat \<Rightarrow> nat \<Rightarrow> exec_fault + guardian_signature list" where
  "parse_signatures data i 0 = Inr []"
| "parse_signatures data i (Suc n) =
     (let sig_offset = VAA_HEADER_SIZE + i * SIGNATURE_ENTRY_SIZE in
      and_then (get_byte data sig_offset) (\<lambda>guardian_index.
      and_then (get_array (Fail TruncatedData) data (sig_offset + 1) 64) (\<lambda>sig_bytes.
      and_then (get_byte data (sig_offset + 65)) (\<lambda>recovery_id.
      and_then (parse_signatures data (Suc i) n) (\<lambda>rest.
      Inr (\<lparr>sig_guardian_index = ucast guardian_index, sig_signature = sig_bytes,
            sig_recovery_id = ucast recovery_id\<rparr> # rest))))))"

definition parse_vaa :: "bytes \<Rightarrow> exec_fault + vaa" where
  "parse_vaa data =
     (let len = length data in
      if len < VAA_HEADER_SIZE then Inl (Fail TruncatedData)
      else
      and_then (get_byte data 0) (\<lambda>version.
      if version \<noteq> 1 then Inl (Fail InvalidVaaVersion)
      else
      and_then (read_be_u32 data 1) (\<lambda>guardian_set_index.
      and_then (get_byte data 5) (\<lambda>num_signatures.
      let body_offset = VAA_HEADER_SIZE + unat num_signatures * SIGNATURE_ENTRY_SIZE in
      if len < body_offset + MIN_BODY_SIZE then Inl (Fail TruncatedData)
      else
      and_then (parse_signatures data 0 (unat num_signatures)) (\<lambda>signatures.
      let body_bytes = slice data body_offset len in
      and_then (read_be_u32 data body_offset) (\<lambda>timestamp.
      and_then (read_be_u32 data (body_offset + 4)) (\<lambda>nonce.
      and_then (read_be_u16 data (body_offset + 8)) (\<lambda>emitter_chain.
      and_then (get_array (Fail TruncatedData) data (body_offset + 10) 32) (\<lambda>emitter_address.
      let seq_offset = body_offset + 42 in
      and_then (read_be_u64 data seq_offset) (\<lambda>sequence.
      and_then (get_byte data (seq_offset + 8)) (\<lambda>consistency_level.
      let payload_offset = seq_offset + 9;
          payload = (if payload_offset < len then slice data payload_offset len else [])
      in Inr \<lparr>vaa_guardian_set_index = guardian_set_index, vaa_signatures = signatures,
              vaa_body = \<lparr>vb_timestamp = timestamp, vb_nonce = nonce,
                vb_emitter_chain = emitter_chain, vb_emitter_address = emitter_address,
                vb_sequence = sequence, vb_consistency_level = consistency_level,
                vb_payload = payload\<rparr>,
              vaa_body_bytes = body_bytes\<rparr>)))))))))))"

section \<open>Verification\<close>

text \<open>
  The signature loop of \<^verbatim>\<open>verify_vaa\<close>.  \<open>recover digest signature recovery_id\<close> is the host's
  \<^verbatim>\<open>secp256k1_recover\<close>, \<open>None\<close> where the host traps; \<open>keccak256\<close> is the host's hash function.
\<close>

fun verify_signatures ::
  "(bytes \<Rightarrow> bytes) \<Rightarrow> (bytes \<Rightarrow> bytes \<Rightarrow> u32 \<Rightarrow> bytes option) \<Rightarrow> bytes list \<Rightarrow> bytes \<Rightarrow>
   u32 option \<Rightarrow> guardian_signature list \<Rightarrow> exec_fault + unit" where
  "verify_signatures keccak256 recover guardian_set digest last_index [] = Inr ()"
| "verify_signatures keccak256 recover guardian_set digest last_index (sig # sigs) =
     (let gi = sig_guardian_index sig in
      if (case last_index of Some prev \<Rightarrow> gi \<le> prev | None \<Rightarrow> False)
      then Inl (Fail DuplicateGuardianSignature)
      else if length guardian_set \<le> unat gi then Inl (Fail InvalidGuardianIndex)
      else if 3 < sig_recovery_id sig then Inl (Fail InvalidRecoveryId)
      else
      and_then (or_trap (recover digest (sig_signature sig) (sig_recovery_id sig))) (\<lambda>recovered_pubkey.
      if eth_address_from_pubkey keccak256 recovered_pubkey \<noteq> guardian_set ! unat gi
      then Inl (Fail GuardianSignatureMismatch)
      else verify_signatures keccak256 recover guardian_set digest (Some gi) sigs))"

definition verify_vaa ::
  "(bytes \<Rightarrow> bytes) \<Rightarrow> (bytes \<Rightarrow> bytes \<Rightarrow> u32 \<Rightarrow> bytes option) \<Rightarrow> vaa \<Rightarrow> executor_env \<Rightarrow>
   exec_fault + executor_env" where
  "verify_vaa keccak256 recover v env =
     and_then (get_guardian_set_by_index (vaa_guardian_set_index v) env) (\<lambda>(stored_set, env).
     if (case gs_expiration_time stored_set of
           Some expiration_time \<Rightarrow> expiration_time \<le> timestamp env | None \<Rightarrow> False)
     then Inl (Fail GuardianSetExpired)
     else
     let guardian_set = gs_keys stored_set in
     and_then (quorum (word_of_nat (length guardian_set))) (\<lambda>required.
     if length (vaa_signatures v) < unat required then Inl (Fail NoQuorum)
     else
     let body_hash = keccak256 (vaa_body_bytes v);
         digest = keccak256 body_hash
     in and_then (verify_signatures keccak256 recover guardian_set digest None (vaa_signatures v)) (\<lambda>_.
     Inr env)))"

definition parse_and_verify_vaa ::
  "(bytes \<Rightarrow> bytes) \<Rightarrow> (bytes \<Rightarrow> bytes \<Rightarrow> u32 \<Rightarrow> bytes option) \<Rightarrow> bytes \<Rightarrow> executor_env \<Rightarrow>
   exec_fault + vaa \<times> executor_env" where
  "parse_and_verify_vaa keccak256 recover data env =
     and_then (parse_vaa data) (\<lambda>v.
     and_then (verify_vaa keccak256 recover v env) (\<lambda>env.
     Inr (v, env)))"

section \<open>The readers read big-endian integers\<close>

lemma get_byte_Inr_iff [simp]: "get_byte data i = Inr b \<longleftrightarrow> i < length data \<and> b = data ! i"
  by (auto simp: get_byte_def or_truncated_def bytes_get_iff)

lemma get_byte_Inl_iff [simp]: "get_byte data i = Inl e \<longleftrightarrow> length data \<le> i \<and> e = Fail TruncatedData"
  by (auto simp: get_byte_def or_truncated_def)

lemma get_byte_eq: "get_byte data i = (if i < length data then Inr (data ! i) else Inl (Fail TruncatedData))"
  by (simp add: get_byte_def or_truncated_def bytes_get_def)

lemma read_be_u16_eq:
  "read_be_u16 data off =
     (if off + 2 \<le> length data then Inr (get_uint BE (take 2 (drop off data))) else Inl (Fail TruncatedData))"
  by (auto simp: read_be_u16_def get_byte_eq get_uint.simps numeral_2_eq_2 take_drop_Suc or.commute)

lemma read_be_u32_eq:
  "read_be_u32 data off =
     (if off + 4 \<le> length data then Inr (get_uint BE (take 4 (drop off data))) else Inl (Fail TruncatedData))"
proof (cases "off + 4 \<le> length data")
  case True
  then have "take 4 (drop off data) = [data ! off, data ! (off + 1), data ! (off + 2), data ! (off + 3)]"
    by (simp add: eval_nat_numeral take_drop_Suc)
  with True show ?thesis
    by (simp add: read_be_u32_def get_byte_eq get_uint.simps push_bit_or push_bit_push_bit ac_simps)
qed (auto simp: read_be_u32_def get_byte_eq)

lemma read_be_u64_eq:
  "read_be_u64 data off =
     (if off + 8 \<le> length data then Inr (get_uint BE (take 8 (drop off data))) else Inl (Fail TruncatedData))"
proof (cases "off + 8 \<le> length data")
  case True
  then have "take 8 (drop off data) = [data ! off, data ! (off + 1), data ! (off + 2), data ! (off + 3),
      data ! (off + 4), data ! (off + 5), data ! (off + 6), data ! (off + 7)]"
    by (simp add: eval_nat_numeral take_drop_Suc)
  with True show ?thesis
    by (simp add: read_be_u64_def get_byte_eq get_uint.simps push_bit_or push_bit_push_bit ac_simps)
qed (auto simp: read_be_u64_def get_byte_eq)

lemmas read_be_eqs = read_be_u16_eq read_be_u32_eq read_be_u64_eq

section \<open>The wire format\<close>

text \<open>
  The documented layout as an encoder, and the values it is defined on: byte-sized signature
  indices and recovery ids, 64-byte signatures, 32-byte emitter addresses, at most 255 signatures,
  and the raw body the digest is computed from being the encoded body.
\<close>

definition encode_signature :: "guardian_signature \<Rightarrow> bytes" where
  "encode_signature s = ucast (sig_guardian_index s) # sig_signature s @ [ucast (sig_recovery_id s)]"

definition valid_signature :: "guardian_signature \<Rightarrow> bool" where
  "valid_signature s \<longleftrightarrow>
     sig_guardian_index s < 256 \<and> length (sig_signature s) = 64 \<and> sig_recovery_id s < 256"

definition encode_body :: "vaa_body \<Rightarrow> bytes" where
  "encode_body b =
     put_uint BE 4 (vb_timestamp b) @ put_uint BE 4 (vb_nonce b) @ put_uint BE 2 (vb_emitter_chain b) @
     vb_emitter_address b @ put_uint BE 8 (vb_sequence b) @ [vb_consistency_level b] @ vb_payload b"

definition encode_vaa :: "vaa \<Rightarrow> bytes" where
  "encode_vaa v =
     1 # put_uint BE 4 (vaa_guardian_set_index v) @ [word_of_nat (length (vaa_signatures v))] @
     concat (map encode_signature (vaa_signatures v)) @ vaa_body_bytes v"

definition valid_vaa :: "vaa \<Rightarrow> bool" where
  "valid_vaa v \<longleftrightarrow>
     length (vaa_signatures v) < 256 \<and> list_all valid_signature (vaa_signatures v) \<and>
     length (vb_emitter_address (vaa_body v)) = 32 \<and>
     vaa_body_bytes v = encode_body (vaa_body v)"

text \<open>A sequential reader of one signature entry, canonical for its encoding.\<close>

definition read_signature :: "bytes \<Rightarrow> anyhow + guardian_signature \<times> bytes" where
  "read_signature bs =
     and_then (read_u8 bs) (\<lambda>(gi, r).
     and_then (read_exact 64 r) (\<lambda>(sig, r).
     and_then (read_u8 r) (\<lambda>(rid, r).
     Inr (\<lparr>sig_guardian_index = ucast gi, sig_signature = sig, sig_recovery_id = ucast rid\<rparr>, r))))"

interpretation sig_codec: canonical_codec encode_signature read_signature valid_signature
proof
  fix s :: guardian_signature and r :: bytes
  assume "valid_signature s"
  then show "read_signature (encode_signature s @ r) = Inr (s, r)"
    by (simp add: read_signature_def encode_signature_def valid_signature_def codec_simps ucast_u32_u8)
next
  fix bs r :: bytes and s :: guardian_signature
  assume "read_signature bs = Inr (s, r)"
  then obtain gi sig rid r1 r2 where "bs = gi # r1" "length sig = 64" "r1 = sig @ r2" "r2 = rid # r"
    and "s = \<lparr>sig_guardian_index = ucast gi, sig_signature = sig, sig_recovery_id = ucast rid\<rparr>"
    by (auto simp: read_signature_def read_u8_Inr_iff read_exact_Inr_iff)
  then show "valid_signature s \<and> bs = encode_signature s @ r"
    by (simp add: valid_signature_def encode_signature_def ucast_u8_u32 ucast_u8_less)
qed

text \<open>The indexed loop of the code reads what the sequential reader reads.\<close>

lemma read_signature_drop:
  assumes "off + 66 \<le> length data"
  shows "read_signature (drop off data) =
     Inr (\<lparr>sig_guardian_index = ucast (data ! off), sig_signature = take 64 (drop (off + 1) data),
           sig_recovery_id = ucast (data ! (off + 65))\<rparr>, drop (off + 66) data)"
proof -
  have "take 64 (drop (off + 1) data) @ drop (off + 65) data = drop (off + 1) data"
    using append_take_drop_id [of 64 "drop (off + 1) data"] by (simp add: add.commute)
  then have 1: "drop off data = data ! off # take 64 (drop (off + 1) data) @ drop (off + 65) data"
    using assms by (simp add: Cons_nth_drop_Suc)
  have 2: "drop (off + 65) data = data ! (off + 65) # drop (off + 66) data"
    using assms Cons_nth_drop_Suc [of "off + 65" data] by (simp add: add.commute)
  show ?thesis
    unfolding 1 2 using assms by (simp add: read_signature_def read_exact_append)
qed

lemma parse_signatures_eq:
  assumes "VAA_HEADER_SIZE + (i + n) * SIGNATURE_ENTRY_SIZE \<le> length data"
  shows "\<exists>sigs. parse_signatures data i n = Inr sigs \<and>
    read_many read_signature n (drop (VAA_HEADER_SIZE + i * SIGNATURE_ENTRY_SIZE) data) =
      Inr (sigs, drop (VAA_HEADER_SIZE + (i + n) * SIGNATURE_ENTRY_SIZE) data)"
  using assms
proof (induction n arbitrary: i)
  case (Suc n)
  let ?off = "VAA_HEADER_SIZE + i * SIGNATURE_ENTRY_SIZE"
  have off: "?off + 66 \<le> length data"
    using Suc.prems by (simp add: SIGNATURE_ENTRY_SIZE_def)
  have next_off: "VAA_HEADER_SIZE + Suc i * SIGNATURE_ENTRY_SIZE = ?off + 66"
    by (simp add: SIGNATURE_ENTRY_SIZE_def)
  from Suc.IH [of "Suc i"] Suc.prems obtain sigs where
    "parse_signatures data (Suc i) n = Inr sigs"
    "read_many read_signature n (drop (?off + 66) data) =
       Inr (sigs, drop (VAA_HEADER_SIZE + (i + Suc n) * SIGNATURE_ENTRY_SIZE) data)"
    unfolding next_off by auto
  then show ?case
    using off by (simp add: Let_def get_byte_eq read_signature_drop)
qed simp

lemma body_split:
  assumes "51 \<le> length b"
  shows "b = take 4 b @ take 4 (drop 4 b) @ take 2 (drop 8 b) @ take 32 (drop 10 b) @
     take 8 (drop 42 b) @ [b ! 50] @ drop 51 b"
proof -
  have step: "drop k b = take n (drop k b) @ drop (k + n) b" for k n
    using append_take_drop_id [of n "drop k b"] by (simp add: add.commute)
  have "drop 50 b = [b ! 50] @ drop 51 b"
    using assms by (simp add: Cons_nth_drop_Suc [symmetric])
  then show ?thesis
    using step [of 0 4] step [of 4 4] step [of 8 2] step [of 10 32] step [of 42 8] by simp
qed

lemma encode_body_parts:
  assumes "length (vb_emitter_address b) = 32"
  shows "51 \<le> length (encode_body b)"
    and "get_uint BE (take 4 (encode_body b)) = vb_timestamp b"
    and "get_uint BE (take 4 (drop 4 (encode_body b))) = vb_nonce b"
    and "get_uint BE (take 2 (drop 8 (encode_body b))) = vb_emitter_chain b"
    and "take 32 (drop 10 (encode_body b)) = vb_emitter_address b"
    and "get_uint BE (take 8 (drop 42 (encode_body b))) = vb_sequence b"
    and "encode_body b ! 50 = vb_consistency_level b"
    and "drop 51 (encode_body b) = vb_payload b"
  using assms by (simp_all add: encode_body_def get_put_uint nth_append)

text \<open>What the parser computes once the length checks have passed.\<close>

definition body_of :: "bytes \<Rightarrow> vaa_body" where
  "body_of b = \<lparr>vb_timestamp = get_uint BE (take 4 b), vb_nonce = get_uint BE (take 4 (drop 4 b)),
     vb_emitter_chain = get_uint BE (take 2 (drop 8 b)), vb_emitter_address = take 32 (drop 10 b),
     vb_sequence = get_uint BE (take 8 (drop 42 b)), vb_consistency_level = b ! 50,
     vb_payload = drop 51 b\<rparr>"

lemma body_of_encode: "length (vb_emitter_address b) = 32 \<Longrightarrow> body_of (encode_body b) = b"
  by (simp add: body_of_def encode_body_parts)

lemma encode_body_of: "51 \<le> length b \<Longrightarrow> encode_body (body_of b) = b"
  using body_split [of b] by (simp add: encode_body_def body_of_def put_get_uint)

lemma parse_vaa_step:
  assumes "6 \<le> length data" and "data ! 0 = 1"
    and "6 + unat (data ! 5) * 66 + 51 \<le> length data"
    and "parse_signatures data 0 (unat (data ! 5)) = Inr sigs"
  shows "parse_vaa data =
     (let b = drop (6 + unat (data ! 5) * 66) data in
      Inr \<lparr>vaa_guardian_set_index = get_uint BE (take 4 (drop 1 data)), vaa_signatures = sigs,
           vaa_body = body_of b, vaa_body_bytes = b\<rparr>)"
  using assms
  by (simp add: parse_vaa_def Let_def VAA_HEADER_SIZE_def SIGNATURE_ENTRY_SIZE_def MIN_BODY_SIZE_def
      get_byte_eq read_be_eqs body_of_def slice_def add_ac) auto

lemma concat_encode_length:
  "list_all valid_signature sigs \<Longrightarrow> length (concat (map encode_signature sigs)) = length sigs * 66"
  by (induction sigs) (simp_all add: valid_signature_def encode_signature_def)

lemma parse_vaa_encode:
  assumes "valid_vaa v"
  shows "parse_vaa (encode_vaa v) = Inr v"
proof -
  let ?d = "encode_vaa v" and ?n = "length (vaa_signatures v)"
  let ?s = "concat (map encode_signature (vaa_signatures v))"
  note va = assms [unfolded valid_vaa_def]
  have n: "unat (?d ! 5) = ?n" and d0: "?d ! 0 = 1" and idx: "get_uint BE (take 4 (drop 1 ?d)) = vaa_guardian_set_index v"
    using va by (simp_all add: encode_vaa_def nth_append unat_of_nat get_put_uint take_bit_nat_eq_self)
  have d6: "drop 6 ?d = ?s @ vaa_body_bytes v"
    by (simp add: encode_vaa_def)
  have "drop (6 + ?n * 66) ?d = drop (?n * 66) (drop 6 ?d)"
    by (simp add: add.commute)
  also have "\<dots> = vaa_body_bytes v"
    unfolding d6 using va by (simp add: concat_encode_length)
  finally have body: "drop (6 + ?n * 66) ?d = vaa_body_bytes v" .
  have len: "6 + ?n * 66 + 51 \<le> length ?d"
    using va concat_encode_length encode_body_parts(1) by (simp add: encode_vaa_def)
  obtain sigs where sigs: "parse_signatures ?d 0 ?n = Inr sigs"
    and many: "read_many read_signature ?n (drop 6 ?d) = Inr (sigs, drop (6 + ?n * 66) ?d)"
    using parse_signatures_eq [of 0 ?n ?d] len by (auto simp: VAA_HEADER_SIZE_def SIGNATURE_ENTRY_SIZE_def)
  have "sigs = vaa_signatures v"
    using many sig_codec.read_many_enc [of "vaa_signatures v" "vaa_body_bytes v"] va by (simp add: d6)
  then have "parse_vaa ?d = Inr \<lparr>vaa_guardian_set_index = vaa_guardian_set_index v,
      vaa_signatures = vaa_signatures v, vaa_body = body_of (vaa_body_bytes v), vaa_body_bytes = vaa_body_bytes v\<rparr>"
    using parse_vaa_step [of ?d, unfolded n, OF _ d0 len sigs] len
    unfolding idx body Let_def by simp
  then show ?thesis
    using va by (simp add: body_of_encode)
qed

lemma parse_vaa_guards:
  assumes "parse_vaa data = Inr v"
  shows "6 \<le> length data" and "data ! 0 = 1" and "6 + unat (data ! 5) * 66 + 51 \<le> length data"
proof -
  show "6 \<le> length data" and "data ! 0 = 1" and "6 + unat (data ! 5) * 66 + 51 \<le> length data"
    using assms
    by (auto simp: parse_vaa_def Let_def VAA_HEADER_SIZE_def SIGNATURE_ENTRY_SIZE_def MIN_BODY_SIZE_def
        get_byte_eq split: if_splits)
qed

lemma encode_parse_vaa:
  assumes "parse_vaa data = Inr v"
  shows "valid_vaa v \<and> data = encode_vaa v"
proof -
  note g = parse_vaa_guards [OF assms]
  let ?n = "unat (data ! 5)" and ?b = "drop (6 + unat (data ! 5) * 66) data"
  obtain sigs where sigs: "parse_signatures data 0 ?n = Inr sigs"
    and many: "read_many read_signature ?n (drop 6 data) = Inr (sigs, ?b)"
    using parse_signatures_eq [of 0 ?n data] g by (auto simp: VAA_HEADER_SIZE_def SIGNATURE_ENTRY_SIZE_def)
  have v: "v = \<lparr>vaa_guardian_set_index = get_uint BE (take 4 (drop 1 data)), vaa_signatures = sigs,
      vaa_body = body_of ?b, vaa_body_bytes = ?b\<rparr>"
    using assms parse_vaa_step [OF g sigs] by (simp add: Let_def)
  have len: "length sigs = ?n" and vs: "list_all valid_signature sigs"
    and d6: "drop 6 data = concat (map encode_signature sigs) @ ?b"
    using many unfolding sig_codec.read_many_iff by auto
  have b51: "51 \<le> length ?b" using g(3) by simp
  have "length (vb_emitter_address (body_of ?b)) = 32"
    using b51 by (simp add: body_of_def)
  moreover have "?n < 256" using unsigned_less [of "data ! 5"] by simp
  ultimately have valid: "valid_vaa v"
    using vs len encode_body_of [OF b51] unfolding v by (simp add: valid_vaa_def)
  have "data = data ! 0 # take 4 (drop 1 data) @ [data ! 5] @ drop 6 data"
    using g(1) append_take_drop_id [of 4 "drop 1 data"] Cons_nth_drop_Suc [of 5 data] Cons_nth_drop_Suc [of 0 data]
    by (cases data) simp_all
  then have data: "data = 1 # take 4 (drop 1 data) @ [data ! 5] @ concat (map encode_signature sigs) @ ?b"
    unfolding d6 g(2) .
  have "put_uint BE 4 (get_uint BE (take 4 (drop 1 data)) :: u32) = take 4 (drop 1 data)"
    using g(1) by (intro put_get_uint) simp_all
  moreover have "word_of_nat (length sigs) = data ! 5"
    unfolding len by simp
  ultimately have "encode_vaa v = 1 # take 4 (drop 1 data) @ [data ! 5] @ concat (map encode_signature sigs) @ ?b"
    unfolding v encode_vaa_def by simp
  with data have "data = encode_vaa v" by (rule trans [OF _ sym])
  with valid show ?thesis ..
qed

text \<open>The parser accepts exactly the encodings of well-formed VAAs, and returns what was encoded.\<close>

lemma parse_vaa_Inr_iff: "parse_vaa data = Inr v \<longleftrightarrow> valid_vaa v \<and> data = encode_vaa v"
  using parse_vaa_encode encode_parse_vaa by blast

lemma parse_vaa_no_trap: "parse_vaa data \<noteq> Inl Trap"
proof
  assume a: "parse_vaa data = Inl Trap"
  have "parse_signatures data i n \<noteq> Inl Trap" for i n
    by (induction n arbitrary: i)
      (auto simp: Let_def and_then_Inl_iff get_array_eq split: if_splits)
  with a show False
    by (auto simp: parse_vaa_def Let_def and_then_Inl_iff get_array_eq read_be_eqs split: if_splits)
qed

section \<open>What verification establishes\<close>

definition signature_ok ::
  "(bytes \<Rightarrow> bytes) \<Rightarrow> (bytes \<Rightarrow> bytes \<Rightarrow> u32 \<Rightarrow> bytes option) \<Rightarrow> bytes list \<Rightarrow> bytes \<Rightarrow>
   guardian_signature \<Rightarrow> bool" where
  "signature_ok keccak256 recover guardian_set digest s \<longleftrightarrow>
     unat (sig_guardian_index s) < length guardian_set \<and> sig_recovery_id s \<le> 3 \<and>
     map_option (eth_address_from_pubkey keccak256) (recover digest (sig_signature s) (sig_recovery_id s)) =
       Some (guardian_set ! unat (sig_guardian_index s))"

fun increasing_from :: "u32 option \<Rightarrow> u32 list \<Rightarrow> bool" where
  "increasing_from p [] = True"
| "increasing_from p (x # xs) = ((case p of Some q \<Rightarrow> q < x | None \<Rightarrow> True) \<and> increasing_from (Some x) xs)"

lemma increasing_from_Some: "increasing_from (Some p) xs \<longleftrightarrow> sorted_wrt (<) (p # xs)"
  by (induction xs arbitrary: p) (auto intro: less_trans)

lemma increasing_from_None: "increasing_from None xs \<longleftrightarrow> sorted_wrt (<) xs"
  by (cases xs) (simp_all add: increasing_from_Some)

lemma verify_signatures_Inr_iff:
  "verify_signatures kec rec gs digest prev sigs = Inr () \<longleftrightarrow>
     increasing_from prev (map sig_guardian_index sigs) \<and> list_all (signature_ok kec rec gs digest) sigs"
  by (induction sigs arbitrary: prev)
    (auto simp: signature_ok_def Let_def not_le not_less split: option.splits)

lemma verify_vaa_Inr_iff:
  "verify_vaa kec rec v env = Inr env' \<longleftrightarrow>
     (\<exists>g q. get_guardian_set_by_index (vaa_guardian_set_index v) env = Inr (g, env') \<and>
        (case gs_expiration_time g of Some t \<Rightarrow> timestamp env' < t | None \<Rightarrow> True) \<and>
        quorum (word_of_nat (length (gs_keys g))) = Inr q \<and> unat q \<le> length (vaa_signatures v) \<and>
        sorted_wrt (<) (map sig_guardian_index (vaa_signatures v)) \<and>
        list_all (signature_ok kec rec (gs_keys g) (kec (kec (vaa_body_bytes v)))) (vaa_signatures v))"
proof (cases "get_guardian_set_by_index (vaa_guardian_set_index v) env")
  case (Inl e)
  then show ?thesis by (simp add: verify_vaa_def)
next
  case (Inr r)
  obtain g e where r: "r = (g, e)" by (cases r)
  have ok: "verify_signatures kec rec (gs_keys g) d None (vaa_signatures v) = Inr u \<longleftrightarrow>
      sorted_wrt (<) (map sig_guardian_index (vaa_signatures v)) \<and>
      list_all (signature_ok kec rec (gs_keys g) d) (vaa_signatures v)" for d u
    using verify_signatures_Inr_iff [of kec rec "gs_keys g" d None "vaa_signatures v"]
    by (simp add: increasing_from_None)
  show ?thesis
    by (cases "gs_expiration_time g") (auto simp: verify_vaa_def Inr r Let_def ok not_le not_less split: if_splits)
qed

text \<open>The guardians, by position in the set, whose valid signature a VAA carries.\<close>

definition signers ::
  "(bytes \<Rightarrow> bytes) \<Rightarrow> (bytes \<Rightarrow> bytes \<Rightarrow> u32 \<Rightarrow> bytes option) \<Rightarrow> bytes list \<Rightarrow> vaa \<Rightarrow> nat set" where
  "signers keccak256 recover guardian_set v =
     (\<lambda>s. unat (sig_guardian_index s)) `
       {s \<in> set (vaa_signatures v). signature_ok keccak256 recover guardian_set
          (keccak256 (keccak256 (vaa_body_bytes v))) s}"

lemma signers_subset: "signers kec rec ks v \<subseteq> {..<length ks}"
  by (auto simp: signers_def signature_ok_def)

lemma verify_vaa_signers:
  assumes "verify_vaa kec rec v env = Inr env'"
    and g: "guardian_sets env (vaa_guardian_set_index v) = Some g" and len: "length (gs_keys g) < 2 ^ 32"
  shows "2 * length (gs_keys g) < 3 * card (signers kec rec (gs_keys g) v)"
proof -
  from assms(1) obtain g' q where g': "get_guardian_set_by_index (vaa_guardian_set_index v) env = Inr (g', env')"
    and q: "quorum (word_of_nat (length (gs_keys g'))) = Inr q" "unat q \<le> length (vaa_signatures v)"
    and sorted: "sorted_wrt (<) (map sig_guardian_index (vaa_signatures v))"
    and ok: "list_all (signature_ok kec rec (gs_keys g') (kec (kec (vaa_body_bytes v)))) (vaa_signatures v)"
    unfolding verify_vaa_Inr_iff by blast
  have [simp]: "g' = g" using get_guardian_set_by_index_spec(3) [OF g'] g by simp
  have "distinct (map sig_guardian_index (vaa_signatures v))"
    using sorted strict_sorted_iff by blast
  then have "inj_on (\<lambda>s. unat (sig_guardian_index s)) (set (vaa_signatures v))" "distinct (vaa_signatures v)"
    by (auto simp: distinct_map inj_on_def dest: unsigned_word_eqI)
  moreover have "signers kec rec (gs_keys g) v = (\<lambda>s. unat (sig_guardian_index s)) ` set (vaa_signatures v)"
    using ok by (auto simp: signers_def list_all_iff)
  ultimately have card: "card (signers kec rec (gs_keys g) v) = length (vaa_signatures v)"
    by (simp add: card_image distinct_card)
  have "uint (word_of_nat (length (gs_keys g)) :: u32) = int (length (gs_keys g))"
    using len by (simp add: unsigned_of_nat take_bit_nat_eq_self)
  then have "uint q = 2 * int (length (gs_keys g)) div 3 + 1"
    using quorum_Inr [OF q(1)] by simp
  then have "2 * int (length (gs_keys g)) < 3 * uint q" by simp
  then show ?thesis
    using q(2) card uint_nat [of q] by linarith
qed

lemma card_intersection:
  assumes "finite U" and "A \<subseteq> U" and "B \<subseteq> U" and "2 * card U < 3 * card A" and "2 * card U < 3 * card B"
  shows "card U < 3 * card (A \<inter> B)"
proof -
  have "card (A \<union> B) + card (A \<inter> B) = card A + card B"
    using assms by (metis card_Un_Int finite_subset)
  moreover have "card (A \<union> B) \<le> card U"
    using assms by (intro card_mono) auto
  ultimately show ?thesis using assms(4,5) by linarith
qed

end
