(* ===== verification/Executor_Governance.thy ===== *)
theory Executor_Governance
  imports Executor_Vaa
begin

text \<open>
  The governance messages of the executor contract
  (\<^verbatim>\<open>wormhole-executor-stellar/src/governance.rs\<close>): the parser of PTGM payloads.  Addresses are
  an abstract type of the host; \<open>from_strkey\<close> is the host's \<^verbatim>\<open>Address::from_string_bytes\<close>, \<open>None\<close>
  where the host traps on a malformed strkey.
\<close>

section \<open>Data\<close>

definition PTGM_MAGIC :: bytes where "PTGM_MAGIC = [0x50, 0x54, 0x47, 0x4d]"
definition STELLAR_EXECUTOR_MODULE :: u8 where "STELLAR_EXECUTOR_MODULE = 4"
definition ACTION_UPGRADE_EXECUTOR :: u8 where "ACTION_UPGRADE_EXECUTOR = 0"
definition ACTION_CALL :: u8 where "ACTION_CALL = 1"
definition HEADER_SIZE :: nat where "HEADER_SIZE = 8"
definition MAX_SYMBOL_LEN :: nat where "MAX_SYMBOL_LEN = 32"

record 'addr call_payload =
  call_target_contract :: 'addr
  call_function_name :: bytes
  call_args_xdr :: bytes

record 'addr upgrade_executor_payload =
  upg_target_contract :: 'addr
  upg_wasm_digest :: bytes

datatype 'addr governance_action =
    Call "'addr call_payload"
  | UpgradeExecutor "'addr upgrade_executor_payload"

section \<open>The parser\<close>

text \<open>The loop that compares the first bytes with the magic, from offset \<open>i\<close>.\<close>

fun check_magic :: "bytes \<Rightarrow> nat \<Rightarrow> bytes \<Rightarrow> exec_fault + unit" where
  "check_magic payload i [] = Inr ()"
| "check_magic payload i (expected # rest) =
     and_then (get_byte payload i) (\<lambda>b.
     if b \<noteq> expected then Inl (Fail InvalidPtgmMagic) else check_magic payload (Suc i) rest)"

text \<open>The branch of \<^verbatim>\<open>match action\<close> taken with the target parsed and \<open>offset\<close> behind it.\<close>

definition parse_action ::
  "u8 \<Rightarrow> bytes \<Rightarrow> nat \<Rightarrow> 'addr \<Rightarrow> 'addr \<Rightarrow> exec_fault + 'addr governance_action" where
  "parse_action action payload offset target_contract expected_executor_contract =
     (let len = length payload in
      if action = ACTION_CALL then
        if len < offset + 1 then Inl (Fail TruncatedData)
        else
        and_then (get_byte payload offset) (\<lambda>b.
        let name_len = unat b; offset = offset + 1 in
        if name_len = 0 \<or> MAX_SYMBOL_LEN < name_len then Inl (Fail InvalidFunctionName)
        else if len < offset + name_len then Inl (Fail TruncatedData)
        else
        let function_name = slice payload offset (offset + name_len);
            offset = offset + name_len;
            args_xdr = slice payload offset len
        in Inr (Call \<lparr>call_target_contract = target_contract, call_function_name = function_name,
                      call_args_xdr = args_xdr\<rparr>))
      else if action = ACTION_UPGRADE_EXECUTOR then
        if target_contract \<noteq> expected_executor_contract then Inl (Fail InvalidTargetContract)
        else if len < offset + 32 then Inl (Fail TruncatedData)
        else
        and_then (get_array (Fail TruncatedData) payload offset 32) (\<lambda>wasm_digest.
        Inr (UpgradeExecutor \<lparr>upg_target_contract = target_contract, upg_wasm_digest = wasm_digest\<rparr>))
      else Inl (Fail InvalidGovernanceAction))"

definition parse_ptgm ::
  "(bytes \<Rightarrow> 'addr option) \<Rightarrow> bytes \<Rightarrow> u32 \<Rightarrow> 'addr \<Rightarrow> exec_fault + 'addr governance_action" where
  "parse_ptgm from_strkey payload our_chain_id expected_executor_contract =
     (let len = length payload in
      if len < HEADER_SIZE then Inl (Fail TruncatedData)
      else
      and_then (check_magic payload 0 PTGM_MAGIC) (\<lambda>_.
      and_then (get_byte payload 4) (\<lambda>module.
      if module \<noteq> STELLAR_EXECUTOR_MODULE then Inl (Fail InvalidPtgmModule)
      else
      and_then (get_byte payload 5) (\<lambda>action.
      and_then (read_be_u16 payload 6) (\<lambda>target_chain_id.
      if (ucast target_chain_id :: u32) \<noteq> our_chain_id then Inl (Fail InvalidTargetChain)
      else
      let offset = HEADER_SIZE in
      if len < offset + 2 then Inl (Fail TruncatedData)
      else
      and_then (get_byte payload offset) (\<lambda>b.
      let executor_len = unat b; offset = offset + 1 in
      if executor_len = 0 \<or> len < offset + executor_len then Inl (Fail TruncatedData)
      else
      and_then (or_trap (from_strkey (slice payload offset (offset + executor_len)))) (\<lambda>executor_contract.
      let offset = offset + executor_len in
      if executor_contract \<noteq> expected_executor_contract then Inl (Fail InvalidExecutorAddress)
      else if len < offset + 1 then Inl (Fail TruncatedData)
      else
      and_then (get_byte payload offset) (\<lambda>b.
      let target_len = unat b; offset = offset + 1 in
      if target_len = 0 \<or> len < offset + target_len then Inl (Fail TruncatedData)
      else
      and_then (or_trap (from_strkey (slice payload offset (offset + target_len)))) (\<lambda>target_contract.
      let offset = offset + target_len in
      parse_action action payload offset target_contract expected_executor_contract)))))))))"

section \<open>The wire format\<close>

text \<open>
  The layout as an encoder of a message with routing strkeys \<open>ex\<close> and \<open>tg\<close>; bytes after the
  digest of an upgrade are ignored by the parser and are \<open>trailer\<close> here.
\<close>

definition encode_header :: "u16 \<Rightarrow> u8 \<Rightarrow> bytes \<Rightarrow> bytes \<Rightarrow> bytes" where
  "encode_header chain action ex tg =
     PTGM_MAGIC @ [STELLAR_EXECUTOR_MODULE, action] @ put_uint BE 2 chain @
     [word_of_nat (length ex)] @ ex @ [word_of_nat (length tg)] @ tg"

fun encode_action :: "'addr governance_action \<Rightarrow> bytes \<Rightarrow> bytes" where
  "encode_action (Call c) trailer =
     word_of_nat (length (call_function_name c)) # call_function_name c @ call_args_xdr c @ trailer"
| "encode_action (UpgradeExecutor u) trailer = upg_wasm_digest u @ trailer"

fun action_code :: "'addr governance_action \<Rightarrow> u8" where
  "action_code (Call c) = ACTION_CALL"
| "action_code (UpgradeExecutor u) = ACTION_UPGRADE_EXECUTOR"

fun action_target :: "'addr governance_action \<Rightarrow> 'addr" where
  "action_target (Call c) = call_target_contract c"
| "action_target (UpgradeExecutor u) = upg_target_contract u"

text \<open>
  What the parser accepts: a call with a name of 1 to 32 bytes, or an upgrade of the executor itself.  This is
  wider than the layout that the comment on \<^verbatim>\<open>parse_ptgm\<close> documents: the bytes of the name are not looked at
  (the host refuses other names when it makes a symbol of them), and bytes after the digest are ignored.
\<close>

fun accepted_action :: "'addr \<Rightarrow> 'addr governance_action \<Rightarrow> bytes \<Rightarrow> bool" where
  "accepted_action executor (Call c) trailer \<longleftrightarrow>
     1 \<le> length (call_function_name c) \<and> length (call_function_name c) \<le> 32 \<and> trailer = []"
| "accepted_action executor (UpgradeExecutor u) trailer \<longleftrightarrow>
     upg_target_contract u = executor \<and> length (upg_wasm_digest u) = 32"

text \<open>The documented layout: the name consists of the characters of a symbol, and nothing follows a digest.\<close>

definition is_symbol_char :: "u8 \<Rightarrow> bool" where
  "is_symbol_char b \<longleftrightarrow> 48 \<le> b \<and> b \<le> 57 \<or> 65 \<le> b \<and> b \<le> 90 \<or> 97 \<le> b \<and> b \<le> 122 \<or> b = 95"

fun documented_action :: "'addr \<Rightarrow> 'addr governance_action \<Rightarrow> bytes \<Rightarrow> bool" where
  "documented_action executor (Call c) trailer \<longleftrightarrow>
     accepted_action executor (Call c) trailer \<and> list_all is_symbol_char (call_function_name c)"
| "documented_action executor (UpgradeExecutor u) trailer \<longleftrightarrow>
     accepted_action executor (UpgradeExecutor u) trailer \<and> trailer = []"

lemma accepted_action_cases:
  assumes "accepted_action executor act trailer"
  obtains (documented) "documented_action executor act trailer"
  | (other_name) c where "act = Call c" "\<not> list_all is_symbol_char (call_function_name c)"
  | (trailing) u where "act = UpgradeExecutor u" "trailer \<noteq> []"
  using assms by (cases act) auto

definition valid_strkey :: "(bytes \<Rightarrow> 'addr option) \<Rightarrow> bytes \<Rightarrow> 'addr \<Rightarrow> bool" where
  "valid_strkey from_strkey s a \<longleftrightarrow> 1 \<le> length s \<and> length s < 256 \<and> from_strkey s = Some a"

lemma check_magic_Inr_iff:
  "check_magic payload i ms = Inr () \<longleftrightarrow> ms = [] \<or> (i + length ms \<le> length payload \<and> take (length ms) (drop i payload) = ms)"
proof (induction ms arbitrary: i)
  case (Cons m ms)
  then show ?case
    by (cases "i < length payload") (auto simp: get_byte_eq take_drop_Suc)
qed simp

text \<open>A length-prefixed field at an offset inside the payload.\<close>

lemma prefixed_field:
  assumes "off + 1 + unat (p ! off) \<le> length p"
  shows "drop off p = word_of_nat (length (slice p (off + 1) (off + 1 + unat (p ! off)))) #
     slice p (off + 1) (off + 1 + unat (p ! off)) @ drop (off + 1 + unat (p ! off)) p"
proof -
  have "drop off p = p ! off # drop (off + 1) p"
    using assms Cons_nth_drop_Suc [of off p] by simp
  moreover have "drop (off + 1) p = take (unat (p ! off)) (drop (off + 1) p) @ drop (off + 1 + unat (p ! off)) p"
    using append_take_drop_id [of "unat (p ! off)" "drop (off + 1) p"] by (simp add: ac_simps)
  ultimately show ?thesis
    using assms by (simp add: slice_def)
qed

lemma parse_action_Inr:
  assumes "parse_action action p off tg me = Inr act"
  shows "action = action_code act \<and> tg = action_target act \<and>
    (\<exists>tr. accepted_action me act tr \<and> drop off p = encode_action act tr)"
proof (cases "action = ACTION_CALL")
  case True
  with assms have len: "off + 1 + unat (p ! off) \<le> length p" "1 \<le> unat (p ! off)" "unat (p ! off) \<le> 32"
    and act: "act = Call \<lparr>call_target_contract = tg,
        call_function_name = slice p (off + 1) (off + 1 + unat (p ! off)),
        call_args_xdr = drop (off + 1 + unat (p ! off)) p\<rparr>"
    by (auto simp: parse_action_def Let_def get_byte_eq MAX_SYMBOL_LEN_def slice_full split: if_splits)
  show ?thesis
    using len prefixed_field [OF len(1)] True by (auto simp: act)
next
  case False
  with assms have "action = ACTION_UPGRADE_EXECUTOR" "tg = me" "off + 32 \<le> length p"
    and act: "act = UpgradeExecutor \<lparr>upg_target_contract = tg, upg_wasm_digest = take 32 (drop off p)\<rparr>"
    by (auto simp: parse_action_def Let_def split: if_splits)
  then show ?thesis
    by (auto simp: act intro!: exI [of _ "drop 32 (drop off p)"] simp del: drop_drop)
qed

lemma parse_action_encode:
  assumes "accepted_action me act tr" and "off \<le> length p" and d: "drop off p = encode_action act tr"
  shows "parse_action (action_code act) p off (action_target act) me = Inr act"
proof (cases act)
  case (Call c)
  let ?n = "length (call_function_name c)"
  from Call assms have n: "1 \<le> ?n" "?n \<le> 32" and d': "drop off p = word_of_nat ?n # call_function_name c @ call_args_xdr c"
    by auto
  have u: "unat (word_of_nat ?n :: u8) = ?n" using n by (simp add: unat_of_nat)
  have nth: "p ! off = word_of_nat ?n"
    using d' assms(2) by (metis nth_append_length append_take_drop_id length_take min.absorb2)
  have len: "length p = off + 1 + ?n + length (call_args_xdr c)"
    using arg_cong [OF d', of length] assms(2) by simp
  have "drop (Suc off) p = call_function_name c @ call_args_xdr c"
    using d' by (metis drop_Suc drop_tl list.sel(3) tl_drop)
  then have name: "take ?n (drop (Suc off) p) = call_function_name c"
    and args: "drop (Suc (off + ?n)) p = call_args_xdr c"
    by (simp_all add: add.commute [of off] flip: add_Suc_right drop_drop)
  show ?thesis
    using n len name args by (auto simp: Call parse_action_def Let_def get_byte_eq nth u MAX_SYMBOL_LEN_def slice_def)
next
  case (UpgradeExecutor u)
  have "length p = off + length (encode_action act tr)"
    using arg_cong [OF d, of length] assms(2) by simp
  with assms show ?thesis
    by (auto simp: UpgradeExecutor parse_action_def Let_def ACTION_CALL_def ACTION_UPGRADE_EXECUTOR_def)
qed

text \<open>The header, read up to the action.\<close>

lemma ptgm_magic: "check_magic p 0 PTGM_MAGIC = Inr () \<longleftrightarrow> 4 \<le> length p \<and> take 4 p = PTGM_MAGIC"
  using check_magic_Inr_iff [of p 0 PTGM_MAGIC] 
  by (simp add: PTGM_MAGIC_def eval_nat_numeral del: check_magic.simps)

lemma parse_ptgm_Inr:
  assumes "parse_ptgm fs p chain me = Inr act"
  shows "\<exists>c ex tg tr. ucast (c :: u16) = chain \<and> valid_strkey fs ex me \<and>
    valid_strkey fs tg (action_target act) \<and> accepted_action me act tr \<and>
    p = encode_header c (action_code act) ex tg @ encode_action act tr"
proof -
  define n where "n = unat (p ! 8)"
  define m where "m = unat (p ! (9 + n))"
  define ex where "ex = slice p 9 (9 + n)"
  define tg where "tg = slice p (9 + n + 1) (9 + n + 1 + m)"
  from assms obtain ta where len: "8 \<le> length p" "n \<noteq> 0" "9 + n + 1 \<le> length p" "m \<noteq> 0" "9 + n + 1 + m \<le> length p"
    and magic: "take 4 p = PTGM_MAGIC" and module: "p ! 4 = STELLAR_EXECUTOR_MODULE"
    and chain: "ucast (get_uint BE (take 2 (drop 6 p)) :: u16) = chain"
    and ex: "fs ex = Some me" and tg: "fs tg = Some ta"
    and act: "parse_action (p ! 5) p (9 + n + 1 + m) ta me = Inr act"
    by (auto simp: parse_ptgm_def Let_def ptgm_magic get_byte_eq read_be_u16_eq HEADER_SIZE_def n_def m_def
        ex_def tg_def split: if_splits)
  obtain tr where code: "p ! 5 = action_code act" "ta = action_target act" and tr: "accepted_action me act tr"
      "drop (9 + n + 1 + m) p = encode_action act tr"
    using parse_action_Inr [OF act] by blast
  have dex: "drop 8 p = word_of_nat (length ex) # ex @ drop (9 + n) p"
    using prefixed_field [of 8 p] len by (simp add: ex_def n_def)
  have dtg: "drop (9 + n) p = word_of_nat (length tg) # tg @ drop (9 + n + 1 + m) p"
    using prefixed_field [of "9 + n" p] len by (simp add: tg_def m_def)
  have "p = take 4 p @ [p ! 4, p ! 5] @ take 2 (drop 6 p) @ drop 8 p"
    using len append_take_drop_id [of 4 p] append_take_drop_id [of 2 "drop 6 p"]
      Cons_nth_drop_Suc [of 4 p] Cons_nth_drop_Suc [of 5 p] by simp
  moreover have "put_uint BE 2 (get_uint BE (take 2 (drop 6 p)) :: u16) = take 2 (drop 6 p)"
    using len by (intro put_get_uint) simp_all
  ultimately have "p = encode_header (get_uint BE (take 2 (drop 6 p))) (action_code act) ex tg @ encode_action act tr"
    unfolding encode_header_def using magic module code(1) dex dtg tr(2) by simp
  moreover have "valid_strkey fs ex me" "valid_strkey fs tg (action_target act)"
    using ex tg code(2) len unsigned_less [of "p ! 8"] unsigned_less [of "p ! (9 + n)"]
    by (simp_all add: valid_strkey_def ex_def tg_def n_def m_def)
  ultimately show ?thesis
    using chain tr(1) by blast
qed

lemma parse_ptgm_encode:
  assumes ex: "valid_strkey fs ex me" and tg: "valid_strkey fs tg (action_target act)"
    and act: "accepted_action me act tr"
  shows "parse_ptgm fs (encode_header c (action_code act) ex tg @ encode_action act tr) (ucast c) me = Inr act"
proof -
  let ?p = "encode_header c (action_code act) ex tg @ encode_action act tr"
  let ?off = "9 + length ex + 1 + length tg"
  have len: "length ?p = ?off + length (encode_action act tr)"
    by (simp add: encode_header_def PTGM_MAGIC_def)
  have d9: "drop 9 ?p = ex @ word_of_nat (length tg) # tg @ encode_action act tr"
    by (simp add: encode_header_def PTGM_MAGIC_def)
  have "drop (9 + length ex + 1) ?p = drop (Suc (length ex)) (drop 9 ?p)"
    by (simp only: drop_drop) (simp add: ac_simps)
  then have d10: "drop (9 + length ex + 1) ?p = tg @ encode_action act tr"
    unfolding d9 by simp
  have "drop ?off ?p = drop (length tg) (drop (9 + length ex + 1) ?p)"
    by (simp only: drop_drop) (simp add: ac_simps)
  then have doff: "drop ?off ?p = encode_action act tr"
    unfolding d10 by simp
  have h: "take 4 ?p = PTGM_MAGIC" "?p ! 4 = STELLAR_EXECUTOR_MODULE" "?p ! 5 = action_code act"
     "get_uint BE (take 2 (drop 6 ?p)) = c" "?p ! 8 = word_of_nat (length ex)"
     "?p ! (9 + length ex) = word_of_nat (length tg)"
    by (simp_all add: encode_header_def PTGM_MAGIC_def nth_append get_put_uint)
  have s: "slice ?p 9 (9 + length ex) = ex" "slice ?p (9 + length ex + 1) ?off = tg"
    unfolding slice_def d9 d10 by simp_all
  have u: "unat (word_of_nat (length ex) :: u8) = length ex" "unat (word_of_nat (length tg) :: u8) = length tg"
    and ne: "ex \<noteq> []" "tg \<noteq> []" and fs: "fs ex = Some me" "fs tg = Some (action_target act)"
    using ex tg by (auto simp: valid_strkey_def unat_of_nat take_bit_nat_eq_self)
  have "parse_action (action_code act) ?p ?off (action_target act) me = Inr act"
    using parse_action_encode [OF act _ doff] len by simp
  then show ?thesis
    using len h s u ne fs
    by (simp add: parse_ptgm_def Let_def ptgm_magic get_byte_eq read_be_u16_eq HEADER_SIZE_def del: append_assoc)
qed

lemma parse_ptgm_Inr_iff:
  "parse_ptgm fs p chain me = Inr act \<longleftrightarrow>
     (\<exists>c ex tg tr. ucast (c :: u16) = chain \<and> valid_strkey fs ex me \<and>
        valid_strkey fs tg (action_target act) \<and> accepted_action me act tr \<and>
        p = encode_header c (action_code act) ex tg @ encode_action act tr)"
proof
  show "\<exists>c ex tg tr. ucast (c :: u16) = chain \<and> valid_strkey fs ex me \<and>
        valid_strkey fs tg (action_target act) \<and> accepted_action me act tr \<and>
        p = encode_header c (action_code act) ex tg @ encode_action act tr"
    if "parse_ptgm fs p chain me = Inr act"
    using that by (rule parse_ptgm_Inr)
next
  assume "\<exists>c ex tg tr. ucast (c :: u16) = chain \<and> valid_strkey fs ex me \<and>
        valid_strkey fs tg (action_target act) \<and> accepted_action me act tr \<and>
        p = encode_header c (action_code act) ex tg @ encode_action act tr"
  then show "parse_ptgm fs p chain me = Inr act"
    by (elim exE conjE) (use parse_ptgm_encode [of fs _ me _ act] in blast)
qed

end
