(* ===== verification/Executor_Contract.thy ===== *)
theory Executor_Contract
  imports Executor_Governance
begin

text \<open>
  The entry points of the executor contract
  (\<^verbatim>\<open>wormhole-executor-stellar/src/lib.rs\<close>): the constructor, guardian set upgrades, governance
  actions, and the histories of a deployed contract as a step relation.
\<close>

section \<open>The host\<close>

text \<open>
  What the contract takes from the host: the hash, the signature recovery (\<open>None\<close> is a trap), the
  strkey parser (\<open>None\<close> is a trap), the conversion of a string to a \<^verbatim>\<open>Symbol\<close>, the XDR decoder of
  an argument vector, whether a cross-contract call and whether a code update succeed (otherwise
  the invocation traps), and the contract's own address.
\<close>

record ('addr, 'sym, 'arg) host =
  h_keccak256 :: "bytes \<Rightarrow> bytes"
  h_recover :: "bytes \<Rightarrow> bytes \<Rightarrow> u32 \<Rightarrow> bytes option"
  h_from_strkey :: "bytes \<Rightarrow> 'addr option"
  h_symbol :: "bytes \<Rightarrow> 'sym option"
  h_args_from_xdr :: "bytes \<Rightarrow> 'arg list option"
  h_invoke :: "'addr \<Rightarrow> 'sym \<Rightarrow> 'arg list \<Rightarrow> bool"
  h_wasm_installed :: "bytes \<Rightarrow> bool"
  h_self :: 'addr

section \<open>Constants\<close>

definition CORE_MODULE :: bytes where
  "CORE_MODULE = replicate 28 0 @ [0x43, 0x6f, 0x72, 0x65]"

definition GUARDIAN_SET_UPGRADE_ACTION :: u8 where "GUARDIAN_SET_UPGRADE_ACTION = 2"

section \<open>Guardian set upgrades\<close>

text \<open>The loop over the guardian addresses, from index \<open>i\<close> with \<open>n\<close> rounds left.\<close>

fun parse_guardians :: "bytes \<Rightarrow> nat \<Rightarrow> nat \<Rightarrow> exec_fault + bytes list" where
  "parse_guardians payload i 0 = Inr []"
| "parse_guardians payload i (Suc n) =
     (let offset = 40 + i * 20 in
      and_then (get_array (Fail TruncatedData) payload offset 20) (\<lambda>addr.
      and_then (parse_guardians payload (Suc i) n) (\<lambda>rest. Inr (addr # rest))))"

text \<open>The part of \<^verbatim>\<open>update_guardian_set\<close> that runs on the verified payload.\<close>

definition apply_upgrade :: "bytes \<Rightarrow> executor_env \<Rightarrow> exec_fault + executor_env" where
  "apply_upgrade payload env =
     (let payload_len = length payload in
      if payload_len < 40 then Inl (Fail TruncatedData)
      else
      and_then (get_array (Fail TruncatedData) payload 0 32) (\<lambda>module_bytes.
      if module_bytes \<noteq> CORE_MODULE then Inl (Fail InvalidGovernanceModule)
      else
      and_then (get_byte payload 32) (\<lambda>action.
      if action \<noteq> GUARDIAN_SET_UPGRADE_ACTION then Inl (Fail InvalidGovernanceAction)
      else
      and_then (read_be_u16 payload 33) (\<lambda>target_chain.
      and_then (get_chain_id env) (\<lambda>our_chain.
      if target_chain \<noteq> 0 \<and> (ucast target_chain :: u32) \<noteq> our_chain then Inl (Fail InvalidTargetChain)
      else
      and_then (read_be_u32 payload 35) (\<lambda>new_index.
      and_then (get_guardian_set_index env) (\<lambda>current_index.
      and_then (or_trap (checked_add_u current_index 1)) (\<lambda>next_index.
      if new_index \<noteq> next_index then Inl (Fail InvalidGuardianSetUpgrade)
      else
      and_then (get_byte payload 39) (\<lambda>b.
      let num_guardians = unat b in
      if num_guardians = 0 then Inl (Fail EmptyGuardianSet)
      else if payload_len < 40 + num_guardians * 20 then Inl (Fail TruncatedData)
      else
      and_then (parse_guardians payload 0 num_guardians) (\<lambda>new_guardian_set.
      store_guardian_set new_guardian_set new_index env))))))))))"

definition update_guardian_set ::
  "('addr, 'sym, 'arg) host \<Rightarrow> bytes \<Rightarrow> executor_env \<Rightarrow> exec_fault + executor_env" where
  "update_guardian_set host vaa_bytes env =
     and_then (require_initialized env) (\<lambda>_.
     let env = extend_instance_ttl env in
     and_then (parse_vaa vaa_bytes) (\<lambda>v.
     and_then (verify_vaa (h_keccak256 host) (h_recover host) v env) (\<lambda>env.
     and_then (get_guardian_set_index env) (\<lambda>current.
     if vaa_guardian_set_index v \<noteq> current then Inl (Fail InvalidGuardianSetIndex)
     else
     and_then (get_gs_upgrade_emitter_chain env) (\<lambda>upgrade_chain.
     if (ucast (vb_emitter_chain (vaa_body v)) :: u32) \<noteq> upgrade_chain then Inl (Fail InvalidEmitterChain)
     else
     and_then (get_gs_upgrade_emitter_address env) (\<lambda>upgrade_address.
     if vb_emitter_address (vaa_body v) \<noteq> upgrade_address then Inl (Fail InvalidEmitterAddress)
     else apply_upgrade (vb_payload (vaa_body v)) env))))))"

section \<open>Governance actions\<close>

text \<open>\<^verbatim>\<open>core::str::from_utf8\<close>: the well-formed UTF-8 byte sequences.\<close>

definition cont :: "u8 \<Rightarrow> bool" where "cont b \<longleftrightarrow> 0x80 \<le> b \<and> b \<le> 0xbf"

fun valid_utf8 :: "bytes \<Rightarrow> bool" where
  "valid_utf8 [] = True"
| "valid_utf8 (a # rest) =
     (if a \<le> 0x7f then valid_utf8 rest
      else case rest of [] \<Rightarrow> False
      | b # rest2 \<Rightarrow>
        if 0xc2 \<le> a \<and> a \<le> 0xdf then cont b \<and> valid_utf8 rest2
        else case rest2 of [] \<Rightarrow> False
        | c # rest3 \<Rightarrow>
          if 0xe0 \<le> a \<and> a \<le> 0xef
          then cont b \<and> (a = 0xe0 \<longrightarrow> 0xa0 \<le> b) \<and> (a = 0xed \<longrightarrow> b \<le> 0x9f) \<and> cont c \<and> valid_utf8 rest3
          else case rest3 of [] \<Rightarrow> False
          | d # rest4 \<Rightarrow>
            0xf0 \<le> a \<and> a \<le> 0xf4 \<and> cont b \<and> (a = 0xf0 \<longrightarrow> 0x90 \<le> b) \<and> (a = 0xf4 \<longrightarrow> b \<le> 0x8f) \<and>
            cont c \<and> cont d \<and> valid_utf8 rest4)"

definition decode_function_symbol ::
  "('addr, 'sym, 'arg) host \<Rightarrow> bytes \<Rightarrow> exec_fault + 'sym" where
  "decode_function_symbol host name =
     (let len = length name in
      if len = 0 \<or> MAX_SYMBOL_LEN < len then Inl (Fail InvalidFunctionName)
      else
      and_then (get_array (Fail TruncatedData) name 0 len) (\<lambda>buf.
      if \<not> valid_utf8 buf then Inl (Fail InvalidFunctionName)
      else ok_or (Fail InvalidFunctionName) (h_symbol host buf)))"

text \<open>The one outward effect of an executed action.\<close>

datatype ('addr, 'sym, 'arg) effect =
    InvokeContract 'addr 'sym "'arg list"
  | UpdateCurrentContractWasm bytes

fun dispatch ::
  "('addr, 'sym, 'arg) host \<Rightarrow> 'addr governance_action \<Rightarrow> exec_fault + ('addr, 'sym, 'arg) effect" where
  "dispatch host (Call payload) =
     and_then (decode_function_symbol host (call_function_name payload)) (\<lambda>func.
     and_then (ok_or (Fail InvalidArgsEncoding) (h_args_from_xdr host (call_args_xdr payload))) (\<lambda>args.
     if h_invoke host (call_target_contract payload) func args
     then Inr (InvokeContract (call_target_contract payload) func args) else Inl Trap))"
| "dispatch host (UpgradeExecutor payload) =
     (if h_wasm_installed host (upg_wasm_digest payload)
      then Inr (UpdateCurrentContractWasm (upg_wasm_digest payload)) else Inl Trap)"

definition execute_governance_action ::
  "('addr, 'sym, 'arg) host \<Rightarrow> bytes \<Rightarrow> executor_env \<Rightarrow>
   exec_fault + executor_env \<times> ('addr, 'sym, 'arg) effect" where
  "execute_governance_action host vaa_bytes env =
     and_then (require_initialized env) (\<lambda>_.
     let env = extend_instance_ttl env in
     and_then (parse_vaa vaa_bytes) (\<lambda>v.
     and_then (verify_vaa (h_keccak256 host) (h_recover host) v env) (\<lambda>env.
     and_then (get_owner_emitter_chain env) (\<lambda>owner_chain.
     if (ucast (vb_emitter_chain (vaa_body v)) :: u32) \<noteq> owner_chain then Inl (Fail InvalidEmitterChain)
     else
     and_then (get_owner_emitter_address env) (\<lambda>owner_address.
     if vb_emitter_address (vaa_body v) \<noteq> owner_address then Inl (Fail InvalidEmitterAddress)
     else
     and_then (get_last_executed_sequence env) (\<lambda>last_sequence.
     if vb_sequence (vaa_body v) \<le> last_sequence then Inl (Fail StaleSequence)
     else
     and_then (set_last_executed_sequence (vb_sequence (vaa_body v)) env) (\<lambda>env.
     and_then (get_chain_id env) (\<lambda>our_chain.
     and_then (parse_ptgm (h_from_strkey host) (vb_payload (vaa_body v)) our_chain (h_self host)) (\<lambda>action.
     and_then (dispatch host action) (\<lambda>eff.
     Inr (env, eff)))))))))))"

section \<open>The payload of a guardian set upgrade\<close>

definition encode_upgrade :: "u16 \<Rightarrow> u32 \<Rightarrow> bytes list \<Rightarrow> bytes \<Rightarrow> bytes" where
  "encode_upgrade chain new_index ks trailer =
     CORE_MODULE @ [GUARDIAN_SET_UPGRADE_ACTION] @ put_uint BE 2 chain @ put_uint BE 4 new_index @
     [word_of_nat (length ks)] @ concat ks @ trailer"

lemma parse_guardians_Inr:
  assumes "40 + (i + n) * 20 \<le> length p"
  shows "\<exists>ks. parse_guardians p i n = Inr ks \<and> length ks = n \<and> list_all (\<lambda>k. length k = 20) ks \<and>
    drop (40 + i * 20) p = concat ks @ drop (40 + (i + n) * 20) p"
  using assms
proof (induction n arbitrary: i)
  case (Suc n)
  from Suc.IH [of "Suc i"] Suc.prems obtain ks where ks: "parse_guardians p (Suc i) n = Inr ks"
    "length ks = n" "list_all (\<lambda>k. length k = 20) ks"
    "drop (60 + i * 20) p = concat ks @ drop (40 + (i + Suc n) * 20) p"
    by auto
  let ?k = "take 20 (drop (40 + i * 20) p)"
  have "drop (40 + i * 20) p = ?k @ drop (60 + i * 20) p"
    using append_take_drop_id [of 20 "drop (40 + i * 20) p"] by (simp add: ac_simps)
  then have "drop (40 + i * 20) p = concat (?k # ks) @ drop (40 + (i + Suc n) * 20) p"
    using ks(4) by simp
  moreover have "length ?k = 20" using Suc.prems by simp
  ultimately show ?case
    using ks Suc.prems by (intro exI [of _ "?k # ks"]) (simp add: Let_def)
qed simp

lemma upgrade_payload_split:
  assumes "40 \<le> length p" and "take 32 p = CORE_MODULE" and "p ! 32 = GUARDIAN_SET_UPGRADE_ACTION"
  shows "p = CORE_MODULE @ [GUARDIAN_SET_UPGRADE_ACTION] @ put_uint BE 2 (get_uint BE (take 2 (drop 33 p)) :: u16) @
     put_uint BE 4 (get_uint BE (take 4 (drop 35 p)) :: u32) @ [p ! 39] @ drop 40 p"
proof -
  have "p = take 32 p @ [p ! 32] @ take 2 (drop 33 p) @ take 4 (drop 35 p) @ [p ! 39] @ drop 40 p"
    using assms(1) append_take_drop_id [of 32 p] append_take_drop_id [of 2 "drop 33 p"]
      append_take_drop_id [of 4 "drop 35 p"] Cons_nth_drop_Suc [of 32 p] Cons_nth_drop_Suc [of 39 p] by simp
  with assms show ?thesis by (simp add: put_get_uint)
qed

lemma apply_upgrade_Inr:
  assumes "apply_upgrade p env = Inr env'"
  obtains cur chain ks tr where "get_guardian_set_index env = Inr cur" and "uint (cur + 1) = uint cur + 1"
    and "chain = 0 \<or> get_chain_id env = Inr (ucast (chain :: u16))"
    and "ks \<noteq> []" and "length ks < 256" and "list_all (\<lambda>k. length k = 20) ks"
    and "p = encode_upgrade chain (cur + 1) ks tr"
    and "store_guardian_set ks (cur + 1) env = Inr env'"
proof -
  let ?n = "unat (p ! 39)"
  from assms obtain cur our ks where len: "40 \<le> length p" "40 + ?n * 20 \<le> length p" "?n \<noteq> 0"
    and hdr: "take 32 p = CORE_MODULE" "p ! 32 = GUARDIAN_SET_UPGRADE_ACTION"
    and our: "get_chain_id env = Inr our" "get_uint BE (take 2 (drop 33 p)) = (0 :: u16) \<or>
         ucast (get_uint BE (take 2 (drop 33 p)) :: u16) = our"
    and cur: "get_guardian_set_index env = Inr cur" "checked_add_u cur 1 = Some (get_uint BE (take 4 (drop 35 p)))"
    and ks: "parse_guardians p 0 ?n = Inr ks"
    and store: "store_guardian_set ks (get_uint BE (take 4 (drop 35 p))) env = Inr env'"
    by (auto simp: apply_upgrade_def Let_def get_byte_eq read_be_eqs split: if_splits)
  have new: "get_uint BE (take 4 (drop 35 p)) = cur + 1" "uint (cur + 1) = uint cur + 1"
    using cur(2) by (auto simp: checked_add_u_Some_iff)
  have k: "length ks = ?n" "list_all (\<lambda>k. length k = 20) ks" "drop 40 p = concat ks @ drop (40 + ?n * 20) p"
    using parse_guardians_Inr [of 0 ?n p] ks len by auto
  have n: "[p ! 39] = [word_of_nat (length ks)]" "length ks < 256"
    using k(1) unsigned_less [of "p ! 39"] by simp_all
  have p: "p = encode_upgrade (get_uint BE (take 2 (drop 33 p))) (cur + 1) ks (drop (40 + ?n * 20) p)"
    using upgrade_payload_split [OF len(1) hdr] unfolding encode_upgrade_def new(1) n(1) k(3) .
  have chain: "get_uint BE (take 2 (drop 33 p)) = (0 :: u16) \<or>
      get_chain_id env = Inr (ucast (get_uint BE (take 2 (drop 33 p)) :: u16))"
    using our by auto
  have "ks \<noteq> []" using k(1) len(3) by auto
  from that [OF cur(1) new(2) chain this n(2) k(2) p store [unfolded new(1)]] show ?thesis .
qed

lemma parse_guardians_concat:
  assumes "list_all (\<lambda>k. length k = 20) ks" and "drop 40 p = concat ks @ tr" and "40 \<le> length p"
  shows "parse_guardians p 0 (length ks) = Inr ks"
proof -
  have lc: "length (concat ls) = length ls * 20" if "list_all (\<lambda>k. length k = 20) ls" for ls :: "bytes list"
    using that by (induction ls) simp_all
  have "length (drop 40 p) = length ks * 20 + length tr"
    unfolding assms(2) using lc [OF assms(1)] by simp
  then have "length p = 40 + length ks * 20 + length tr"
    using assms(3) by simp
  then obtain ls where ls: "parse_guardians p 0 (length ks) = Inr ls" "length ls = length ks"
    "list_all (\<lambda>k. length k = 20) ls" "concat ks @ tr = concat ls @ drop (40 + length ks * 20) p"
    using parse_guardians_Inr [of 0 "length ks" p] assms(2) by auto
  then have "concat ls = concat ks"
    using lc assms(1) by (metis append_eq_append_conv)
  moreover have "\<forall>(x, y) \<in> set (zip ls ks). length x = length y"
    using ls(3) assms(1) by (auto simp: list_all_iff elim!: in_set_zipE)
  ultimately show ?thesis
    using ls(1,2) concat_eq_concat_iff [of ls ks] by simp
qed

lemma apply_upgrade_encode:
  assumes "get_guardian_set_index env = Inr cur" and cur: "uint (cur + 1) = uint cur + 1"
    and chain: "get_chain_id env = Inr our" "chain = 0 \<or> our = ucast (chain :: u16)"
    and ks: "ks \<noteq> []" "length ks < 256" "list_all (\<lambda>k. length k = 20) ks"
  shows "apply_upgrade (encode_upgrade chain (cur + 1) ks tr) env = store_guardian_set ks (cur + 1) env"
proof -
  let ?p = "encode_upgrade chain (cur + 1) ks tr"
  have h: "take 32 ?p = CORE_MODULE" "?p ! 32 = GUARDIAN_SET_UPGRADE_ACTION" "get_uint BE (take 2 (drop 33 ?p)) = chain"
    "get_uint BE (take 4 (drop 35 ?p)) = cur + 1" "?p ! 39 = word_of_nat (length ks)"
    "drop 40 ?p = concat ks @ tr" "40 \<le> length ?p"
    by (simp_all add: encode_upgrade_def CORE_MODULE_def nth_append get_put_uint)
  have n: "unat (word_of_nat (length ks) :: u8) = length ks"
    using ks(2) by (simp add: unat_of_nat)
  have parse: "parse_guardians ?p 0 (length ks) = Inr ks"
    by (rule parse_guardians_concat [OF ks(3) h(6,7)])
  have "length (concat ks) = length ks * 20"
    using ks(3) by (induction ks) simp_all
  then have len: "40 + length ks * 20 \<le> length ?p"
    using arg_cong [OF h(6), of length] h(7) by simp
  have "checked_add_u cur 1 = Some (cur + 1)"
    using cur by (simp add: checked_add_u_Some_iff)
  then show ?thesis
    using assms(1) chain h ks(1) n parse len
    by (auto simp: apply_upgrade_def Let_def get_byte_eq read_be_eqs or_trap_def)
qed

section \<open>Histories\<close>

text \<open>
  A deployed contract with the log of executed governance actions: the sequence number of the VAA
  and the effect.  Between invocations time passes, entries expire and expired entries are
  restored: the clock does not go back, the time-to-live counters change in any way, and no value
  changes.  An invocation that fails changes nothing.
\<close>

record ('addr, 'sym, 'arg) history =
  hist_env :: executor_env
  hist_log :: "(u64 \<times> ('addr, 'sym, 'arg) effect) list"

definition time_passes :: "executor_env \<Rightarrow> executor_env \<Rightarrow> bool" where
  "time_passes env env' \<longleftrightarrow> timestamp env \<le> timestamp env' \<and> same_values env env' \<and>
     same_config env (env'\<lparr>timestamp := timestamp env\<rparr>)"

text \<open>The constructor runs on the storage of a contract that does not exist yet.\<close>

definition fresh :: "executor_env \<Rightarrow> bool" where
  "fresh env \<longleftrightarrow> initialized env = None \<and> guardian_set_index env = None \<and>
     last_executed_sequence env = None \<and> guardian_sets env = Map.empty"

inductive reachable ::
  "('addr, 'sym, 'arg) host \<Rightarrow> ('addr, 'sym, 'arg) history \<Rightarrow> bool" for host where
  construct: "fresh env \<Longrightarrow> initialize chain oc oa uc ua ks i env = Inr env' \<Longrightarrow>
     reachable host \<lparr>hist_env = env', hist_log = []\<rparr>"
| upgrade: "reachable host h \<Longrightarrow> update_guardian_set host data (hist_env h) = Inr env' \<Longrightarrow>
     reachable host (h\<lparr>hist_env := env'\<rparr>)"
| govern: "reachable host h \<Longrightarrow> execute_governance_action host data (hist_env h) = Inr (env', eff) \<Longrightarrow>
     parse_vaa data = Inr v \<Longrightarrow>
     reachable host \<lparr>hist_env = env', hist_log = hist_log h @ [(vb_sequence (vaa_body v), eff)]\<rparr>"
| wait: "reachable host h \<Longrightarrow> time_passes (hist_env h) env' \<Longrightarrow> reachable host (h\<lparr>hist_env := env'\<rparr>)"

text \<open>
  The invariant of the storage: there is a current guardian set, it does not expire; every other
  stored set has a smaller index and an expiration time; no stored set is empty.
\<close>

definition guardian_inv :: "executor_env \<Rightarrow> bool" where
  "guardian_inv env \<longleftrightarrow> (\<exists>cur g. guardian_set_index env = Some cur \<and>
     guardian_sets env cur = Some g \<and> gs_expiration_time g = None \<and>
     (\<forall>i s. guardian_sets env i = Some s \<longrightarrow> gs_keys s \<noteq> [] \<and> i \<le> cur \<and>
        (i \<noteq> cur \<longrightarrow> gs_expiration_time s \<noteq> None)))"

definition sequence_inv :: "('addr, 'sym, 'arg) history \<Rightarrow> bool" where
  "sequence_inv h \<longleftrightarrow> (\<exists>q. last_executed_sequence (hist_env h) = Some q \<and>
     sorted_wrt (<) (map fst (hist_log h)) \<and> (\<forall>(s, eff) \<in> set (hist_log h). 0 < s \<and> s \<le> q))"

lemma guardian_inv_same_values: "same_values env env' \<Longrightarrow> guardian_inv env' = guardian_inv env"
  by (simp add: guardian_inv_def same_values_def)

lemma verify_vaa_frame:
  assumes "verify_vaa kec rec v env = Inr env'"
  shows "same_config env env'" and "same_values env env'"
  using assms by (auto simp: verify_vaa_Inr_iff dest: get_guardian_set_by_index_spec)

lemma initialize_spec:
  assumes "initialize chain oc oa uc ua ks i env = Inr env'"
  shows "ks \<noteq> []" and "guardian_set_index env' = Some i" and "last_executed_sequence env' = Some 0"
    and "guardian_sets env' = (guardian_sets env)(i \<mapsto> \<lparr>gs_keys = ks, gs_expiration_time = None\<rparr>)"
    and "initialized env' = Some True" and "chain_id env' = Some chain"
    and "owner_emitter_chain env' = Some oc" and "owner_emitter_address env' = Some oa"
    and "gs_upgrade_emitter_chain env' = Some uc" and "gs_upgrade_emitter_address env' = Some ua"
proof -
  from assms have ne: "ks \<noteq> []" by (auto simp: initialize_def split: if_splits)
  from assms ne obtain e1 e2 where
    x1: "extend_guardian_set_by_index_ttl i (put_last_sequence 0 ((put_guardian_set_index i
         (put_guardian_set i \<lparr>gs_keys = ks, gs_expiration_time = None\<rparr> (env\<lparr>initialized := Some True\<rparr>)))
         \<lparr>chain_id := Some chain, owner_emitter_chain := Some oc, owner_emitter_address := Some oa,
           gs_upgrade_emitter_chain := Some uc, gs_upgrade_emitter_address := Some ua\<rparr>)) = Inr e1"
    and x2: "extend_persistent_ttl e1 = Inr e2" and x3: "env' = extend_instance_ttl e2"
    by (auto simp: initialize_def Let_def split: if_splits)
  note frames = extend_guardian_set_frame [OF x1] extend_persistent_frame [OF x2] extend_instance_frame [of e2]
  show "ks \<noteq> []" by (rule ne)
  show "guardian_set_index env' = Some i" "last_executed_sequence env' = Some 0"
    "guardian_sets env' = (guardian_sets env)(i \<mapsto> \<lparr>gs_keys = ks, gs_expiration_time = None\<rparr>)"
    using frames x3 by (simp_all add: same_values_def put_last_sequence_def put_guardian_set_index_def put_guardian_set_def)
  show "initialized env' = Some True" "chain_id env' = Some chain"
    "owner_emitter_chain env' = Some oc" "owner_emitter_address env' = Some oa"
    "gs_upgrade_emitter_chain env' = Some uc" "gs_upgrade_emitter_address env' = Some ua"
    using frames x3 by (simp_all add: same_config_def put_last_sequence_def put_guardian_set_index_def put_guardian_set_def)
qed

text \<open>What a successful guardian set upgrade establishes.\<close>

lemma update_guardian_set_Inr:
  assumes "update_guardian_set host data env = Inr env'"
  obtains v env1 env2 where "parse_vaa data = Inr v" and "env1 = extend_instance_ttl env"
    and "verify_vaa (h_keccak256 host) (h_recover host) v env1 = Inr env2"
    and "get_guardian_set_index env2 = Inr (vaa_guardian_set_index v)"
    and "gs_upgrade_emitter_chain env = Some (ucast (vb_emitter_chain (vaa_body v)))"
    and "gs_upgrade_emitter_address env = Some (vb_emitter_address (vaa_body v))"
    and "apply_upgrade (vb_payload (vaa_body v)) env2 = Inr env'"
proof -
  from assms obtain v e2 where *: "parse_vaa data = Inr v"
    "verify_vaa (h_keccak256 host) (h_recover host) v (extend_instance_ttl env) = Inr e2"
    "get_guardian_set_index e2 = Inr (vaa_guardian_set_index v)"
    "gs_upgrade_emitter_chain e2 = Some (ucast (vb_emitter_chain (vaa_body v)))"
    "gs_upgrade_emitter_address e2 = Some (vb_emitter_address (vaa_body v))"
    "apply_upgrade (vb_payload (vaa_body v)) e2 = Inr env'"
    by (auto simp: update_guardian_set_def Let_def get_gs_upgrade_emitter_chain_def
        get_gs_upgrade_emitter_address_def split: if_splits)
  have "same_config env e2"
    using verify_vaa_frame(1) [OF *(2)] extend_instance_frame(1) [of env] by (rule same_config_trans [rotated])
  then show ?thesis
    using * that by (simp add: same_config_def)
qed

lemma get_guardian_set_index_Inr:
  "get_guardian_set_index env = Inr i \<Longrightarrow> guardian_set_index env = Some i"
  by (auto simp: get_guardian_set_index_def live_def split: if_splits)

lemma apply_upgrade_store:
  assumes upd: "update_guardian_set host data env = Inr env'"
  obtains cur g ks where "guardian_set_index env = Some cur" and "guardian_sets env cur = Some g"
    and "uint (cur + 1) = uint cur + 1" and "ks \<noteq> []"
    and "same_config env env'" and "guardian_set_index env' = Some (cur + 1)"
    and "last_executed_sequence env' = last_executed_sequence env"
    and "guardian_sets env' = (guardian_sets env)
           (cur \<mapsto> g\<lparr>gs_expiration_time := Some (timestamp env + GUARDIAN_SET_EXPIRY)\<rparr>,
            cur + 1 \<mapsto> \<lparr>gs_keys = ks, gs_expiration_time = None\<rparr>)"
    and "uint (timestamp env + GUARDIAN_SET_EXPIRY) = uint (timestamp env) + 86400"
proof -
  obtain v env1 env2 where v: "env1 = extend_instance_ttl env"
    "verify_vaa (h_keccak256 host) (h_recover host) v env1 = Inr env2"
    "get_guardian_set_index env2 = Inr (vaa_guardian_set_index v)"
    "apply_upgrade (vb_payload (vaa_body v)) env2 = Inr env'"
    using update_guardian_set_Inr [OF upd] by metis
  let ?cur = "vaa_guardian_set_index v"
  have c2: "same_config env env2" and v2: "same_values env env2"
    using verify_vaa_frame [OF v(2)] extend_instance_frame [of env] v(1)
    by (auto intro: same_config_trans same_values_trans)
  obtain g where g: "get_guardian_set_by_index ?cur env1 = Inr (g, env2)"
    using v(2) unfolding verify_vaa_Inr_iff by blast
  have read2: "read_guardian_set env2 ?cur = Some g"
    using g by (auto simp: get_guardian_set_by_index_def)
  obtain ks where s: "store_guardian_set ks (?cur + 1) env2 = Inr env'" "ks \<noteq> []" "uint (?cur + 1) = uint ?cur + 1"
    using apply_upgrade_Inr [OF v(4)] v(3) by (metis sum.inject(2))
  have old: "read_guardian_set env2 (?cur + 1 - 1) = Some g" using read2 by simp
  note spec = store_guardian_set_spec [OF s(1) old]
  have i: "guardian_set_index env = Some ?cur" and gs: "guardian_sets env ?cur = Some g"
    using get_guardian_set_index_Inr [OF v(3)] get_guardian_set_by_index_spec(3) [OF g] v2 v(1)
      extend_instance_frame [of env]
    by (simp_all add: same_values_def)
  show ?thesis
    using that [OF i gs s(3) s(2) same_config_trans [OF c2 spec(1)] spec(2)] spec(3,4,5) c2 v2
    by (simp add: same_config_def same_values_def)
qed

text \<open>What a successful governance action establishes.\<close>

lemma execute_Inr:
  assumes "execute_governance_action host data env = Inr (env', eff)"
  obtains v env2 act q c where "parse_vaa data = Inr v"
    and "verify_vaa (h_keccak256 host) (h_recover host) v (extend_instance_ttl env) = Inr env2"
    and "owner_emitter_chain env = Some (ucast (vb_emitter_chain (vaa_body v)))"
    and "owner_emitter_address env = Some (vb_emitter_address (vaa_body v))"
    and "last_executed_sequence env = Some q" and "q < vb_sequence (vaa_body v)"
    and "set_last_executed_sequence (vb_sequence (vaa_body v)) env2 = Inr env'"
    and "chain_id env = Some c"
    and "parse_ptgm (h_from_strkey host) (vb_payload (vaa_body v)) c (h_self host) = Inr act"
    and "dispatch host act = Inr eff"
proof -
  from assms obtain v e2 act q c where *: "parse_vaa data = Inr v"
    "verify_vaa (h_keccak256 host) (h_recover host) v (extend_instance_ttl env) = Inr e2"
    "owner_emitter_chain e2 = Some (ucast (vb_emitter_chain (vaa_body v)))"
    "owner_emitter_address e2 = Some (vb_emitter_address (vaa_body v))"
    "live e2 LastExecutedSequence (last_executed_sequence e2) = Some q" "q < vb_sequence (vaa_body v)"
    "set_last_executed_sequence (vb_sequence (vaa_body v)) e2 = Inr env'"
    "chain_id env' = Some c"
    "parse_ptgm (h_from_strkey host) (vb_payload (vaa_body v)) c (h_self host) = Inr act"
    "dispatch host act = Inr eff"
    by (auto simp: execute_governance_action_def Let_def get_owner_emitter_chain_def not_le
        get_owner_emitter_address_def get_last_executed_sequence_def get_chain_id_def split: if_splits)
  have c: "same_config env e2" "same_values env e2"
    using verify_vaa_frame [OF *(2)] extend_instance_frame [of env]
    by (auto intro: same_config_trans same_values_trans)
  have "last_executed_sequence e2 = Some q"
    using *(5) by (simp add: live_def split: if_splits)
  with c have q: "last_executed_sequence env = Some q" by (simp add: same_values_def)
  have "same_config env env'"
    using c(1) set_last_executed_sequence_spec(1) [OF *(7)] by (rule same_config_trans)
  with *(8) have chain: "chain_id env = Some c" by (simp add: same_config_def)
  have owner: "owner_emitter_chain env = Some (ucast (vb_emitter_chain (vaa_body v)))"
    "owner_emitter_address env = Some (vb_emitter_address (vaa_body v))"
    using c(1) *(3,4) by (simp_all add: same_config_def)
  from that [OF *(1,2) owner q *(6,7) chain *(9,10)] show ?thesis .
qed

lemma execute_frame:
  assumes "execute_governance_action host data env = Inr (env', eff)" and "parse_vaa data = Inr v"
  shows "same_config env env'" and "guardian_set_index env' = guardian_set_index env"
    and "guardian_sets env' = guardian_sets env"
    and "last_executed_sequence env' = Some (vb_sequence (vaa_body v))"
    and "\<exists>q. last_executed_sequence env = Some q \<and> q < vb_sequence (vaa_body v)"
proof -
  obtain env2 q where *: "verify_vaa (h_keccak256 host) (h_recover host) v (extend_instance_ttl env) = Inr env2"
    "set_last_executed_sequence (vb_sequence (vaa_body v)) env2 = Inr env'"
    "last_executed_sequence env = Some q" "q < vb_sequence (vaa_body v)"
    using execute_Inr [OF assms(1)] assms(2) by (metis sum.inject(2))
  note spec = set_last_executed_sequence_spec [OF *(2)]
  have "same_config env env2" "same_values env env2"
    using verify_vaa_frame [OF *(1)] extend_instance_frame [of env]
    by (auto intro: same_config_trans same_values_trans)
  then show "same_config env env'" "guardian_set_index env' = guardian_set_index env"
    "guardian_sets env' = guardian_sets env" "last_executed_sequence env' = Some (vb_sequence (vaa_body v))"
    "\<exists>q. last_executed_sequence env = Some q \<and> q < vb_sequence (vaa_body v)"
    using spec(1-4) *(3,4) by (auto simp: same_values_def intro: same_config_trans)
qed

section \<open>Invariants of every history\<close>

lemma guardian_inv_upgrade:
  assumes inv: "guardian_inv env" and upd: "update_guardian_set host data env = Inr env'"
  shows "guardian_inv env'"
proof -
  obtain cur g ks where u: "guardian_set_index env = Some cur" "guardian_sets env cur = Some g"
    "uint (cur + 1) = uint cur + 1" "ks \<noteq> []" "guardian_set_index env' = Some (cur + 1)"
    "guardian_sets env' = (guardian_sets env)
           (cur \<mapsto> g\<lparr>gs_expiration_time := Some (timestamp env + GUARDIAN_SET_EXPIRY)\<rparr>,
            cur + 1 \<mapsto> \<lparr>gs_keys = ks, gs_expiration_time = None\<rparr>)"
    using apply_upgrade_store [OF upd] by metis
  have less: "i \<le> cur \<Longrightarrow> i \<le> cur + 1 \<and> i \<noteq> cur + 1" for i
    using u(3) by (auto simp: word_le_def)
  have old: "gs_keys s \<noteq> [] \<and> i \<le> cur \<and> (i \<noteq> cur \<longrightarrow> gs_expiration_time s \<noteq> None)"
    if "guardian_sets env i = Some s" for i s
    using inv u(1) that by (auto simp: guardian_inv_def)
  show ?thesis
    unfolding guardian_inv_def
  proof (intro exI [of _ "cur + 1"] exI [of _ "\<lparr>gs_keys = ks, gs_expiration_time = None\<rparr>"] conjI allI impI)
    fix i s assume s: "guardian_sets env' i = Some s"
    show "gs_keys s \<noteq> []"
      using s u(2,4,6) old by (auto split: if_splits)
    show "i \<le> cur + 1"
      using s u(6) old less by (auto split: if_splits)
    show "gs_expiration_time s \<noteq> None" if "i \<noteq> cur + 1"
      using s that u(6) old by (auto split: if_splits)
  qed (use u in simp_all)
qed

lemma reachable_guardian_inv: "reachable host h \<Longrightarrow> guardian_inv (hist_env h)"
proof (induction rule: reachable.induct)
  case (construct env chain oc oa uc ua ks i env')
  note spec = initialize_spec [OF construct(2)]
  from construct(1) have "guardian_sets env' = [i \<mapsto> \<lparr>gs_keys = ks, gs_expiration_time = None\<rparr>]"
    using spec(4) by (simp add: fresh_def)
  then show ?case
    using spec(1,2) by (auto simp: guardian_inv_def)
next
  case (upgrade h data env')
  then show ?case by (simp add: guardian_inv_upgrade)
next
  case (govern h data env' eff v)
  then show ?case
    using execute_frame(2,3) [OF govern(2,3)] by (simp add: guardian_inv_def)
next
  case (wait h env')
  then have "same_values (hist_env h) env'" by (simp add: time_passes_def)
  from guardian_inv_same_values [OF this] wait.IH show ?case by simp
qed

lemma reachable_sequence_inv: "reachable host h \<Longrightarrow> sequence_inv h"
proof (induction rule: reachable.induct)
  case (construct env chain oc oa uc ua ks i env')
  then show ?case by (simp add: sequence_inv_def initialize_spec(3))
next
  case (upgrade h data env')
  then have "last_executed_sequence env' = last_executed_sequence (hist_env h)"
    using apply_upgrade_store [OF upgrade(2)] by metis
  with upgrade show ?case by (simp add: sequence_inv_def)
next
  case (govern h data env' eff v)
  obtain q where q: "last_executed_sequence (hist_env h) = Some q" "q < vb_sequence (vaa_body v)"
    using execute_frame(5) [OF govern(2,3)] by blast
  have log: "sorted_wrt (<) (map fst (hist_log h))" "\<forall>(s, eff) \<in> set (hist_log h). 0 < s \<and> s \<le> q"
    using govern.IH q(1) by (auto simp: sequence_inv_def)
  have "0 < vb_sequence (vaa_body v)"
    using q(2) word_zero_le [of q] by (rule le_less_trans [rotated])
  then show ?case
    using log q(2) execute_frame(4) [OF govern(2,3)]
    by (fastforce simp: sequence_inv_def sorted_wrt_append)
next
  case (wait h env')
  then show ?case by (simp add: sequence_inv_def time_passes_def same_values_def)
qed

text \<open>Whether a cross-contract call succeeds decides only whether the action fails.\<close>

lemma execute_permissive:
  assumes "execute_governance_action host data env = Inr r"
  shows "execute_governance_action (host\<lparr>h_invoke := \<lambda>_ _ _. True\<rparr>) data env = Inr r"
proof -
  let ?h = "host\<lparr>h_invoke := \<lambda>_ _ _. True\<rparr>"
  have "dispatch ?h act = Inr eff" if "dispatch host act = Inr eff" for act eff
    using that by (cases act) (auto simp: decode_function_symbol_def Let_def split: if_splits)
  with assms show ?thesis
    unfolding execute_governance_action_def Let_def by (auto split: if_splits)
qed

text \<open>What the verification says about a VAA, and so a successful action or upgrade.\<close>

lemma verified_quorum:
  assumes ver: "verify_vaa (h_keccak256 host) (h_recover host) v (extend_instance_ttl env) = Inr env2"
  shows "\<exists>g. guardian_sets env (vaa_guardian_set_index v) = Some g \<and>
    (case gs_expiration_time g of Some t \<Rightarrow> timestamp env < t | None \<Rightarrow> True) \<and>
    (length (gs_keys g) < 2 ^ 32 \<longrightarrow>
       2 * length (gs_keys g) < 3 * card (signers (h_keccak256 host) (h_recover host) (gs_keys g) v))"
proof -
  from ver obtain g where get: "get_guardian_set_by_index (vaa_guardian_set_index v) (extend_instance_ttl env) = Inr (g, env2)"
    and exp: "case gs_expiration_time g of Some t \<Rightarrow> timestamp env2 < t | None \<Rightarrow> True"
    unfolding verify_vaa_Inr_iff by blast
  note spec = get_guardian_set_by_index_spec [OF get]
  have g: "guardian_sets env (vaa_guardian_set_index v) = Some g" and ts: "timestamp env2 = timestamp env"
    using spec(1,3) extend_instance_frame [of env] by (simp_all add: same_values_def same_config_def)
  show ?thesis
    using exp [unfolded ts] g verify_vaa_signers [OF ver spec(3)] by blast
qed

lemma execute_signed:
  assumes exec: "execute_governance_action host data env = Inr (env', eff)" and v: "parse_vaa data = Inr v"
  shows "\<exists>g. guardian_sets env (vaa_guardian_set_index v) = Some g \<and>
    (case gs_expiration_time g of Some t \<Rightarrow> timestamp env < t | None \<Rightarrow> True) \<and>
    (length (gs_keys g) < 2 ^ 32 \<longrightarrow>
       2 * length (gs_keys g) < 3 * card (signers (h_keccak256 host) (h_recover host) (gs_keys g) v))"
proof -
  obtain env2 where "verify_vaa (h_keccak256 host) (h_recover host) v (extend_instance_ttl env) = Inr env2"
    using execute_Inr [OF exec] v by (metis sum.inject(2))
  then show ?thesis by (rule verified_quorum)
qed

section \<open>Completeness\<close>

lemma set_last_executed_sequence_live:
  "live env LastExecutedSequence (last_executed_sequence env) = Some q \<Longrightarrow>
     \<exists>env'. set_last_executed_sequence s env = Inr env'"
  by (auto simp: set_last_executed_sequence_def put_last_sequence_def extend_ttl_def live_def
      touch_def Let_def split: if_splits)

lemma execute_complete:
  assumes "initialized env \<noteq> None" and "valid_vaa v"
    and ver: "verify_vaa (h_keccak256 host) (h_recover host) v (extend_instance_ttl env) = Inr env2"
    and "owner_emitter_chain env = Some (ucast (vb_emitter_chain (vaa_body v)))"
    and "owner_emitter_address env = Some (vb_emitter_address (vaa_body v))"
    and q: "live env2 LastExecutedSequence (last_executed_sequence env2) = Some q" "q < vb_sequence (vaa_body v)"
    and "chain_id env = Some c"
    and "parse_ptgm (h_from_strkey host) (vb_payload (vaa_body v)) c (h_self host) = Inr act"
    and "dispatch host act = Inr eff"
  shows "\<exists>env'. execute_governance_action host (encode_vaa v) env = Inr (env', eff)"
proof -
  obtain env3 where env3: "set_last_executed_sequence (vb_sequence (vaa_body v)) env2 = Inr env3"
    using set_last_executed_sequence_live [OF q(1)] by blast
  have "same_config env env2"
    using verify_vaa_frame(1) [OF ver] extend_instance_frame(1) [of env] by (rule same_config_trans [rotated])
  moreover have "same_config env env3"
    using calculation set_last_executed_sequence_spec(1) [OF env3] by (rule same_config_trans)
  ultimately show ?thesis
    using assms env3
    by (auto simp: execute_governance_action_def require_initialized_def Let_def parse_vaa_encode
        get_owner_emitter_chain_def get_owner_emitter_address_def get_last_executed_sequence_def
        get_chain_id_def same_config_def not_le)
qed

section \<open>A concrete deployment\<close>

text \<open>
  A host that hashes by the identity and recovers the key that the signature spells out, a contract
  deployed with one guardian, and a VAA that asks for a call: the hypotheses of the properties
  below hold together.
\<close>

definition demo_host :: "(bytes, bytes, bytes) host" where
  "demo_host = \<lparr>h_keccak256 = (\<lambda>x. x), h_recover = (\<lambda>digest sig rid. Some (4 # sig)), h_from_strkey = Some,
     h_symbol = Some, h_args_from_xdr = (\<lambda>x. Some [x]), h_invoke = (\<lambda>target func args. True),
     h_wasm_installed = (\<lambda>digest. True), h_self = [7]\<rparr>"

definition demo_fresh :: executor_env where
  "demo_fresh = \<lparr>timestamp = 1000, min_ttl = 4096, initialized = None, chain_id = None,
     owner_emitter_chain = None, owner_emitter_address = None, gs_upgrade_emitter_chain = None,
     gs_upgrade_emitter_address = None, instance_ttl = 4096, guardian_set_index = None,
     last_executed_sequence = None, guardian_sets = Map.empty, ttl = (\<lambda>k. 0)\<rparr>"

definition demo_env :: executor_env where
  "demo_env = projr (initialize 60 1 (replicate 32 0) 1 (replicate 32 5) [replicate 20 0] 0 demo_fresh)"

definition demo_call :: "bytes governance_action" where
  "demo_call = Call \<lparr>call_target_contract = [8], call_function_name = [0x75], call_args_xdr = [1, 2]\<rparr>"

definition demo_body :: vaa_body where
  "demo_body = \<lparr>vb_timestamp = 5, vb_nonce = 6, vb_emitter_chain = 1, vb_emitter_address = replicate 32 0,
     vb_sequence = 1, vb_consistency_level = 0,
     vb_payload = encode_header 60 (action_code demo_call) [7] [8] @ encode_action demo_call []\<rparr>"

definition demo_vaa_of :: "vaa_body \<Rightarrow> vaa" where
  "demo_vaa_of body = \<lparr>vaa_guardian_set_index = 0,
     vaa_signatures = [\<lparr>sig_guardian_index = 0, sig_signature = replicate 64 0, sig_recovery_id = 0\<rparr>],
     vaa_body = body, vaa_body_bytes = encode_body body\<rparr>"

lemmas env_defs = initialize_def extend_guardian_set_by_index_ttl_def extend_ttl_def extend_persistent_ttl_def
  extend_instance_ttl_def put_guardian_set_def put_guardian_set_index_def put_last_sequence_def
  read_guardian_set_def live_def touch_def extended_def TTL_THRESHOLD_def TTL_EXTEND_TO_def

lemma demo_initialize:
  "initialize 60 1 (replicate 32 0) 1 (replicate 32 5) [replicate 20 0] 0 demo_fresh = Inr demo_env"
  by (simp add: demo_env_def demo_fresh_def env_defs)

lemma demo_env_ttl: "ttl demo_env LastExecutedSequence = 500000"
  "ttl demo_env (GuardianSetByIndex 0) = 500000" "ttl demo_env GuardianSetIndex = 500000"
  by (simp_all add: demo_env_def demo_fresh_def env_defs)

lemma demo_env_timestamp: "timestamp demo_env = 1000" "min_ttl demo_env = 4096"
  by (simp_all add: demo_env_def demo_fresh_def env_defs)

lemmas demo_env_fields = initialize_spec [OF demo_initialize] demo_env_ttl demo_env_timestamp

lemma demo_valid_vaa: "length (vb_emitter_address body) = 32 \<Longrightarrow> valid_vaa (demo_vaa_of body)"
  by (simp add: valid_vaa_def demo_vaa_of_def valid_signature_def)

lemma demo_quorum: "quorum (word_of_nat (length [k])) = Inr 1"
  by (simp add: quorum_def checked_mul_u_def checked_add_u_def to_unsigned_def)

lemma demo_verify:
  "\<exists>env2. verify_vaa (h_keccak256 demo_host) (h_recover demo_host) (demo_vaa_of body)
     (extend_instance_ttl demo_env) = Inr env2 \<and>
     ttl env2 LastExecutedSequence = ttl demo_env LastExecutedSequence \<and>
     ttl env2 GuardianSetIndex = ttl demo_env GuardianSetIndex \<and>
     ttl env2 (GuardianSetByIndex 0) = ttl demo_env (GuardianSetByIndex 0)"
  using demo_env_fields
  by (simp add: verify_vaa_def demo_vaa_of_def demo_host_def get_guardian_set_by_index_def
      extend_guardian_set_by_index_ttl_def extend_ttl_def extend_instance_ttl_def read_guardian_set_def live_def
      extended_def eth_address_from_pubkey_def quorum_def checked_mul_u_def checked_add_u_def to_unsigned_def
      TTL_EXTEND_TO_def TTL_THRESHOLD_def demo_fresh_def)

lemma demo_ptgm:
  "parse_ptgm (h_from_strkey demo_host) (vb_payload demo_body) 60 (h_self demo_host) = Inr demo_call"
  using parse_ptgm_encode [of "h_from_strkey demo_host" "[7]" "[7]" "[8]" demo_call "[]" 60]
  by (simp add: demo_host_def demo_body_def demo_call_def valid_strkey_def)

lemma demo_dispatch: "dispatch demo_host demo_call = Inr (InvokeContract [8] [0x75] [[1, 2]])"
  by (simp add: demo_host_def demo_call_def decode_function_symbol_def MAX_SYMBOL_LEN_def bytes_get_def)

lemma demo_execute:
  "\<exists>env'. execute_governance_action demo_host (encode_vaa (demo_vaa_of demo_body)) demo_env =
     Inr (env', InvokeContract [8] [0x75] [[1, 2]])"
proof -
  obtain env2 where v: "verify_vaa (h_keccak256 demo_host) (h_recover demo_host) (demo_vaa_of demo_body)
     (extend_instance_ttl demo_env) = Inr env2" "ttl env2 LastExecutedSequence = ttl demo_env LastExecutedSequence"
    using demo_verify [of demo_body] by blast
  have "same_values demo_env env2"
    using verify_vaa_frame(2) [OF v(1)] extend_instance_frame(2) [of demo_env] by (rule same_values_trans [rotated])
  then have "live env2 LastExecutedSequence (last_executed_sequence env2) = Some 0"
    using v(2) demo_env_fields by (simp add: live_def same_values_def)
  then show ?thesis
    using demo_env_fields demo_valid_vaa demo_ptgm demo_dispatch
    by (intro execute_complete [OF _ _ v(1)]) (simp_all add: demo_vaa_of_def demo_body_def)
qed

lemma demo_reachable: "reachable demo_host \<lparr>hist_env = demo_env, hist_log = []\<rparr>"
  by (rule reachable.construct [OF _ demo_initialize]) (simp add: fresh_def demo_fresh_def)

definition demo_upgrade :: vaa_body where
  "demo_upgrade = \<lparr>vb_timestamp = 5, vb_nonce = 6, vb_emitter_chain = 1, vb_emitter_address = replicate 32 5,
     vb_sequence = 1, vb_consistency_level = 0, vb_payload = encode_upgrade 0 1 [replicate 20 9] []\<rparr>"

lemma demo_update: "\<exists>env'. update_guardian_set demo_host (encode_vaa (demo_vaa_of demo_upgrade)) demo_env = Inr env'"
proof -
  let ?v = "demo_vaa_of demo_upgrade"
  obtain env2 where v: "verify_vaa (h_keccak256 demo_host) (h_recover demo_host) ?v (extend_instance_ttl demo_env) = Inr env2"
    "ttl env2 LastExecutedSequence = ttl demo_env LastExecutedSequence" "ttl env2 GuardianSetIndex = ttl demo_env GuardianSetIndex"
    using demo_verify [of demo_upgrade] by blast
  have f: "same_values demo_env env2" "same_config demo_env env2"
    using verify_vaa_frame [OF v(1)] extend_instance_frame [of demo_env]
    by (auto intro: same_config_trans same_values_trans)
  have e2: "get_guardian_set_index env2 = Inr 0" "get_chain_id env2 = Inr 60" "timestamp env2 = 1000"
    "0 < ttl env2 GuardianSetIndex" "last_executed_sequence env2 \<noteq> None" "0 < ttl env2 LastExecutedSequence"
    using f v(2,3) demo_env_fields
    by (simp_all add: same_values_def same_config_def get_guardian_set_index_def get_chain_id_def live_def)
  have "apply_upgrade (vb_payload demo_upgrade) env2 = store_guardian_set [replicate 20 9] 1 env2"
    using apply_upgrade_encode [OF e2(1) _ e2(2), of 0 "[replicate 20 9]" "[]"] by (simp add: demo_upgrade_def)
  then obtain env' where "apply_upgrade (vb_payload demo_upgrade) env2 = Inr env'"
    using store_guardian_set_total [OF _ _ e2(4-6), of 1 "[replicate 20 9]"] e2(3) by auto
  moreover have "parse_vaa (encode_vaa ?v) = Inr ?v"
    by (rule parse_vaa_encode, rule demo_valid_vaa) (simp add: demo_upgrade_def)
  ultimately show ?thesis
    using v(1) e2(1) f demo_env_fields
    by (auto simp: update_guardian_set_def require_initialized_def Let_def get_gs_upgrade_emitter_chain_def
        get_gs_upgrade_emitter_address_def same_config_def demo_vaa_of_def demo_upgrade_def)
qed

section \<open>Properties\<close>

text \<open>C2: No governance VAA is executed twice.  In every history of the contract, whatever guardian set
  upgrades, expiries and restorations happen, the sequence numbers of the executed actions are
  strictly increasing, and submitting again a VAA with the sequence number of an executed action
  fails.\<close>

theorem governance_no_replay:
  assumes "reachable host h"
  shows "sorted_wrt (<) (map fst (hist_log h)) \<and>
    (\<forall>data v eff. parse_vaa data = Inr v \<and> (vb_sequence (vaa_body v), eff) \<in> set (hist_log h) \<longrightarrow>
       \<not> is_ok (execute_governance_action host data (hist_env h)))"
proof (intro conjI allI impI notI)
  obtain q where q: "last_executed_sequence (hist_env h) = Some q"
    "sorted_wrt (<) (map fst (hist_log h))" "\<forall>(s, eff) \<in> set (hist_log h). 0 < s \<and> s \<le> q"
    using reachable_sequence_inv [OF assms] by (auto simp: sequence_inv_def)
  show "sorted_wrt (<) (map fst (hist_log h))" by (rule q(2))
  fix data v eff
  assume v: "parse_vaa data = Inr v \<and> (vb_sequence (vaa_body v), eff) \<in> set (hist_log h)"
    and "is_ok (execute_governance_action host data (hist_env h))"
  then obtain env' eff' where "execute_governance_action host data (hist_env h) = Inr (env', eff')"
    by (auto simp: is_ok_iff)
  from execute_frame(5) [OF this] v q(1) have "q < vb_sequence (vaa_body v)" by auto
  with q(3) v show False by fastforce
qed

theorem governance_no_replay_witness:
  "\<exists>h. reachable demo_host h \<and> map fst (hist_log h) = [1] \<and>
     \<not> is_ok (execute_governance_action demo_host (encode_vaa (demo_vaa_of demo_body)) (hist_env h))"
proof -
  let ?data = "encode_vaa (demo_vaa_of demo_body)" and ?eff = "InvokeContract [8] [0x75] [[1, 2]]"
  obtain env' where x: "execute_governance_action demo_host ?data demo_env = Inr (env', ?eff)"
    using demo_execute by blast
  have p: "parse_vaa ?data = Inr (demo_vaa_of demo_body)"
    by (rule parse_vaa_encode, rule demo_valid_vaa) (simp add: demo_body_def)
  have q: "vb_sequence (vaa_body (demo_vaa_of demo_body)) = 1" by (simp add: demo_vaa_of_def demo_body_def)
  have r: "reachable demo_host \<lparr>hist_env = env', hist_log = [(1, ?eff)]\<rparr>"
    using reachable.govern [OF demo_reachable _ p, of env' ?eff] x q by simp
  show ?thesis
    using r governance_no_replay [OF r] p q by fastforce
qed

text \<open>C3: Authenticity of governance.  An executed action comes from a well-formed VAA emitted by
  the owner, with more than two thirds of the keys of a stored guardian set having signed its body,
  a set that had not expired; the payload is a PTGM for this chain and this executor, and the effect
  is the dispatch of the action it carries.\<close>

theorem governance_authentic:
  assumes exec: "execute_governance_action host data env = Inr (env', eff)"
    and small: "\<forall>i g. guardian_sets env i = Some g \<longrightarrow> length (gs_keys g) < 2 ^ 32"
  shows "\<exists>v g act c ex tg tr. valid_vaa v \<and> data = encode_vaa v \<and>
    guardian_sets env (vaa_guardian_set_index v) = Some g \<and>
    (case gs_expiration_time g of Some t \<Rightarrow> timestamp env < t | None \<Rightarrow> True) \<and>
    2 * length (gs_keys g) < 3 * card (signers (h_keccak256 host) (h_recover host) (gs_keys g) v) \<and>
    owner_emitter_chain env = Some (ucast (vb_emitter_chain (vaa_body v))) \<and>
    owner_emitter_address env = Some (vb_emitter_address (vaa_body v)) \<and>
    chain_id env = Some (ucast (c :: u16)) \<and>
    valid_strkey (h_from_strkey host) ex (h_self host) \<and>
    valid_strkey (h_from_strkey host) tg (action_target act) \<and>
    accepted_action (h_self host) act tr \<and>
    vb_payload (vaa_body v) = encode_header c (action_code act) ex tg @ encode_action act tr \<and>
    dispatch host act = Inr eff"
proof -
  obtain v act c where e: "parse_vaa data = Inr v"
    "owner_emitter_chain env = Some (ucast (vb_emitter_chain (vaa_body v)))"
    "owner_emitter_address env = Some (vb_emitter_address (vaa_body v))" "chain_id env = Some c"
    "parse_ptgm (h_from_strkey host) (vb_payload (vaa_body v)) c (h_self host) = Inr act"
    "dispatch host act = Inr eff"
    using execute_Inr [OF exec] by metis
  obtain c' ex tg tr where p: "ucast (c' :: u16) = c" "valid_strkey (h_from_strkey host) ex (h_self host)"
    "valid_strkey (h_from_strkey host) tg (action_target act)" "accepted_action (h_self host) act tr"
    "vb_payload (vaa_body v) = encode_header c' (action_code act) ex tg @ encode_action act tr"
    using e(5) unfolding parse_ptgm_Inr_iff by blast
  show ?thesis
    using e(1-4,6) p(2-) execute_signed [OF exec e(1)] small
    unfolding parse_vaa_Inr_iff p(1) [symmetric] by blast
qed

theorem governance_authentic_witness:
  "\<exists>env' v. execute_governance_action demo_host (encode_vaa (demo_vaa_of demo_body)) demo_env =
       Inr (env', InvokeContract [8] [0x75] [[1, 2]]) \<and>
     encode_vaa (demo_vaa_of demo_body) = encode_vaa v \<and>
     2 < 3 * card (signers (h_keccak256 demo_host) (h_recover demo_host) [replicate 20 0] v)"
proof -
  obtain env' where x: "execute_governance_action demo_host (encode_vaa (demo_vaa_of demo_body)) demo_env =
       Inr (env', InvokeContract [8] [0x75] [[1, 2]])"
    using demo_execute by blast
  have sets: "guardian_sets demo_env = [0 \<mapsto> \<lparr>gs_keys = [replicate 20 0], gs_expiration_time = None\<rparr>]"
    using demo_env_fields(4) by (simp add: demo_fresh_def)
  then have "\<forall>i g. guardian_sets demo_env i = Some g \<longrightarrow> length (gs_keys g) < 2 ^ 32"
    by (auto split: if_splits)
  from governance_authentic [OF x this] obtain v g where "encode_vaa (demo_vaa_of demo_body) = encode_vaa v"
    "guardian_sets demo_env (vaa_guardian_set_index v) = Some g"
    "2 * length (gs_keys g) < 3 * card (signers (h_keccak256 demo_host) (h_recover demo_host) (gs_keys g) v)"
    by (elim exE conjE) (rule that)
  with x sets show ?thesis by (auto split: if_splits)
qed

text \<open>C5: Guardian set rotation.  A successful upgrade was signed by more than two thirds of the
  guardians of the current set, which had not expired, and names the current index; it comes from the upgrade
  emitter, and installs as the set with the next index (without wrap-around) the non-empty list of
  20-byte keys its payload names; the set it replaces expires exactly 24 hours later, and nothing
  else of the stored values changes.\<close>

theorem guardian_rotation:
  assumes upd: "update_guardian_set host data env = Inr env'"
    and small: "\<forall>i g. guardian_sets env i = Some g \<longrightarrow> length (gs_keys g) < 2 ^ 32"
  shows "\<exists>v cur g ks chain tr. data = encode_vaa v \<and> valid_vaa v \<and>
    guardian_set_index env = Some cur \<and> vaa_guardian_set_index v = cur \<and>
    guardian_sets env cur = Some g \<and>
    (case gs_expiration_time g of Some t \<Rightarrow> timestamp env < t | None \<Rightarrow> True) \<and>
    2 * length (gs_keys g) < 3 * card (signers (h_keccak256 host) (h_recover host) (gs_keys g) v) \<and>
    gs_upgrade_emitter_chain env = Some (ucast (vb_emitter_chain (vaa_body v))) \<and>
    gs_upgrade_emitter_address env = Some (vb_emitter_address (vaa_body v)) \<and>
    vb_payload (vaa_body v) = encode_upgrade chain (cur + 1) ks tr \<and> uint (cur + 1) = uint cur + 1 \<and>
    ks \<noteq> [] \<and> list_all (\<lambda>k. length k = 20) ks \<and>
    same_config env env' \<and> last_executed_sequence env' = last_executed_sequence env \<and>
    guardian_set_index env' = Some (cur + 1) \<and>
    guardian_sets env' = (guardian_sets env)
      (cur \<mapsto> g\<lparr>gs_expiration_time := Some (timestamp env + 86400)\<rparr>,
       cur + 1 \<mapsto> \<lparr>gs_keys = ks, gs_expiration_time = None\<rparr>) \<and>
    uint (timestamp env + 86400) = uint (timestamp env) + 86400"
proof -
  obtain v env1 env2 where v: "parse_vaa data = Inr v" "env1 = extend_instance_ttl env"
    "verify_vaa (h_keccak256 host) (h_recover host) v env1 = Inr env2"
    "get_guardian_set_index env2 = Inr (vaa_guardian_set_index v)"
    "gs_upgrade_emitter_chain env = Some (ucast (vb_emitter_chain (vaa_body v)))"
    "gs_upgrade_emitter_address env = Some (vb_emitter_address (vaa_body v))"
    "apply_upgrade (vb_payload (vaa_body v)) env2 = Inr env'"
    using update_guardian_set_Inr [OF upd] by metis
  obtain cur g ks0 where r: "guardian_set_index env = Some cur" "guardian_sets env cur = Some g"
    "uint (cur + 1) = uint cur + 1" "same_config env env'" "guardian_set_index env' = Some (cur + 1)"
    "last_executed_sequence env' = last_executed_sequence env"
    "guardian_sets env' = (guardian_sets env)
           (cur \<mapsto> g\<lparr>gs_expiration_time := Some (timestamp env + GUARDIAN_SET_EXPIRY)\<rparr>,
            cur + 1 \<mapsto> \<lparr>gs_keys = ks0, gs_expiration_time = None\<rparr>)"
    "uint (timestamp env + GUARDIAN_SET_EXPIRY) = uint (timestamp env) + 86400"
    using apply_upgrade_store [OF upd] by metis
  have "guardian_set_index env2 = guardian_set_index env"
    using verify_vaa_frame(2) [OF v(3)] extend_instance_frame(2) [of env] v(2) by (simp add: same_values_def)
  then have cur: "vaa_guardian_set_index v = cur"
    using get_guardian_set_index_Inr [OF v(4)] r(1) by simp
  obtain chain ks tr where p: "vb_payload (vaa_body v) = encode_upgrade chain (cur + 1) ks tr" "ks \<noteq> []"
    "list_all (\<lambda>k. length k = 20) ks" "store_guardian_set ks (cur + 1) env2 = Inr env'"
    using apply_upgrade_Inr [OF v(7)] v(4) cur by (metis sum.inject(2))
  have "guardian_sets env' (cur + 1) = Some \<lparr>gs_keys = ks, gs_expiration_time = None\<rparr>"
    by (rule store_guardian_set_new [OF p(4)])
  then have "ks0 = ks" using r(7) by simp
  moreover have "(case gs_expiration_time g of Some t \<Rightarrow> timestamp env < t | None \<Rightarrow> True) \<and>
      2 * length (gs_keys g) < 3 * card (signers (h_keccak256 host) (h_recover host) (gs_keys g) v)"
    using verified_quorum [OF v(3) [unfolded v(2)]] r(2) cur small by auto
  ultimately show ?thesis
    using v(1,5,6) r p(1-3) cur unfolding parse_vaa_Inr_iff GUARDIAN_SET_EXPIRY_def by blast
qed

theorem guardian_rotation_witness:
  "\<exists>env' v g. update_guardian_set demo_host (encode_vaa (demo_vaa_of demo_upgrade)) demo_env = Inr env' \<and>
     encode_vaa (demo_vaa_of demo_upgrade) = encode_vaa v \<and>
     guardian_set_index env' = Some 1 \<and> guardian_sets env' 0 = Some g \<and> gs_expiration_time g = Some 87400 \<and>
     2 < 3 * card (signers (h_keccak256 demo_host) (h_recover demo_host) [replicate 20 0] v)"
proof -
  obtain env' where x: "update_guardian_set demo_host (encode_vaa (demo_vaa_of demo_upgrade)) demo_env = Inr env'"
    using demo_update by blast
  have f: "guardian_set_index demo_env = Some 0" "timestamp demo_env = 1000"
    using demo_env_fields by simp_all
  have sets: "guardian_sets demo_env = [0 \<mapsto> \<lparr>gs_keys = [replicate 20 0], gs_expiration_time = None\<rparr>]"
    using demo_env_fields(4) by (simp add: demo_fresh_def)
  then have "\<forall>i g. guardian_sets demo_env i = Some g \<longrightarrow> length (gs_keys g) < 2 ^ 32"
    by (auto split: if_splits)
  from guardian_rotation [OF x this] x f sets show ?thesis by fastforce
qed

text \<open>C6: The storage invariant of the guardian sets holds in every history: the current set is
  stored, has no expiration and has keys, and every other stored set has a smaller index and an
  expiration time, so a retired set cannot verify VAAs for ever.\<close>

theorem guardian_sets_invariant:
  assumes "reachable host h"
  shows "\<exists>cur g. guardian_set_index (hist_env h) = Some cur \<and> guardian_sets (hist_env h) cur = Some g \<and>
    gs_expiration_time g = None \<and> gs_keys g \<noteq> [] \<and>
    (\<forall>i s. guardian_sets (hist_env h) i = Some s \<longrightarrow> i \<noteq> cur \<longrightarrow>
       i < cur \<and> gs_keys s \<noteq> [] \<and> gs_expiration_time s \<noteq> None)"
  using reachable_guardian_inv [OF assms] unfolding guardian_inv_def by (metis order_le_less)

theorem guardian_sets_invariant_witness:
  "reachable demo_host \<lparr>hist_env = demo_env, hist_log = []\<rparr> \<and> guardian_set_index demo_env \<noteq> None"
  using guardian_sets_invariant [OF demo_reachable] demo_reachable by auto

text \<open>C11: The payload parser is exact: a payload parses to an action if and only if it is the header
  for this chain with a strkey of this executor and a strkey of the action's target, followed by a
  call with a name of 1 to 32 bytes and its arguments, or by the digest of an upgrade of the executor
  itself and any bytes after it.  The documented layout is part of it: it allows no bytes after the
  digest and only the characters of a symbol in a name.\<close>

theorem parse_ptgm_exact:
  "parse_ptgm from_strkey payload our_chain me = Inr act \<longleftrightarrow>
     (\<exists>c ex tg tr. ucast (c :: u16) = our_chain \<and> valid_strkey from_strkey ex me \<and>
        valid_strkey from_strkey tg (action_target act) \<and> accepted_action me act tr \<and>
        payload = encode_header c (action_code act) ex tg @ encode_action act tr)"
  by (rule parse_ptgm_Inr_iff)

text \<open>C10: The VAA parser accepts exactly the encodings of well-formed VAAs and returns the VAA that
  was encoded; on every other input it fails with an error of the contract and does not trap.\<close>

theorem parse_vaa_exact:
  "(parse_vaa data = Inr v \<longleftrightarrow> valid_vaa v \<and> data = encode_vaa v) \<and> parse_vaa data \<noteq> Inl Trap"
  using parse_vaa_Inr_iff parse_vaa_no_trap by blast

text \<open>Quorum intersection.  Two VAAs that verify against the same stored guardian set were both
  signed by more than a third of its members.\<close>

theorem verified_vaas_share_signers:
  assumes "verify_vaa kec rec v env = Inr env1" and "verify_vaa kec rec w env = Inr env2"
    and "vaa_guardian_set_index v = i" and "vaa_guardian_set_index w = i"
    and g: "guardian_sets env i = Some g" and len: "length (gs_keys g) < 2 ^ 32"
  shows "length (gs_keys g) < 3 * card (signers kec rec (gs_keys g) v \<inter> signers kec rec (gs_keys g) w)"
proof -
  have "2 * length (gs_keys g) < 3 * card (signers kec rec (gs_keys g) v)"
    "2 * length (gs_keys g) < 3 * card (signers kec rec (gs_keys g) w)"
    using verify_vaa_signers [OF assms(1)] verify_vaa_signers [OF assms(2)] assms(3,4) g len by simp_all
  then show ?thesis
    using card_intersection [OF _ signers_subset signers_subset, of "gs_keys g"] by simp
qed

theorem verified_vaas_share_signers_witness:
  "\<exists>v w env1 env2. v \<noteq> w \<and>
     verify_vaa (h_keccak256 demo_host) (h_recover demo_host) v (extend_instance_ttl demo_env) = Inr env1 \<and>
     verify_vaa (h_keccak256 demo_host) (h_recover demo_host) w (extend_instance_ttl demo_env) = Inr env2 \<and>
     signers (h_keccak256 demo_host) (h_recover demo_host) [replicate 20 0] v \<inter>
     signers (h_keccak256 demo_host) (h_recover demo_host) [replicate 20 0] w \<noteq> {}"
proof -
  let ?v = "demo_vaa_of demo_body" and ?w = "demo_vaa_of demo_upgrade"
  let ?kec = "h_keccak256 demo_host" and ?rec = "h_recover demo_host"
  obtain e1 e2 where x: "verify_vaa ?kec ?rec ?v (extend_instance_ttl demo_env) = Inr e1"
    "verify_vaa ?kec ?rec ?w (extend_instance_ttl demo_env) = Inr e2"
    using demo_verify by blast
  have g: "guardian_sets (extend_instance_ttl demo_env) 0 = Some \<lparr>gs_keys = [replicate 20 0], gs_expiration_time = None\<rparr>"
    using demo_env_fields(4) by (simp add: extend_instance_ttl_def)
  have "1 < 3 * card (signers ?kec ?rec [replicate 20 0] ?v \<inter> signers ?kec ?rec [replicate 20 0] ?w)"
    using verified_vaas_share_signers [OF x _ _ g] by (simp add: demo_vaa_of_def)
  moreover have "?v \<noteq> ?w" by (simp add: demo_vaa_of_def demo_body_def demo_upgrade_def)
  ultimately show ?thesis using x by fastforce
qed

end
