(* ===== verification/Signer_Registry.thy ===== *)
theory Signer_Registry
  imports Lazer_Prelude "HOL-Library.List_Lexorder"
begin

text \<open>
  What the verifying contracts rely on of their store of trusted signers, as a locale, and the
  ordered map of the Soroban host.  Both contracts take an expiry of zero as the request to remove
  a signer; the update may refuse a request and then changes nothing.
\<close>

section \<open>The contract of a registry\<close>

locale signer_registry =
  fixes inv :: "'s \<Rightarrow> bool"
    and lookup :: "'s \<Rightarrow> 'k \<Rightarrow> 'w::len word option"
    and update :: "'k \<Rightarrow> 'w word \<Rightarrow> 's \<Rightarrow> 'e + 's"
  assumes inv_update: "inv s \<Longrightarrow> update k e s = Inr s' \<Longrightarrow> inv s'"
    and lookup_update: "inv s \<Longrightarrow> update k e s = Inr s' \<Longrightarrow>
          lookup s' = (lookup s)(k := if e = 0 then None else Some e)"
begin

text \<open>A sequence of accepted updates.\<close>

fun updates :: "('k \<times> 'w word) list \<Rightarrow> 's \<Rightarrow> 'e + 's" where
  "updates [] s = Inr s"
| "updates ((k, e) # us) s = and_then (update k e s) (updates us)"

lemma inv_updates: "inv s \<Longrightarrow> updates us s = Inr s' \<Longrightarrow> inv s'"
  by (induction us s rule: updates.induct) (auto dest: inv_update)

text \<open>The value of a key is the one its last update gave it, and no other key is affected.\<close>

lemma lookup_updates:
  "inv s \<Longrightarrow> updates us s = Inr s' \<Longrightarrow>
     lookup s' k = (case map_of (rev us) k of None \<Rightarrow> lookup s k | Some e \<Rightarrow> if e = 0 then None else Some e)"
proof (induction us arbitrary: s)
  case (Cons u us)
  obtain k0 e0 where u: "u = (k0, e0)" by (cases u)
  from Cons.prems obtain s1 where s1: "update k0 e0 s = Inr s1" and us: "updates us s1 = Inr s'"
    by (auto simp: u)
  have "lookup s1 = (lookup s)(k0 := if e0 = 0 then None else Some e0)"
    using Cons.prems(1) s1 by (rule lookup_update)
  then show ?case
    using Cons.IH [OF inv_update [OF Cons.prems(1) s1] us]
    by (auto simp: u map_add_def split: option.splits)
qed simp

lemma removed_not_found:
  assumes "inv s" and "updates us s = Inr s'" and "map_of (rev us) k = Some 0"
  shows "lookup s' k = None"
  using lookup_updates [OF assms(1,2), of k] assms(3) by simp

end

section \<open>The host's ordered map\<close>

text \<open>
  \<^verbatim>\<open>soroban_sdk::Map\<close>: key-value pairs in strictly increasing key order; \<^verbatim>\<open>set\<close> replaces or
  inserts, \<^verbatim>\<open>remove\<close> of an absent key does nothing, iteration is in key order.
\<close>

type_synonym ('k, 'v) smap = "('k \<times> 'v) list"

fun smap_set :: "'k::linorder \<Rightarrow> 'v \<Rightarrow> ('k, 'v) smap \<Rightarrow> ('k, 'v) smap" where
  "smap_set k v [] = [(k, v)]"
| "smap_set k v ((k', v') # m) =
     (if k < k' then (k, v) # (k', v') # m
      else if k = k' then (k, v) # m
      else (k', v') # smap_set k v m)"

fun smap_remove :: "'k::linorder \<Rightarrow> ('k, 'v) smap \<Rightarrow> ('k, 'v) smap" where
  "smap_remove k [] = []"
| "smap_remove k ((k', v') # m) = (if k = k' then m else (k', v') # smap_remove k m)"

fun smap_get :: "('k::linorder, 'v) smap \<Rightarrow> 'k \<Rightarrow> 'v option" where
  "smap_get [] k = None"
| "smap_get ((k', v') # m) k = (if k = k' then Some v' else smap_get m k)"

definition smap_inv :: "('k::linorder, 'v) smap \<Rightarrow> bool" where
  "smap_inv m \<longleftrightarrow> sorted_wrt (<) (map fst m)"

lemma smap_get_map_of: "smap_get m = map_of m"
  by (induction m) auto

lemma keys_smap_set: "fst ` set (smap_set k v m) = insert k (fst ` set m)"
  by (induction k v m rule: smap_set.induct) auto

lemma keys_smap_remove: "set (smap_remove k m) \<subseteq> set m"
  by (induction k m rule: smap_remove.induct) auto

lemma smap_inv_set: "smap_inv m \<Longrightarrow> smap_inv (smap_set k v m)"
proof (induction k v m rule: smap_set.induct)
  case (2 k v k' v' m)
  then show ?case
    using keys_smap_set [of k v m] by (auto simp: smap_inv_def intro: less_trans)
qed (simp add: smap_inv_def)

lemma smap_inv_remove: "smap_inv m \<Longrightarrow> smap_inv (smap_remove k m)"
proof (induction k m rule: smap_remove.induct)
  case (2 k k' v' m)
  then show ?case
    using keys_smap_remove [of k m] by (auto simp: smap_inv_def)
qed simp

lemma smap_get_set: "smap_get (smap_set k v m) = (smap_get m)(k \<mapsto> v)"
  by (induction k v m rule: smap_set.induct) (auto simp: fun_eq_iff)

lemma smap_get_remove: "smap_inv m \<Longrightarrow> smap_get (smap_remove k m) = (smap_get m)(k := None)"
proof (induction k m rule: smap_remove.induct)
  case (2 k k' v' m)
  have "smap_get m k' = None"
    using 2(2) by (auto simp: smap_inv_def smap_get_map_of map_of_eq_None_iff)
  with 2 show ?case by (auto simp: fun_eq_iff smap_inv_def)
qed (simp add: fun_eq_iff)

lemma smap_entries: "smap_inv m \<Longrightarrow> smap_get m k = Some v \<longleftrightarrow> (k, v) \<in> set m"
  unfolding smap_get_map_of
  by (rule map_of_eq_Some_iff) (auto simp: smap_inv_def dest: strict_sorted_iff [THEN iffD1])

end
