(* ===== verification/Lazer_Stellar.thy ===== *)
theory Lazer_Stellar
  imports Soroban_Host Signer_Registry
begin

text \<open>
  The Pyth Lazer contract on Stellar
  (\<^verbatim>\<open>contracts/stellar/contracts/pyth-lazer-stellar/src\<close>): the executor address, the map of trusted
  signers with expiries, and the verification of signed updates.
\<close>

section \<open>Errors and state (error.rs, state.rs)\<close>

datatype lazer_error =
    AlreadyInitialized | NotInitialized | InvalidMagic | TruncatedData | InvalidPayloadLength
  | SignerNotTrusted | SignerExpired | Unauthorized | InvalidPayloadMagic | InvalidChannel
  | InvalidProperty | InvalidMarketSession | InvalidRecoveryId

type_synonym lazer_fault = "lazer_error fault"

text \<open>
  \<open>lz_executor\<close> is the instance entry \<^verbatim>\<open>Executor\<close>, \<open>lz_trusted_signers\<close> the persistent entry
  \<^verbatim>\<open>TrustedSigners\<close> with its time-to-live, \<open>lz_wasm\<close> the hash of the contract's code.
\<close>

record 'addr lazer_env =
  lz_timestamp :: u64
  lz_min_ttl :: nat
  lz_executor :: "'addr option"
  lz_instance_ttl :: nat
  lz_trusted_signers :: "(bytes, u64) smap option"
  lz_signers_ttl :: nat
  lz_wasm :: bytes

definition LAZER_TTL_THRESHOLD :: nat where "LAZER_TTL_THRESHOLD = 100000"
definition LAZER_TTL_EXTEND_TO :: nat where "LAZER_TTL_EXTEND_TO = 500000"

definition set_executor :: "'addr \<Rightarrow> 'addr lazer_env \<Rightarrow> 'addr lazer_env" where
  "set_executor executor env = env\<lparr>lz_executor := Some executor\<rparr>"

definition get_executor :: "'addr lazer_env \<Rightarrow> lazer_fault + 'addr" where
  "get_executor env = ok_or (Fail NotInitialized) (lz_executor env)"

definition has_executor :: "'addr lazer_env \<Rightarrow> bool" where
  "has_executor env \<longleftrightarrow> lz_executor env \<noteq> None"

definition signers_entry :: "'addr lazer_env \<Rightarrow> (bytes, u64) smap option" where
  "signers_entry env = (if 0 < lz_signers_ttl env then lz_trusted_signers env else None)"

definition get_trusted_signers :: "'addr lazer_env \<Rightarrow> (bytes, u64) smap" where
  "get_trusted_signers env = (case signers_entry env of Some m \<Rightarrow> m | None \<Rightarrow> [])"

definition extend_trusted_signers_ttl :: "'addr lazer_env \<Rightarrow> lazer_fault + 'addr lazer_env" where
  "extend_trusted_signers_ttl env =
     (if signers_entry env = None then Inl Trap
      else Inr (env\<lparr>lz_signers_ttl := extended LAZER_TTL_THRESHOLD LAZER_TTL_EXTEND_TO (lz_signers_ttl env)\<rparr>))"

definition put_trusted_signers :: "(bytes, u64) smap \<Rightarrow> 'addr lazer_env \<Rightarrow> lazer_fault + 'addr lazer_env" where
  "put_trusted_signers signers env =
     extend_trusted_signers_ttl
       (env\<lparr>lz_trusted_signers := Some signers,
            lz_signers_ttl := (if 0 < lz_signers_ttl env then lz_signers_ttl env else lz_min_ttl env)\<rparr>)"

definition set_trusted_signer :: "bytes \<Rightarrow> u64 \<Rightarrow> 'addr lazer_env \<Rightarrow> lazer_fault + 'addr lazer_env" where
  "set_trusted_signer pubkey expires_at env =
     (let signers = get_trusted_signers env;
          signers = (if expires_at = 0 then smap_remove pubkey signers
                     else smap_set pubkey expires_at signers)
      in put_trusted_signers signers env)"

fun push_all :: "(bytes, u64) smap \<Rightarrow> (bytes \<times> u64) list \<Rightarrow> (bytes \<times> u64) list" where
  "push_all [] result = result"
| "push_all ((pubkey, expires_at) # rest) result = push_all rest (result @ [(pubkey, expires_at)])"

definition list_trusted_signers_state ::
  "'addr lazer_env \<Rightarrow> lazer_fault + (bytes \<times> u64) list \<times> 'addr lazer_env" where
  "list_trusted_signers_state env =
     (let signers = get_trusted_signers env in
      and_then (if signers \<noteq> [] then extend_trusted_signers_ttl env else Inr env) (\<lambda>env.
      Inr (push_all signers [], env)))"

definition get_trusted_signer_expiry ::
  "bytes \<Rightarrow> 'addr lazer_env \<Rightarrow> lazer_fault + u64 option \<times> 'addr lazer_env" where
  "get_trusted_signer_expiry pubkey env =
     (let result = smap_get (get_trusted_signers env) pubkey in
      and_then (if result \<noteq> None then extend_trusted_signers_ttl env else Inr env) (\<lambda>env.
      Inr (result, env)))"

definition extend_lazer_instance_ttl :: "'addr lazer_env \<Rightarrow> 'addr lazer_env" where
  "extend_lazer_instance_ttl env =
     env\<lparr>lz_instance_ttl := extended LAZER_TTL_THRESHOLD LAZER_TTL_EXTEND_TO (lz_instance_ttl env)\<rparr>"

section \<open>Verification (bytes.rs, verify.rs)\<close>

definition lazer_or_truncated :: "'a option \<Rightarrow> lazer_fault + 'a" where
  "lazer_or_truncated v = ok_or (Fail TruncatedData) v"

definition lazer_get_byte :: "bytes \<Rightarrow> nat \<Rightarrow> lazer_fault + u8" where
  "lazer_get_byte data index = lazer_or_truncated (bytes_get data index)"

definition read_le_u32 :: "bytes \<Rightarrow> nat \<Rightarrow> lazer_fault + u32" where
  "read_le_u32 data offset =
     and_then (lazer_get_byte data offset) (\<lambda>b0.
     and_then (lazer_get_byte data (offset + 1)) (\<lambda>b1.
     and_then (lazer_get_byte data (offset + 2)) (\<lambda>b2.
     and_then (lazer_get_byte data (offset + 3)) (\<lambda>b3.
     Inr (ucast b0 OR push_bit 8 (ucast b1) OR push_bit 16 (ucast b2) OR push_bit 24 (ucast b3))))))"

definition read_le_u16 :: "bytes \<Rightarrow> nat \<Rightarrow> lazer_fault + u16" where
  "read_le_u16 data offset =
     and_then (lazer_get_byte data offset) (\<lambda>b0.
     and_then (lazer_get_byte data (offset + 1)) (\<lambda>b1.
     Inr (ucast b0 OR push_bit 8 (ucast b1))))"

definition LE_ECDSA_FORMAT_MAGIC :: u32 where "LE_ECDSA_FORMAT_MAGIC = 1296547300"
definition MIN_ENVELOPE_SIZE :: nat where "MIN_ENVELOPE_SIZE = 71"

definition compress_pubkey :: "bytes \<Rightarrow> lazer_fault + bytes" where
  "compress_pubkey uncompressed =
     and_then (lazer_get_byte uncompressed 64) (\<lambda>y_last_byte.
     let prefix = (if y_last_byte AND 1 = 0 then 2 else 3) in
     and_then (get_array (Fail TruncatedData) uncompressed 1 32) (\<lambda>x.
     Inr (prefix # x)))"

definition verify_update_envelope ::
  "(bytes \<Rightarrow> bytes) \<Rightarrow> (bytes \<Rightarrow> bytes \<Rightarrow> u32 \<Rightarrow> bytes option) \<Rightarrow> bytes \<Rightarrow> 'addr lazer_env \<Rightarrow>
   lazer_fault + bytes \<times> 'addr lazer_env" where
  "verify_update_envelope keccak256 recover data env =
     (let len = length data in
      if len < MIN_ENVELOPE_SIZE then Inl (Fail TruncatedData)
      else
      and_then (read_le_u32 data 0) (\<lambda>magic.
      if magic \<noteq> LE_ECDSA_FORMAT_MAGIC then Inl (Fail InvalidMagic)
      else
      and_then (get_array (Fail TruncatedData) data 4 64) (\<lambda>signature.
      and_then (lazer_get_byte data 68) (\<lambda>b.
      let recovery_id = ucast b :: u32 in
      if 3 < recovery_id then Inl (Fail InvalidRecoveryId)
      else
      and_then (read_le_u16 data 69) (\<lambda>n.
      let payload_len = unat n; payload_start = 71; expected_end = payload_start + payload_len in
      if expected_end \<noteq> len then Inl (Fail InvalidPayloadLength)
      else
      let payload = slice data payload_start expected_end;
          hash = keccak256 payload
      in
      and_then (or_trap (recover hash signature recovery_id)) (\<lambda>uncompressed_pubkey.
      and_then (compress_pubkey uncompressed_pubkey) (\<lambda>compressed_pubkey.
      and_then (get_trusted_signer_expiry compressed_pubkey env) (\<lambda>(found, env).
      and_then (ok_or (Fail SignerNotTrusted) found) (\<lambda>expires_at.
      if expires_at \<le> lz_timestamp env then Inl (Fail SignerExpired)
      else Inr (payload, env))))))))))"

section \<open>Entry points (lib.rs)\<close>

text \<open>
  \<open>authorized a\<close> says whether the invocation carries the authorization of address \<open>a\<close>; the host
  traps in \<^verbatim>\<open>require_auth\<close> when it does not.  \<open>installed\<close> says which code hashes exist.
\<close>

definition lazer_constructor ::
  "'addr \<Rightarrow> bytes option \<Rightarrow> u64 option \<Rightarrow> 'addr lazer_env \<Rightarrow> lazer_fault + 'addr lazer_env" where
  "lazer_constructor executor initial_signer initial_signer_expires_at env =
     (if has_executor env then Inl (Fail AlreadyInitialized)
      else
      let env = set_executor executor env in
      and_then
        (case (initial_signer, initial_signer_expires_at) of
           (Some pubkey, Some expires_at) \<Rightarrow> set_trusted_signer pubkey expires_at env
         | _ \<Rightarrow> Inr env) (\<lambda>env.
      Inr (extend_lazer_instance_ttl env)))"

definition verify_update ::
  "(bytes \<Rightarrow> bytes) \<Rightarrow> (bytes \<Rightarrow> bytes \<Rightarrow> u32 \<Rightarrow> bytes option) \<Rightarrow> bytes \<Rightarrow> 'addr lazer_env \<Rightarrow>
   lazer_fault + bytes \<times> 'addr lazer_env" where
  "verify_update keccak256 recover data env =
     verify_update_envelope keccak256 recover data (extend_lazer_instance_ttl env)"

definition update_trusted_signer ::
  "('addr \<Rightarrow> bool) \<Rightarrow> bytes \<Rightarrow> u64 \<Rightarrow> 'addr lazer_env \<Rightarrow> lazer_fault + 'addr lazer_env" where
  "update_trusted_signer authorized pubkey expires_at env =
     and_then (get_executor env) (\<lambda>executor.
     if \<not> authorized executor then Inl Trap
     else
     and_then (set_trusted_signer pubkey expires_at env) (\<lambda>env.
     Inr (extend_lazer_instance_ttl env)))"

definition list_trusted_signers ::
  "'addr lazer_env \<Rightarrow> lazer_fault + (bytes \<times> u64) list \<times> 'addr lazer_env" where
  "list_trusted_signers env = list_trusted_signers_state (extend_lazer_instance_ttl env)"

definition upgrade ::
  "('addr \<Rightarrow> bool) \<Rightarrow> (bytes \<Rightarrow> bool) \<Rightarrow> bytes \<Rightarrow> 'addr lazer_env \<Rightarrow> lazer_fault + 'addr lazer_env" where
  "upgrade authorized installed new_wasm_hash env =
     and_then (get_executor env) (\<lambda>executor.
     if \<not> authorized executor then Inl Trap
     else if \<not> installed new_wasm_hash then Inl Trap
     else Inr (env\<lparr>lz_wasm := new_wasm_hash\<rparr>))"

section \<open>The signer map is a registry\<close>

definition signers_inv :: "'addr lazer_env \<Rightarrow> bool" where
  "signers_inv env \<longleftrightarrow> smap_inv (get_trusted_signers env)"

definition signer_expiry :: "'addr lazer_env \<Rightarrow> bytes \<Rightarrow> u64 option" where
  "signer_expiry env = smap_get (get_trusted_signers env)"

lemma extend_trusted_signers_Inr:
  assumes "extend_trusted_signers_ttl env = Inr env'"
  shows "get_trusted_signers env' = get_trusted_signers env" and "lz_timestamp env' = lz_timestamp env"
    and "lz_executor env' = lz_executor env"
  using assms
  by (auto simp: extend_trusted_signers_ttl_def get_trusted_signers_def signers_entry_def extended_def
      LAZER_TTL_EXTEND_TO_def split: if_splits)

lemma extend_trusted_signers_total:
  "smap_get (get_trusted_signers env) k = Some e \<Longrightarrow> \<exists>env'. extend_trusted_signers_ttl env = Inr env'"
  by (cases "signers_entry env") (simp_all add: extend_trusted_signers_ttl_def get_trusted_signers_def)

lemma put_trusted_signers_Inr:
  assumes "put_trusted_signers m env = Inr env'"
  shows "get_trusted_signers env' = m" and "lz_executor env' = lz_executor env"
proof -
  let ?e = "env\<lparr>lz_trusted_signers := Some m,
      lz_signers_ttl := (if 0 < lz_signers_ttl env then lz_signers_ttl env else lz_min_ttl env)\<rparr>"
  have x: "extend_trusted_signers_ttl ?e = Inr env'"
    using assms by (simp add: put_trusted_signers_def)
  then have "signers_entry ?e \<noteq> None"
    by (auto simp: extend_trusted_signers_ttl_def split: if_splits)
  then have "get_trusted_signers ?e = m"
    by (auto simp: get_trusted_signers_def signers_entry_def split: if_splits)
  with extend_trusted_signers_Inr [OF x] show "get_trusted_signers env' = m" "lz_executor env' = lz_executor env"
    by simp_all
qed

lemma instance_ttl_signers [simp]:
  "get_trusted_signers (extend_lazer_instance_ttl env) = get_trusted_signers env"
  "signers_entry (extend_lazer_instance_ttl env) = signers_entry env"
  "lz_timestamp (extend_lazer_instance_ttl env) = lz_timestamp env"
  "lz_executor (extend_lazer_instance_ttl env) = lz_executor env"
  by (simp_all add: extend_lazer_instance_ttl_def get_trusted_signers_def signers_entry_def)

lemma update_trusted_signer_Inr:
  assumes "update_trusted_signer authorized k e env = Inr env'"
  shows "get_trusted_signers env' = (if e = 0 then smap_remove k (get_trusted_signers env)
           else smap_set k e (get_trusted_signers env))"
    and "\<exists>a. lz_executor env = Some a \<and> authorized a"
  using assms
  by (auto simp: update_trusted_signer_def set_trusted_signer_def get_executor_def Let_def
      dest: put_trusted_signers_Inr(1) split: if_splits)

lemma signer_expiry_instance_ttl [simp]: "signer_expiry (extend_lazer_instance_ttl env) = signer_expiry env"
  by (simp add: signer_expiry_def)

lemma signer_expiry_timestamp [simp]: "signer_expiry (env\<lparr>lz_timestamp := t\<rparr>) = signer_expiry env"
  by (cases "0 < lz_signers_ttl env") (simp_all add: signer_expiry_def get_trusted_signers_def signers_entry_def)

interpretation stellar_signers: signer_registry signers_inv signer_expiry "update_trusted_signer authorized"
  for authorized
proof
  fix s s' :: "'a lazer_env" and k e
  assume inv: "signers_inv s" and u: "update_trusted_signer authorized k e s = Inr s'"
  note m = update_trusted_signer_Inr(1) [OF u]
  show "signers_inv s'"
    using inv by (simp add: signers_inv_def m smap_inv_remove smap_inv_set)
  show "signer_expiry s' = (signer_expiry s)(k := if e = 0 then None else Some e)"
    using inv by (simp add: signers_inv_def signer_expiry_def m smap_get_remove smap_get_set)
qed

section \<open>What a verified update is\<close>

definition encode_envelope :: "bytes \<Rightarrow> u8 \<Rightarrow> bytes \<Rightarrow> bytes" where
  "encode_envelope signature rid payload =
     put_uint LE 4 LE_ECDSA_FORMAT_MAGIC @ signature @ [rid] @
     put_uint LE 2 (word_of_nat (length payload) :: u16) @ payload"

lemma lazer_get_byte_eq:
  "lazer_get_byte data i = (if i < length data then Inr (data ! i) else Inl (Fail TruncatedData))"
  by (simp add: lazer_get_byte_def lazer_or_truncated_def bytes_get_def)

lemma read_le_u16_eq:
  "read_le_u16 data off =
     (if off + 2 \<le> length data then Inr (get_uint LE (take 2 (drop off data))) else Inl (Fail TruncatedData))"
  by (auto simp: read_le_u16_def lazer_get_byte_eq get_uint.simps numeral_2_eq_2 take_drop_Suc)

lemma read_le_u32_eq:
  "read_le_u32 data off =
     (if off + 4 \<le> length data then Inr (get_uint LE (take 4 (drop off data))) else Inl (Fail TruncatedData))"
proof (cases "off + 4 \<le> length data")
  case True
  then have "take 4 (drop off data) = [data ! off, data ! (off + 1), data ! (off + 2), data ! (off + 3)]"
    by (simp add: eval_nat_numeral take_drop_Suc)
  with True show ?thesis
    by (simp add: read_le_u32_def lazer_get_byte_eq get_uint.simps push_bit_or push_bit_push_bit ac_simps)
qed (auto simp: read_le_u32_def lazer_get_byte_eq)

lemma envelope_split:
  assumes "71 \<le> length data"
  shows "data = take 4 data @ take 64 (drop 4 data) @ [data ! 68] @ take 2 (drop 69 data) @ drop 71 data"
proof -
  have "data ! 68 # drop 69 data = drop 68 data"
    using assms Cons_nth_drop_Suc [of 68 data] by simp
  then show ?thesis
    using append_take_drop_id [of 4 data] append_take_drop_id [of 64 "drop 4 data"]
      append_take_drop_id [of 2 "drop 69 data"] by simp
qed

text \<open>The checks of the envelope, before any host function is called.\<close>

definition envelope_ok :: "bytes \<Rightarrow> bool" where
  "envelope_ok data \<longleftrightarrow> 71 \<le> length data \<and> get_uint LE (take 4 data) = LE_ECDSA_FORMAT_MAGIC \<and>
     data ! 68 \<le> 3 \<and> 71 + unat (get_uint LE (take 2 (drop 69 data)) :: u16) = length data"

lemma envelope_ok_iff:
  "envelope_ok data \<longleftrightarrow> (\<exists>sg rid p. length sg = 64 \<and> rid \<le> 3 \<and> length p < 65536 \<and> data = encode_envelope sg rid p)"
proof
  assume ok: "envelope_ok data"
  let ?n = "get_uint LE (take 2 (drop 69 data)) :: u16"
  have len: "71 \<le> length data" "unat ?n = length (drop 71 data)"
    using ok by (auto simp: envelope_ok_def)
  have "put_uint LE 4 LE_ECDSA_FORMAT_MAGIC = take 4 data"
    using ok put_get_uint [of "take 4 data" 4 LE, where 'a = 32] by (simp add: envelope_ok_def)
  moreover have "put_uint LE 2 ?n = take 2 (drop 69 data)"
    using len by (intro put_get_uint) simp_all
  moreover have "?n = word_of_nat (length (drop 71 data))"
    unfolding len(2) [symmetric] by simp
  ultimately have "data = encode_envelope (take 64 (drop 4 data)) (data ! 68) (drop 71 data)"
    using envelope_split [OF len(1)] by (simp add: encode_envelope_def)
  moreover have "length (drop 71 data) < 65536"
    unfolding len(2) [symmetric] by (rule order_less_le_trans [OF unsigned_less]) simp
  moreover have "length (take 64 (drop 4 data)) = 64" using len(1) by simp
  moreover have "data ! 68 \<le> 3" using ok by (simp add: envelope_ok_def)
  ultimately show "\<exists>sg rid p. length sg = 64 \<and> rid \<le> 3 \<and> length p < 65536 \<and> data = encode_envelope sg rid p"
    by blast
next
  assume "\<exists>sg rid p. length sg = 64 \<and> rid \<le> 3 \<and> length p < 65536 \<and> data = encode_envelope sg rid p"
  then show "envelope_ok data"
    by (auto simp: envelope_ok_def encode_envelope_def nth_append get_put_uint unat_of_nat take_bit_nat_eq_self)
qed

lemma ucast_le_3: "(ucast (b :: u8) :: u32) \<le> 3 \<longleftrightarrow> b \<le> 3"
  using uint_range_upper [of b] by (simp add: word_le_def unsigned_ucast_eq take_bit_int_eq_self)

lemma verify_update_envelope_Inr:
  "verify_update_envelope kec rec data env = Inr (p, env') \<longleftrightarrow>
     (\<exists>pk cpk e. envelope_ok data \<and> p = drop 71 data \<and>
        rec (kec p) (take 64 (drop 4 data)) (ucast (data ! 68)) = Some pk \<and> compress_pubkey pk = Inr cpk \<and>
        signer_expiry env cpk = Some e \<and> lz_timestamp env < e \<and> extend_trusted_signers_ttl env = Inr env')"
  (is "?l \<longleftrightarrow> ?r")
proof
  assume l: ?l
  then have len: "71 \<le> length data" and magic: "get_uint LE (take 4 data) = LE_ECDSA_FORMAT_MAGIC"
    and rid: "\<not> 3 < (ucast (data ! 68) :: u32)"
    and n: "71 + unat (get_uint LE (take 2 (drop 69 data)) :: u16) = length data"
    by (simp_all add: verify_update_envelope_def Let_def read_le_u32_eq read_le_u16_eq lazer_get_byte_eq
        MIN_ENVELOPE_SIZE_def split: if_splits)
  then have ok: "envelope_ok data"
    by (simp add: envelope_ok_def not_less ucast_le_3)
  let ?p = "drop 71 data"
  from l len magic rid n obtain pk cpk e env1 where
    r: "p = ?p" "rec (kec ?p) (take 64 (drop 4 data)) (ucast (data ! 68)) = Some pk" "compress_pubkey pk = Inr cpk"
    "get_trusted_signer_expiry cpk env = Inr (Some e, env1)" "lz_timestamp env1 < e" "env' = env1"
    by (auto simp: verify_update_envelope_def Let_def read_le_u32_eq read_le_u16_eq lazer_get_byte_eq
        MIN_ENVELOPE_SIZE_def slice_def not_le split: if_splits)
  have "signer_expiry env cpk = Some e" "extend_trusted_signers_ttl env = Inr env1"
    using r(4) by (auto simp: get_trusted_signer_expiry_def signer_expiry_def Let_def)
  then show ?r
    using ok r extend_trusted_signers_Inr(2) by metis
next
  assume ?r
  then obtain pk cpk e where r: "envelope_ok data" "p = drop 71 data"
    "rec (kec p) (take 64 (drop 4 data)) (ucast (data ! 68)) = Some pk" "compress_pubkey pk = Inr cpk"
    "smap_get (get_trusted_signers env) cpk = Some e" "lz_timestamp env < e" "extend_trusted_signers_ttl env = Inr env'"
    unfolding signer_expiry_def by blast
  have "\<not> 3 < (ucast (data ! 68) :: u32)" "\<not> e \<le> lz_timestamp env'"
    using r(1,6) extend_trusted_signers_Inr(2) [OF r(7)] by (simp_all add: envelope_ok_def not_less ucast_le_3 not_le)
  with r show ?l
    by (simp add: verify_update_envelope_def Let_def read_le_u32_eq read_le_u16_eq lazer_get_byte_eq
        envelope_ok_def MIN_ENVELOPE_SIZE_def get_trusted_signer_expiry_def slice_def or_trap_def)
qed

lemma encode_envelope_parts:
  "length sg = 64 \<Longrightarrow> drop 71 (encode_envelope sg rid p) = p"
  "length sg = 64 \<Longrightarrow> take 64 (drop 4 (encode_envelope sg rid p)) = sg"
  "length sg = 64 \<Longrightarrow> encode_envelope sg rid p ! 68 = rid"
  by (simp_all add: encode_envelope_def nth_append)

lemma verify_update_Inr_iff:
  "verify_update kec rec data env = Inr (p, env') \<longleftrightarrow>
     (\<exists>sg rid pk cpk e. length sg = 64 \<and> rid \<le> 3 \<and> length p < 65536 \<and> data = encode_envelope sg rid p \<and>
        rec (kec p) sg (ucast rid) = Some pk \<and> compress_pubkey pk = Inr cpk \<and>
        signer_expiry env cpk = Some e \<and> lz_timestamp env < e \<and>
        extend_trusted_signers_ttl (extend_lazer_instance_ttl env) = Inr env')"
  (is "_ \<longleftrightarrow> ?r")
proof
  assume "verify_update kec rec data env = Inr (p, env')"
  then obtain pk cpk e where ok: "envelope_ok data" and v: "p = drop 71 data"
      "rec (kec p) (take 64 (drop 4 data)) (ucast (data ! 68)) = Some pk" "compress_pubkey pk = Inr cpk"
      "signer_expiry env cpk = Some e" "lz_timestamp env < e"
      "extend_trusted_signers_ttl (extend_lazer_instance_ttl env) = Inr env'"
    unfolding verify_update_def verify_update_envelope_Inr signer_expiry_instance_ttl instance_ttl_signers by blast
  from ok obtain sg rid q where d: "length sg = 64" "rid \<le> 3" "length q < 65536" "data = encode_envelope sg rid q"
    unfolding envelope_ok_iff by blast
  have "p = q" "take 64 (drop 4 data) = sg" "data ! 68 = rid"
    using v(1) encode_envelope_parts [OF d(1), of rid q] by (simp_all add: d(4))
  with v d show ?r by blast
next
  assume ?r
  then obtain sg rid pk cpk e where r: "length sg = 64" "rid \<le> 3" "length p < 65536" "data = encode_envelope sg rid p"
    "rec (kec p) sg (ucast rid) = Some pk" "compress_pubkey pk = Inr cpk" "signer_expiry env cpk = Some e"
    "lz_timestamp env < e" "extend_trusted_signers_ttl (extend_lazer_instance_ttl env) = Inr env'"
    by blast
  have "envelope_ok data" unfolding envelope_ok_iff using r(1-4) by blast
  then show "verify_update kec rec data env = Inr (p, env')"
    unfolding verify_update_def verify_update_envelope_Inr
    using r(5-9) encode_envelope_parts [OF r(1), of rid p] by (auto simp: r(4) signer_expiry_def)
qed

lemma push_all_append: "push_all m acc = acc @ m"
  by (induction m acc rule: push_all.induct) simp_all

section \<open>Properties\<close>

text \<open>C9: Exact acceptance of updates on Stellar.  The contract returns a payload if and only if the
  data is the envelope of that payload with a 64-byte signature and a recovery id of at most 3, and
  the key recovered from the hash of the payload compresses to a trusted signer that has not
  expired.\<close>

theorem stellar_verify_update_exact:
  "(\<exists>env'. verify_update keccak256 recover data env = Inr (payload, env')) \<longleftrightarrow>
     (\<exists>sg rid pk cpk e. length sg = 64 \<and> rid \<le> 3 \<and> length payload < 65536 \<and>
        data = encode_envelope sg rid payload \<and>
        recover (keccak256 payload) sg (ucast rid) = Some pk \<and> compress_pubkey pk = Inr cpk \<and>
        signer_expiry env cpk = Some e \<and> lz_timestamp env < e)"
proof -
  have "signer_expiry env cpk = Some e \<Longrightarrow>
      \<exists>env'. extend_trusted_signers_ttl (extend_lazer_instance_ttl env) = Inr env'" for cpk e
    using extend_trusted_signers_total [of "extend_lazer_instance_ttl env"] by (simp add: signer_expiry_def)
  then show ?thesis
    unfolding verify_update_Inr_iff by blast
qed

text \<open>Revocation.  After any sequence of accepted signer updates in which the last one for a key
  sets its expiry to zero, no update whose signature recovers to that key is verified, whatever the
  clock says.\<close>

theorem stellar_revoked_signer_rejected:
  assumes "signers_inv env" and "stellar_signers.updates authorized us env = Inr env'"
    and "map_of (rev us) k = Some 0"
    and "recover (keccak256 payload) sg (ucast rid) = Some pk" and "compress_pubkey pk = Inr k" and "length sg = 64"
  shows "\<not> is_ok (verify_update keccak256 recover (encode_envelope sg rid payload) (env'\<lparr>lz_timestamp := t\<rparr>))"
proof
  assume "is_ok (verify_update keccak256 recover (encode_envelope sg rid payload) (env'\<lparr>lz_timestamp := t\<rparr>))"
  then obtain p env2 where
    "verify_update keccak256 recover (encode_envelope sg rid payload) (env'\<lparr>lz_timestamp := t\<rparr>) = Inr (p, env2)"
    by (auto simp: is_ok_iff)
  then obtain sg' rid' pk' k' e where
    v: "encode_envelope sg rid payload = encode_envelope sg' rid' p" "length sg' = 64"
    "recover (keccak256 p) sg' (ucast rid') = Some pk'" "compress_pubkey pk' = Inr k'"
    "signer_expiry (env'\<lparr>lz_timestamp := t\<rparr>) k' = Some e"
    unfolding verify_update_Inr_iff by blast
  have "sg' = sg" "rid' = rid" "p = payload"
    using v(1) encode_envelope_parts [OF v(2), of rid' p] encode_envelope_parts [OF assms(6), of rid payload] by auto
  then have "signer_expiry env' k = Some e"
    using v(3-5) assms(4,5) by simp
  with stellar_signers.removed_not_found [OF assms(1-3)] show False by simp
qed

definition demo_lazer :: "nat lazer_env" where
  "demo_lazer = \<lparr>lz_timestamp = 100, lz_min_ttl = 4096, lz_executor = Some 1, lz_instance_ttl = 4096,
     lz_trusted_signers = Some [(2 # replicate 32 0, 200)], lz_signers_ttl = 4096, lz_wasm = []\<rparr>"

theorem stellar_revoked_signer_rejected_witness:
  "\<exists>env'. stellar_signers.updates (\<lambda>a. a = 1) [(2 # replicate 32 0, 300), (2 # replicate 32 0, 0)] demo_lazer = Inr env' \<and>
     \<not> is_ok (verify_update (\<lambda>x. x) (\<lambda>h s r. Some (4 # s)) (encode_envelope (replicate 64 0) 0 [1, 2]) env')"
proof -
  let ?us = "[(2 # replicate 32 0, 300), (2 # replicate 32 0, 0)] :: (bytes \<times> u64) list"
  obtain env' where env': "stellar_signers.updates (\<lambda>a. a = 1) ?us demo_lazer = Inr env'"
    by (simp add: stellar_signers.updates.simps update_trusted_signer_def get_executor_def set_trusted_signer_def
        put_trusted_signers_def extend_trusted_signers_ttl_def signers_entry_def get_trusted_signers_def demo_lazer_def
        extend_lazer_instance_ttl_def extended_def LAZER_TTL_THRESHOLD_def LAZER_TTL_EXTEND_TO_def)
  have inv: "signers_inv demo_lazer"
    by (simp add: signers_inv_def demo_lazer_def get_trusted_signers_def signers_entry_def smap_inv_def)
  have key: "compress_pubkey (4 # replicate 64 0) = Inr (2 # replicate 32 0)"
    by (simp add: compress_pubkey_def lazer_get_byte_eq take_replicate drop_replicate)
  have "env' = env'\<lparr>lz_timestamp := lz_timestamp env'\<rparr>" by simp
  then show ?thesis
    using env' stellar_revoked_signer_rejected [OF inv env', of "2 # replicate 32 0"
        "\<lambda>h s r. Some (4 # s)" "\<lambda>x. x" "[1, 2]" "replicate 64 0" 0 "4 # replicate 64 0" "lz_timestamp env'"] key
    by auto
qed

text \<open>Access control on Stellar.  The signer map and the contract's code change only in an
  invocation that carries the authorization of the executor stored at construction; the listing
  returns the entries in key order, each signer with the expiry a lookup gives.\<close>

theorem stellar_access_control:
  "(is_ok (update_trusted_signer authorized k e env) \<longrightarrow> (\<exists>a. lz_executor env = Some a \<and> authorized a)) \<and>
   (is_ok (upgrade authorized installed w env) \<longrightarrow> (\<exists>a. lz_executor env = Some a \<and> authorized a)) \<and>
   (lz_executor env \<noteq> None \<longrightarrow> lazer_constructor a ik ie env = Inl (Fail AlreadyInitialized)) \<and>
   (signers_inv env \<longrightarrow> (\<exists>l env'. list_trusted_signers env = Inr (l, env') \<and> sorted_wrt (<) (map fst l) \<and>
      (\<forall>k e. (k, e) \<in> set l \<longleftrightarrow> signer_expiry env k = Some e)))"
proof (intro conjI impI)
  show "\<exists>a. lz_executor env = Some a \<and> authorized a" if "is_ok (update_trusted_signer authorized k e env)"
    using that update_trusted_signer_Inr(2) by (auto simp: is_ok_iff)
  show "\<exists>a. lz_executor env = Some a \<and> authorized a" if "is_ok (upgrade authorized installed w env)"
    using that by (auto simp: is_ok_iff upgrade_def get_executor_def split: if_splits)
  show "lazer_constructor a ik ie env = Inl (Fail AlreadyInitialized)" if "lz_executor env \<noteq> None"
    using that by (simp add: lazer_constructor_def has_executor_def)
next
  assume inv: "signers_inv env"
  let ?m = "get_trusted_signers env"
  have "?m \<noteq> [] \<Longrightarrow> \<exists>e. extend_trusted_signers_ttl (extend_lazer_instance_ttl env) = Inr e"
    by (auto simp: extend_trusted_signers_ttl_def get_trusted_signers_def split: option.splits)
  then obtain env' where "list_trusted_signers env = Inr (?m, env')"
    by (cases "?m = []") (auto simp: list_trusted_signers_def list_trusted_signers_state_def push_all_append)
  moreover have "sorted_wrt (<) (map fst ?m)" "\<forall>k e. (k, e) \<in> set ?m \<longleftrightarrow> signer_expiry env k = Some e"
    using inv smap_entries [of ?m] by (simp_all add: signers_inv_def smap_inv_def signer_expiry_def)
  ultimately show "\<exists>l env'. list_trusted_signers env = Inr (l, env') \<and> sorted_wrt (<) (map fst l) \<and>
      (\<forall>k e. (k, e) \<in> set l \<longleftrightarrow> signer_expiry env k = Some e)" by blast
qed

theorem stellar_access_control_witness:
  "\<not> is_ok (update_trusted_signer (\<lambda>a. a = 2) [5] 7 demo_lazer) \<and>
   (\<exists>l env'. list_trusted_signers demo_lazer = Inr (l, env') \<and> sorted_wrt (<) (map fst l))"
proof -
  have "signers_inv demo_lazer"
    by (simp add: signers_inv_def demo_lazer_def get_trusted_signers_def signers_entry_def smap_inv_def)
  moreover have "lz_executor demo_lazer \<noteq> Some 2" by (simp add: demo_lazer_def)
  ultimately show ?thesis
    using stellar_access_control [of "\<lambda>a. a = 2" "[5]" 7 demo_lazer] by blast
qed

end
