(* ===== verification/Stellar_System.thy ===== *)
theory Stellar_System
  imports Executor_Contract Lazer_Stellar
begin

text \<open>
  The two contracts on Stellar together: the executor calls the verifier contract
  (\<^verbatim>\<open>wormhole-executor-stellar/src/lib.rs\<close> calls \<^verbatim>\<open>pyth-lazer-stellar/src/lib.rs\<close>), and
  everybody else may call both.  The theory models how a call reaches a function of the verifier, the
  histories of the deployed system, and shows that the trusted signers are at every moment what the executed
  governance actions say.
\<close>

section \<open>Calls of the verifier contract\<close>

text \<open>
  The values that the functions of the verifier take and return; \<open>SC_Other\<close> is any other host value.
\<close>

datatype 'addr scval =
    SC_Void | SC_U64 u64 | SC_Bytes bytes | SC_Address 'addr | SC_Vec "'addr scval list" | SC_Other bytes

text \<open>The bytes of the name of a function.\<close>

definition fn_name :: "string \<Rightarrow> bytes" where "fn_name = map of_char"

lemma fn_name_eq_iff [simp]: "fn_name a = fn_name b \<longleftrightarrow> a = b"
proof -
  have "c = d" if "(of_char c :: u8) = of_char d" for c d
  proof -
    have "unat (of_char c :: u8) = of_char c" for c
    proof -
      have "(of_char c :: u8) = of_nat (of_char c)" by (simp only: of_nat_of_char)
      then show ?thesis by (simp add: unat_of_nat)
    qed
    with that show "c = d" by (metis of_char_eq_iff)
  qed
  then have "inj (of_char :: char \<Rightarrow> u8)" by (rule injI)
  then show ?thesis by (simp add: fn_name_def inj_map_eq_map)
qed

text \<open>
  The exported functions.  The conversions of arguments trap on a wrong number or type, among them the lengths
  of \<^verbatim>\<open>BytesN\<close>; a name that is not exported traps, and the constructor cannot be called by name.
\<close>

definition lazer_invoke ::
  "(bytes \<Rightarrow> bytes) \<Rightarrow> (bytes \<Rightarrow> bytes \<Rightarrow> u32 \<Rightarrow> bytes option) \<Rightarrow> ('addr \<Rightarrow> bool) \<Rightarrow> (bytes \<Rightarrow> bool) \<Rightarrow>
   bytes \<Rightarrow> 'addr scval list \<Rightarrow> 'addr lazer_env \<Rightarrow> lazer_fault + 'addr scval \<times> 'addr lazer_env" where
  "lazer_invoke keccak256 recover authorized installed f args env =
     (if f = fn_name ''verify_update'' then
        case args of
          [SC_Bytes data] \<Rightarrow> map_ok (\<lambda>(payload, env). (SC_Bytes payload, env)) (verify_update keccak256 recover data env)
        | _ \<Rightarrow> Inl Trap
      else if f = fn_name ''update_trusted_signer'' then
        case args of
          [SC_Bytes pubkey, SC_U64 expires_at] \<Rightarrow>
            if length pubkey = 33
            then map_ok (\<lambda>env. (SC_Void, env)) (update_trusted_signer authorized pubkey expires_at env)
            else Inl Trap
        | _ \<Rightarrow> Inl Trap
      else if f = fn_name ''list_trusted_signers'' then
        case args of
          [] \<Rightarrow> map_ok (\<lambda>(l, env). (SC_Vec (map (\<lambda>(k, e). SC_Vec [SC_Bytes k, SC_U64 e]) l), env))
                  (list_trusted_signers env)
        | _ \<Rightarrow> Inl Trap
      else if f = fn_name ''upgrade'' then
        case args of
          [SC_Bytes hash] \<Rightarrow>
            if length hash = 32 then map_ok (\<lambda>env. (SC_Void, env)) (upgrade authorized installed hash env)
            else Inl Trap
        | _ \<Rightarrow> Inl Trap
      else Inl Trap)"

section \<open>Histories of the system\<close>

text \<open>
  The state of the two contracts, and the executed actions: the storage of the executor before the action, the
  bytes of its VAA and the effect.
\<close>

type_synonym 'addr action_log = "(executor_env \<times> bytes \<times> ('addr, bytes, 'addr scval) effect) list"

record 'addr system =
  sys_executor :: executor_env
  sys_lazer :: "'addr lazer_env"
  sys_log :: "'addr action_log"

text \<open>
  A call by the executor carries the authorization of the executor's address, implicitly, and of the
  addresses \<open>others\<close> that signed the transaction.  The executor expects a call to return nothing
  (\<^verbatim>\<open>invoke_contract::<()>\<close>) and traps when the called function fails or returns a value.
\<close>

definition executor_call ::
  "('addr, bytes, 'addr scval) host \<Rightarrow> ('addr \<Rightarrow> bool) \<Rightarrow> bytes \<Rightarrow> 'addr scval list \<Rightarrow> 'addr lazer_env \<Rightarrow>
   'addr lazer_env option" where
  "executor_call host others f args lz =
     (case lazer_invoke (h_keccak256 host) (h_recover host) (\<lambda>a. a = h_self host \<or> others a)
             (h_wasm_installed host) f args lz of
        Inr (SC_Void, lz') \<Rightarrow> Some lz'
      | _ \<Rightarrow> None)"

definition system_host ::
  "('addr, bytes, 'addr scval) host \<Rightarrow> 'addr \<Rightarrow> ('addr \<Rightarrow> bool) \<Rightarrow> 'addr lazer_env \<Rightarrow>
   ('addr, bytes, 'addr scval) host" where
  "system_host host lazer others lz =
     host\<lparr>h_invoke := \<lambda>a f args. if a = lazer then executor_call host others f args lz \<noteq> None
                                else h_invoke host a f args\<rparr>"

fun lazer_after ::
  "('addr, bytes, 'addr scval) host \<Rightarrow> 'addr \<Rightarrow> ('addr \<Rightarrow> bool) \<Rightarrow> ('addr, bytes, 'addr scval) effect \<Rightarrow>
   'addr lazer_env \<Rightarrow> 'addr lazer_env" where
  "lazer_after host lazer others (InvokeContract a f args) lz =
     (if a = lazer then (case executor_call host others f args lz of Some lz' \<Rightarrow> lz' | None \<Rightarrow> lz) else lz)"
| "lazer_after host lazer others (UpdateCurrentContractWasm w) lz = lz"

text \<open>
  One governance action on the system: the executor runs with the verifier behind its cross-contract call.
\<close>

definition govern_system ::
  "('addr, bytes, 'addr scval) host \<Rightarrow> 'addr \<Rightarrow> ('addr \<Rightarrow> bool) \<Rightarrow> bytes \<Rightarrow> 'addr system \<Rightarrow>
   exec_fault + 'addr system" where
  "govern_system host lazer others data s =
     map_ok (\<lambda>(env, eff). s\<lparr>sys_executor := env, sys_lazer := lazer_after host lazer others eff (sys_lazer s),
                           sys_log := sys_log s @ [(sys_executor s, data, eff)]\<rparr>)
       (execute_governance_action (system_host host lazer others (sys_lazer s)) data (sys_executor s))"

text \<open>The histories end when governance replaces the code of a contract.\<close>

fun keeps_code :: "('addr, 'sym, 'arg) effect \<Rightarrow> bool" where
  "keeps_code (UpdateCurrentContractWasm w) = False"
| "keeps_code (InvokeContract a f args) = True"

definition original_code :: "bytes \<Rightarrow> 'addr system \<Rightarrow> bool" where
  "original_code code s \<longleftrightarrow> lz_wasm (sys_lazer s) = code \<and> list_all (\<lambda>(_, _, eff). keeps_code eff) (sys_log s)"

text \<open>
  While time passes no stored value changes; the entry of the signers may expire, unless it is kept alive.
\<close>

definition lazer_waits :: "bool \<Rightarrow> 'addr lazer_env \<Rightarrow> 'addr lazer_env \<Rightarrow> bool" where
  "lazer_waits alive lz lz' \<longleftrightarrow> lz_executor lz' = lz_executor lz \<and> lz_trusted_signers lz' = lz_trusted_signers lz \<and>
     lz_wasm lz' = lz_wasm lz \<and> (alive \<longrightarrow> lz_trusted_signers lz \<noteq> None \<longrightarrow> 0 < lz_signers_ttl lz')"

text \<open>The table of signers after the constructor.\<close>

fun initial_signers :: "bytes option \<Rightarrow> u64 option \<Rightarrow> bytes \<Rightarrow> u64 option" where
  "initial_signers (Some k) (Some e) = (if e = 0 then Map.empty else [k \<mapsto> e])"
| "initial_signers _ _ = Map.empty"

text \<open>
  The verifier is constructed with the address of an executor that already runs.  Then follow, in any order:
  upgrades of the guardian set, governance actions, calls of the verifier by transactions that do not carry
  the authorization of the executor (only the executor itself can give it), and waiting, with one clock
  for both contracts.
\<close>

inductive system_reachable ::
  "('addr, bytes, 'addr scval) host \<Rightarrow> 'addr \<Rightarrow> bytes \<Rightarrow> bool \<Rightarrow> (bytes \<Rightarrow> u64 option) \<Rightarrow> 'addr system \<Rightarrow> bool"
  for host lazer code alive init where
  deploy: "reachable (host\<lparr>h_invoke := \<lambda>_ _ _. True\<rparr>) h \<Longrightarrow> list_all (\<lambda>(_, eff). keeps_code eff) (hist_log h) \<Longrightarrow>
     lz_executor lz = None \<Longrightarrow> lz_trusted_signers lz = None \<Longrightarrow> lz_wasm lz = code \<Longrightarrow>
     lz_timestamp lz = timestamp (hist_env h) \<Longrightarrow> lazer_constructor (h_self host) ik ie lz = Inr lz' \<Longrightarrow>
     init = initial_signers ik ie \<Longrightarrow>
     system_reachable host lazer code alive init \<lparr>sys_executor = hist_env h, sys_lazer = lz', sys_log = []\<rparr>"
| guardians: "system_reachable host lazer code alive init s \<Longrightarrow> original_code code s \<Longrightarrow>
     update_guardian_set host data (sys_executor s) = Inr env' \<Longrightarrow>
     system_reachable host lazer code alive init (s\<lparr>sys_executor := env'\<rparr>)"
| action: "system_reachable host lazer code alive init s \<Longrightarrow> original_code code s \<Longrightarrow>
     govern_system host lazer others data s = Inr s' \<Longrightarrow> system_reachable host lazer code alive init s'"
| visit: "system_reachable host lazer code alive init s \<Longrightarrow> original_code code s \<Longrightarrow> \<not> authorized (h_self host) \<Longrightarrow>
     lazer_invoke (h_keccak256 host) (h_recover host) authorized (h_wasm_installed host) f args (sys_lazer s) =
       Inr (r, lz') \<Longrightarrow>
     system_reachable host lazer code alive init (s\<lparr>sys_lazer := lz'\<rparr>)"
| pause: "system_reachable host lazer code alive init s \<Longrightarrow> time_passes (sys_executor s) env' \<Longrightarrow>
     lazer_waits alive (sys_lazer s) lz' \<Longrightarrow> lz_timestamp lz' = timestamp env' \<Longrightarrow>
     system_reachable host lazer code alive init (s\<lparr>sys_executor := env', sys_lazer := lz'\<rparr>)"

section \<open>The specification: the table of signers that governance has decided\<close>

fun decided :: "'addr \<Rightarrow> ('addr, bytes, 'addr scval) effect \<Rightarrow> (bytes \<times> u64) option" where
  "decided lazer (InvokeContract a f [SC_Bytes k, SC_U64 e]) =
     (if a = lazer \<and> f = fn_name ''update_trusted_signer'' then Some (k, e) else None)"
| "decided lazer _ = None"

lemma decided_Some_iff [simp]:
  "decided lazer eff = Some (k, e) \<longleftrightarrow>
     eff = InvokeContract lazer (fn_name ''update_trusted_signer'') [SC_Bytes k, SC_U64 e]"
  by (cases "(lazer, eff)" rule: decided.cases) auto

fun decide :: "'addr \<Rightarrow> executor_env \<times> bytes \<times> ('addr, bytes, 'addr scval) effect \<Rightarrow>
    (bytes \<Rightarrow> u64 option) \<Rightarrow> bytes \<Rightarrow> u64 option" where
  "decide lazer (_, _, eff) t =
     (case decided lazer eff of None \<Rightarrow> t | Some (k, e) \<Rightarrow> t(k := if e = 0 then None else Some e))"

definition governed :: "'addr \<Rightarrow> (bytes \<Rightarrow> u64 option) \<Rightarrow> 'addr action_log \<Rightarrow> bytes \<Rightarrow> u64 option" where
  "governed lazer init log = fold (decide lazer) log init"

lemma governed_simps [simp]:
  "governed lazer init [] = init"
  "governed lazer init (log @ [a]) = decide lazer a (governed lazer init log)"
  by (simp_all add: governed_def)

text \<open>A trusted key is trusted since the start or since the last decision about it.\<close>

lemma governed_last:
  assumes "governed lazer init log k = Some e"
  shows "init k = Some e \<and> (\<forall>(_, _, eff) \<in> set log. \<forall>e'. decided lazer eff \<noteq> Some (k, e')) \<or>
    (\<exists>pre env data eff post. log = pre @ (env, data, eff) # post \<and> decided lazer eff = Some (k, e) \<and>
       (\<forall>(_, _, eff') \<in> set post. \<forall>e'. decided lazer eff' \<noteq> Some (k, e')))"
  using assms
proof (induction log rule: rev_induct)
  case (snoc a log)
  obtain env data eff where a: "a = (env, data, eff)" by (cases a)
  show ?case
  proof (cases "\<exists>e'. decided lazer eff = Some (k, e')")
    case True
    then have "decided lazer eff = Some (k, e)"
      using snoc.prems by (auto simp: a split: if_splits)
    then show ?thesis
      unfolding a by (intro disjI2 exI [of _ log] exI [of _ env] exI [of _ data] exI [of _ eff] exI [of _ "[]"]) simp
  next
    case False
    then have "governed lazer init log k = Some e"
      using snoc.prems by (auto simp: a split: option.splits if_splits)
    from snoc.IH [OF this] show ?thesis
    proof
      assume "\<exists>pre env data eff post. log = pre @ (env, data, eff) # post \<and> decided lazer eff = Some (k, e) \<and>
        (\<forall>(_, _, eff') \<in> set post. \<forall>e'. decided lazer eff' \<noteq> Some (k, e'))"
      then obtain pre env0 data0 eff0 post where *: "log = pre @ (env0, data0, eff0) # post"
        "decided lazer eff0 = Some (k, e)" "\<forall>(_, _, eff') \<in> set post. \<forall>e'. decided lazer eff' \<noteq> Some (k, e')"
        by blast
      then have "log @ [a] = pre @ (env0, data0, eff0) # (post @ [a])" by simp
      moreover have "\<forall>(_, _, eff') \<in> set (post @ [a]). \<forall>e'. decided lazer eff' \<noteq> Some (k, e')"
        using *(3) False by (auto simp: a)
      ultimately show ?thesis using *(2) by blast
    qed (use False in \<open>auto simp: a\<close>)
  qed
qed simp

section \<open>What a call changes\<close>

text \<open>The stored table of signers, whether its entry is alive or not.\<close>

definition stored_signers :: "'addr lazer_env \<Rightarrow> (bytes, u64) smap" where
  "stored_signers lz = (case lz_trusted_signers lz of Some m \<Rightarrow> m | None \<Rightarrow> [])"

lemma signers_of_stored:
  "get_trusted_signers lz = (if 0 < lz_signers_ttl lz then stored_signers lz else [])"
  by (simp add: get_trusted_signers_def signers_entry_def stored_signers_def)

text \<open>Nothing of the verifier changes but times to live.\<close>

definition same_signers :: "'addr lazer_env \<Rightarrow> 'addr lazer_env \<Rightarrow> bool" where
  "same_signers lz lz' \<longleftrightarrow> lz_executor lz' = lz_executor lz \<and> lz_trusted_signers lz' = lz_trusted_signers lz \<and>
     lz_timestamp lz' = lz_timestamp lz \<and> (0 < lz_signers_ttl lz \<longrightarrow> 0 < lz_signers_ttl lz')"

lemma same_signers_refl [simp]: "same_signers lz lz" "same_signers lz (extend_lazer_instance_ttl lz)"
  by (simp_all add: same_signers_def extend_lazer_instance_ttl_def)

lemma same_signers_extend:
  "extend_trusted_signers_ttl lz = Inr lz' \<Longrightarrow> same_signers lz lz'"
  by (auto simp: extend_trusted_signers_ttl_def same_signers_def extended_def LAZER_TTL_EXTEND_TO_def split: if_splits)

lemma same_signers_trans: "same_signers a b \<Longrightarrow> same_signers b c \<Longrightarrow> same_signers a c"
  by (simp add: same_signers_def)

lemma verify_update_same_signers:
  "verify_update kec rec data lz = Inr (p, lz') \<Longrightarrow> same_signers lz lz'"
  unfolding verify_update_Inr_iff using same_signers_extend same_signers_refl(2) same_signers_trans by blast

lemma list_same_signers: "list_trusted_signers lz = Inr (l, lz') \<Longrightarrow> same_signers lz lz'"
  by (auto simp: list_trusted_signers_def list_trusted_signers_state_def Let_def
      dest!: same_signers_extend intro: same_signers_trans [OF same_signers_refl(2)] split: if_splits)

lemma upgrade_same_signers:
  assumes "upgrade authorized installed h lz = Inr lz'"
  shows "same_signers lz lz'" and "\<exists>a. lz_executor lz = Some a \<and> authorized a"
  using assms by (auto simp: upgrade_def get_executor_def same_signers_def split: if_splits)

lemma put_trusted_signers_frame:
  assumes "put_trusted_signers m lz = Inr lz'"
  shows "lz_executor lz' = lz_executor lz \<and> lz_trusted_signers lz' = Some m \<and> lz_timestamp lz' = lz_timestamp lz \<and>
    0 < lz_signers_ttl lz'"
  using assms by (auto simp: put_trusted_signers_def extend_trusted_signers_ttl_def signers_entry_def extended_def
      LAZER_TTL_EXTEND_TO_def split: if_splits)

text \<open>The table after an update, from the part of the table that was alive.\<close>

definition signers_updated :: "bytes \<Rightarrow> u64 \<Rightarrow> 'addr lazer_env \<Rightarrow> 'addr lazer_env \<Rightarrow> bool" where
  "signers_updated k e lz lz' \<longleftrightarrow> lz_executor lz' = lz_executor lz \<and> lz_timestamp lz' = lz_timestamp lz \<and>
     0 < lz_signers_ttl lz' \<and> lz_trusted_signers lz' =
       Some (if e = 0 then smap_remove k (get_trusted_signers lz) else smap_set k e (get_trusted_signers lz))"

lemma set_trusted_signer_updates:
  "set_trusted_signer k e lz = Inr lz' \<Longrightarrow> signers_updated k e lz lz'"
  by (auto simp: set_trusted_signer_def Let_def signers_updated_def dest!: put_trusted_signers_frame)

lemma signers_updated_instance_ttl [simp]:
  "signers_updated k e lz (extend_lazer_instance_ttl lz') = signers_updated k e lz lz'"
  by (simp add: signers_updated_def extend_lazer_instance_ttl_def)

lemma update_trusted_signer_updates:
  assumes "update_trusted_signer authorized k e lz = Inr lz'"
  shows "signers_updated k e lz lz'" and "\<exists>a. lz_executor lz = Some a \<and> authorized a"
  using assms by (auto simp: update_trusted_signer_def get_executor_def dest!: set_trusted_signer_updates split: if_splits)

text \<open>
  A call changes the table only in an update, which has the authorization of the executor; every other call
  keeps it.
\<close>

lemma lazer_invoke_Inr:
  assumes "lazer_invoke kec rec authorized installed f args lz = Inr (r, lz')"
  shows "(\<exists>k e a. f = fn_name ''update_trusted_signer'' \<and> args = [SC_Bytes k, SC_U64 e] \<and>
             lz_executor lz = Some a \<and> authorized a \<and> signers_updated k e lz lz') \<or>
         f \<noteq> fn_name ''update_trusted_signer'' \<and> same_signers lz lz'"
  using assms unfolding lazer_invoke_def
  by (auto simp: map_ok_Inr_iff dest: verify_update_same_signers list_same_signers upgrade_same_signers
      update_trusted_signer_updates split: if_splits list.splits scval.splits)

lemma lazer_constructor_Inr:
  assumes "lazer_constructor ex ik ie lz = Inr lz'" and "lz_trusted_signers lz = None"
  shows "lz_executor lz' = Some ex" and "lz_timestamp lz' = lz_timestamp lz"
    and "smap_inv (stored_signers lz')" and "smap_get (stored_signers lz') = initial_signers ik ie"
    and "lz_trusted_signers lz' \<noteq> None \<longrightarrow> 0 < lz_signers_ttl lz'"
proof -
  show "lz_executor lz' = Some ex" "lz_timestamp lz' = lz_timestamp lz" "smap_inv (stored_signers lz')"
    "smap_get (stored_signers lz') = initial_signers ik ie" "lz_trusted_signers lz' \<noteq> None \<longrightarrow> 0 < lz_signers_ttl lz'"
    using assms
    by (cases ik; cases ie; auto simp: lazer_constructor_def set_executor_def extend_lazer_instance_ttl_def
        stored_signers_def signers_updated_def signers_of_stored smap_inv_def Let_def fun_eq_iff
        dest!: set_trusted_signer_updates split: if_splits)+
qed

section \<open>The table of signers in every history\<close>

definition table_ok :: "('addr, bytes, 'addr scval) host \<Rightarrow> 'addr \<Rightarrow> bool \<Rightarrow> (bytes \<Rightarrow> u64 option) \<Rightarrow> 'addr system \<Rightarrow> bool" where
  "table_ok host lazer alive init s \<longleftrightarrow>
     (let lz = sys_lazer s; t = smap_get (stored_signers lz); g = governed lazer init (sys_log s) in
      lz_executor lz = Some (h_self host) \<and> lz_timestamp lz = timestamp (sys_executor s) \<and>
      smap_inv (stored_signers lz) \<and> t \<subseteq>\<^sub>m g \<and>
      (alive \<longrightarrow> t = g \<and> (lz_trusted_signers lz \<noteq> None \<longrightarrow> 0 < lz_signers_ttl lz)))"

lemma table_ok_same_signers:
  assumes "table_ok host lazer alive init s" and "same_signers (sys_lazer s) lz'"
  shows "table_ok host lazer alive init (s\<lparr>sys_lazer := lz'\<rparr>)"
  using assms by (auto simp: table_ok_def same_signers_def stored_signers_def Let_def)

lemma map_le_upd: "t \<subseteq>\<^sub>m g \<Longrightarrow> t(k := v) \<subseteq>\<^sub>m g(k := v)"
  by (auto simp: map_le_def)

lemma map_le_SomeD: "t \<subseteq>\<^sub>m g \<Longrightarrow> t k = Some e \<Longrightarrow> g k = Some e"
  by (force simp: map_le_def)

lemma alive_signers_le: "smap_get (get_trusted_signers lz) \<subseteq>\<^sub>m smap_get (stored_signers lz)"
  by (simp add: signers_of_stored map_le_def dom_def)

lemma table_ok_updated:
  assumes ok: "table_ok host lazer alive init s" and upd: "signers_updated k e (sys_lazer s) lz'"
    and eff: "decided lazer eff = Some (k, e)"
  shows "table_ok host lazer alive init (s\<lparr>sys_lazer := lz', sys_log := sys_log s @ [(env, data, eff)]\<rparr>)"
proof -
  let ?lz = "sys_lazer s" and ?v = "if e = 0 then None else Some e" and ?g = "governed lazer init (sys_log s)"
  have inv: "smap_inv (get_trusted_signers ?lz)"
    using ok by (simp add: table_ok_def signers_of_stored Let_def) (simp add: smap_inv_def)
  then have t: "smap_get (stored_signers lz') = (smap_get (get_trusted_signers ?lz))(k := ?v)"
    "smap_inv (stored_signers lz')"
    using upd by (simp_all add: signers_updated_def stored_signers_def smap_get_set smap_get_remove smap_inv_set
        smap_inv_remove)
  have "smap_get (get_trusted_signers ?lz) \<subseteq>\<^sub>m ?g"
    using ok alive_signers_le [of ?lz] by (auto simp: table_ok_def Let_def intro: map_le_trans)
  moreover have "smap_get (get_trusted_signers ?lz) = ?g" if alive
    using ok that by (cases "lz_trusted_signers ?lz") (auto simp: table_ok_def Let_def signers_of_stored stored_signers_def)
  ultimately show ?thesis
    using ok upd eff t by (simp add: table_ok_def Let_def map_le_upd) (simp add: signers_updated_def)
qed

lemma table_ok_not_decided:
  assumes "table_ok host lazer alive init s" and "decided lazer eff = None"
  shows "table_ok host lazer alive init (s\<lparr>sys_log := sys_log s @ [(env, data, eff)]\<rparr>)"
  using assms by (simp add: table_ok_def)

lemma table_ok_executor:
  assumes "table_ok host lazer alive init s" and "timestamp env = timestamp (sys_executor s)"
  shows "table_ok host lazer alive init (s\<lparr>sys_executor := env\<rparr>)"
  using assms by (simp add: table_ok_def)

text \<open>The effect of an action that the executor has carried out on the verifier.\<close>

lemma dispatch_invokes:
  assumes "dispatch host act = Inr (InvokeContract a f args)"
  shows "h_invoke host a f args"
  using assms by (cases act) (auto split: if_splits)

lemma govern_system_Inr:
  assumes "govern_system host lazer others data s = Inr s'"
  obtains env' eff where
    "execute_governance_action (system_host host lazer others (sys_lazer s)) data (sys_executor s) = Inr (env', eff)"
    and "s' = s\<lparr>sys_executor := env', sys_lazer := lazer_after host lazer others eff (sys_lazer s),
                sys_log := sys_log s @ [(sys_executor s, data, eff)]\<rparr>"
    and "(\<exists>k e. decided lazer eff = Some (k, e) \<and> signers_updated k e (sys_lazer s) (sys_lazer s')) \<or>
         decided lazer eff = None \<and> same_signers (sys_lazer s) (sys_lazer s')"
proof -
  let ?h = "system_host host lazer others (sys_lazer s)" and ?lz = "sys_lazer s"
  from assms obtain env' eff where x: "execute_governance_action ?h data (sys_executor s) = Inr (env', eff)"
    and s': "s' = s\<lparr>sys_executor := env', sys_lazer := lazer_after host lazer others eff ?lz,
                sys_log := sys_log s @ [(sys_executor s, data, eff)]\<rparr>"
    by (auto simp: govern_system_def)
  obtain act where act: "dispatch ?h act = Inr eff" using execute_Inr [OF x] by metis
  have "(\<exists>k e. decided lazer eff = Some (k, e) \<and> signers_updated k e ?lz (lazer_after host lazer others eff ?lz)) \<or>
         decided lazer eff = None \<and> same_signers ?lz (lazer_after host lazer others eff ?lz)"
  proof (cases "\<exists>f args. eff = InvokeContract lazer f args")
    case True
    then obtain f args where eff: "eff = InvokeContract lazer f args" by blast
    then have "executor_call host others f args ?lz \<noteq> None"
      using dispatch_invokes act by (fastforce simp: system_host_def)
    then obtain lz' where lz': "executor_call host others f args ?lz = Some lz'" by blast
    then have "lazer_invoke (h_keccak256 host) (h_recover host) (\<lambda>a. a = h_self host \<or> others a)
        (h_wasm_installed host) f args ?lz = Inr (SC_Void, lz')"
      by (auto simp: executor_call_def split: sum.splits prod.splits scval.splits)
    from lazer_invoke_Inr [OF this] lz' eff show ?thesis
      by (cases "decided lazer eff") auto
  next
    case False
    have "decided lazer eff = None" using False by (cases "decided lazer eff") auto
    moreover have "lazer_after host lazer others eff ?lz = ?lz" using False by (cases eff) auto
    ultimately show ?thesis by simp
  qed
  with x s' show ?thesis using that by simp
qed

lemma execute_timestamp:
  assumes "execute_governance_action host data env = Inr (env', eff)"
  shows "timestamp env' = timestamp env"
proof -
  obtain v where "parse_vaa data = Inr v" using execute_Inr [OF assms] by metis
  from execute_frame(1) [OF assms this] show ?thesis by (simp add: same_config_def)
qed

lemma update_guardian_set_timestamp:
  assumes "update_guardian_set host data env = Inr env'"
  shows "timestamp env' = timestamp env"
  using apply_upgrade_store [OF assms] by (metis same_config_def)

lemma govern_system_timestamp:
  assumes "govern_system host lazer others data s = Inr s'"
  shows "lz_timestamp (sys_lazer s') = lz_timestamp (sys_lazer s)"
  by (rule govern_system_Inr [OF assms]) (auto simp: signers_updated_def same_signers_def)

lemma system_table: "system_reachable host lazer code alive init s \<Longrightarrow> table_ok host lazer alive init s"
proof (induction rule: system_reachable.induct)
  case (deploy h lz ik ie lz')
  note c = lazer_constructor_Inr [OF deploy(7) deploy(4)]
  show ?case using c deploy(6,8) by (simp add: table_ok_def Let_def)
next
  case (guardians s data env')
  then show ?case by (simp add: table_ok_executor update_guardian_set_timestamp)
next
  case (action s others data s')
  obtain env' eff where g:
    "execute_governance_action (system_host host lazer others (sys_lazer s)) data (sys_executor s) = Inr (env', eff)"
    "s' = s\<lparr>sys_executor := env', sys_lazer := lazer_after host lazer others eff (sys_lazer s),
            sys_log := sys_log s @ [(sys_executor s, data, eff)]\<rparr>"
    "(\<exists>k e. decided lazer eff = Some (k, e) \<and> signers_updated k e (sys_lazer s) (sys_lazer s')) \<or>
     decided lazer eff = None \<and> same_signers (sys_lazer s) (sys_lazer s')"
    using govern_system_Inr [OF action(3)] by metis
  let ?s = "s\<lparr>sys_lazer := sys_lazer s', sys_log := sys_log s @ [(sys_executor s, data, eff)]\<rparr>"
  have "table_ok host lazer alive init ?s"
    using g(3) table_ok_updated [OF action.IH] table_ok_not_decided [OF table_ok_same_signers [OF action.IH]] by auto
  moreover have "s' = ?s\<lparr>sys_executor := env'\<rparr>" using g(2) by simp
  ultimately show ?case using table_ok_executor execute_timestamp [OF g(1)] by fastforce
next
  case (visit s authorized f args r lz')
  have "same_signers (sys_lazer s) lz'"
    using lazer_invoke_Inr [OF visit(4)] visit(3) visit.IH by (auto simp: table_ok_def Let_def)
  with visit.IH show ?case by (rule table_ok_same_signers)
next
  case (pause s env' lz')
  then show ?case by (auto simp: table_ok_def lazer_waits_def stored_signers_def Let_def)
qed

text \<open>The signers that the contract trusts at a moment, and its clock, against the decisions of governance.\<close>

lemma system_signers:
  assumes "system_reachable host lazer code alive init s"
  shows "signer_expiry (sys_lazer s) \<subseteq>\<^sub>m governed lazer init (sys_log s)"
    and "alive \<Longrightarrow> signer_expiry (sys_lazer s) = governed lazer init (sys_log s)"
    and "lz_executor (sys_lazer s) = Some (h_self host)"
    and "lz_timestamp (sys_lazer s) = timestamp (sys_executor s)"
proof -
  let ?lz = "sys_lazer s" and ?g = "governed lazer init (sys_log s)"
  have ok: "table_ok host lazer alive init s" by (rule system_table [OF assms])
  then have "smap_get (stored_signers ?lz) \<subseteq>\<^sub>m ?g"
    by (simp add: table_ok_def Let_def)
  then show "signer_expiry ?lz \<subseteq>\<^sub>m ?g"
    using alive_signers_le [of ?lz] by (auto simp: signer_expiry_def intro: map_le_trans)
  show "signer_expiry ?lz = ?g" if alive
    using ok that by (cases "lz_trusted_signers ?lz")
      (auto simp: table_ok_def Let_def signer_expiry_def signers_of_stored stored_signers_def)
  show "lz_executor ?lz = Some (h_self host)" "lz_timestamp ?lz = timestamp (sys_executor s)"
    using ok by (simp_all add: table_ok_def Let_def)
qed

section \<open>The executor inside the system\<close>

text \<open>The executor of the system runs as the executor alone does: a history of the system gives one of it.\<close>

definition action_sequence :: "executor_env \<times> bytes \<times> ('addr, bytes, 'addr scval) effect \<Rightarrow> u64" where
  "action_sequence a = (case a of (_, data, _) \<Rightarrow> vb_sequence (vaa_body (projr (parse_vaa data))))"

abbreviation permissive :: "('addr, 'sym, 'arg) host \<Rightarrow> ('addr, 'sym, 'arg) host" where
  "permissive host \<equiv> host\<lparr>h_invoke := \<lambda>_ _ _. True\<rparr>"

lemma permissive_system_host [simp]: "permissive (system_host host lazer others lz) = permissive host"
  by (simp add: system_host_def)

lemma update_guardian_set_permissive:
  "update_guardian_set (permissive host) data env = update_guardian_set host data env"
  by (simp add: update_guardian_set_def)

lemma system_simulates:
  "system_reachable host lazer code alive init s \<Longrightarrow>
     \<exists>pre. reachable (permissive host)
       \<lparr>hist_env = sys_executor s, hist_log = pre @ map (\<lambda>a. (action_sequence a, snd (snd a))) (sys_log s)\<rparr>"
proof (induction rule: system_reachable.induct)
  case (deploy h lz ik ie lz')
  then show ?case by (cases h) auto
next
  case (guardians s data env')
  then show ?case
    using reachable.upgrade [of "permissive host" _ data env'] by (fastforce simp: update_guardian_set_permissive)
next
  case (action s others data s')
  obtain env' eff where g:
    "execute_governance_action (system_host host lazer others (sys_lazer s)) data (sys_executor s) = Inr (env', eff)"
    "s' = s\<lparr>sys_executor := env', sys_lazer := lazer_after host lazer others eff (sys_lazer s),
            sys_log := sys_log s @ [(sys_executor s, data, eff)]\<rparr>"
    using govern_system_Inr [OF action(3)] by metis
  obtain v where v: "parse_vaa data = Inr v" using execute_Inr [OF g(1)] by metis
  have x: "execute_governance_action (permissive host) data (sys_executor s) = Inr (env', eff)"
    using execute_permissive [OF g(1)] by simp
  obtain pre where "reachable (permissive host)
      \<lparr>hist_env = sys_executor s, hist_log = pre @ map (\<lambda>a. (action_sequence a, snd (snd a))) (sys_log s)\<rparr>"
    using action.IH by blast
  from reachable.govern [OF this _ v] x show ?case
    by (intro exI [of _ pre]) (simp add: g(2) action_sequence_def v)
next
  case (visit s authorized f args r lz')
  then show ?case by simp
next
  case (pause s env' lz')
  then show ?case using reachable.wait [of "permissive host"] by fastforce
qed

lemma system_sequences:
  assumes "system_reachable host lazer code alive init s"
  shows "sorted_wrt (<) (map action_sequence (sys_log s))"
proof -
  obtain pre where "reachable (permissive host)
      \<lparr>hist_env = sys_executor s, hist_log = pre @ map (\<lambda>a. (action_sequence a, snd (snd a))) (sys_log s)\<rparr>"
    using system_simulates [OF assms] by blast
  from reachable_sequence_inv [OF this] show ?thesis
    by (auto simp: sequence_inv_def sorted_wrt_append comp_def)
qed

lemma system_log_executed:
  "system_reachable host lazer code alive init s \<Longrightarrow> (env, data, eff) \<in> set (sys_log s) \<Longrightarrow>
     \<exists>env'. execute_governance_action (permissive host) data env = Inr (env', eff)"
proof (induction rule: system_reachable.induct)
  case (action s others data' s')
  obtain env' eff' where g:
    "execute_governance_action (system_host host lazer others (sys_lazer s)) data' (sys_executor s) = Inr (env', eff')"
    "s' = s\<lparr>sys_executor := env', sys_lazer := lazer_after host lazer others eff' (sys_lazer s),
            sys_log := sys_log s @ [(sys_executor s, data', eff')]\<rparr>"
    using govern_system_Inr [OF action(3)] by metis
  have "(env, data, eff) \<in> set (sys_log s) \<or> (env, data, eff) = (sys_executor s, data', eff')"
    using action.prems by (auto simp: g(2))
  then show ?case
    using action.IH execute_permissive [OF g(1)] by auto
qed simp_all

text \<open>Every action in the log was signed by a quorum of guardians and came from the owner.\<close>

lemma system_log_authentic:
  assumes "system_reachable host lazer code alive init s" and "(env, data, eff) \<in> set (sys_log s)"
  shows "\<exists>v g. valid_vaa v \<and> data = encode_vaa v \<and> guardian_sets env (vaa_guardian_set_index v) = Some g \<and>
    (case gs_expiration_time g of Some t \<Rightarrow> timestamp env < t | None \<Rightarrow> True) \<and>
    owner_emitter_chain env = Some (ucast (vb_emitter_chain (vaa_body v))) \<and>
    owner_emitter_address env = Some (vb_emitter_address (vaa_body v)) \<and>
    (length (gs_keys g) < 2 ^ 32 \<longrightarrow>
       2 * length (gs_keys g) < 3 * card (signers (h_keccak256 host) (h_recover host) (gs_keys g) v))"
proof -
  obtain env' where x: "execute_governance_action (permissive host) data env = Inr (env', eff)"
    using system_log_executed [OF assms] by blast
  obtain v where v: "parse_vaa data = Inr v"
    "owner_emitter_chain env = Some (ucast (vb_emitter_chain (vaa_body v)))"
    "owner_emitter_address env = Some (vb_emitter_address (vaa_body v))"
    using execute_Inr [OF x] by metis
  obtain g where g: "guardian_sets env (vaa_guardian_set_index v) = Some g"
    "case gs_expiration_time g of Some t \<Rightarrow> timestamp env < t | None \<Rightarrow> True"
    "length (gs_keys g) < 2 ^ 32 \<longrightarrow>
       2 * length (gs_keys g) < 3 * card (signers (h_keccak256 host) (h_recover host) (gs_keys g) v)"
    using execute_signed [OF x v(1)] by auto
  have "valid_vaa v" "data = encode_vaa v" using v(1) unfolding parse_vaa_Inr_iff by simp_all
  with v(2,3) g show ?thesis by blast
qed

section \<open>A decision takes effect\<close>

lemma update_trusted_signer_total:
  assumes "lz_executor lz = Some a" and "authorized a" and "0 < lz_min_ttl lz"
  shows "\<exists>lz'. update_trusted_signer authorized k e lz = Inr lz'"
  using assms by (auto simp: update_trusted_signer_def get_executor_def set_trusted_signer_def put_trusted_signers_def
      extend_trusted_signers_ttl_def signers_entry_def Let_def)

lemma decode_update_name:
  "h_symbol host (fn_name ''update_trusted_signer'') = Some (fn_name ''update_trusted_signer'') \<Longrightarrow>
   decode_function_symbol host (fn_name ''update_trusted_signer'') = Inr (fn_name ''update_trusted_signer'')"
proof -
  assume sym: "h_symbol host (fn_name ''update_trusted_signer'') = Some (fn_name ''update_trusted_signer'')"
  have "length (fn_name ''update_trusted_signer'') = 21" "valid_utf8 (fn_name ''update_trusted_signer'')"
    by (simp_all add: fn_name_def)
  with sym show ?thesis
    by (simp add: decode_function_symbol_def MAX_SYMBOL_LEN_def Let_def del: get_array.simps)
qed

text \<open>
  The executor carries out a decision of governance on a signer: a VAA that passes the checks of the executor,
  with a call of \<^verbatim>\<open>update_trusted_signer\<close> on the verifier, succeeds and sets the expiry of the key.
\<close>

lemma decision_takes_effect:
  assumes ex: "lz_executor (sys_lazer s) = Some (h_self host)" and ttl: "0 < lz_min_ttl (sys_lazer s)"
    and inv: "signers_inv (sys_lazer s)"
    and "initialized (sys_executor s) \<noteq> None" and "valid_vaa v"
    and "verify_vaa (h_keccak256 host) (h_recover host) v (extend_instance_ttl (sys_executor s)) = Inr env2"
    and "owner_emitter_chain (sys_executor s) = Some (ucast (vb_emitter_chain (vaa_body v)))"
    and "owner_emitter_address (sys_executor s) = Some (vb_emitter_address (vaa_body v))"
    and "live env2 LastExecutedSequence (last_executed_sequence env2) = Some q" and "q < vb_sequence (vaa_body v)"
    and "chain_id (sys_executor s) = Some c"
    and "parse_ptgm (h_from_strkey host) (vb_payload (vaa_body v)) c (h_self host) = Inr (Call call)"
    and call: "call_target_contract call = lazer" "call_function_name call = fn_name ''update_trusted_signer''"
      "h_args_from_xdr host (call_args_xdr call) = Some [SC_Bytes k, SC_U64 e]" "length k = 33"
    and sym: "h_symbol host (fn_name ''update_trusted_signer'') = Some (fn_name ''update_trusted_signer'')"
  shows "\<exists>s'. govern_system host lazer others (encode_vaa v) s = Inr s' \<and>
    signer_expiry (sys_lazer s') = (signer_expiry (sys_lazer s))(k := if e = 0 then None else Some e)"
proof -
  let ?h = "system_host host lazer others (sys_lazer s)" and ?lz = "sys_lazer s"
  let ?f = "fn_name ''update_trusted_signer''" and ?args = "[SC_Bytes k, SC_U64 e]"
  obtain lz' where upd: "update_trusted_signer (\<lambda>a. a = h_self host \<or> others a) k e ?lz = Inr lz'"
    using update_trusted_signer_total [OF ex _ ttl, of "\<lambda>a. a = h_self host \<or> others a"] by auto
  then have call_ok: "executor_call host others ?f ?args ?lz = Some lz'"
    using call(4) by (simp add: executor_call_def lazer_invoke_def)
  have "dispatch ?h (Call call) = Inr (InvokeContract lazer ?f ?args)"
    using call sym call_ok decode_update_name [of ?h] by (simp add: system_host_def)
  then obtain env' where "execute_governance_action ?h (encode_vaa v) (sys_executor s) = Inr (env', InvokeContract lazer ?f ?args)"
    using execute_complete [of "sys_executor s" v ?h env2 q c "Call call"] assms(4-12) by (auto simp: system_host_def)
  then have "\<exists>s'. govern_system host lazer others (encode_vaa v) s = Inr s' \<and> sys_lazer s' = lz'"
    using call_ok by (simp add: govern_system_def)
  moreover have "signer_expiry lz' = (signer_expiry ?lz)(k := if e = 0 then None else Some e)"
    by (rule stellar_signers.lookup_update [OF inv upd])
  ultimately show ?thesis by blast
qed

section \<open>A concrete system\<close>

definition demo_key :: bytes where "demo_key = 2 # replicate 32 0"

definition demo_system_host :: "(bytes, bytes, bytes scval) host" where
  "demo_system_host = \<lparr>h_keccak256 = h_keccak256 demo_host, h_recover = h_recover demo_host, h_from_strkey = Some,
     h_symbol = Some, h_args_from_xdr = (\<lambda>x. Some [SC_Bytes demo_key, SC_U64 5000]),
     h_invoke = (\<lambda>target func args. True), h_wasm_installed = (\<lambda>digest. True), h_self = [7]\<rparr>"

definition demo_decision :: "bytes governance_action" where
  "demo_decision = Call \<lparr>call_target_contract = [8], call_function_name = fn_name ''update_trusted_signer'',
     call_args_xdr = []\<rparr>"

definition demo_decision_body :: vaa_body where
  "demo_decision_body = demo_body\<lparr>vb_payload :=
     encode_header 60 (action_code demo_decision) [7] [8] @ encode_action demo_decision []\<rparr>"

definition demo_start :: "bytes system" where
  "demo_start = \<lparr>sys_executor = demo_env, sys_lazer = extend_lazer_instance_ttl
     \<lparr>lz_timestamp = 1000, lz_min_ttl = 4096, lz_executor = Some [7], lz_instance_ttl = 4096,
      lz_trusted_signers = None, lz_signers_ttl = 0, lz_wasm = []\<rparr>, sys_log = []\<rparr>"

lemma demo_start_reachable: "system_reachable demo_system_host [8] [] True Map.empty demo_start"
proof -
  let ?lz = "\<lparr>lz_timestamp = 1000, lz_min_ttl = 4096, lz_executor = None, lz_instance_ttl = 4096,
      lz_trusted_signers = None, lz_signers_ttl = 0, lz_wasm = []\<rparr>"
  have r: "reachable (permissive demo_system_host) \<lparr>hist_env = demo_env, hist_log = []\<rparr>"
    by (rule reachable.construct [OF _ demo_initialize]) (simp add: fresh_def demo_fresh_def)
  have c: "lazer_constructor (h_self demo_system_host) None None ?lz = Inr (sys_lazer demo_start)"
    by (simp add: lazer_constructor_def has_executor_def set_executor_def demo_start_def demo_system_host_def)
  have "timestamp demo_env = 1000" by (rule demo_env_timestamp)
  with system_reachable.deploy [OF r, of ?lz "[]" None None "sys_lazer demo_start" Map.empty] c
  show ?thesis by (simp add: demo_start_def)
qed

lemma demo_decision_parsed:
  "parse_ptgm (h_from_strkey demo_system_host) (vb_payload demo_decision_body) 60 (h_self demo_system_host) =
     Inr demo_decision"
proof -
  have "length (fn_name ''update_trusted_signer'') = 21" by (simp add: fn_name_def)
  then show ?thesis
    using parse_ptgm_encode [of "h_from_strkey demo_system_host" "[7]" "[7]" "[8]" demo_decision "[]" 60]
    by (simp add: demo_system_host_def demo_decision_body_def demo_decision_def valid_strkey_def MAX_SYMBOL_LEN_def)
qed

lemma demo_original: "original_code [] demo_start"
  by (simp add: original_code_def demo_start_def extend_lazer_instance_ttl_def)

lemma demo_decided:
  "\<exists>s'. govern_system demo_system_host [8] (\<lambda>a. False) (encode_vaa (demo_vaa_of demo_decision_body)) demo_start = Inr s' \<and>
     signer_expiry (sys_lazer s') = [demo_key \<mapsto> 5000]"
proof -
  let ?v = "demo_vaa_of demo_decision_body" and ?h = demo_system_host
  have ex: "sys_executor demo_start = demo_env" by (simp add: demo_start_def)
  obtain env2 where v: "verify_vaa (h_keccak256 ?h) (h_recover ?h) ?v (extend_instance_ttl demo_env) = Inr env2"
    "ttl env2 LastExecutedSequence = ttl demo_env LastExecutedSequence"
    using demo_verify [of demo_decision_body] by (auto simp: demo_system_host_def)
  have "same_values demo_env env2"
    using verify_vaa_frame(2) [OF v(1)] extend_instance_frame(2) [of demo_env] by (rule same_values_trans [rotated])
  then have q: "live env2 LastExecutedSequence (last_executed_sequence env2) = Some 0"
    using v(2) demo_env_fields by (simp add: live_def same_values_def)
  have vaa: "valid_vaa ?v" "vb_payload (vaa_body ?v) = vb_payload demo_decision_body" "0 < vb_sequence (vaa_body ?v)"
    using demo_valid_vaa [of demo_decision_body]
    by (simp_all add: demo_vaa_of_def demo_decision_body_def demo_body_def)
  have owner: "owner_emitter_chain demo_env = Some (ucast (vb_emitter_chain (vaa_body ?v)))"
    "owner_emitter_address demo_env = Some (vb_emitter_address (vaa_body ?v))" "initialized demo_env \<noteq> None"
    "chain_id demo_env = Some 60"
    using demo_env_fields by (simp_all add: demo_vaa_of_def demo_decision_body_def demo_body_def)
  obtain call where call: "demo_decision = Call call" "call_target_contract call = [8]"
    "call_function_name call = fn_name ''update_trusted_signer''"
    by (simp add: demo_decision_def)
  have lz: "lz_executor (sys_lazer demo_start) = Some (h_self ?h)" "0 < lz_min_ttl (sys_lazer demo_start)"
    "signers_inv (sys_lazer demo_start)" "signer_expiry (sys_lazer demo_start) = Map.empty"
    by (simp_all add: demo_start_def demo_system_host_def extend_lazer_instance_ttl_def signers_inv_def smap_inv_def
        signer_expiry_def get_trusted_signers_def signers_entry_def fun_eq_iff)
  show ?thesis
    using decision_takes_effect [OF lz(1-3), of ?v env2 0 60 call "[8]" demo_key 5000 "\<lambda>a. False"]
      v(1) q vaa owner demo_decision_parsed call lz(4)
    by (simp add: ex demo_key_def) (simp add: demo_system_host_def demo_key_def)
qed

section \<open>Properties\<close>

text \<open>C4: Governance decides the trusted signers.  In every history of the deployed contracts, whoever calls
  them, the verifier's signers are among those that the executed governance actions give, each with the expiry
  of the last decision about its key; they are exactly those while the entry is kept alive; and the actions have
  increasing sequence numbers, so no earlier decision can be repeated.\<close>

theorem signers_are_governed:
  assumes "system_reachable host lazer code alive init s"
  shows "signer_expiry (sys_lazer s) \<subseteq>\<^sub>m governed lazer init (sys_log s) \<and>
    (alive \<longrightarrow> signer_expiry (sys_lazer s) = governed lazer init (sys_log s)) \<and>
    lz_executor (sys_lazer s) = Some (h_self host) \<and>
    sorted_wrt (<) (map action_sequence (sys_log s))"
  using system_signers [OF assms] system_sequences [OF assms] by blast

theorem signers_are_governed_witness:
  "\<exists>s. system_reachable demo_system_host [8] [] True Map.empty s \<and> length (sys_log s) = 1 \<and>
     governed [8] Map.empty (sys_log s) demo_key = Some 5000"
proof -
  let ?data = "encode_vaa (demo_vaa_of demo_decision_body)"
  obtain s where s: "govern_system demo_system_host [8] (\<lambda>a. False) ?data demo_start = Inr s"
    "signer_expiry (sys_lazer s) = [demo_key \<mapsto> 5000]"
    using demo_decided by blast
  have r: "system_reachable demo_system_host [8] [] True Map.empty s"
    by (rule system_reachable.action [OF demo_start_reachable demo_original s(1)])
  moreover have "length (sys_log s) = 1"
    using s(1) by (auto simp: govern_system_def demo_start_def)
  moreover have "governed [8] Map.empty (sys_log s) demo_key = Some 5000"
    using signers_are_governed [OF r] s(2) by (metis fun_upd_same)
  ultimately show ?thesis by blast
qed

end
