(* ===== verification/Lazer_Message.thy ===== *)
theory Lazer_Message
  imports Lazer_Prelude
begin

text \<open>
  The signature envelopes of price updates and the binary Websocket update
  (\<^verbatim>\<open>sdk/rust/protocol/src/message.rs\<close> and \<^verbatim>\<open>binary_update.rs\<close>).  A JSON message is a value of a
  type parameter; its serialiser and parser (\<^verbatim>\<open>serde_json\<close>) are arguments of the definitions.
\<close>

section \<open>Format magics\<close>

definition JSON_FORMAT_MAGIC :: u32 where "JSON_FORMAT_MAGIC = 3302625434"
definition EVM_FORMAT_MAGIC :: u32 where "EVM_FORMAT_MAGIC = 2593727018"
definition SOLANA_FORMAT_MAGIC :: u32 where "SOLANA_FORMAT_MAGIC = 2182742457"
definition PROTOCOL_LE_ECDSA_FORMAT_MAGIC :: u32 where "PROTOCOL_LE_ECDSA_FORMAT_MAGIC = 1296547300"
definition LE_UNSIGNED_FORMAT_MAGIC :: u32 where "LE_UNSIGNED_FORMAT_MAGIC = 1499680012"

lemmas magic_defs = JSON_FORMAT_MAGIC_def EVM_FORMAT_MAGIC_def SOLANA_FORMAT_MAGIC_def
  PROTOCOL_LE_ECDSA_FORMAT_MAGIC_def LE_UNSIGNED_FORMAT_MAGIC_def

section \<open>Messages\<close>

record evm_message =
  evm_payload :: bytes
  evm_signature :: bytes
  evm_recovery_id :: u8

record solana_message =
  sol_payload :: bytes
  sol_signature :: bytes
  sol_public_key :: bytes

record le_ecdsa_message =
  lee_payload :: bytes
  lee_signature :: bytes
  lee_recovery_id :: u8

record le_unsigned_message =
  leu_payload :: bytes

datatype 'json message =
    Evm evm_message
  | Solana solana_message
  | LeEcdsa le_ecdsa_message
  | LeUnsigned le_unsigned_message
  | Json 'json

text \<open>\<^verbatim>\<open>self.payload.len().try_into()?\<close>\<close>

definition len_u16 :: "bytes \<Rightarrow> anyhow + u16" where
  "len_u16 bs = (if length bs < 2 ^ 16 then Inr (word_of_nat (length bs)) else Inl TryFromIntError)"

subsection \<open>EVM\<close>

definition evm_serialize :: "evm_message \<Rightarrow> anyhow + bytes" where
  "evm_serialize m =
     and_then (len_u16 (evm_payload m)) (\<lambda>n.
     Inr (put_uint LE 4 EVM_FORMAT_MAGIC @ evm_signature m @ [evm_recovery_id m] @
          put_uint BE 2 n @ evm_payload m))"

definition evm_deserialize :: "bytes \<Rightarrow> anyhow + evm_message \<times> bytes" where
  "evm_deserialize r =
     and_then (read_u32 LE r) (\<lambda>(magic, r).
     if magic \<noteq> EVM_FORMAT_MAGIC then Inl (Message ''magic mismatch'')
     else
     and_then (read_exact 64 r) (\<lambda>(signature, r).
     and_then (read_u8 r) (\<lambda>(recovery_id, r).
     and_then (read_u16 BE r) (\<lambda>(payload_len, r).
     and_then (read_exact (unat payload_len) r) (\<lambda>(payload, r).
     Inr (\<lparr>evm_payload = payload, evm_signature = signature, evm_recovery_id = recovery_id\<rparr>, r))))))"

definition evm_deserialize_slice :: "bytes \<Rightarrow> anyhow + evm_message" where
  "evm_deserialize_slice data = map_ok fst (evm_deserialize data)"

subsection \<open>Solana\<close>

definition solana_serialize :: "solana_message \<Rightarrow> anyhow + bytes" where
  "solana_serialize m =
     and_then (len_u16 (sol_payload m)) (\<lambda>n.
     Inr (put_uint LE 4 SOLANA_FORMAT_MAGIC @ sol_signature m @ sol_public_key m @
          put_uint LE 2 n @ sol_payload m))"

definition solana_deserialize :: "bytes \<Rightarrow> anyhow + solana_message \<times> bytes" where
  "solana_deserialize r =
     and_then (read_u32 LE r) (\<lambda>(magic, r).
     if magic \<noteq> SOLANA_FORMAT_MAGIC then Inl (Message ''magic mismatch'')
     else
     and_then (read_exact 64 r) (\<lambda>(signature, r).
     and_then (read_exact 32 r) (\<lambda>(public_key, r).
     and_then (read_u16 LE r) (\<lambda>(payload_len, r).
     and_then (read_exact (unat payload_len) r) (\<lambda>(payload, r).
     Inr (\<lparr>sol_payload = payload, sol_signature = signature, sol_public_key = public_key\<rparr>, r))))))"

definition solana_deserialize_slice :: "bytes \<Rightarrow> anyhow + solana_message" where
  "solana_deserialize_slice data = map_ok fst (solana_deserialize data)"

subsection \<open>Little-endian, ECDSA\<close>

definition le_ecdsa_serialize :: "le_ecdsa_message \<Rightarrow> anyhow + bytes" where
  "le_ecdsa_serialize m =
     and_then (len_u16 (lee_payload m)) (\<lambda>n.
     Inr (put_uint LE 4 PROTOCOL_LE_ECDSA_FORMAT_MAGIC @ lee_signature m @ [lee_recovery_id m] @
          put_uint LE 2 n @ lee_payload m))"

definition le_ecdsa_deserialize :: "bytes \<Rightarrow> anyhow + le_ecdsa_message \<times> bytes" where
  "le_ecdsa_deserialize r =
     and_then (read_u32 LE r) (\<lambda>(magic, r).
     if magic \<noteq> PROTOCOL_LE_ECDSA_FORMAT_MAGIC then Inl (Message ''magic mismatch'')
     else
     and_then (read_exact 64 r) (\<lambda>(signature, r).
     and_then (read_u8 r) (\<lambda>(recovery_id, r).
     and_then (read_u16 LE r) (\<lambda>(payload_len, r).
     and_then (read_exact (unat payload_len) r) (\<lambda>(payload, r).
     Inr (\<lparr>lee_payload = payload, lee_signature = signature, lee_recovery_id = recovery_id\<rparr>, r))))))"

definition le_ecdsa_deserialize_slice :: "bytes \<Rightarrow> anyhow + le_ecdsa_message" where
  "le_ecdsa_deserialize_slice data = map_ok fst (le_ecdsa_deserialize data)"

subsection \<open>Little-endian, unsigned\<close>

definition le_unsigned_serialize :: "le_unsigned_message \<Rightarrow> anyhow + bytes" where
  "le_unsigned_serialize m =
     and_then (len_u16 (leu_payload m)) (\<lambda>n.
     Inr (put_uint LE 4 LE_UNSIGNED_FORMAT_MAGIC @ put_uint LE 2 n @ leu_payload m))"

definition le_unsigned_deserialize :: "bytes \<Rightarrow> anyhow + le_unsigned_message \<times> bytes" where
  "le_unsigned_deserialize r =
     and_then (read_u32 LE r) (\<lambda>(magic, r).
     if magic \<noteq> LE_UNSIGNED_FORMAT_MAGIC then Inl (Message ''magic mismatch'')
     else
     and_then (read_u16 LE r) (\<lambda>(payload_len, r).
     and_then (read_exact (unat payload_len) r) (\<lambda>(payload, r).
     Inr (\<lparr>leu_payload = payload\<rparr>, r))))"

definition le_unsigned_deserialize_slice :: "bytes \<Rightarrow> anyhow + le_unsigned_message" where
  "le_unsigned_deserialize_slice data = map_ok fst (le_unsigned_deserialize data)"

subsection \<open>Any message\<close>

text \<open>\<open>to_json\<close> is \<^verbatim>\<open>serde_json::to_writer\<close> and \<open>from_json\<close> is \<^verbatim>\<open>serde_json::from_slice\<close>.\<close>

fun message_serialize :: "('json \<Rightarrow> anyhow + bytes) \<Rightarrow> 'json message \<Rightarrow> anyhow + bytes" where
  "message_serialize to_json (Evm m) = evm_serialize m"
| "message_serialize to_json (Solana m) = solana_serialize m"
| "message_serialize to_json (LeEcdsa m) = le_ecdsa_serialize m"
| "message_serialize to_json (LeUnsigned m) = le_unsigned_serialize m"
| "message_serialize to_json (Json p) =
     and_then (to_json p) (\<lambda>bs. Inr (put_uint LE 4 JSON_FORMAT_MAGIC @ bs))"

definition message_deserialize_slice ::
  "(bytes \<Rightarrow> anyhow + 'json) \<Rightarrow> bytes \<Rightarrow> anyhow + 'json message" where
  "message_deserialize_slice from_json data =
     and_then (ok_or (Message ''data too short'') (get_range 0 4 data)) (\<lambda>head.
     let magic = get_uint LE head :: u32 in
     if magic = JSON_FORMAT_MAGIC then map_ok Json (from_json (drop 4 data))
     else if magic = EVM_FORMAT_MAGIC then map_ok Evm (evm_deserialize_slice data)
     else if magic = SOLANA_FORMAT_MAGIC then map_ok Solana (solana_deserialize_slice data)
     else if magic = PROTOCOL_LE_ECDSA_FORMAT_MAGIC then map_ok LeEcdsa (le_ecdsa_deserialize_slice data)
     else if magic = LE_UNSIGNED_FORMAT_MAGIC then map_ok LeUnsigned (le_unsigned_deserialize_slice data)
     else Inl (Message ''unrecognized format magic''))"

section \<open>The binary Websocket update\<close>

definition BINARY_UPDATE_FORMAT_MAGIC :: u32 where "BINARY_UPDATE_FORMAT_MAGIC = 461928307"

record 'json binary_ws_update =
  bwu_subscription_id :: u64
  bwu_messages :: "'json message list"

text \<open>
  \<^verbatim>\<open>write_with_len_header(out, f)\<close>: two bytes are pushed, \<open>f\<close> appends to the buffer, and the two
  bytes are overwritten with the length of what it appended.
\<close>

definition write_with_len_header :: "bytes \<Rightarrow> (bytes \<Rightarrow> anyhow + bytes) \<Rightarrow> anyhow + bytes" where
  "write_with_len_header out f =
     (let len_index = length out;
          out = out @ [0, 0];
          data_start_index = length out
      in and_then (f out) (\<lambda>out.
         and_then (len_u16 (drop data_start_index out)) (\<lambda>len.
         Inr (take len_index out @ put_uint BE 2 len @ drop data_start_index out))))"

fun write_messages :: "('json \<Rightarrow> anyhow + bytes) \<Rightarrow> bytes \<Rightarrow> 'json message list \<Rightarrow> anyhow + bytes" where
  "write_messages to_json buf [] = Inr buf"
| "write_messages to_json buf (m # ms) =
     and_then (write_with_len_header buf (\<lambda>buf. map_ok (\<lambda>bs. buf @ bs) (message_serialize to_json m)))
       (\<lambda>buf. write_messages to_json buf ms)"

definition bwu_serialize :: "('json \<Rightarrow> anyhow + bytes) \<Rightarrow> 'json binary_ws_update \<Rightarrow> bytes \<Rightarrow> anyhow + bytes" where
  "bwu_serialize to_json u buf =
     write_messages to_json
       (buf @ put_uint LE 4 BINARY_UPDATE_FORMAT_MAGIC @ put_uint BE 8 (bwu_subscription_id u)) (bwu_messages u)"

text \<open>The loop \<^verbatim>\<open>while pos < data.len()\<close>; the position grows by at least two in every round.\<close>

function read_messages ::
  "(bytes \<Rightarrow> anyhow + 'json) \<Rightarrow> bytes \<Rightarrow> nat \<Rightarrow> 'json message list \<Rightarrow> anyhow + 'json message list" where
  "read_messages from_json data pos messages =
     (if pos < length data then
        and_then (ok_or (Message ''data too short'') (get_range pos (pos + 2) data)) (\<lambda>head.
        let len = unat (get_uint BE head :: u16); pos = pos + 2 in
        and_then (ok_or (Message ''data too short'') (get_range pos (pos + len) data)) (\<lambda>message_data.
        let pos = pos + len in
        and_then (message_deserialize_slice from_json message_data) (\<lambda>m.
        read_messages from_json data pos (messages @ [m]))))
      else Inr messages)"
  by pat_completeness auto
termination
  by (relation "measure (\<lambda>(f, data, pos, ms). length data - pos)") auto

definition bwu_deserialize_slice ::
  "(bytes \<Rightarrow> anyhow + 'json) \<Rightarrow> bytes \<Rightarrow> anyhow + 'json binary_ws_update" where
  "bwu_deserialize_slice from_json data =
     and_then (ok_or (Message ''data too short'') (get_range 0 4 data)) (\<lambda>head.
     let magic = get_uint LE head :: u32 in
     if magic \<noteq> BINARY_UPDATE_FORMAT_MAGIC then Inl (Message ''binary update format magic mismatch'')
     else
     and_then (ok_or (Message ''data too short'') (get_range 4 12 data)) (\<lambda>id.
     and_then (read_messages from_json data 12 []) (\<lambda>messages.
     Inr \<lparr>bwu_subscription_id = get_uint BE id, bwu_messages = messages\<rparr>)))"

declare read_messages.simps [simp del]

section \<open>Round trips\<close>

definition evm_valid :: "evm_message \<Rightarrow> bool" where
  "evm_valid m \<longleftrightarrow> length (evm_signature m) = 64 \<and> length (evm_payload m) < 2 ^ 16"

definition solana_valid :: "solana_message \<Rightarrow> bool" where
  "solana_valid m \<longleftrightarrow> length (sol_signature m) = 64 \<and> length (sol_public_key m) = 32 \<and> length (sol_payload m) < 2 ^ 16"

definition le_ecdsa_valid :: "le_ecdsa_message \<Rightarrow> bool" where
  "le_ecdsa_valid m \<longleftrightarrow> length (lee_signature m) = 64 \<and> length (lee_payload m) < 2 ^ 16"

definition le_unsigned_valid :: "le_unsigned_message \<Rightarrow> bool" where
  "le_unsigned_valid m \<longleftrightarrow> length (leu_payload m) < 2 ^ 16"

lemma unat_len_u16: "length (bs :: bytes) < 2 ^ 16 \<Longrightarrow> unat (word_of_nat (length bs) :: u16) = length bs"
  by (simp add: unat_of_nat take_bit_nat_eq_self)

text \<open>The bytes a successful serialisation writes.\<close>

definition ok_bytes :: "anyhow + bytes \<Rightarrow> bytes" where
  "ok_bytes r = (case r of Inr bs \<Rightarrow> bs | Inl e \<Rightarrow> [])"

lemma ok_bytes_Inr [simp]: "ok_bytes (Inr bs) = bs"
  by (simp add: ok_bytes_def)

lemmas message_codec_defs = evm_serialize_def evm_deserialize_def evm_valid_def solana_serialize_def
  solana_deserialize_def solana_valid_def le_ecdsa_serialize_def le_ecdsa_deserialize_def le_ecdsa_valid_def
  le_unsigned_serialize_def le_unsigned_deserialize_def le_unsigned_valid_def len_u16_def

interpretation evm_codec: canonical_codec "\<lambda>m. ok_bytes (evm_serialize m)" evm_deserialize evm_valid
proof
  fix m r assume "evm_valid m"
  then show "evm_deserialize (ok_bytes (evm_serialize m) @ r) = Inr (m, r)"
    by (simp add: message_codec_defs codec_simps unat_len_u16)
next
  fix bs m r assume "evm_deserialize bs = Inr (m, r)"
  then show "evm_valid m \<and> bs = ok_bytes (evm_serialize m) @ r"
    by (auto simp: message_codec_defs read_uint_Inr_iff read_exact_Inr_iff read_u8_Inr_iff
        split: if_splits)
qed

interpretation solana_codec: canonical_codec "\<lambda>m. ok_bytes (solana_serialize m)" solana_deserialize solana_valid
proof
  fix m r assume "solana_valid m"
  then show "solana_deserialize (ok_bytes (solana_serialize m) @ r) = Inr (m, r)"
    by (simp add: message_codec_defs codec_simps unat_len_u16)
next
  fix bs m r assume "solana_deserialize bs = Inr (m, r)"
  then show "solana_valid m \<and> bs = ok_bytes (solana_serialize m) @ r"
    by (auto simp: message_codec_defs read_uint_Inr_iff read_exact_Inr_iff read_u8_Inr_iff split: if_splits)
qed

interpretation le_ecdsa_codec: canonical_codec "\<lambda>m. ok_bytes (le_ecdsa_serialize m)" le_ecdsa_deserialize le_ecdsa_valid
proof
  fix m r assume "le_ecdsa_valid m"
  then show "le_ecdsa_deserialize (ok_bytes (le_ecdsa_serialize m) @ r) = Inr (m, r)"
    by (simp add: message_codec_defs codec_simps unat_len_u16)
next
  fix bs m r assume "le_ecdsa_deserialize bs = Inr (m, r)"
  then show "le_ecdsa_valid m \<and> bs = ok_bytes (le_ecdsa_serialize m) @ r"
    by (auto simp: message_codec_defs read_uint_Inr_iff read_exact_Inr_iff read_u8_Inr_iff split: if_splits)
qed

interpretation le_unsigned_codec: canonical_codec "\<lambda>m. ok_bytes (le_unsigned_serialize m)" le_unsigned_deserialize
  le_unsigned_valid
proof
  fix m r assume "le_unsigned_valid m"
  then show "le_unsigned_deserialize (ok_bytes (le_unsigned_serialize m) @ r) = Inr (m, r)"
    by (simp add: message_codec_defs codec_simps unat_len_u16)
next
  fix bs m r assume "le_unsigned_deserialize bs = Inr (m, r)"
  then show "le_unsigned_valid m \<and> bs = ok_bytes (le_unsigned_serialize m) @ r"
    by (auto simp: message_codec_defs read_uint_Inr_iff read_exact_Inr_iff read_u8_Inr_iff split: if_splits)
qed

text \<open>Which values are serialised, and that reading them back gives the value.\<close>

fun message_wf :: "'json message \<Rightarrow> bool" where
  "message_wf (Evm m) = (length (evm_signature m) = 64)"
| "message_wf (Solana m) = (length (sol_signature m) = 64 \<and> length (sol_public_key m) = 32)"
| "message_wf (LeEcdsa m) = (length (lee_signature m) = 64)"
| "message_wf (LeUnsigned m) = True"
| "message_wf (Json p) = True"

lemma serialize_valid:
  "evm_serialize em = Inr bs \<Longrightarrow> length (evm_signature em) = 64 \<Longrightarrow> evm_valid em"
  "solana_serialize sm = Inr bs \<Longrightarrow> length (sol_signature sm) = 64 \<Longrightarrow> length (sol_public_key sm) = 32 \<Longrightarrow> solana_valid sm"
  "le_ecdsa_serialize lm = Inr bs \<Longrightarrow> length (lee_signature lm) = 64 \<Longrightarrow> le_ecdsa_valid lm"
  "le_unsigned_serialize um = Inr bs \<Longrightarrow> le_unsigned_valid um"
  by (auto simp: message_codec_defs split: if_splits)

lemma message_magic:
  assumes "message_serialize to_json m = Inr bs"
  shows "4 \<le> length bs \<and> get_uint LE (take 4 bs) =
    (case m of Evm _ \<Rightarrow> EVM_FORMAT_MAGIC | Solana _ \<Rightarrow> SOLANA_FORMAT_MAGIC | LeEcdsa _ \<Rightarrow> PROTOCOL_LE_ECDSA_FORMAT_MAGIC
     | LeUnsigned _ \<Rightarrow> LE_UNSIGNED_FORMAT_MAGIC | Json _ \<Rightarrow> JSON_FORMAT_MAGIC)"
  using assms by (cases m) (auto simp: message_codec_defs get_put_uint split: if_splits)

lemma slice_round_trip:
  "evm_serialize em = Inr bs \<Longrightarrow> length (evm_signature em) = 64 \<Longrightarrow> evm_deserialize_slice bs = Inr em"
  "solana_serialize sm = Inr bs \<Longrightarrow> length (sol_signature sm) = 64 \<Longrightarrow> length (sol_public_key sm) = 32 \<Longrightarrow>
     solana_deserialize_slice bs = Inr sm"
  "le_ecdsa_serialize lm = Inr bs \<Longrightarrow> length (lee_signature lm) = 64 \<Longrightarrow> le_ecdsa_deserialize_slice bs = Inr lm"
  "le_unsigned_serialize um = Inr bs \<Longrightarrow> le_unsigned_deserialize_slice bs = Inr um"
  using evm_codec.dec_enc [of em "[]"] solana_codec.dec_enc [of sm "[]"] le_ecdsa_codec.dec_enc [of lm "[]"]
    le_unsigned_codec.dec_enc [of um "[]"] serialize_valid(1) [of em bs] serialize_valid(2) [of sm bs]
    serialize_valid(3) [of lm bs] serialize_valid(4) [of um bs]
  by (simp_all add: evm_deserialize_slice_def solana_deserialize_slice_def le_ecdsa_deserialize_slice_def
      le_unsigned_deserialize_slice_def)

text \<open>What the code relies on of \<^verbatim>\<open>serde_json\<close>: reading what was written gives the value.\<close>

definition json_round_trip :: "('json \<Rightarrow> anyhow + bytes) \<Rightarrow> (bytes \<Rightarrow> anyhow + 'json) \<Rightarrow> bool" where
  "json_round_trip to_json from_json \<longleftrightarrow> (\<forall>p bs. to_json p = Inr bs \<longrightarrow> from_json bs = Inr p)"

lemma message_round_trip:
  assumes json: "json_round_trip to_json from_json"
    and ser: "message_serialize to_json m = Inr bs" and wf: "message_wf m"
  shows "message_deserialize_slice from_json bs = Inr m"
proof -
  note magic = message_magic [OF ser]
  then have head: "get_range 0 4 bs = Some (take 4 bs)" by (simp add: get_range_def)
  show ?thesis
  proof (cases m)
    case (Json p)
    then obtain js where "to_json p = Inr js" "bs = put_uint LE 4 JSON_FORMAT_MAGIC @ js"
      using ser by auto
    with Json head magic json show ?thesis
      by (simp add: json_round_trip_def message_deserialize_slice_def Let_def)
  qed (use magic head ser wf slice_round_trip in
    \<open>simp_all add: message_deserialize_slice_def Let_def magic_defs\<close>)
qed

text \<open>One framed message, and the loop that reads all of them.\<close>

lemma write_with_len_header_Inr:
  assumes "write_with_len_header buf (\<lambda>buf. map_ok (\<lambda>bs. buf @ bs) r) = Inr out"
  obtains bs where "r = Inr bs" and "length bs < 2 ^ 16"
    and "out = buf @ put_uint BE 2 (word_of_nat (length bs) :: u16) @ bs"
  using assms by (auto simp: write_with_len_header_def Let_def len_u16_def split: if_splits)

lemma read_messages_frame:
  assumes data: "data = buf @ put_uint BE 2 (word_of_nat (length bs) :: u16) @ bs @ rest"
    and len: "length bs < 2 ^ 16" and m: "message_deserialize_slice from_json bs = Inr m"
  shows "read_messages from_json data (length buf) acc =
    read_messages from_json data (length (buf @ put_uint BE 2 (word_of_nat (length bs) :: u16) @ bs)) (acc @ [m])"
proof -
  have "length buf < length data" "get_range (length buf) (length buf + 2) data = Some (put_uint BE 2 (word_of_nat (length bs) :: u16))"
    "get_range (length buf + 2) (length buf + 2 + length bs) data = Some bs"
    by (simp_all add: data get_range_def)
  with len m show ?thesis
    by (subst read_messages.simps) (simp add: Let_def get_put_uint unat_len_u16 add_ac)
qed

lemma write_read_messages:
  assumes json: "json_round_trip to_json from_json"
  shows "write_messages to_json buf ms = Inr out \<Longrightarrow> list_all message_wf ms \<Longrightarrow>
    (\<exists>t. out = buf @ t) \<and> read_messages from_json out (length buf) acc = Inr (acc @ ms)"
proof (induction ms arbitrary: buf acc)
  case Nil
  then show ?case by (subst read_messages.simps) simp
next
  case (Cons m ms)
  from Cons.prems(1) obtain buf1 where w: "write_with_len_header buf (\<lambda>buf. map_ok (\<lambda>bs. buf @ bs)
      (message_serialize to_json m)) = Inr buf1" and rest: "write_messages to_json buf1 ms = Inr out"
    by auto
  obtain bs where bs: "message_serialize to_json m = Inr bs" "length bs < 2 ^ 16"
    "buf1 = buf @ put_uint BE 2 (word_of_nat (length bs) :: u16) @ bs"
    using write_with_len_header_Inr [OF w] .
  have m: "message_deserialize_slice from_json bs = Inr m"
    using message_round_trip [OF json bs(1)] Cons.prems(2) by simp
  have ih: "(\<exists>t. out = buf1 @ t) \<and> read_messages from_json out (length buf1) (acc @ [m]) = Inr ((acc @ [m]) @ ms)"
    using Cons.IH [OF rest] Cons.prems(2) by simp
  then obtain t where out: "out = buf1 @ t" by blast
  then have "read_messages from_json out (length buf) acc = read_messages from_json out (length buf1) (acc @ [m])"
    using read_messages_frame [OF _ bs(2) m, of out buf t acc] by (simp add: bs(3))
  with ih show ?case by (simp add: bs(3) out)
qed

lemma bwu_round_trip:
  assumes json: "json_round_trip to_json from_json"
    and ser: "bwu_serialize to_json u [] = Inr bs" and wf: "list_all message_wf (bwu_messages u)"
  shows "bwu_deserialize_slice from_json bs = Inr u"
proof -
  let ?h = "put_uint LE 4 BINARY_UPDATE_FORMAT_MAGIC @ put_uint BE 8 (bwu_subscription_id u)"
  have w: "write_messages to_json ?h (bwu_messages u) = Inr bs"
    using ser by (simp add: bwu_serialize_def)
  obtain t where bs: "bs = ?h @ t" and r: "read_messages from_json bs 12 [] = Inr (bwu_messages u)"
    using write_read_messages [OF json w wf, of "[]"] by auto
  have "get_range 0 4 bs = Some (put_uint LE 4 BINARY_UPDATE_FORMAT_MAGIC)"
    "get_range 4 12 bs = Some (put_uint BE 8 (bwu_subscription_id u))"
    by (simp_all add: bs get_range_def)
  with r show ?thesis
    by (simp add: bwu_deserialize_slice_def get_put_uint)
qed

section \<open>Properties\<close>

text \<open>Round trip of every message format.  What a message with 64-byte signatures (and a 32-byte
  key for Solana) is serialised to is recognised by its magic and read back as the same message.\<close>

theorem message_serialize_deserialize:
  assumes "json_round_trip to_json from_json" and "message_wf m"
  shows "message_serialize to_json m = Inr bs \<Longrightarrow> message_deserialize_slice from_json bs = Inr m"
  using assms by (intro message_round_trip)

theorem message_serialize_deserialize_witness:
  "let m = Solana \<lparr>sol_payload = [1, 2, 3], sol_signature = replicate 64 9, sol_public_key = replicate 32 8\<rparr>
   in \<exists>bs. message_serialize (Inr :: bytes \<Rightarrow> anyhow + bytes) m = Inr bs \<and> message_deserialize_slice Inr bs = Inr m"
  unfolding Let_def
  by (rule exI, rule conjI [OF _ message_serialize_deserialize [of Inr]])
    (auto simp: json_round_trip_def solana_serialize_def len_u16_def)

text \<open>C12: Round trip of the binary Websocket update: the frames written with
  \<^verbatim>\<open>write_with_len_header\<close> are read back by the deserialisation loop as the same subscription id and
  the same messages in the same order.\<close>

theorem binary_update_round_trip:
  assumes "json_round_trip to_json from_json" and "list_all message_wf (bwu_messages u)"
    and "bwu_serialize to_json u [] = Inr bs"
  shows "bwu_deserialize_slice from_json bs = Inr u"
  using assms by (intro bwu_round_trip)

theorem binary_update_round_trip_witness:
  "let u = \<lparr>bwu_subscription_id = 7, bwu_messages = [LeUnsigned \<lparr>leu_payload = [1, 2]\<rparr>, Json [5]]\<rparr>
   in \<exists>bs. bwu_serialize (Inr :: bytes \<Rightarrow> anyhow + bytes) u [] = Inr bs \<and> bwu_deserialize_slice Inr bs = Inr u"
  unfolding Let_def
  by (rule exI, rule conjI [OF _ binary_update_round_trip [of Inr]])
    (auto simp: json_round_trip_def bwu_serialize_def write_with_len_header_def le_unsigned_serialize_def len_u16_def)

end
