(* ===== verification/Lazer_Solana.thy ===== *)
theory Lazer_Solana
  imports Signer_Registry Lazer_Message
begin

text \<open>
  The Pyth Lazer program on Solana
  (\<^verbatim>\<open>contracts/solana/programs/pyth-lazer-solana-contract/src/lib.rs\<close> and \<^verbatim>\<open>signature.rs\<close>): the
  storage account with its fixed arrays of trusted signers, the two verification instructions and
  the check of the transaction's \<^verbatim>\<open>ed25519_program\<close> call.
\<close>

section \<open>Errors\<close>

text \<open>
  The program's errors; \<open>HostError n\<close> is an error of a runtime call, and \<open>Panic\<close> a Rust panic,
  which aborts the transaction like an error.
\<close>

datatype program_error =
    InvalidAccountData | InvalidInstructionData | AccountDataTooSmall | MissingRequiredSignature
  | AccountNotSigner | ConstraintHasOne | AccountAlreadyInUse | HostError nat | Panic

section \<open>Storage (lib.rs)\<close>

definition MAX_NUM_TRUSTED_SIGNERS :: nat where "MAX_NUM_TRUSTED_SIGNERS = 2"
definition SPACE_FOR_TRUSTED_SIGNERS :: nat where "SPACE_FOR_TRUSTED_SIGNERS = 5"
definition SPACE_FOR_TRUSTED_ECDSA_SIGNERS :: nat where "SPACE_FOR_TRUSTED_ECDSA_SIGNERS = 2"

record trusted_signer_info =
  tsi_pubkey :: bytes
  tsi_expires_at :: i64

record storage =
  st_top_authority :: bytes
  st_treasury :: bytes
  st_single_update_fee_in_lamports :: u64
  st_num_trusted_signers :: u8
  st_trusted_signers :: "trusted_signer_info list"
  st_num_trusted_ecdsa_signers :: u8
  st_trusted_ecdsa_signers :: "trusted_signer_info list"

text \<open>
  \<^verbatim>\<open>Default::default()\<close> of a \<^verbatim>\<open>TrustedSignerInfo\<close> with keys of \<open>n\<close> bytes (32 for \<^verbatim>\<open>Pubkey\<close>, 20 for
  \<^verbatim>\<open>EvmAddress\<close>); a fresh account is zeroed by the runtime.
\<close>

definition default_signer :: "nat \<Rightarrow> trusted_signer_info" where
  "default_signer n = \<lparr>tsi_pubkey = replicate n 0, tsi_expires_at = 0\<rparr>"

definition zeroed_storage :: storage where
  "zeroed_storage = \<lparr>st_top_authority = replicate 32 0, st_treasury = replicate 32 0,
     st_single_update_fee_in_lamports = 0, st_num_trusted_signers = 0,
     st_trusted_signers = replicate SPACE_FOR_TRUSTED_SIGNERS (default_signer 32),
     st_num_trusted_ecdsa_signers = 0,
     st_trusted_ecdsa_signers = replicate SPACE_FOR_TRUSTED_ECDSA_SIGNERS (default_signer 20)\<rparr>"

text \<open>The range index \<^verbatim>\<open>signers[0..n]\<close> panics when the count exceeds the array.\<close>

definition initialized_signers :: "u8 \<Rightarrow> trusted_signer_info list \<Rightarrow> program_error + trusted_signer_info list" where
  "initialized_signers num signers = ok_or Panic (get_range 0 (unat num) signers)"

definition initialized_trusted_signers :: "storage \<Rightarrow> program_error + trusted_signer_info list" where
  "initialized_trusted_signers st = initialized_signers (st_num_trusted_signers st) (st_trusted_signers st)"

definition initialized_trusted_ecdsa_signers :: "storage \<Rightarrow> program_error + trusted_signer_info list" where
  "initialized_trusted_ecdsa_signers st =
     initialized_signers (st_num_trusted_ecdsa_signers st) (st_trusted_ecdsa_signers st)"

text \<open>\<open>clock\<close> is the result of \<^verbatim>\<open>Clock::get()\<close>, a Unix time.\<close>

definition is_trusted :: "program_error + i64 \<Rightarrow> storage \<Rightarrow> bytes \<Rightarrow> program_error + bool" where
  "is_trusted clock st signer =
     and_then clock (\<lambda>now.
     and_then (initialized_trusted_signers st) (\<lambda>signers.
     Inr (list_ex (\<lambda>s. tsi_pubkey s = signer \<and> sint now < sint (tsi_expires_at s)) signers)))"

definition is_ecdsa_trusted :: "program_error + i64 \<Rightarrow> storage \<Rightarrow> bytes \<Rightarrow> program_error + bool" where
  "is_ecdsa_trusted clock st signer =
     and_then clock (\<lambda>now.
     and_then (initialized_trusted_ecdsa_signers st) (\<lambda>signers.
     Inr (list_ex (\<lambda>s. tsi_pubkey s = signer \<and> sint now < sint (tsi_expires_at s)) signers)))"

section \<open>Updating the trusted signers\<close>

text \<open>\<^verbatim>\<open>iter().position(..)\<close>, and \<^verbatim>\<open>iter_mut().find(..)\<close> with the assignment to what it found.\<close>

fun position :: "('a \<Rightarrow> bool) \<Rightarrow> 'a list \<Rightarrow> nat option" where
  "position p [] = None"
| "position p (x # xs) = (if p x then Some 0 else map_option Suc (position p xs))"

fun modify_first :: "('a \<Rightarrow> bool) \<Rightarrow> ('a \<Rightarrow> 'a) \<Rightarrow> 'a list \<Rightarrow> 'a list option" where
  "modify_first p f [] = None"
| "modify_first p f (x # xs) = (if p x then Some (f x # xs) else map_option ((#) x) (modify_first p f xs))"

text \<open>The edit of the vector of initialised signers.\<close>

definition edit_signers ::
  "bytes \<Rightarrow> i64 \<Rightarrow> trusted_signer_info list \<Rightarrow> program_error + trusted_signer_info list" where
  "edit_signers trusted_signer expires_at signers =
     (if expires_at = 0 then
        and_then (ok_or InvalidInstructionData (position (\<lambda>item. tsi_pubkey item = trusted_signer) signers)) (\<lambda>pos.
        Inr (take pos signers @ drop (Suc pos) signers))
      else
        case modify_first (\<lambda>item. tsi_pubkey item = trusted_signer) (\<lambda>item. item\<lparr>tsi_expires_at := expires_at\<rparr>) signers of
          Some signers \<Rightarrow> Inr signers
        | None \<Rightarrow> Inr (signers @ [\<lparr>tsi_pubkey = trusted_signer, tsi_expires_at = expires_at\<rparr>]))"

definition update_signers ::
  "nat \<Rightarrow> u8 \<Rightarrow> trusted_signer_info list \<Rightarrow> bytes \<Rightarrow> i64 \<Rightarrow> program_error + u8 \<times> trusted_signer_info list" where
  "update_signers key_len stored_num stored trusted_signer expires_at =
     (let num_trusted_signers = unat stored_num in
      if length stored < num_trusted_signers then Inl InvalidAccountData
      else if MAX_NUM_TRUSTED_SIGNERS < num_trusted_signers then Inl InvalidAccountData
      else
      and_then (edit_signers trusted_signer expires_at (take num_trusted_signers stored)) (\<lambda>trusted_signers.
      if length stored < length trusted_signers then Inl AccountDataTooSmall
      else if MAX_NUM_TRUSTED_SIGNERS < length trusted_signers then Inl InvalidInstructionData
      else
      let stored = trusted_signers @ replicate (length stored - length trusted_signers) (default_signer key_len) in
      and_then (if length trusted_signers < 2 ^ 8 then Inr (word_of_nat (length trusted_signers)) else Inl Panic) (\<lambda>n.
      Inr (n, stored))))"

section \<open>Instructions\<close>

text \<open>
  The account constraints run before a handler: \<^verbatim>\<open>init\<close> fails when the storage account exists,
  \<^verbatim>\<open>has_one = top_authority\<close> and \<^verbatim>\<open>has_one = treasury\<close> compare with the stored keys, and the
  authority must have signed (\<open>signers\<close> is the set of keys that signed the transaction).
\<close>

definition sol_initialize :: "bytes \<Rightarrow> bytes \<Rightarrow> storage option \<Rightarrow> program_error + storage" where
  "sol_initialize top_authority treasury account =
     (case account of
        Some _ \<Rightarrow> Inl AccountAlreadyInUse
      | None \<Rightarrow> Inr (zeroed_storage\<lparr>st_top_authority := top_authority, st_treasury := treasury,
                    st_single_update_fee_in_lamports := 1\<rparr>))"

definition check_authority :: "bytes set \<Rightarrow> bytes \<Rightarrow> storage \<Rightarrow> program_error + unit" where
  "check_authority signers authority st =
     (if authority \<notin> signers then Inl AccountNotSigner
      else if st_top_authority st \<noteq> authority then Inl ConstraintHasOne else Inr ())"

definition sol_update :: "bytes set \<Rightarrow> bytes \<Rightarrow> bytes \<Rightarrow> i64 \<Rightarrow> storage \<Rightarrow> program_error + storage" where
  "sol_update signers authority trusted_signer expires_at st =
     and_then (check_authority signers authority st) (\<lambda>_.
     and_then (update_signers 32 (st_num_trusted_signers st) (st_trusted_signers st) trusted_signer expires_at)
       (\<lambda>(n, ts). Inr (st\<lparr>st_num_trusted_signers := n, st_trusted_signers := ts\<rparr>)))"

definition sol_update_ecdsa_signer :: "bytes set \<Rightarrow> bytes \<Rightarrow> bytes \<Rightarrow> i64 \<Rightarrow> storage \<Rightarrow> program_error + storage" where
  "sol_update_ecdsa_signer signers authority trusted_signer expires_at st =
     and_then (check_authority signers authority st) (\<lambda>_.
     and_then (update_signers 20 (st_num_trusted_ecdsa_signers st) (st_trusted_ecdsa_signers st) trusted_signer expires_at)
       (\<lambda>(n, ts). Inr (st\<lparr>st_num_trusted_ecdsa_signers := n, st_trusted_ecdsa_signers := ts\<rparr>)))"

text \<open>
  Paying the fee: \<open>transfer from to amount\<close> is the system program's transfer.
\<close>

definition pay_fee ::
  "(bytes \<Rightarrow> bytes \<Rightarrow> u64 \<Rightarrow> program_error + unit) \<Rightarrow> bytes \<Rightarrow> bytes \<Rightarrow> storage \<Rightarrow> program_error + unit" where
  "pay_fee transfer payer treasury st =
     (if st_treasury st \<noteq> treasury then Inl ConstraintHasOne
      else transfer payer treasury (st_single_update_fee_in_lamports st))"

text \<open>
  \<open>recover hash recovery_id signature\<close> is the \<^verbatim>\<open>secp256k1_recover\<close> system call, giving a 64-byte key;
  \<open>keccak\<close> the hash function, giving 32 bytes.
\<close>

definition verify_ecdsa_message ::
  "(bytes \<Rightarrow> bytes) \<Rightarrow> (bytes \<Rightarrow> u8 \<Rightarrow> bytes \<Rightarrow> bytes option) \<Rightarrow> (bytes \<Rightarrow> bytes \<Rightarrow> u64 \<Rightarrow> program_error + unit) \<Rightarrow>
   program_error + i64 \<Rightarrow> bytes \<Rightarrow> bytes \<Rightarrow> storage \<Rightarrow> bytes \<Rightarrow> program_error + unit" where
  "verify_ecdsa_message keccak recover transfer clock payer treasury st message_data =
     and_then (pay_fee transfer payer treasury st) (\<lambda>_.
     and_then (map_err (\<lambda>_. InvalidInstructionData) (le_ecdsa_deserialize_slice message_data)) (\<lambda>message.
     and_then (ok_or InvalidInstructionData
       (recover (keccak (lee_payload message)) (lee_recovery_id message) (lee_signature message))) (\<lambda>pubkey.
     let addr = drop 12 (keccak pubkey) in
     if length addr \<noteq> 20 then Inl Panic
     else if addr = replicate 20 0 then Inl InvalidInstructionData
     else
     and_then (is_ecdsa_trusted clock st addr) (\<lambda>trusted.
     if \<not> trusted then Inl MissingRequiredSignature else Inr ()))))"

section \<open>The arrays are registries\<close>

definition entries :: "trusted_signer_info list \<Rightarrow> (bytes \<times> i64) list" where
  "entries xs = map (\<lambda>s. (tsi_pubkey s, tsi_expires_at s)) xs"

lemma entries_simps [simp]:
  "entries [] = []" "entries (x # xs) = (tsi_pubkey x, tsi_expires_at x) # entries xs"
  "entries (xs @ ys) = entries xs @ entries ys" "length (entries xs) = length xs"
  by (simp_all add: entries_def)

lemma keys_entries: "map fst (entries xs) = map tsi_pubkey xs"
  by (simp add: entries_def)

lemma remove_position:
  assumes "position (\<lambda>item. tsi_pubkey item = k) xs = Some i" and "distinct (map tsi_pubkey xs)"
  shows "i < length xs" and "distinct (map tsi_pubkey (take i xs @ drop (Suc i) xs))"
    and "map_of (entries (take i xs @ drop (Suc i) xs)) = (map_of (entries xs))(k := None)"
proof -
  have "i < length xs \<and> distinct (map tsi_pubkey (take i xs @ drop (Suc i) xs)) \<and>
      map_of (entries (take i xs @ drop (Suc i) xs)) = (map_of (entries xs))(k := None)"
    using assms
  proof (induction xs arbitrary: i)
    case (Cons x xs)
    show ?case
    proof (cases "tsi_pubkey x = k")
      case True
      have "map_of (entries xs) k = None"
        using Cons.prems(2) True by (auto simp: map_of_eq_None_iff entries_def)
      with True Cons.prems show ?thesis by (auto simp: fun_eq_iff)
    next
      case False
      with Cons.prems(1) obtain j where j: "position (\<lambda>item. tsi_pubkey item = k) xs = Some j" "i = Suc j" by auto
      have "set (take j xs) \<union> set (drop (Suc j) xs) \<subseteq> set xs"
        using set_take_subset [of j xs] set_drop_subset [of "Suc j" xs] by blast
      with Cons.IH [OF j(1)] Cons.prems(2) False show ?thesis by (auto simp: j(2))
    qed
  qed simp
  then show "i < length xs" "distinct (map tsi_pubkey (take i xs @ drop (Suc i) xs))"
    "map_of (entries (take i xs @ drop (Suc i) xs)) = (map_of (entries xs))(k := None)" by blast+
qed

lemma modify_first_entries:
  "modify_first (\<lambda>item. tsi_pubkey item = k) (\<lambda>item. item\<lparr>tsi_expires_at := e\<rparr>) xs = Some ys \<Longrightarrow>
     map tsi_pubkey ys = map tsi_pubkey xs \<and> map_of (entries ys) = (map_of (entries xs))(k \<mapsto> e)"
  by (induction xs arbitrary: ys) (auto split: if_splits)

lemma modify_first_None:
  "modify_first p f xs = None \<longleftrightarrow> (\<forall>x \<in> set xs. \<not> p x)"
  by (induction xs) auto

lemma edit_signers_Inr:
  assumes "edit_signers k e xs = Inr ys" and "distinct (map tsi_pubkey xs)"
  shows "distinct (map tsi_pubkey ys)" and "map_of (entries ys) = (map_of (entries xs))(k := if e = 0 then None else Some e)"
proof -
  let ?mod = "modify_first (\<lambda>item. tsi_pubkey item = k) (\<lambda>item. item\<lparr>tsi_expires_at := e\<rparr>) xs"
  have "distinct (map tsi_pubkey ys) \<and> map_of (entries ys) = (map_of (entries xs))(k := if e = 0 then None else Some e)"
  proof (cases "e = 0")
    case True
    with assms show ?thesis by (auto simp: edit_signers_def dest: remove_position)
  next
    case False
    show ?thesis
    proof (cases ?mod)
      case None
      then have "k \<notin> set (map tsi_pubkey xs)"
        unfolding modify_first_None by auto
      moreover from this have "map_of (entries xs) k = None"
        by (simp add: map_of_eq_None_iff keys_entries [symmetric] del: set_map flip: set_map)
      ultimately show ?thesis
        using assms False None by (auto simp: edit_signers_def map_add_def fun_eq_iff split: option.splits)
    next
      case (Some zs)
      with assms(1) False have "ys = zs" by (simp add: edit_signers_def)
      with modify_first_entries [OF Some] assms(2) False show ?thesis by simp
    qed
  qed
  then show "distinct (map tsi_pubkey ys)" "map_of (entries ys) = (map_of (entries xs))(k := if e = 0 then None else Some e)"
    by blast+
qed

text \<open>Well-formed arrays: a count in range and distinct keys among the initialised signers.\<close>

definition signers_wf :: "nat \<Rightarrow> u8 \<Rightarrow> trusted_signer_info list \<Rightarrow> bool" where
  "signers_wf space n xs \<longleftrightarrow> length xs = space \<and> unat n \<le> space \<and> unat n \<le> MAX_NUM_TRUSTED_SIGNERS \<and>
     distinct (map tsi_pubkey (take (unat n) xs)) \<and>
     (\<exists>key_len. drop (unat n) xs = replicate (space - unat n) (default_signer key_len))"

definition array_lookup :: "u8 \<Rightarrow> trusted_signer_info list \<Rightarrow> bytes \<Rightarrow> i64 option" where
  "array_lookup n xs = map_of (entries (take (unat n) xs))"

lemma update_signers_Inr:
  assumes "update_signers key_len n xs k e = Inr (n', ys)" and wf: "signers_wf space n xs"
  shows "signers_wf space n' ys" and "array_lookup n' ys = (array_lookup n xs)(k := if e = 0 then None else Some e)"
proof -
  from assms obtain zs where zs: "edit_signers k e (take (unat n) xs) = Inr zs" "length zs \<le> length xs"
    "length zs \<le> MAX_NUM_TRUSTED_SIGNERS" "n' = word_of_nat (length zs)"
    "ys = zs @ replicate (length xs - length zs) (default_signer key_len)"
    by (auto simp: update_signers_def Let_def not_less split: if_splits)
  have n': "unat n' = length zs"
    using zs(3,4) by (simp add: unat_of_nat MAX_NUM_TRUSTED_SIGNERS_def take_bit_nat_eq_self)
  have d: "distinct (map tsi_pubkey (take (unat n) xs))"
    using wf by (simp add: signers_wf_def)
  note edit = edit_signers_Inr [OF zs(1) d]
  show "signers_wf space n' ys"
    using wf zs(2,3) edit(1) by (auto simp: signers_wf_def n' zs(5))
  show "array_lookup n' ys = (array_lookup n xs)(k := if e = 0 then None else Some e)"
    using edit(2) by (simp add: array_lookup_def n' zs(5))
qed

definition storage_inv :: "storage \<Rightarrow> bool" where
  "storage_inv st \<longleftrightarrow>
     signers_wf SPACE_FOR_TRUSTED_SIGNERS (st_num_trusted_signers st) (st_trusted_signers st) \<and>
     signers_wf SPACE_FOR_TRUSTED_ECDSA_SIGNERS (st_num_trusted_ecdsa_signers st) (st_trusted_ecdsa_signers st)"

definition sol_lookup :: "storage \<Rightarrow> bytes \<Rightarrow> i64 option" where
  "sol_lookup st = array_lookup (st_num_trusted_signers st) (st_trusted_signers st)"

definition sol_ecdsa_lookup :: "storage \<Rightarrow> bytes \<Rightarrow> i64 option" where
  "sol_ecdsa_lookup st = array_lookup (st_num_trusted_ecdsa_signers st) (st_trusted_ecdsa_signers st)"

interpretation sol_signers: signer_registry storage_inv sol_lookup "sol_update signers authority" for signers authority
proof
  fix st st' k e
  assume inv: "storage_inv st" and u: "sol_update signers authority k e st = Inr st'"
  then obtain n ts where "update_signers 32 (st_num_trusted_signers st) (st_trusted_signers st) k e = Inr (n, ts)"
    "st' = st\<lparr>st_num_trusted_signers := n, st_trusted_signers := ts\<rparr>"
    by (auto simp: sol_update_def)
  with inv update_signers_Inr [OF this(1)]
  show "storage_inv st'" "sol_lookup st' = (sol_lookup st)(k := if e = 0 then None else Some e)"
    by (auto simp: storage_inv_def sol_lookup_def)
qed

interpretation sol_ecdsa_signers: signer_registry storage_inv sol_ecdsa_lookup "sol_update_ecdsa_signer signers authority"
  for signers authority
proof
  fix st st' k e
  assume inv: "storage_inv st" and u: "sol_update_ecdsa_signer signers authority k e st = Inr st'"
  then obtain n ts where "update_signers 20 (st_num_trusted_ecdsa_signers st) (st_trusted_ecdsa_signers st) k e = Inr (n, ts)"
    "st' = st\<lparr>st_num_trusted_ecdsa_signers := n, st_trusted_ecdsa_signers := ts\<rparr>"
    by (auto simp: sol_update_ecdsa_signer_def)
  with inv update_signers_Inr [OF this(1)]
  show "storage_inv st'" "sol_ecdsa_lookup st' = (sol_ecdsa_lookup st)(k := if e = 0 then None else Some e)"
    by (auto simp: storage_inv_def sol_ecdsa_lookup_def)
qed

lemma list_ex_entries:
  assumes "distinct (map tsi_pubkey xs)"
  shows "list_ex (\<lambda>s. tsi_pubkey s = k \<and> sint now < sint (tsi_expires_at s)) xs \<longleftrightarrow>
    (\<exists>e. map_of (entries xs) k = Some e \<and> sint now < sint e)"
  using assms
proof (induction xs)
  case (Cons x xs)
  have "tsi_pubkey x = k \<Longrightarrow> map_of (entries xs) k = None"
    using Cons.prems by (auto simp: map_of_eq_None_iff entries_def)
  with Cons show ?case by auto
qed simp

lemma is_trusted_lookup:
  assumes "storage_inv st"
  shows "is_trusted (Inr now) st k = Inr (\<exists>e. sol_lookup st k = Some e \<and> sint now < sint e)"
    and "is_ecdsa_trusted (Inr now) st k = Inr (\<exists>e. sol_ecdsa_lookup st k = Some e \<and> sint now < sint e)"
  using assms
  by (simp_all add: is_trusted_def is_ecdsa_trusted_def initialized_trusted_signers_def initialized_signers_def
      initialized_trusted_ecdsa_signers_def get_range_def storage_inv_def signers_wf_def list_ex_entries
      sol_lookup_def sol_ecdsa_lookup_def array_lookup_def)

lemma zeroed_storage_inv: "sol_initialize a t None = Inr st \<Longrightarrow> storage_inv st \<and> sol_lookup st = Map.empty"
  by (auto simp: sol_initialize_def zeroed_storage_def storage_inv_def signers_wf_def sol_lookup_def array_lookup_def)

lemma sol_ecdsa_initial: "sol_initialize a t None = Inr st \<Longrightarrow> sol_ecdsa_lookup st = Map.empty"
  by (auto simp: sol_initialize_def zeroed_storage_def sol_ecdsa_lookup_def array_lookup_def)

section \<open>Properties\<close>

text \<open>
  The two signer updates as calls of anybody: the keys that signed the transaction, the account given as the
  authority, the signer and its expiry.  A run is a sequence of accepted calls.
\<close>

datatype signer_call =
    is_Update_Signer: Update_Signer (sc_signers: "bytes set") (sc_authority: bytes) (sc_key: bytes) (sc_expires_at: i64)
  | is_Update_Ecdsa_Signer: Update_Ecdsa_Signer (sc_signers: "bytes set") (sc_authority: bytes) (sc_key: bytes) (sc_expires_at: i64)

fun run_signer_call :: "signer_call \<Rightarrow> storage \<Rightarrow> program_error + storage" where
  "run_signer_call (Update_Signer signers authority k e) st = sol_update signers authority k e st"
| "run_signer_call (Update_Ecdsa_Signer signers authority k e) st = sol_update_ecdsa_signer signers authority k e st"

fun run_signer_calls :: "signer_call list \<Rightarrow> storage \<Rightarrow> program_error + storage" where
  "run_signer_calls [] st = Inr st"
| "run_signer_calls (c # cs) st = and_then (run_signer_call c st) (run_signer_calls cs)"

text \<open>The last expiry that the calls give to a key, for each of the two arrays.\<close>

definition last_expiry :: "(signer_call \<Rightarrow> bool) \<Rightarrow> signer_call list \<Rightarrow> bytes \<Rightarrow> i64 option" where
  "last_expiry kind cs = map_of (rev (map (\<lambda>c. (sc_key c, sc_expires_at c)) (filter kind cs)))"

abbreviation nonzero_expiry :: "i64 option \<Rightarrow> i64 option \<Rightarrow> i64 option" where
  "nonzero_expiry r old \<equiv> (case r of None \<Rightarrow> old | Some e \<Rightarrow> if e = 0 then None else Some e)"

lemma last_expiry_Cons:
  "nonzero_expiry (last_expiry kind (c # cs) k) old =
     nonzero_expiry (last_expiry kind cs k)
       (if kind c \<and> sc_key c = k then if sc_expires_at c = 0 then None else Some (sc_expires_at c) else old)"
  by (auto simp: last_expiry_def map_add_def split: option.splits)

lemma run_signer_call_Inr:
  assumes "run_signer_call c st = Inr st'" and "storage_inv st"
  shows "sc_authority c = st_top_authority st \<and> sc_authority c \<in> sc_signers c"
    and "storage_inv st'"
    and "st_top_authority st' = st_top_authority st \<and> st_treasury st' = st_treasury st \<and>
      st_single_update_fee_in_lamports st' = st_single_update_fee_in_lamports st"
    and "sol_lookup st' k = (if is_Update_Signer c \<and> sc_key c = k
      then if sc_expires_at c = 0 then None else Some (sc_expires_at c) else sol_lookup st k)"
    and "sol_ecdsa_lookup st' k = (if is_Update_Ecdsa_Signer c \<and> sc_key c = k
      then if sc_expires_at c = 0 then None else Some (sc_expires_at c) else sol_ecdsa_lookup st k)"
proof -
  show "sc_authority c = st_top_authority st \<and> sc_authority c \<in> sc_signers c"
    "st_top_authority st' = st_top_authority st \<and> st_treasury st' = st_treasury st \<and>
      st_single_update_fee_in_lamports st' = st_single_update_fee_in_lamports st"
    using assms(1) by (cases c; auto simp: sol_update_def sol_update_ecdsa_signer_def check_authority_def split: if_splits)+
  show "storage_inv st'"
    using assms by (cases c) (auto dest: sol_signers.inv_update sol_ecdsa_signers.inv_update)
  show "sol_lookup st' k = (if is_Update_Signer c \<and> sc_key c = k
      then if sc_expires_at c = 0 then None else Some (sc_expires_at c) else sol_lookup st k)"
    using assms by (cases c) (auto dest: sol_signers.lookup_update simp: sol_update_ecdsa_signer_def sol_lookup_def)
  show "sol_ecdsa_lookup st' k = (if is_Update_Ecdsa_Signer c \<and> sc_key c = k
      then if sc_expires_at c = 0 then None else Some (sc_expires_at c) else sol_ecdsa_lookup st k)"
    using assms by (cases c) (auto dest: sol_ecdsa_signers.lookup_update simp: sol_update_def sol_ecdsa_lookup_def)
qed

lemma run_signer_calls_Inr:
  assumes "run_signer_calls cs st = Inr st'" and "storage_inv st"
  shows "list_all (\<lambda>c. sc_authority c = st_top_authority st \<and> sc_authority c \<in> sc_signers c) cs \<and> storage_inv st' \<and>
    st_top_authority st' = st_top_authority st \<and> st_treasury st' = st_treasury st \<and>
    st_single_update_fee_in_lamports st' = st_single_update_fee_in_lamports st \<and>
    sol_lookup st' k = nonzero_expiry (last_expiry is_Update_Signer cs k) (sol_lookup st k) \<and>
    sol_ecdsa_lookup st' k = nonzero_expiry (last_expiry is_Update_Ecdsa_Signer cs k) (sol_ecdsa_lookup st k)"
  using assms
proof (induction cs arbitrary: st)
  case (Cons c cs)
  from Cons.prems(1) obtain st1 where c: "run_signer_call c st = Inr st1" and cs: "run_signer_calls cs st1 = Inr st'"
    by auto
  note inv = run_signer_call_Inr(2) [OF c Cons.prems(2)]
  note top = run_signer_call_Inr(3) [OF c Cons.prems(2)]
  have caller: "sc_authority c = st_top_authority st" "sc_authority c \<in> sc_signers c"
    using run_signer_call_Inr(1) [OF c Cons.prems(2)] by blast+
  note IH = Cons.IH [OF cs inv]
  have "list_all (\<lambda>c. sc_authority c = st_top_authority st \<and> sc_authority c \<in> sc_signers c) (c # cs)"
    using IH top caller by simp
  moreover have "sol_lookup st' k = nonzero_expiry (last_expiry is_Update_Signer (c # cs) k) (sol_lookup st k)"
    unfolding last_expiry_Cons using IH run_signer_call_Inr(4) [OF c Cons.prems(2), of k] by presburger
  moreover have "sol_ecdsa_lookup st' k =
      nonzero_expiry (last_expiry is_Update_Ecdsa_Signer (c # cs) k) (sol_ecdsa_lookup st k)"
    unfolding last_expiry_Cons using IH run_signer_call_Inr(5) [OF c Cons.prems(2), of k] by presburger
  ultimately show ?case using IH top by presburger
qed (simp add: last_expiry_def)

text \<open>C15: The signer updates on Solana.  From an initialised account and after any sequence of accepted calls of
  both updates, every one of them was signed by the authority of the initialisation; the storage invariant
  holds and the authority, the treasury and the fee are unchanged; and a key is trusted, as an Ed25519 or as
  an ECDSA signer, exactly when its last update of that kind gave it a non-zero expiry that is still ahead
  of the clock.  In particular each array has at most two signers, all different, and is zero after them.\<close>

theorem solana_signer_updates:
  assumes "sol_initialize authority treasury None = Inr st0"
    and "run_signer_calls cs st0 = Inr st"
  shows "list_all (\<lambda>c. sc_authority c = authority \<and> authority \<in> sc_signers c) cs \<and>
    storage_inv st \<and> st_top_authority st = authority \<and> st_treasury st = treasury \<and>
    st_single_update_fee_in_lamports st = 1 \<and>
    is_trusted (Inr now) st k =
      Inr (\<exists>e. last_expiry is_Update_Signer cs k = Some e \<and> e \<noteq> 0 \<and> sint now < sint e) \<and>
    is_ecdsa_trusted (Inr now) st k =
      Inr (\<exists>e. last_expiry is_Update_Ecdsa_Signer cs k = Some e \<and> e \<noteq> 0 \<and> sint now < sint e) \<and>
    unat (st_num_trusted_signers st) \<le> 2 \<and> unat (st_num_trusted_ecdsa_signers st) \<le> 2"
proof -
  have inv0: "storage_inv st0" and l0: "sol_lookup st0 = Map.empty" "sol_ecdsa_lookup st0 = Map.empty"
    using zeroed_storage_inv [OF assms(1)] sol_ecdsa_initial [OF assms(1)] by simp_all
  have st0: "st_top_authority st0 = authority" "st_treasury st0 = treasury" "st_single_update_fee_in_lamports st0 = 1"
    using assms(1) by (auto simp: sol_initialize_def)
  note run = run_signer_calls_Inr [OF assms(2) inv0, of k, unfolded l0 st0]
  then have inv: "storage_inv st" by blast
  have callers: "list_all (\<lambda>c. sc_authority c = authority \<and> authority \<in> sc_signers c) cs"
    using run by (simp add: list_all_iff) metis
  have trusted: "is_trusted (Inr now) st k =
      Inr (\<exists>e. last_expiry is_Update_Signer cs k = Some e \<and> e \<noteq> 0 \<and> sint now < sint e)"
    using run is_trusted_lookup(1) [OF inv, of now k] by (cases "last_expiry is_Update_Signer cs k") simp_all
  have ecdsa: "is_ecdsa_trusted (Inr now) st k =
      Inr (\<exists>e. last_expiry is_Update_Ecdsa_Signer cs k = Some e \<and> e \<noteq> 0 \<and> sint now < sint e)"
    using run is_trusted_lookup(2) [OF inv, of now k] by (cases "last_expiry is_Update_Ecdsa_Signer cs k") simp_all
  have "unat (st_num_trusted_signers st) \<le> 2 \<and> unat (st_num_trusted_ecdsa_signers st) \<le> 2"
    using inv by (simp add: storage_inv_def signers_wf_def MAX_NUM_TRUSTED_SIGNERS_def)
  with callers run inv trusted ecdsa show ?thesis by blast
qed

theorem solana_signer_updates_witness:
  "\<exists>st0 st. sol_initialize [1] [2] None = Inr st0 \<and>
     run_signer_calls [Update_Signer {[1]} [1] [5] 100, Update_Ecdsa_Signer {[1]} [1] [7] 300,
       Update_Signer {[1]} [1] [6] 200, Update_Signer {[1]} [1] [5] 0] st0 = Inr st \<and>
     storage_inv st \<and> is_trusted (Inr 50) st [5] = Inr False \<and> is_trusted (Inr 50) st [6] = Inr True \<and>
     is_ecdsa_trusted (Inr 50) st [7] = Inr True \<and> is_ecdsa_trusted (Inr 300) st [7] = Inr False"
proof -
  let ?cs = "[Update_Signer {[1]} [1] [5] 100, Update_Ecdsa_Signer {[1]} [1] [7] 300,
     Update_Signer {[1]} [1] [6] 200, Update_Signer {[1]} [1] [5] 0] :: signer_call list"
  have "is_ok (and_then (sol_initialize [1] [2] None) (run_signer_calls ?cs))" by code_simp
  then obtain st0 st where st0: "sol_initialize [1] [2] None = Inr st0" and st: "run_signer_calls ?cs st0 = Inr st"
    by (auto simp: is_ok_iff)
  note h = solana_signer_updates [OF st0 st]
  have "is_trusted (Inr 50) st [5] = Inr False" using h [of 50 "[5]"] by (simp add: last_expiry_def)
  moreover have "is_trusted (Inr 50) st [6] = Inr True" using h [of 50 "[6]"] by (simp add: last_expiry_def)
  moreover have "is_ecdsa_trusted (Inr 50) st [7] = Inr True" using h [of 50 "[7]"] by (simp add: last_expiry_def)
  moreover have "is_ecdsa_trusted (Inr 300) st [7] = Inr False" using h [of 300 "[7]"] by (simp add: last_expiry_def)
  ultimately show ?thesis using st0 st h by blast
qed

text \<open>C16: ECDSA verification on Solana.  The instruction, which returns nothing, succeeds exactly when the
  fee is paid to the stored treasury, the data starts with an LE-ECDSA envelope (bytes after it are not
  looked at), and the address of the key recovered from the hash of its payload is not zero and is a
  trusted ECDSA signer that has not expired.\<close>

theorem solana_verify_ecdsa_exact:
  assumes "storage_inv st" and "\<forall>x. length (keccak x) = 32"
  shows "verify_ecdsa_message keccak recover transfer (Inr now) payer treasury st data = Inr () \<longleftrightarrow>
    treasury = st_treasury st \<and> transfer payer treasury (st_single_update_fee_in_lamports st) = Inr () \<and>
    (\<exists>m rest bs pk e. le_ecdsa_valid m \<and> le_ecdsa_serialize m = Inr bs \<and> data = bs @ rest \<and>
       recover (keccak (lee_payload m)) (lee_recovery_id m) (lee_signature m) = Some pk \<and>
       drop 12 (keccak pk) \<noteq> replicate 20 0 \<and>
       sol_ecdsa_lookup st (drop 12 (keccak pk)) = Some e \<and> sint now < sint e)"
proof -
  have ser: "le_ecdsa_valid m \<Longrightarrow> le_ecdsa_serialize m = Inr (ok_bytes (le_ecdsa_serialize m))" for m
    by (simp add: le_ecdsa_valid_def le_ecdsa_serialize_def len_u16_def)
  have de: "le_ecdsa_deserialize_slice data = Inr m \<longleftrightarrow>
      (\<exists>rest bs. le_ecdsa_valid m \<and> le_ecdsa_serialize m = Inr bs \<and> data = bs @ rest)" for m
    using ser [of m] le_ecdsa_codec.dec_iff [of data m]
    by (auto simp: le_ecdsa_deserialize_slice_def)
  have tr: "is_ecdsa_trusted (Inr now) st k = Inr (\<exists>e. sol_ecdsa_lookup st k = Some e \<and> sint now < sint e)" for k
    by (rule is_trusted_lookup(2) [OF assms(1)])
  have "verify_ecdsa_message keccak recover transfer (Inr now) payer treasury st data = Inr () \<longleftrightarrow>
      treasury = st_treasury st \<and> transfer payer treasury (st_single_update_fee_in_lamports st) = Inr () \<and>
      (\<exists>m pk e. le_ecdsa_deserialize_slice data = Inr m \<and>
       recover (keccak (lee_payload m)) (lee_recovery_id m) (lee_signature m) = Some pk \<and>
       drop 12 (keccak pk) \<noteq> replicate 20 0 \<and>
       sol_ecdsa_lookup st (drop 12 (keccak pk)) = Some e \<and> sint now < sint e)"
    using assms(2) by (auto simp: verify_ecdsa_message_def pay_fee_def Let_def tr split: if_splits)
  then show ?thesis unfolding de by blast
qed

definition demo_ecdsa_storage :: storage where
  "demo_ecdsa_storage = zeroed_storage\<lparr>st_num_trusted_ecdsa_signers := 1,
     st_trusted_ecdsa_signers := [\<lparr>tsi_pubkey = replicate 20 1, tsi_expires_at = 300\<rparr>, default_signer 20]\<rparr>"

theorem solana_verify_ecdsa_exact_witness:
  "let data = ok_bytes (le_ecdsa_serialize \<lparr>lee_payload = [1], lee_signature = replicate 64 9, lee_recovery_id = 0\<rparr>);
       verify = \<lambda>now. verify_ecdsa_message (\<lambda>x. replicate 32 1) (\<lambda>h r s. Some [4]) (\<lambda>a b f. Inr ()) (Inr now) [2]
         (replicate 32 0) demo_ecdsa_storage data
   in verify 100 = Inr () \<and> verify 300 \<noteq> Inr ()"
proof -
  let ?m = "\<lparr>lee_payload = [1], lee_signature = replicate 64 9, lee_recovery_id = 0\<rparr>"
  have inv: "storage_inv demo_ecdsa_storage"
    by (auto simp: demo_ecdsa_storage_def zeroed_storage_def storage_inv_def signers_wf_def
        SPACE_FOR_TRUSTED_ECDSA_SIGNERS_def SPACE_FOR_TRUSTED_SIGNERS_def MAX_NUM_TRUSTED_SIGNERS_def)
  have look: "sol_ecdsa_lookup demo_ecdsa_storage k = (if k = replicate 20 1 then Some 300 else None)" for k
    by (simp add: demo_ecdsa_storage_def sol_ecdsa_lookup_def array_lookup_def)
  have m: "le_ecdsa_valid ?m" "le_ecdsa_serialize ?m = Inr (ok_bytes (le_ecdsa_serialize ?m))"
    by (simp_all add: le_ecdsa_valid_def le_ecdsa_serialize_def len_u16_def)
  have enc: "\<exists>m. le_ecdsa_valid m \<and> (\<exists>rest bs. le_ecdsa_serialize m = Inr bs \<and> ok_bytes (le_ecdsa_serialize ?m) = bs @ rest)"
    using m by (metis append_Nil2)
  have ne: "replicate 20 (1 :: u8) \<noteq> replicate 20 0" by (simp add: numeral_eq_Suc)
  have tr: "st_treasury demo_ecdsa_storage = replicate 32 0"
    by (simp add: demo_ecdsa_storage_def zeroed_storage_def)
  note ex = solana_verify_ecdsa_exact [OF inv, of "\<lambda>x. replicate 32 1" "\<lambda>h r s. Some [4]" "\<lambda>a b f. Inr ()" _ "[2]"
      "replicate 32 0"]
  have "verify_ecdsa_message (\<lambda>x. replicate 32 1) (\<lambda>h r s. Some [4]) (\<lambda>a b f. Inr ()) (Inr 100) [2]
      (replicate 32 0) demo_ecdsa_storage (ok_bytes (le_ecdsa_serialize ?m)) = Inr ()"
    using ex [of 100 "ok_bytes (le_ecdsa_serialize ?m)"] enc ne by (simp add: look tr drop_replicate)
  moreover have "verify_ecdsa_message (\<lambda>x. replicate 32 1) (\<lambda>h r s. Some [4]) (\<lambda>a b f. Inr ()) (Inr 300) [2]
      (replicate 32 0) demo_ecdsa_storage (ok_bytes (le_ecdsa_serialize ?m)) \<noteq> Inr ()"
    using ex [of 300 "ok_bytes (le_ecdsa_serialize ?m)"] by (auto simp: look drop_replicate)
  ultimately show ?thesis by (simp add: Let_def)
qed

end
