(* ===== verification/Solana_Signature.thy ===== *)
theory Solana_Signature
  imports Lazer_Solana
begin

text \<open>
  The check of an \<^verbatim>\<open>ed25519_program\<close> call in the same transaction
  (\<^verbatim>\<open>contracts/solana/programs/pyth-lazer-solana-contract/src/signature.rs\<close>), and the instruction
  \<^verbatim>\<open>verify_message\<close> built on it.  The instructions sysvar is given by two arguments: the result of
  \<^verbatim>\<open>load_current_index_checked\<close> and the function \<^verbatim>\<open>load_instruction_at_checked\<close>.
\<close>

section \<open>Offsets\<close>

definition ED25519_PROGRAM_INPUT_HEADER_LEN :: nat where "ED25519_PROGRAM_INPUT_HEADER_LEN = 2"
definition SIGNATURE_LEN :: u16 where "SIGNATURE_LEN = 64"
definition PUBKEY_LEN :: u16 where "PUBKEY_LEN = 32"
definition MAGIC_LEN :: u16 where "MAGIC_LEN = 4"
definition MESSAGE_SIZE_LEN :: u16 where "MESSAGE_SIZE_LEN = 2"

record ed25519_signature_offsets =
  so_signature_offset :: u16
  so_signature_instruction_index :: u16
  so_public_key_offset :: u16
  so_public_key_instruction_index :: u16
  so_message_data_offset :: u16
  so_message_data_size :: u16
  so_message_instruction_index :: u16

text \<open>Additions and subtractions of \<^verbatim>\<open>u16\<close> are overflow-checked in the program's build.\<close>

definition plus_or_panic :: "u16 \<Rightarrow> u16 \<Rightarrow> program_error + u16" where
  "plus_or_panic a b = ok_or Panic (checked_add_u a b)"

definition range_or_panic :: "nat \<Rightarrow> nat \<Rightarrow> bytes \<Rightarrow> program_error + bytes" where
  "range_or_panic a b data = ok_or Panic (get_range a b data)"

definition offsets_new :: "bytes \<Rightarrow> u16 \<Rightarrow> u16 \<Rightarrow> program_error + ed25519_signature_offsets" where
  "offsets_new message instruction_index starting_offset =
     and_then (plus_or_panic starting_offset MAGIC_LEN) (\<lambda>signature_offset.
     and_then (plus_or_panic signature_offset SIGNATURE_LEN) (\<lambda>public_key_offset.
     and_then (plus_or_panic public_key_offset PUBKEY_LEN) (\<lambda>message_data_size_offset.
     and_then (plus_or_panic message_data_size_offset MESSAGE_SIZE_LEN) (\<lambda>message_data_offset.
     and_then (range_or_panic (unat (message_data_size_offset - starting_offset))
                 (unat (message_data_offset - starting_offset)) message) (\<lambda>size_bytes.
     Inr \<lparr>so_signature_offset = signature_offset,
          so_signature_instruction_index = instruction_index,
          so_public_key_offset = public_key_offset,
          so_public_key_instruction_index = instruction_index,
          so_message_data_offset = message_data_offset,
          so_message_data_size = get_uint LE size_bytes,
          so_message_instruction_index = instruction_index\<rparr>)))))"

text \<open>The packed struct in memory, on the little-endian target: seven \<^verbatim>\<open>u16\<close> fields, 14 bytes.\<close>

definition offsets_bytes :: "ed25519_signature_offsets \<Rightarrow> bytes" where
  "offsets_bytes o' =
     put_uint LE 2 (so_signature_offset o') @ put_uint LE 2 (so_signature_instruction_index o') @
     put_uint LE 2 (so_public_key_offset o') @ put_uint LE 2 (so_public_key_instruction_index o') @
     put_uint LE 2 (so_message_data_offset o') @ put_uint LE 2 (so_message_data_size o') @
     put_uint LE 2 (so_message_instruction_index o')"

definition read_offsets :: "bytes \<Rightarrow> anyhow + ed25519_signature_offsets \<times> bytes" where
  "read_offsets r =
     and_then (read_u16 LE r) (\<lambda>(a, r). and_then (read_u16 LE r) (\<lambda>(b, r).
     and_then (read_u16 LE r) (\<lambda>(c, r). and_then (read_u16 LE r) (\<lambda>(d, r).
     and_then (read_u16 LE r) (\<lambda>(e, r). and_then (read_u16 LE r) (\<lambda>(f, r).
     and_then (read_u16 LE r) (\<lambda>(g, r).
     Inr (\<lparr>so_signature_offset = a, so_signature_instruction_index = b, so_public_key_offset = c,
           so_public_key_instruction_index = d, so_message_data_offset = e, so_message_data_size = f,
           so_message_instruction_index = g\<rparr>, r))))))))"

text \<open>\<^verbatim>\<open>bytemuck::try_cast_slice\<close> to a slice of the packed struct: the size must be a multiple of 14.\<close>

definition cast_offsets :: "bytes \<Rightarrow> ed25519_signature_offsets list option" where
  "cast_offsets data =
     (if length data mod 14 \<noteq> 0 then None
      else case read_many read_offsets (length data div 14) data of Inr (os, _) \<Rightarrow> Some os | Inl _ \<Rightarrow> None)"

definition ed25519_program_args :: "ed25519_signature_offsets list \<Rightarrow> program_error + bytes" where
  "ed25519_program_args signatures =
     (if length signatures < 2 ^ 8
      then Inr ([word_of_nat (length signatures), 0] @ concat (map offsets_bytes signatures))
      else Inl Panic)"

section \<open>Verification\<close>

record verified_message =
  vm_public_key :: bytes
  vm_payload :: bytes

datatype signature_verification_error =
    Ed25519InstructionMustPrecedeCurrentInstruction
  | LoadInstructionAtFailed program_error
  | LoadCurrentIndexFailed program_error
  | ClockGetFailed program_error
  | InvalidEd25519InstructionProgramId | InvalidEd25519InstructionDataLength | InvalidSignatureIndex
  | InvalidSignatureOffset | InvalidPublicKeyOffset | InvalidMessageOffset | InvalidMessageDataSize
  | InvalidInstructionIndex | MessageOffsetOverflow | FormatMagicMismatch | InvalidStorageAccountId
  | InvalidStorageData | NotTrustedSigner | InvalidMessageData
  | VerificationPanic

fun program_error_of :: "signature_verification_error \<Rightarrow> program_error" where
  "program_error_of (LoadInstructionAtFailed e) = e"
| "program_error_of (ClockGetFailed e) = e"
| "program_error_of (LoadCurrentIndexFailed e) = e"
| "program_error_of InvalidStorageData = InvalidAccountData"
| "program_error_of NotTrustedSigner = MissingRequiredSignature"
| "program_error_of VerificationPanic = Panic"
| "program_error_of _ = InvalidInstructionData"

record instruction =
  ix_program_id :: bytes
  ix_data :: bytes

definition slice_eq :: "bytes \<Rightarrow> bytes \<Rightarrow> bool" where
  "slice_eq a b \<longleftrightarrow> length a = length b \<and> list_all2 (=) a b"

definition get_or_panic :: "nat \<Rightarrow> nat \<Rightarrow> bytes \<Rightarrow> signature_verification_error + bytes" where
  "get_or_panic a b data = ok_or VerificationPanic (get_range a b data)"

text \<open>The selection of one entry of the \<^verbatim>\<open>ed25519_program\<close> input.\<close>

definition select_offsets ::
  "bytes \<Rightarrow> u8 \<Rightarrow> signature_verification_error + ed25519_signature_offsets" where
  "select_offsets data signature_index =
     (if length data < ED25519_PROGRAM_INPUT_HEADER_LEN then Inl InvalidEd25519InstructionDataLength
      else
      let num_signatures = data ! 0 in
      if num_signatures \<le> signature_index then Inl InvalidSignatureIndex
      else
      and_then (ok_or InvalidEd25519InstructionDataLength
                  (cast_offsets (drop ED25519_PROGRAM_INPUT_HEADER_LEN data))) (\<lambda>args.
      if 2 ^ 8 \<le> length args then Inl InvalidEd25519InstructionDataLength
      else if length args \<le> unat signature_index then Inl InvalidSignatureIndex
      else Inr (args ! unat signature_index)))"

text \<open>The checks of the offsets against the message, in the order of the code.\<close>

definition check_offsets ::
  "(bytes \<Rightarrow> program_error + bool) \<Rightarrow> u16 \<Rightarrow> bytes \<Rightarrow> ed25519_signature_offsets \<Rightarrow> bytes \<Rightarrow>
   signature_verification_error + verified_message" where
  "check_offsets trusted self_index self_data offs message_data =
     and_then (ok_or MessageOffsetOverflow (checked_sub_u (so_signature_offset offs) MAGIC_LEN)) (\<lambda>message_offset.
     and_then (ok_or MessageOffsetOverflow
                 (checked_add_u (so_message_data_offset offs) (so_message_data_size offs))) (\<lambda>message_end_offset.
     and_then (ok_or InvalidMessageOffset
                 (get_range (unat message_offset) (unat message_end_offset) self_data)) (\<lambda>expected_message_data.
     if \<not> slice_eq expected_message_data message_data then Inl InvalidMessageData
     else
     and_then (get_or_panic 0 (unat MAGIC_LEN) message_data) (\<lambda>head.
     if get_uint LE head \<noteq> SOLANA_FORMAT_MAGIC then Inl FormatMagicMismatch
     else
     and_then (ok_or MessageOffsetOverflow (checked_add_u (so_signature_offset offs) SIGNATURE_LEN))
       (\<lambda>expected_public_key_offset.
     if so_public_key_offset offs \<noteq> expected_public_key_offset then Inl InvalidPublicKeyOffset
     else
     and_then (ok_or MessageOffsetOverflow (checked_add_u expected_public_key_offset PUBKEY_LEN))
       (\<lambda>expected_message_size_offset.
     and_then (ok_or MessageOffsetOverflow (checked_add_u expected_message_size_offset MESSAGE_SIZE_LEN))
       (\<lambda>expected_message_data_offset.
     if so_message_data_offset offs \<noteq> expected_message_data_offset then Inl InvalidMessageOffset
     else
     and_then (ok_or VerificationPanic (checked_sub_u expected_message_size_offset message_offset)) (\<lambda>size_start.
     and_then (ok_or VerificationPanic (checked_sub_u expected_message_data_offset message_offset)) (\<lambda>data_start.
     and_then (get_or_panic (unat size_start) (unat data_start) message_data) (\<lambda>size_bytes.
     let expected_message_size = get_uint LE size_bytes :: u16 in
     if so_message_data_size offs \<noteq> expected_message_size then Inl InvalidMessageDataSize
     else if so_signature_instruction_index offs \<noteq> self_index \<or>
             so_public_key_instruction_index offs \<noteq> self_index \<or>
             so_message_instruction_index offs \<noteq> self_index then Inl InvalidInstructionIndex
     else
     and_then (ok_or VerificationPanic (checked_sub_u expected_public_key_offset message_offset)) (\<lambda>key_start.
     and_then (get_or_panic (unat key_start) (unat key_start + 32) message_data) (\<lambda>public_key.
     and_then (map_err ClockGetFailed (trusted public_key)) (\<lambda>is_trusted.
     if \<not> is_trusted then Inl NotTrustedSigner
     else
     and_then (get_or_panic (unat data_start) (unat data_start + unat expected_message_size) message_data) (\<lambda>payload.
     Inr \<lparr>vm_public_key = public_key, vm_payload = payload\<rparr>))))))))))))))"

definition signature_verify_message ::
  "bytes \<Rightarrow> program_error + u16 \<Rightarrow> (nat \<Rightarrow> program_error + instruction) \<Rightarrow> (bytes \<Rightarrow> program_error + bool) \<Rightarrow>
   bytes \<Rightarrow> u16 \<Rightarrow> u8 \<Rightarrow> signature_verification_error + verified_message" where
  "signature_verify_message ed25519_id current_index load trusted message_data ed25519_instruction_index signature_index =
     and_then (map_err LoadCurrentIndexFailed current_index) (\<lambda>self_index.
     if self_index \<le> ed25519_instruction_index then Inl Ed25519InstructionMustPrecedeCurrentInstruction
     else
     and_then (map_err LoadInstructionAtFailed (load (unat ed25519_instruction_index))) (\<lambda>ed25519_instruction.
     if ix_program_id ed25519_instruction \<noteq> ed25519_id then Inl InvalidEd25519InstructionProgramId
     else
     and_then (select_offsets (ix_data ed25519_instruction) signature_index) (\<lambda>offs.
     and_then (ok_or MessageOffsetOverflow (checked_sub_u (so_signature_offset offs) MAGIC_LEN)) (\<lambda>_.
     and_then (map_err LoadInstructionAtFailed (load (unat self_index))) (\<lambda>self_instruction.
     check_offsets trusted self_index (ix_data self_instruction) offs message_data)))))"

definition verify_message ::
  "bytes \<Rightarrow> program_error + u16 \<Rightarrow> (nat \<Rightarrow> program_error + instruction) \<Rightarrow>
   (bytes \<Rightarrow> bytes \<Rightarrow> u64 \<Rightarrow> program_error + unit) \<Rightarrow> program_error + i64 \<Rightarrow> bytes \<Rightarrow> bytes \<Rightarrow> storage \<Rightarrow>
   bytes \<Rightarrow> u16 \<Rightarrow> u8 \<Rightarrow> program_error + verified_message" where
  "verify_message ed25519_id current_index load transfer clock payer treasury st
     message_data ed25519_instruction_index signature_index =
     and_then (pay_fee transfer payer treasury st) (\<lambda>_.
     map_err program_error_of
       (signature_verify_message ed25519_id current_index load (is_trusted clock st)
          message_data ed25519_instruction_index signature_index))"

section \<open>What a successful verification establishes\<close>

interpretation offsets_codec: canonical_codec offsets_bytes read_offsets "\<lambda>o'. True"
proof
  fix o' r show "read_offsets (offsets_bytes o' @ r) = Inr (o', r)"
    by (simp add: read_offsets_def offsets_bytes_def codec_simps)
next
  fix bs o' r assume "read_offsets bs = Inr (o', r)"
  then show "True \<and> bs = offsets_bytes o' @ r"
    by (auto simp: read_offsets_def offsets_bytes_def read_uint_Inr_iff)
qed

lemma length_offsets_bytes: "length (offsets_bytes o') = 14"
  by (simp add: offsets_bytes_def)

lemma cast_offsets_Some:
  "cast_offsets data = Some os \<longleftrightarrow> data = concat (map offsets_bytes os)"
proof
  assume "cast_offsets data = Some os"
  then have mod: "length data mod 14 = 0" and "\<exists>r. read_many read_offsets (length data div 14) data = Inr (os, r)"
    by (auto simp: cast_offsets_def split: if_splits sum.splits)
  then obtain r where os: "length os = length data div 14" "data = concat (map offsets_bytes os) @ r"
    unfolding offsets_codec.read_many_iff by blast
  have "length (concat (map offsets_bytes os)) = length os * 14"
    by (induction os) (simp_all add: length_offsets_bytes)
  with os mod have "length r = 0" by (metis append_eq_conv_conj add_right_cancel div_mult_mod_eq length_append
        add_0 add_cancel_left_right)
  with os(2) show "data = concat (map offsets_bytes os)" by simp
next
  assume d: "data = concat (map offsets_bytes os)"
  have "length data = length os * 14"
    unfolding d by (induction os) (simp_all add: length_offsets_bytes)
  then show "cast_offsets data = Some os"
    using offsets_codec.read_many_enc [of os "[]"] by (simp add: cast_offsets_def d list_all_iff)
qed

lemma get_range_take_drop:
  "get_range a b xs = Some ys \<longleftrightarrow> a \<le> b \<and> b \<le> length xs \<and> ys = take (b - a) (drop a xs)"
  by (auto simp: get_range_def)

lemma slice_eq_iff [simp]: "slice_eq a b \<longleftrightarrow> a = b"
  by (auto simp: slice_eq_def list.rel_eq)

lemma len_consts: "unat MAGIC_LEN = 4" "unat SIGNATURE_LEN = 64" "unat PUBKEY_LEN = 32" "unat MESSAGE_SIZE_LEN = 2"
  by (simp_all add: MAGIC_LEN_def SIGNATURE_LEN_def PUBKEY_LEN_def MESSAGE_SIZE_LEN_def)

lemma message_parts:
  assumes "length m = 102 + n"
  shows "m = take 4 m @ take 64 (drop 4 m) @ take 32 (drop 68 m) @ take 2 (drop 100 m) @ take n (drop 102 m)"
proof -
  have "take n (drop 102 m) = drop 102 m" using assms by simp
  then show ?thesis
    using append_take_drop_id [of 4 m] append_take_drop_id [of 64 "drop 4 m"] append_take_drop_id [of 32 "drop 68 m"]
      append_take_drop_id [of 2 "drop 100 m"] by simp
qed

lemma check_offsets_elim:
  assumes "check_offsets trusted self_index data offs m = Inr vm"
  obtains mo me hd4 sz ss ds szb ks where
    "checked_sub_u (so_signature_offset offs) MAGIC_LEN = Some mo"
    "checked_add_u (so_message_data_offset offs) (so_message_data_size offs) = Some me"
    "get_range (unat mo) (unat me) data = Some m"
    "get_range 0 (unat MAGIC_LEN) m = Some hd4" "get_uint LE hd4 = SOLANA_FORMAT_MAGIC"
    "checked_add_u (so_signature_offset offs) SIGNATURE_LEN = Some (so_public_key_offset offs)"
    "checked_add_u (so_public_key_offset offs) PUBKEY_LEN = Some sz"
    "checked_add_u sz MESSAGE_SIZE_LEN = Some (so_message_data_offset offs)"
    "checked_sub_u sz mo = Some ss" "checked_sub_u (so_message_data_offset offs) mo = Some ds"
    "get_range (unat ss) (unat ds) m = Some szb" "so_message_data_size offs = get_uint LE szb"
    "so_signature_instruction_index offs = self_index" "so_public_key_instruction_index offs = self_index"
    "so_message_instruction_index offs = self_index"
    "checked_sub_u (so_public_key_offset offs) mo = Some ks"
    "get_range (unat ks) (unat ks + 32) m = Some (vm_public_key vm)" "trusted (vm_public_key vm) = Inr True"
    "get_range (unat ds) (unat ds + unat (so_message_data_size offs)) m = Some (vm_payload vm)"
  using assms unfolding check_offsets_def Let_def get_or_panic_def
  by (auto split: if_splits)

lemma check_offsets_Inr:
  assumes "check_offsets trusted self_index data offs m = Inr vm"
  shows "\<exists>sg. solana_serialize \<lparr>sol_payload = vm_payload vm, sol_signature = sg, sol_public_key = vm_public_key vm\<rparr> = Inr m \<and>
      length sg = 64 \<and> length (vm_public_key vm) = 32 \<and>
      take 64 (drop (unat (so_signature_offset offs)) data) = sg \<and>
      take 32 (drop (unat (so_public_key_offset offs)) data) = vm_public_key vm \<and>
      take (unat (so_message_data_size offs)) (drop (unat (so_message_data_offset offs)) data) = vm_payload vm"
    and "trusted (vm_public_key vm) = Inr True"
    and "so_signature_instruction_index offs = self_index \<and> so_public_key_instruction_index offs = self_index \<and>
      so_message_instruction_index offs = self_index"
proof -
  from assms obtain mo me hd4 sz ss ds szb ks where
    mo: "checked_sub_u (so_signature_offset offs) MAGIC_LEN = Some mo"
    and me: "checked_add_u (so_message_data_offset offs) (so_message_data_size offs) = Some me"
    and m: "get_range (unat mo) (unat me) data = Some m"
    and head0: "get_range 0 (unat MAGIC_LEN) m = Some hd4" "get_uint LE hd4 = SOLANA_FORMAT_MAGIC"
    and pko: "checked_add_u (so_signature_offset offs) SIGNATURE_LEN = Some (so_public_key_offset offs)"
    and sz: "checked_add_u (so_public_key_offset offs) PUBKEY_LEN = Some sz"
    and dat: "checked_add_u sz MESSAGE_SIZE_LEN = Some (so_message_data_offset offs)"
    and ss: "checked_sub_u sz mo = Some ss" and ds: "checked_sub_u (so_message_data_offset offs) mo = Some ds"
    and size0: "get_range (unat ss) (unat ds) m = Some szb" "so_message_data_size offs = get_uint LE szb"
    and idx: "so_signature_instruction_index offs = self_index" "so_public_key_instruction_index offs = self_index"
      "so_message_instruction_index offs = self_index"
    and ks: "checked_sub_u (so_public_key_offset offs) mo = Some ks"
    and key: "get_range (unat ks) (unat ks + 32) m = Some (vm_public_key vm)"
    and tr: "trusted (vm_public_key vm) = Inr True"
    and pay: "get_range (unat ds) (unat ds + unat (so_message_data_size offs)) m = Some (vm_payload vm)"
    by (rule check_offsets_elim)
  define s where "s = unat (so_signature_offset offs)"
  define n where "n = unat (so_message_data_size offs)"
  have nums: "4 \<le> s" "unat mo = s - 4" "unat (so_public_key_offset offs) = s + 64"
    "unat sz = s + 96" "unat (so_message_data_offset offs) = s + 98" "unat me = s + 98 + n"
    "unat ss = 100" "unat ds = 102" "unat ks = 68"
    using unat_checked_sub [OF mo] unat_checked_add [OF pko] unat_checked_add [OF sz] unat_checked_add [OF dat]
      unat_checked_add [OF me] unat_checked_sub [OF ss] unat_checked_sub [OF ds] unat_checked_sub [OF ks]
    by (simp_all add: len_consts s_def n_def)
  have mdata: "m = take (102 + n) (drop (s - 4) data)" "s + 98 + n \<le> length data" and len: "length m = 102 + n"
    using m nums by (auto simp: get_range_take_drop)
  have at: "take k (drop j m) = take k (drop (s - 4 + j) data)" if "j + k \<le> 102 + n" for j k
    unfolding mdata(1) using that by (simp add: drop_take take_take min_def add.commute)
  have vm: "vm_public_key vm = take 32 (drop 68 m)" "vm_payload vm = take n (drop 102 m)"
    using key pay nums by (simp_all add: get_range_take_drop n_def)
  have head: "4 \<le> length m" "get_uint LE (take 4 m) = SOLANA_FORMAT_MAGIC"
    using head0 by (auto simp: get_range_take_drop len_consts)
  have size: "so_message_data_size offs = get_uint LE (take 2 (drop 100 m))"
    using size0 nums by (simp add: get_range_take_drop)
  have sizew: "so_message_data_size offs = word_of_nat n" by (simp add: n_def)
  have n16: "n < 2 ^ 16" by (simp add: n_def)
  have p1: "put_uint LE 4 SOLANA_FORMAT_MAGIC = take 4 m"
    using head put_get_uint [of "take 4 m" 4 LE, where 'a = 32] by simp
  have p2: "put_uint LE 2 (word_of_nat n :: u16) = take 2 (drop 100 m)"
    using size put_get_uint [of "take 2 (drop 100 m)" 2 LE, where 'a = 16] len nums by (simp add: sizew)
  have "solana_serialize \<lparr>sol_payload = vm_payload vm, sol_signature = take 64 (drop 4 m), sol_public_key = vm_public_key vm\<rparr> = Inr m"
    using message_parts [OF len] p1 p2 n16 len nums by (simp add: solana_serialize_def len_u16_def vm n_def [symmetric])
  moreover have "take 64 (drop 4 m) = take 64 (drop s data)" "take 32 (drop 68 m) = take 32 (drop (s + 64) data)"
    "take n (drop 102 m) = take n (drop (s + 98) data)"
    using at [of 4 64] at [of 68 32] at [of 102 n] nums(1) by (simp_all add: add.commute [of s])
  ultimately show "\<exists>sg. solana_serialize \<lparr>sol_payload = vm_payload vm, sol_signature = sg, sol_public_key = vm_public_key vm\<rparr> = Inr m \<and>
      length sg = 64 \<and> length (vm_public_key vm) = 32 \<and>
      take 64 (drop (unat (so_signature_offset offs)) data) = sg \<and>
      take 32 (drop (unat (so_public_key_offset offs)) data) = vm_public_key vm \<and>
      take (unat (so_message_data_size offs)) (drop (unat (so_message_data_offset offs)) data) = vm_payload vm"
    using len nums mdata(2) by (intro exI [of _ "take 64 (drop 4 m)"]) (simp add: vm s_def [symmetric] n_def [symmetric])
  show "trusted (vm_public_key vm) = Inr True" by (rule tr)
  show "so_signature_instruction_index offs = self_index \<and> so_public_key_instruction_index offs = self_index \<and>
      so_message_instruction_index offs = self_index" using idx by simp
qed

text \<open>
  What the runtime guarantees of a transaction that reaches a later instruction: every instruction
  of the \<^verbatim>\<open>ed25519_program\<close> before it has succeeded, that is, for each of the entries its data
  announces, the signature at the given place verifies the message at the given place under the key
  at the given place (an instruction index of 65535 means the \<^verbatim>\<open>ed25519_program\<close> instruction itself).
\<close>

definition place :: "(nat \<Rightarrow> program_error + instruction) \<Rightarrow> bytes \<Rightarrow> u16 \<Rightarrow> u16 \<Rightarrow> nat \<Rightarrow> bytes option" where
  "place load own index offset n =
     (case (if index = 0xFFFF then Inr own else map_ok ix_data (load (unat index))) of
        Inl e \<Rightarrow> None
      | Inr data \<Rightarrow> get_range (unat offset) (unat offset + n) data)"

definition precompile_passed ::
  "(bytes \<Rightarrow> bytes \<Rightarrow> bytes \<Rightarrow> bool) \<Rightarrow> (nat \<Rightarrow> program_error + instruction) \<Rightarrow> bytes \<Rightarrow> bool" where
  "precompile_passed ed25519_verify load data \<longleftrightarrow>
     (\<forall>k os. k < unat (data ! 0) \<longrightarrow> k < length os \<longrightarrow> drop 2 data = concat (map offsets_bytes os) \<longrightarrow>
        (\<exists>sg pk msg.
           place load data (so_signature_instruction_index (os ! k)) (so_signature_offset (os ! k)) 64 = Some sg \<and>
           place load data (so_public_key_instruction_index (os ! k)) (so_public_key_offset (os ! k)) 32 = Some pk \<and>
           place load data (so_message_instruction_index (os ! k)) (so_message_data_offset (os ! k))
             (unat (so_message_data_size (os ! k))) = Some msg \<and>
           ed25519_verify sg pk msg))"

lemma place_take:
  assumes "place load own index offset n = Some bs" and "index \<noteq> 0xFFFF" and "load (unat index) = Inr ix"
  shows "bs = take n (drop (unat offset) (ix_data ix))"
  using assms by (auto simp: place_def get_range_take_drop)

lemma select_offsets_Inr:
  assumes "select_offsets data i = Inr offs"
  obtains os where "drop 2 data = concat (map offsets_bytes os)" and "unat i < length os"
    and "unat i < unat (data ! 0)" and "offs = os ! unat i"
  using assms
  by (auto simp: select_offsets_def Let_def ED25519_PROGRAM_INPUT_HEADER_LEN_def cast_offsets_Some not_le
      word_less_nat_alt split: if_splits)

lemma signature_verify_message_Inr:
  assumes "signature_verify_message ed25519_id cur load trusted m j i = Inr vm"
  obtains self eix six offs where "cur = Inr self" "j < self" "load (unat j) = Inr eix" "ix_program_id eix = ed25519_id"
    "select_offsets (ix_data eix) i = Inr offs" "load (unat self) = Inr six"
    "check_offsets trusted self (ix_data six) offs m = Inr vm"
  using assms by (auto simp: signature_verify_message_def not_le split: if_splits)

text \<open>Offsets behind a start that leaves room for them.\<close>

lemma offset_add:
  fixes start :: u16
  assumes "unat start + k + l < 2 ^ 16"
  shows "unat (start + word_of_nat k) = unat start + k"
    and "checked_add_u (start + word_of_nat k) (word_of_nat l) = Some (start + word_of_nat (k + l))"
    and "checked_sub_u (start + word_of_nat (k + l)) (start + word_of_nat k) = Some (word_of_nat l)"
proof -
  have u: "unat (start + word_of_nat n) = unat start + n" if "n \<le> k + l" for n
    using assms that by (simp add: unat_word_ariths unat_of_nat take_bit_eq_mod)
  show "unat (start + word_of_nat k) = unat start + k" by (rule u) simp
  have "unat (word_of_nat l :: u16) = l" "2 ^ LENGTH(16) = (65536 :: int)"
    using assms by (simp_all add: unat_of_nat take_bit_nat_eq_self)
  moreover have "unat start + k + l < 65536" using assms by simp
  then have "int (unat (start + word_of_nat k)) + int l < 65536"
    unfolding u [OF le_add1 [of k l]] by linarith
  ultimately have "uint (start + word_of_nat k) + uint (word_of_nat l :: u16) < 2 ^ LENGTH(16)"
    unfolding uint_nat by (simp only:)
  then show "checked_add_u (start + word_of_nat k) (word_of_nat l) = Some (start + word_of_nat (k + l))"
    by (subst checked_add_u_ok) (simp_all add: add.assoc)
  have "start + word_of_nat k \<le> start + word_of_nat (k + l)"
    unfolding word_le_nat_alt using u [of k] u [of "k + l"] by simp
  then show "checked_sub_u (start + word_of_nat (k + l)) (start + word_of_nat k) = Some (word_of_nat l)"
    by (subst checked_sub_u_ok) simp_all
qed

text \<open>What the client-side constructor computes for a message that fits behind its offset.\<close>

lemma offsets_new_fits:
  assumes "unat start + 102 + length (sol_payload sm) < 2 ^ 16" and "solana_valid sm"
    and m: "solana_serialize sm = Inr m"
  shows "offsets_new m self start = Inr \<lparr>so_signature_offset = start + 4, so_signature_instruction_index = self,
     so_public_key_offset = start + 68, so_public_key_instruction_index = self, so_message_data_offset = start + 102,
     so_message_data_size = word_of_nat (length (sol_payload sm)), so_message_instruction_index = self\<rparr>"
proof -
  note add = offset_add(2) [of start]
  have "m = put_uint LE 4 SOLANA_FORMAT_MAGIC @ sol_signature sm @ sol_public_key sm @
      put_uint LE 2 (word_of_nat (length (sol_payload sm)) :: u16) @ sol_payload sm"
    using m assms(2) by (simp add: solana_serialize_def len_u16_def solana_valid_def)
  then have range: "get_range 100 102 m = Some (put_uint LE 2 (word_of_nat (length (sol_payload sm)) :: u16))"
    using assms(2) by (simp add: get_range_def solana_valid_def)
  show ?thesis
    using add [of 0 4] add [of 4 64] add [of 68 32] add [of 100 2] range assms(1)
    by (simp add: offsets_new_def plus_or_panic_def range_or_panic_def MAGIC_LEN_def SIGNATURE_LEN_def PUBKEY_LEN_def
        MESSAGE_SIZE_LEN_def get_put_uint)
qed

lemma check_offsets_complete:
  assumes m: "solana_serialize sm = Inr m" and valid: "solana_valid sm"
    and fits: "unat start + 102 + length (sol_payload sm) < 2 ^ 16"
    and data: "get_range (unat start) (unat start + length m) data = Some m"
    and tr: "trusted (sol_public_key sm) = Inr True"
  shows "check_offsets trusted self data \<lparr>so_signature_offset = start + 4, so_signature_instruction_index = self,
     so_public_key_offset = start + 68, so_public_key_instruction_index = self, so_message_data_offset = start + 102,
     so_message_data_size = word_of_nat (length (sol_payload sm)), so_message_instruction_index = self\<rparr> m =
     Inr \<lparr>vm_public_key = sol_public_key sm, vm_payload = sol_payload sm\<rparr>"
proof -
  let ?n = "length (sol_payload sm)"
  have mm: "m = put_uint LE 4 SOLANA_FORMAT_MAGIC @ sol_signature sm @ sol_public_key sm @
      put_uint LE 2 (word_of_nat ?n :: u16) @ sol_payload sm"
    using m valid by (simp add: solana_serialize_def len_u16_def solana_valid_def)
  have lens: "length (sol_signature sm) = 64" "length (sol_public_key sm) = 32" "?n < 2 ^ 16" "length m = 102 + ?n"
    using valid by (simp_all add: solana_valid_def mm)
  have ranges: "get_range 0 4 m = Some (put_uint LE 4 SOLANA_FORMAT_MAGIC)" "get_range 68 100 m = Some (sol_public_key sm)"
    "get_range 100 102 m = Some (put_uint LE 2 (word_of_nat ?n :: u16))" "get_range 102 (102 + ?n) m = Some (sol_payload sm)"
    using lens by (simp_all add: get_range_def mm)
  have sub: "checked_sub_u (start + word_of_nat k) start = Some (word_of_nat k)" if "k \<le> 102" for k
    using offset_add(3) [of start 0 k] fits that by simp
  have sub4: "checked_sub_u (start + 4) 4 = Some start"
    using offset_add(1) [of start 4 0] fits by (simp add: checked_sub_u_Some_iff word_le_nat_alt)
  have n: "unat (word_of_nat ?n :: u16) = ?n" using lens(3) by (simp add: unat_of_nat take_bit_nat_eq_self)
  have adds: "checked_add_u (start + 4) 64 = Some (start + 68)" "checked_add_u (start + 68) 32 = Some (start + 100)"
    "checked_add_u (start + 100) 2 = Some (start + 102)"
    "checked_add_u (start + 102) (word_of_nat ?n) = Some (start + word_of_nat (102 + ?n))"
    using offset_add(2) [of start 4 64] offset_add(2) [of start 68 32] offset_add(2) [of start 100 2]
      offset_add(2) [of start 102 ?n] fits by simp_all
  have "unat (start + word_of_nat (102 + ?n)) = unat start + length m"
    using offset_add(1) [of start "102 + ?n" 0] fits lens(4) by (simp add: add.assoc)
  with data have range: "get_range (unat start) (unat (start + word_of_nat (102 + ?n))) data = Some m" by simp
  show ?thesis
    using ranges sub [of 68] sub [of 100] sub [of 102] sub4 adds range tr n
    by (simp add: check_offsets_def get_or_panic_def len_consts Let_def MAGIC_LEN_def SIGNATURE_LEN_def PUBKEY_LEN_def
        MESSAGE_SIZE_LEN_def get_put_uint)
qed

section \<open>Properties\<close>

text \<open>C13: Soundness of message verification on Solana.  When \<^verbatim>\<open>verify_message\<close> returns a message, the
  data it was given is exactly the Solana envelope of the returned payload and key, the key is a
  trusted signer that has not expired, the fee was paid to the stored treasury, and, the earlier
  \<^verbatim>\<open>ed25519_program\<close> instruction having passed, the signature in the envelope is a signature of the
  payload under that key.\<close>

theorem solana_verify_message_sound:
  assumes "verify_message ed25519_id (Inr self) load transfer (Inr now) payer treasury st m j i = Inr vm"
    and "storage_inv st" and "self \<noteq> 0xFFFF"
    and precompile: "\<forall>k ix. k < unat self \<longrightarrow> load k = Inr ix \<longrightarrow> ix_program_id ix = ed25519_id \<longrightarrow>
      precompile_passed ed25519_verify load (ix_data ix)"
  shows "\<exists>sg e. solana_serialize \<lparr>sol_payload = vm_payload vm, sol_signature = sg, sol_public_key = vm_public_key vm\<rparr> = Inr m \<and>
    length sg = 64 \<and> ed25519_verify sg (vm_public_key vm) (vm_payload vm) \<and>
    sol_lookup st (vm_public_key vm) = Some e \<and> sint now < sint e \<and>
    treasury = st_treasury st \<and> transfer payer treasury (st_single_update_fee_in_lamports st) = Inr ()"
proof -
  have fee: "treasury = st_treasury st \<and> transfer payer treasury (st_single_update_fee_in_lamports st) = Inr ()"
    and v: "signature_verify_message ed25519_id (Inr self) load (is_trusted (Inr now) st) m j i = Inr vm"
    using assms(1) by (auto simp: verify_message_def pay_fee_def split: if_splits)
  obtain eix six offs where x: "j < self" "load (unat j) = Inr eix" "ix_program_id eix = ed25519_id"
    "select_offsets (ix_data eix) i = Inr offs" "load (unat self) = Inr six"
    "check_offsets (is_trusted (Inr now) st) self (ix_data six) offs m = Inr vm"
    using signature_verify_message_Inr [OF v] by (metis sum.inject(2))
  note c = check_offsets_Inr [OF x(6)]
  obtain sg where sg: "solana_serialize \<lparr>sol_payload = vm_payload vm, sol_signature = sg, sol_public_key = vm_public_key vm\<rparr> = Inr m"
    "length sg = 64" "take 64 (drop (unat (so_signature_offset offs)) (ix_data six)) = sg"
    "take 32 (drop (unat (so_public_key_offset offs)) (ix_data six)) = vm_public_key vm"
    "take (unat (so_message_data_size offs)) (drop (unat (so_message_data_offset offs)) (ix_data six)) = vm_payload vm"
    using c(1) by blast
  obtain os where os: "drop 2 (ix_data eix) = concat (map offsets_bytes os)" "unat i < length os"
    "unat i < unat (ix_data eix ! 0)" "offs = os ! unat i"
    using select_offsets_Inr [OF x(4)] .
  have "precompile_passed ed25519_verify load (ix_data eix)"
    using precompile x(1-3) by (simp add: word_less_nat_alt)
  then obtain s' p' m' where pl: "place load (ix_data eix) self (so_signature_offset offs) 64 = Some s'"
    "place load (ix_data eix) self (so_public_key_offset offs) 32 = Some p'"
    "place load (ix_data eix) self (so_message_data_offset offs) (unat (so_message_data_size offs)) = Some m'"
    "ed25519_verify s' p' m'"
    using os c(3) unfolding precompile_passed_def by metis
  then have "ed25519_verify sg (vm_public_key vm) (vm_payload vm)"
    using place_take [OF pl(1) assms(3) x(5)] place_take [OF pl(2) assms(3) x(5)] place_take [OF pl(3) assms(3) x(5)]
      sg(3-5) by simp
  moreover obtain e where "sol_lookup st (vm_public_key vm) = Some e" "sint now < sint e"
    using c(2) is_trusted_lookup(1) [OF assms(2)] by auto
  ultimately show ?thesis
    using sg(1,2) fee by blast
qed

definition demo_storage :: storage where
  "demo_storage = zeroed_storage\<lparr>st_treasury := [3], st_num_trusted_signers := 1,
     st_trusted_signers := \<lparr>tsi_pubkey = replicate 32 8, tsi_expires_at = 500\<rparr> # replicate 4 (default_signer 32)\<rparr>"

definition demo_sol_message :: solana_message where
  "demo_sol_message = \<lparr>sol_payload = [1, 2, 3], sol_signature = replicate 64 9, sol_public_key = replicate 32 8\<rparr>"

definition demo_data :: bytes where "demo_data = ok_bytes (solana_serialize demo_sol_message)"

definition demo_offsets :: ed25519_signature_offsets where
  "demo_offsets = \<lparr>so_signature_offset = 4, so_signature_instruction_index = 1, so_public_key_offset = 68,
     so_public_key_instruction_index = 1, so_message_data_offset = 102, so_message_data_size = 3,
     so_message_instruction_index = 1\<rparr>"

text \<open>Instruction 0 calls the \<^verbatim>\<open>ed25519_program\<close> (here the id \<open>[9]\<close>), instruction 1 is ours.\<close>

definition demo_load :: "nat \<Rightarrow> program_error + instruction" where
  "demo_load k = (if k = 0 then Inr \<lparr>ix_program_id = [9], ix_data = [1, 0] @ offsets_bytes demo_offsets\<rparr>
     else if k = 1 then Inr \<lparr>ix_program_id = [7], ix_data = demo_data\<rparr> else Inl (HostError 1))"

lemma demo_serialize: "solana_serialize demo_sol_message = Inr demo_data" "solana_valid demo_sol_message"
  by (simp_all add: demo_data_def demo_sol_message_def solana_serialize_def len_u16_def solana_valid_def)

lemma demo_length: "length demo_data = 105"
  by (simp add: demo_data_def demo_sol_message_def solana_serialize_def len_u16_def)

lemma demo_offsets_new: "offsets_new demo_data 1 0 = Inr demo_offsets"
  using offsets_new_fits [of 0 demo_sol_message demo_data 1] demo_serialize
  by (simp add: demo_offsets_def demo_sol_message_def)

lemma demo_storage_inv: "storage_inv demo_storage"
  by (simp add: demo_storage_def zeroed_storage_def storage_inv_def signers_wf_def MAX_NUM_TRUSTED_SIGNERS_def
      SPACE_FOR_TRUSTED_SIGNERS_def) blast

lemma demo_lookup: "sol_lookup demo_storage (replicate 32 8) = Some 500"
  by (simp add: demo_storage_def sol_lookup_def array_lookup_def)

lemma demo_check:
  "verify_message [9] (Inr 1) demo_load (\<lambda>a b f. Inr ()) (Inr 100) [2] [3] demo_storage demo_data 0 0 =
     Inr \<lparr>vm_public_key = replicate 32 8, vm_payload = [1, 2, 3]\<rparr>"
proof -
  have sel: "select_offsets ([1, 0] @ offsets_bytes demo_offsets) 0 = Inr demo_offsets"
    using cast_offsets_Some [of "offsets_bytes demo_offsets" "[demo_offsets]"]
    by (simp add: select_offsets_def ED25519_PROGRAM_INPUT_HEADER_LEN_def)
  have check: "check_offsets (is_trusted (Inr 100) demo_storage) 1 demo_data demo_offsets demo_data =
      Inr \<lparr>vm_public_key = replicate 32 8, vm_payload = [1, 2, 3]\<rparr>"
    using check_offsets_complete [OF demo_serialize, of 0 demo_data "is_trusted (Inr 100) demo_storage" 1]
      is_trusted_lookup(1) [OF demo_storage_inv] demo_lookup
    by (simp add: demo_offsets_def demo_sol_message_def get_range_def)
  have "checked_sub_u (so_signature_offset demo_offsets) MAGIC_LEN = Some 0"
    by (simp add: demo_offsets_def MAGIC_LEN_def checked_sub_u_def to_unsigned_def)
  then show ?thesis
    using sel check by (simp add: verify_message_def pay_fee_def signature_verify_message_def demo_load_def demo_storage_def)
qed

lemma demo_precompile:
  assumes "\<And>sg pk msg. ver sg pk msg"
  shows "precompile_passed ver demo_load ([1, 0] @ offsets_bytes demo_offsets)"
proof -
  have inj: "os = [demo_offsets]" if "concat (map offsets_bytes os) = offsets_bytes demo_offsets" for os
    using cast_offsets_Some [of "offsets_bytes demo_offsets" os] cast_offsets_Some [of "offsets_bytes demo_offsets" "[demo_offsets]"] that
    by simp
  have "place demo_load ([1, 0] @ offsets_bytes demo_offsets) 1 off n \<noteq> None" if "unat off + n \<le> 105" for off n
    using that by (simp add: place_def demo_load_def get_range_def demo_length)
  then obtain a b c where pl: "place demo_load ([1, 0] @ offsets_bytes demo_offsets) 1 4 64 = Some a"
    "place demo_load ([1, 0] @ offsets_bytes demo_offsets) 1 68 32 = Some b"
    "place demo_load ([1, 0] @ offsets_bytes demo_offsets) 1 102 3 = Some c"
    by fastforce
  show ?thesis
    unfolding precompile_passed_def
  proof (intro allI impI)
    fix k os assume k: "k < unat (([1, 0] @ offsets_bytes demo_offsets) ! 0)"
      and "drop 2 ([1, 0] @ offsets_bytes demo_offsets) = concat (map offsets_bytes os)"
    then have os: "os = [demo_offsets]" using inj [of os] by simp
    from k have "os ! k = demo_offsets" by (simp add: os)
    then show "\<exists>sg pk msg.
       place demo_load ([1, 0] @ offsets_bytes demo_offsets) (so_signature_instruction_index (os ! k)) (so_signature_offset (os ! k)) 64 = Some sg \<and>
       place demo_load ([1, 0] @ offsets_bytes demo_offsets) (so_public_key_instruction_index (os ! k)) (so_public_key_offset (os ! k)) 32 = Some pk \<and>
       place demo_load ([1, 0] @ offsets_bytes demo_offsets) (so_message_instruction_index (os ! k)) (so_message_data_offset (os ! k))
         (unat (so_message_data_size (os ! k))) = Some msg \<and> ver sg pk msg"
      using pl assms by (simp add: demo_offsets_def)
  qed
qed

theorem solana_verify_message_sound_witness:
  "\<exists>sg. solana_serialize \<lparr>sol_payload = [1, 2, 3], sol_signature = sg, sol_public_key = replicate 32 8\<rparr> = Inr demo_data \<and>
     verify_message [9] (Inr 1) demo_load (\<lambda>a b f. Inr ()) (Inr 100) [2] [3] demo_storage demo_data 0 0 =
       Inr \<lparr>vm_public_key = replicate 32 8, vm_payload = [1, 2, 3]\<rparr>"
proof -
  have "\<forall>k ix. k < unat (1 :: u16) \<longrightarrow> demo_load k = Inr ix \<longrightarrow> ix_program_id ix = [9] \<longrightarrow>
      precompile_passed (\<lambda>sg pk msg. True) demo_load (ix_data ix)"
    using demo_precompile [of "\<lambda>sg pk msg. True"] by (auto simp: demo_load_def)
  from solana_verify_message_sound [OF demo_check demo_storage_inv _ this] demo_check show ?thesis by auto
qed

text \<open>C14: Completeness of message verification on Solana.  A transaction built as the client library
  builds it, with the envelope of a message of a trusted signer at some offset of the instruction
  data and an earlier \<^verbatim>\<open>ed25519_program\<close> instruction whose input is made by \<^verbatim>\<open>ed25519_program_args\<close> from
  \<^verbatim>\<open>Ed25519SignatureOffsets::new\<close>, is accepted and the payload is returned.\<close>

theorem solana_verify_message_complete:
  assumes m: "solana_serialize sm = Inr m" and valid: "solana_valid sm"
    and fits: "unat start + 102 + length (sol_payload sm) < 2 ^ 16"
    and offs: "offsets_new m self start = Inr offs" and args: "ed25519_program_args [offs] = Inr input"
    and "j < self" and "load (unat j) = Inr \<lparr>ix_program_id = ed25519_id, ix_data = input\<rparr>"
    and six: "load (unat self) = Inr six" "get_range (unat start) (unat start + length m) (ix_data six) = Some m"
    and "treasury = st_treasury st" and "transfer payer treasury (st_single_update_fee_in_lamports st) = Inr ()"
    and "storage_inv st" and "sol_lookup st (sol_public_key sm) = Some e" and "sint now < sint e"
  shows "verify_message ed25519_id (Inr self) load transfer (Inr now) payer treasury st m j 0 =
    Inr \<lparr>vm_public_key = sol_public_key sm, vm_payload = sol_payload sm\<rparr>"
proof -
  let ?n = "length (sol_payload sm)"
  have offs': "offs = \<lparr>so_signature_offset = start + 4, so_signature_instruction_index = self,
     so_public_key_offset = start + 68, so_public_key_instruction_index = self, so_message_data_offset = start + 102,
     so_message_data_size = word_of_nat ?n, so_message_instruction_index = self\<rparr>"
    using offsets_new_fits [OF fits valid m, of self] offs by simp
  have input: "input = [1, 0] @ concat (map offsets_bytes [offs])"
    using args by (simp add: ed25519_program_args_def)
  have sel: "select_offsets input 0 = Inr offs"
    using cast_offsets_Some [of "offsets_bytes offs" "[offs]"]
    by (simp add: input select_offsets_def ED25519_PROGRAM_INPUT_HEADER_LEN_def)
  have check: "check_offsets (is_trusted (Inr now) st) self (ix_data six) offs m =
      Inr \<lparr>vm_public_key = sol_public_key sm, vm_payload = sol_payload sm\<rparr>"
    using check_offsets_complete [OF m valid fits six(2)] is_trusted_lookup(1) [OF assms(12)] assms(13,14)
    by (simp add: offs')
  have "checked_sub_u (so_signature_offset offs) MAGIC_LEN = Some start"
    using offset_add(1) [of start 4 0] fits by (simp add: offs' MAGIC_LEN_def checked_sub_u_Some_iff word_le_nat_alt)
  then show ?thesis
    using assms(6,7,10,11) six(1) sel check
    by (simp add: verify_message_def pay_fee_def signature_verify_message_def not_le)
qed

theorem solana_verify_message_complete_witness:
  "verify_message [9] (Inr 1) demo_load (\<lambda>a b f. Inr ()) (Inr 100) [2] [3] demo_storage demo_data 0 0 =
     Inr \<lparr>vm_public_key = sol_public_key demo_sol_message, vm_payload = sol_payload demo_sol_message\<rparr>"
  by (rule solana_verify_message_complete [OF demo_serialize _ demo_offsets_new, where e = 500
        and input = "[1, 0] @ offsets_bytes demo_offsets" and six = "\<lparr>ix_program_id = [7], ix_data = demo_data\<rparr>"])
    (use demo_storage_inv demo_lookup demo_length in \<open>simp_all add: demo_sol_message_def ed25519_program_args_def demo_load_def
      get_range_def demo_storage_def\<close>)

end
