(* ===== verification/Lazer_Payload.thy ===== *)
theory Lazer_Payload
  imports Lazer_Prelude
begin

text \<open>
  Price updates and their standard binary payload
  (\<^verbatim>\<open>sdk/rust/protocol/src/payload/mod.rs\<close>, \<^verbatim>\<open>payload/standard.rs\<close>, and the parsed feed payload of
  \<^verbatim>\<open>api.rs\<close>).  A \<^verbatim>\<open>Price\<close> is its non-zero mantissa, a \<^verbatim>\<open>Rate\<close> its mantissa, \<^verbatim>\<open>TimestampUs\<close> and
  \<^verbatim>\<open>DurationUs\<close> their microseconds.
\<close>

section \<open>Data\<close>

type_synonym price = i64
type_synonym rate = i64
type_synonym timestamp_us = u64
type_synonym duration_us = u64

datatype price_feed_property =
    P_Price | P_BestBidPrice | P_BestAskPrice | P_PublisherCount | P_Exponent | P_Confidence
  | P_FundingRate | P_FundingTimestamp | P_FundingRateInterval | P_MarketSession | P_EmaPrice
  | P_EmaConfidence | P_FeedUpdateTimestamp

text \<open>The \<^verbatim>\<open>repr(u8)\<close> of a property and its partial inverse \<^verbatim>\<open>from_repr\<close>.\<close>

fun property_repr :: "price_feed_property \<Rightarrow> u8" where
  "property_repr P_Price = 0"
| "property_repr P_BestBidPrice = 1"
| "property_repr P_BestAskPrice = 2"
| "property_repr P_PublisherCount = 3"
| "property_repr P_Exponent = 4"
| "property_repr P_Confidence = 5"
| "property_repr P_FundingRate = 6"
| "property_repr P_FundingTimestamp = 7"
| "property_repr P_FundingRateInterval = 8"
| "property_repr P_MarketSession = 9"
| "property_repr P_EmaPrice = 10"
| "property_repr P_EmaConfidence = 11"
| "property_repr P_FeedUpdateTimestamp = 12"

definition all_properties :: "price_feed_property list" where
  "all_properties = [P_Price, P_BestBidPrice, P_BestAskPrice, P_PublisherCount, P_Exponent, P_Confidence,
     P_FundingRate, P_FundingTimestamp, P_FundingRateInterval, P_MarketSession, P_EmaPrice, P_EmaConfidence,
     P_FeedUpdateTimestamp]"

definition property_from_repr :: "u8 \<Rightarrow> price_feed_property option" where
  "property_from_repr b = find (\<lambda>p. property_repr p = b) all_properties"

datatype market_session = Regular | PreMarket | PostMarket | OverNight | Closed

fun market_session_i16 :: "market_session \<Rightarrow> i16" where
  "market_session_i16 Regular = 0"
| "market_session_i16 PreMarket = 1"
| "market_session_i16 PostMarket = 2"
| "market_session_i16 OverNight = 3"
| "market_session_i16 Closed = 4"

definition market_session_try_from :: "i16 \<Rightarrow> anyhow + market_session" where
  "market_session_try_from v =
     (if v = 0 then Inr Regular else if v = 1 then Inr PreMarket else if v = 2 then Inr PostMarket
      else if v = 3 then Inr OverNight else if v = 4 then Inr Closed
      else Inl (Message ''invalid MarketSession value''))"

record aggregated_price_feed_data =
  ag_price :: "price option"
  ag_best_bid_price :: "price option"
  ag_best_ask_price :: "price option"
  ag_publisher_count :: u16
  ag_exponent :: i16
  ag_confidence :: "price option"
  ag_funding_rate :: "rate option"
  ag_funding_timestamp :: "timestamp_us option"
  ag_funding_rate_interval :: "duration_us option"
  ag_market_session :: market_session
  ag_ema_price :: "price option"
  ag_ema_confidence :: "price option"
  ag_feed_update_timestamp :: "timestamp_us option"
  ag_publisher_ids :: "u16 list"
  ag_publisher_data :: "i64 list"

definition aggregated_empty :: "i16 \<Rightarrow> market_session \<Rightarrow> timestamp_us \<Rightarrow> aggregated_price_feed_data" where
  "aggregated_empty exponent market_session now =
     \<lparr>ag_price = None, ag_best_bid_price = None, ag_best_ask_price = None, ag_publisher_count = 0,
      ag_exponent = exponent, ag_confidence = None, ag_funding_rate = None, ag_funding_timestamp = None,
      ag_funding_rate_interval = None, ag_market_session = market_session, ag_ema_price = None,
      ag_ema_confidence = None, ag_feed_update_timestamp = Some now, ag_publisher_ids = [],
      ag_publisher_data = []\<rparr>"

record parsed_feed_payload =
  pf_price_feed_id :: u32
  pf_price :: "price option"
  pf_best_bid_price :: "price option"
  pf_best_ask_price :: "price option"
  pf_publisher_count :: "u16 option"
  pf_exponent :: "i16 option"
  pf_confidence :: "price option"
  pf_funding_rate :: "rate option"
  pf_funding_timestamp :: "timestamp_us option"
  pf_funding_rate_interval :: "duration_us option"
  pf_market_session :: "market_session option"
  pf_ema_price :: "price option"
  pf_ema_confidence :: "price option"
  pf_feed_update_timestamp :: "timestamp_us option"

definition parsed_feed_none :: "u32 \<Rightarrow> parsed_feed_payload" where
  "parsed_feed_none feed_id =
     \<lparr>pf_price_feed_id = feed_id, pf_price = None, pf_best_bid_price = None, pf_best_ask_price = None,
      pf_publisher_count = None, pf_exponent = None, pf_confidence = None, pf_funding_rate = None,
      pf_funding_timestamp = None, pf_funding_rate_interval = None, pf_market_session = None,
      pf_ema_price = None, pf_ema_confidence = None, pf_feed_update_timestamp = None\<rparr>"

text \<open>The loop of \<^verbatim>\<open>ParsedFeedPayload::new\<close>, one property at a time.\<close>

fun set_property ::
  "aggregated_price_feed_data \<Rightarrow> price_feed_property \<Rightarrow> parsed_feed_payload \<Rightarrow> parsed_feed_payload" where
  "set_property data P_Price out = out\<lparr>pf_price := ag_price data\<rparr>"
| "set_property data P_BestBidPrice out = out\<lparr>pf_best_bid_price := ag_best_bid_price data\<rparr>"
| "set_property data P_BestAskPrice out = out\<lparr>pf_best_ask_price := ag_best_ask_price data\<rparr>"
| "set_property data P_PublisherCount out = out\<lparr>pf_publisher_count := Some (ag_publisher_count data)\<rparr>"
| "set_property data P_Exponent out = out\<lparr>pf_exponent := Some (ag_exponent data)\<rparr>"
| "set_property data P_Confidence out = out\<lparr>pf_confidence := ag_confidence data\<rparr>"
| "set_property data P_FundingRate out = out\<lparr>pf_funding_rate := ag_funding_rate data\<rparr>"
| "set_property data P_FundingTimestamp out = out\<lparr>pf_funding_timestamp := ag_funding_timestamp data\<rparr>"
| "set_property data P_FundingRateInterval out = out\<lparr>pf_funding_rate_interval := ag_funding_rate_interval data\<rparr>"
| "set_property data P_MarketSession out = out\<lparr>pf_market_session := Some (ag_market_session data)\<rparr>"
| "set_property data P_EmaPrice out = out\<lparr>pf_ema_price := ag_ema_price data\<rparr>"
| "set_property data P_EmaConfidence out = out\<lparr>pf_ema_confidence := ag_ema_confidence data\<rparr>"
| "set_property data P_FeedUpdateTimestamp out = out\<lparr>pf_feed_update_timestamp := ag_feed_update_timestamp data\<rparr>"

definition parsed_feed_new ::
  "u32 \<Rightarrow> aggregated_price_feed_data \<Rightarrow> price_feed_property list \<Rightarrow> parsed_feed_payload" where
  "parsed_feed_new feed_id data properties = fold (set_property data) properties (parsed_feed_none feed_id)"

definition parsed_feed_new_full ::
  "u32 \<Rightarrow> i16 option \<Rightarrow> aggregated_price_feed_data \<Rightarrow> parsed_feed_payload" where
  "parsed_feed_new_full feed_id exponent data =
     \<lparr>pf_price_feed_id = feed_id, pf_price = ag_price data, pf_best_bid_price = ag_best_bid_price data,
      pf_best_ask_price = ag_best_ask_price data, pf_publisher_count = Some (ag_publisher_count data),
      pf_exponent = exponent, pf_confidence = ag_confidence data, pf_funding_rate = ag_funding_rate data,
      pf_funding_timestamp = ag_funding_timestamp data,
      pf_funding_rate_interval = ag_funding_rate_interval data,
      pf_market_session = Some (ag_market_session data), pf_ema_price = ag_ema_price data,
      pf_ema_confidence = ag_ema_confidence data, pf_feed_update_timestamp = ag_feed_update_timestamp data\<rparr>"

section \<open>The standard payload\<close>

datatype payload_property_value =
    V_Price "price option" | V_BestBidPrice "price option" | V_BestAskPrice "price option"
  | V_PublisherCount u16 | V_Exponent i16 | V_Confidence "price option"
  | V_FundingRate "rate option" | V_FundingTimestamp "timestamp_us option"
  | V_FundingRateInterval "duration_us option" | V_MarketSession market_session
  | V_EmaPrice "price option" | V_EmaConfidence "price option"
  | V_FeedUpdateTimestamp "timestamp_us option"

record payload_feed_data =
  fd_feed_id :: u32
  fd_properties :: "payload_property_value list"

record payload_data =
  pd_timestamp_us :: timestamp_us
  pd_channel_id :: u8
  pd_feeds :: "payload_feed_data list"

definition PAYLOAD_FORMAT_MAGIC :: u32 where "PAYLOAD_FORMAT_MAGIC = 2479346549"

text \<open>\<^verbatim>\<open>TryFrom<(PriceFeedProperty, &ParsedFeedPayload)>\<close>\<close>

definition missing :: anyhow where
  "missing = Message ''ParsedFeedPayload is missing required property''"

fun value_try_from :: "price_feed_property \<Rightarrow> parsed_feed_payload \<Rightarrow> anyhow + payload_property_value" where
  "value_try_from P_Price feed = Inr (V_Price (pf_price feed))"
| "value_try_from P_BestBidPrice feed = Inr (V_BestBidPrice (pf_best_bid_price feed))"
| "value_try_from P_BestAskPrice feed = Inr (V_BestAskPrice (pf_best_ask_price feed))"
| "value_try_from P_PublisherCount feed = map_ok V_PublisherCount (ok_or missing (pf_publisher_count feed))"
| "value_try_from P_Exponent feed = map_ok V_Exponent (ok_or missing (pf_exponent feed))"
| "value_try_from P_Confidence feed = Inr (V_Confidence (pf_confidence feed))"
| "value_try_from P_FundingRate feed = Inr (V_FundingRate (pf_funding_rate feed))"
| "value_try_from P_FundingTimestamp feed = Inr (V_FundingTimestamp (pf_funding_timestamp feed))"
| "value_try_from P_FundingRateInterval feed = Inr (V_FundingRateInterval (pf_funding_rate_interval feed))"
| "value_try_from P_MarketSession feed = map_ok V_MarketSession (ok_or missing (pf_market_session feed))"
| "value_try_from P_EmaPrice feed = Inr (V_EmaPrice (pf_ema_price feed))"
| "value_try_from P_EmaConfidence feed = Inr (V_EmaConfidence (pf_ema_confidence feed))"
| "value_try_from P_FeedUpdateTimestamp feed = Inr (V_FeedUpdateTimestamp (pf_feed_update_timestamp feed))"

fun property_value :: "aggregated_price_feed_data \<Rightarrow> price_feed_property \<Rightarrow> payload_property_value" where
  "property_value feed P_Price = V_Price (ag_price feed)"
| "property_value feed P_BestBidPrice = V_BestBidPrice (ag_best_bid_price feed)"
| "property_value feed P_BestAskPrice = V_BestAskPrice (ag_best_ask_price feed)"
| "property_value feed P_PublisherCount = V_PublisherCount (ag_publisher_count feed)"
| "property_value feed P_Exponent = V_Exponent (ag_exponent feed)"
| "property_value feed P_Confidence = V_Confidence (ag_confidence feed)"
| "property_value feed P_FundingRate = V_FundingRate (ag_funding_rate feed)"
| "property_value feed P_FundingTimestamp = V_FundingTimestamp (ag_funding_timestamp feed)"
| "property_value feed P_FundingRateInterval = V_FundingRateInterval (ag_funding_rate_interval feed)"
| "property_value feed P_MarketSession = V_MarketSession (ag_market_session feed)"
| "property_value feed P_EmaPrice = V_EmaPrice (ag_ema_price feed)"
| "property_value feed P_EmaConfidence = V_EmaConfidence (ag_ema_confidence feed)"
| "property_value feed P_FeedUpdateTimestamp = V_FeedUpdateTimestamp (ag_feed_update_timestamp feed)"

definition payload_new ::
  "timestamp_us \<Rightarrow> u8 \<Rightarrow> (u32 \<times> aggregated_price_feed_data) list \<Rightarrow> price_feed_property list \<Rightarrow> payload_data" where
  "payload_new timestamp_us channel_id feeds requested_properties =
     \<lparr>pd_timestamp_us = timestamp_us, pd_channel_id = channel_id,
      pd_feeds = map (\<lambda>(feed_id, feed). \<lparr>fd_feed_id = feed_id,
        fd_properties = map (property_value feed) requested_properties\<rparr>) feeds\<rparr>"

subsection \<open>Writing\<close>

definition write_option_price :: "byte_order \<Rightarrow> price option \<Rightarrow> bytes" where
  "write_option_price bo v = put_uint bo 8 (case v of None \<Rightarrow> 0 | Some p \<Rightarrow> p)"

definition write_option_rate :: "byte_order \<Rightarrow> rate option \<Rightarrow> bytes" where
  "write_option_rate bo v = (case v of Some r \<Rightarrow> 1 # put_uint bo 8 r | None \<Rightarrow> [0])"

definition write_option_timestamp :: "byte_order \<Rightarrow> timestamp_us option \<Rightarrow> bytes" where
  "write_option_timestamp bo v = (case v of Some t \<Rightarrow> 1 # put_uint bo 8 t | None \<Rightarrow> [0])"

definition write_option_duration :: "byte_order \<Rightarrow> duration_us option \<Rightarrow> bytes" where
  "write_option_duration bo v = (case v of Some d \<Rightarrow> 1 # put_uint bo 8 d | None \<Rightarrow> [0])"

fun write_property :: "byte_order \<Rightarrow> payload_property_value \<Rightarrow> bytes" where
  "write_property bo (V_Price p) = property_repr P_Price # write_option_price bo p"
| "write_property bo (V_BestBidPrice p) = property_repr P_BestBidPrice # write_option_price bo p"
| "write_property bo (V_BestAskPrice p) = property_repr P_BestAskPrice # write_option_price bo p"
| "write_property bo (V_PublisherCount n) = property_repr P_PublisherCount # put_uint bo 2 n"
| "write_property bo (V_Exponent e) = property_repr P_Exponent # put_uint bo 2 e"
| "write_property bo (V_Confidence p) = property_repr P_Confidence # write_option_price bo p"
| "write_property bo (V_FundingRate r) = property_repr P_FundingRate # write_option_rate bo r"
| "write_property bo (V_FundingTimestamp t) = property_repr P_FundingTimestamp # write_option_timestamp bo t"
| "write_property bo (V_FundingRateInterval d) = property_repr P_FundingRateInterval # write_option_duration bo d"
| "write_property bo (V_MarketSession s) = property_repr P_MarketSession # put_uint bo 2 (market_session_i16 s)"
| "write_property bo (V_EmaPrice p) = property_repr P_EmaPrice # write_option_price bo p"
| "write_property bo (V_EmaConfidence p) = property_repr P_EmaConfidence # write_option_price bo p"
| "write_property bo (V_FeedUpdateTimestamp t) = property_repr P_FeedUpdateTimestamp # write_option_timestamp bo t"

definition len_u8 :: "'a list \<Rightarrow> anyhow + u8" where
  "len_u8 xs = (if length xs < 2 ^ 8 then Inr (word_of_nat (length xs)) else Inl TryFromIntError)"

fun write_feeds :: "byte_order \<Rightarrow> payload_feed_data list \<Rightarrow> anyhow + bytes" where
  "write_feeds bo [] = Inr []"
| "write_feeds bo (feed # feeds) =
     and_then (len_u8 (fd_properties feed)) (\<lambda>n.
     and_then (write_feeds bo feeds) (\<lambda>rest.
     Inr (put_uint bo 4 (fd_feed_id feed) @ [n] @ concat (map (write_property bo) (fd_properties feed)) @ rest)))"

definition payload_serialize :: "byte_order \<Rightarrow> payload_data \<Rightarrow> anyhow + bytes" where
  "payload_serialize bo d =
     and_then (len_u8 (pd_feeds d)) (\<lambda>n.
     and_then (write_feeds bo (pd_feeds d)) (\<lambda>feeds.
     Inr (put_uint bo 4 PAYLOAD_FORMAT_MAGIC @ put_uint bo 8 (pd_timestamp_us d) @ [pd_channel_id d, n] @ feeds)))"

subsection \<open>Reading\<close>

definition read_option_price :: "byte_order \<Rightarrow> bytes \<Rightarrow> anyhow + price option \<times> bytes" where
  "read_option_price bo r =
     and_then (read_u64 bo r) (\<lambda>(v, r). Inr (if v = 0 then None else Some v, r))"

definition read_option_rate :: "byte_order \<Rightarrow> bytes \<Rightarrow> anyhow + rate option \<times> bytes" where
  "read_option_rate bo r =
     and_then (read_u8 r) (\<lambda>(b, r).
     if b \<noteq> 0 then and_then (read_u64 bo r) (\<lambda>(v, r). Inr (Some v, r)) else Inr (None, r))"

definition read_option_timestamp :: "byte_order \<Rightarrow> bytes \<Rightarrow> anyhow + timestamp_us option \<times> bytes" where
  "read_option_timestamp bo r =
     and_then (read_u8 r) (\<lambda>(b, r).
     if b \<noteq> 0 then and_then (read_u64 bo r) (\<lambda>(v, r). Inr (Some v, r)) else Inr (None, r))"

definition read_option_interval :: "byte_order \<Rightarrow> bytes \<Rightarrow> anyhow + duration_us option \<times> bytes" where
  "read_option_interval bo r =
     and_then (read_u8 r) (\<lambda>(b, r).
     if b \<noteq> 0 then and_then (read_u64 bo r) (\<lambda>(v, r). Inr (Some v, r)) else Inr (None, r))"

fun read_value :: "byte_order \<Rightarrow> price_feed_property \<Rightarrow> bytes \<Rightarrow> anyhow + payload_property_value \<times> bytes" where
  "read_value bo P_Price r = map_ok (\<lambda>(v, r). (V_Price v, r)) (read_option_price bo r)"
| "read_value bo P_BestBidPrice r = map_ok (\<lambda>(v, r). (V_BestBidPrice v, r)) (read_option_price bo r)"
| "read_value bo P_BestAskPrice r = map_ok (\<lambda>(v, r). (V_BestAskPrice v, r)) (read_option_price bo r)"
| "read_value bo P_PublisherCount r = map_ok (\<lambda>(v, r). (V_PublisherCount v, r)) (read_u16 bo r)"
| "read_value bo P_Exponent r = map_ok (\<lambda>(v, r). (V_Exponent v, r)) (read_u16 bo r)"
| "read_value bo P_Confidence r = map_ok (\<lambda>(v, r). (V_Confidence v, r)) (read_option_price bo r)"
| "read_value bo P_FundingRate r = map_ok (\<lambda>(v, r). (V_FundingRate v, r)) (read_option_rate bo r)"
| "read_value bo P_FundingTimestamp r = map_ok (\<lambda>(v, r). (V_FundingTimestamp v, r)) (read_option_timestamp bo r)"
| "read_value bo P_FundingRateInterval r = map_ok (\<lambda>(v, r). (V_FundingRateInterval v, r)) (read_option_interval bo r)"
| "read_value bo P_MarketSession r =
     and_then (read_u16 bo r) (\<lambda>(v, r).
     and_then (market_session_try_from v) (\<lambda>s. Inr (V_MarketSession s, r)))"
| "read_value bo P_EmaPrice r = map_ok (\<lambda>(v, r). (V_EmaPrice v, r)) (read_option_price bo r)"
| "read_value bo P_EmaConfidence r = map_ok (\<lambda>(v, r). (V_EmaConfidence v, r)) (read_option_price bo r)"
| "read_value bo P_FeedUpdateTimestamp r = map_ok (\<lambda>(v, r). (V_FeedUpdateTimestamp v, r)) (read_option_timestamp bo r)"

definition read_property :: "byte_order \<Rightarrow> bytes \<Rightarrow> anyhow + payload_property_value \<times> bytes" where
  "read_property bo r =
     and_then (read_u8 r) (\<lambda>(b, r).
     and_then (ok_or (Message ''unknown property'') (property_from_repr b)) (\<lambda>property.
     read_value bo property r))"

definition read_feed :: "byte_order \<Rightarrow> bytes \<Rightarrow> anyhow + payload_feed_data \<times> bytes" where
  "read_feed bo r =
     and_then (read_u32 bo r) (\<lambda>(feed_id, r).
     and_then (read_u8 r) (\<lambda>(num_properties, r).
     and_then (read_many (read_property bo) (unat num_properties) r) (\<lambda>(properties, r).
     Inr (\<lparr>fd_feed_id = feed_id, fd_properties = properties\<rparr>, r))))"

definition payload_deserialize :: "byte_order \<Rightarrow> bytes \<Rightarrow> anyhow + payload_data \<times> bytes" where
  "payload_deserialize bo r =
     and_then (read_u32 bo r) (\<lambda>(magic, r).
     if magic \<noteq> PAYLOAD_FORMAT_MAGIC then Inl (Message ''magic mismatch'')
     else
     and_then (read_u64 bo r) (\<lambda>(timestamp_us, r).
     and_then (read_u8 r) (\<lambda>(channel_id, r).
     and_then (read_u8 r) (\<lambda>(num_feeds, r).
     and_then (read_many (read_feed bo) (unat num_feeds) r) (\<lambda>(feeds, r).
     Inr (\<lparr>pd_timestamp_us = timestamp_us, pd_channel_id = channel_id, pd_feeds = feeds\<rparr>, r))))))"

definition payload_deserialize_slice_le :: "bytes \<Rightarrow> anyhow + payload_data" where
  "payload_deserialize_slice_le data = map_ok fst (payload_deserialize LE data)"

definition payload_deserialize_slice_be :: "bytes \<Rightarrow> anyhow + payload_data" where
  "payload_deserialize_slice_be data = map_ok fst (payload_deserialize BE data)"

section \<open>Codecs\<close>

text \<open>The type invariant of a \<^verbatim>\<open>Price\<close>: its mantissa is a \<^verbatim>\<open>NonZeroI64\<close>.\<close>

definition price_ok :: "price option \<Rightarrow> bool" where
  "price_ok v \<longleftrightarrow> v \<noteq> Some 0"

fun value_ok :: "payload_property_value \<Rightarrow> bool" where
  "value_ok (V_Price p) = price_ok p"
| "value_ok (V_BestBidPrice p) = price_ok p"
| "value_ok (V_BestAskPrice p) = price_ok p"
| "value_ok (V_Confidence p) = price_ok p"
| "value_ok (V_EmaPrice p) = price_ok p"
| "value_ok (V_EmaConfidence p) = price_ok p"
| "value_ok _ = True"

lemma property_from_repr_repr [simp]: "property_from_repr (property_repr p) = Some p"
  by (cases p) (simp_all add: property_from_repr_def all_properties_def)

lemma market_session_round_trip [simp]: "market_session_try_from (market_session_i16 s) = Inr s"
  by (cases s) (simp_all add: market_session_try_from_def)

lemma read_option_round_trip [codec_simps]:
  "price_ok p \<Longrightarrow> read_option_price bo (write_option_price bo p @ r) = Inr (p, r)"
  "read_option_rate bo (write_option_rate bo v @ r) = Inr (v, r)"
  "read_option_timestamp bo (write_option_timestamp bo v @ r) = Inr (v, r)"
  "read_option_interval bo (write_option_duration bo v @ r) = Inr (v, r)"
proof -
  show "price_ok p \<Longrightarrow> read_option_price bo (write_option_price bo p @ r) = Inr (p, r)"
    by (cases p) (simp_all add: read_option_price_def write_option_price_def price_ok_def read_words_put)
  show "read_option_rate bo (write_option_rate bo v @ r) = Inr (v, r)"
    "read_option_timestamp bo (write_option_timestamp bo v @ r) = Inr (v, r)"
    "read_option_interval bo (write_option_duration bo v @ r) = Inr (v, r)"
    by (cases v; simp add: read_option_rate_def write_option_rate_def read_option_timestamp_def
        write_option_timestamp_def read_option_interval_def write_option_duration_def read_words_put)+
qed

interpretation property_codec: codec "write_property bo" "read_property bo" value_ok for bo
proof
  fix v r assume "value_ok v"
  then show "read_property bo (write_property bo v @ r) = Inr (v, r)"
    by (cases v) (simp_all add: read_property_def codec_simps del: property_repr.simps)
qed

definition feed_ok :: "payload_feed_data \<Rightarrow> bool" where
  "feed_ok f \<longleftrightarrow> length (fd_properties f) < 2 ^ 8 \<and> list_all value_ok (fd_properties f)"

definition feed_bytes :: "byte_order \<Rightarrow> payload_feed_data \<Rightarrow> bytes" where
  "feed_bytes bo f = put_uint bo 4 (fd_feed_id f) @ [word_of_nat (length (fd_properties f))] @
     concat (map (write_property bo) (fd_properties f))"

interpretation feed_codec: codec "feed_bytes bo" "read_feed bo" feed_ok for bo
proof
  fix f r assume "feed_ok f"
  then show "read_feed bo (feed_bytes bo f @ r) = Inr (f, r)"
    using property_codec.read_many_enc [of "fd_properties f" bo r]
    by (simp add: feed_ok_def read_feed_def feed_bytes_def codec_simps unat_of_nat take_bit_nat_eq_self)
qed

lemma write_feeds_Inr:
  "write_feeds bo fs = Inr bs \<longleftrightarrow> list_all (\<lambda>f. length (fd_properties f) < 2 ^ 8) fs \<and> bs = concat (map (feed_bytes bo) fs)"
  by (induction fs arbitrary: bs) (auto simp: len_u8_def feed_bytes_def)

definition payload_ok :: "payload_data \<Rightarrow> bool" where
  "payload_ok d \<longleftrightarrow> length (pd_feeds d) < 2 ^ 8 \<and> list_all feed_ok (pd_feeds d)"

definition payload_bytes :: "byte_order \<Rightarrow> payload_data \<Rightarrow> bytes" where
  "payload_bytes bo d = put_uint bo 4 PAYLOAD_FORMAT_MAGIC @ put_uint bo 8 (pd_timestamp_us d) @
     [pd_channel_id d, word_of_nat (length (pd_feeds d))] @ concat (map (feed_bytes bo) (pd_feeds d))"

interpretation payload_codec: codec "payload_bytes bo" "payload_deserialize bo" payload_ok for bo
proof
  fix d r assume "payload_ok d"
  then show "payload_deserialize bo (payload_bytes bo d @ r) = Inr (d, r)"
    using feed_codec.read_many_enc [of "pd_feeds d" bo r]
    by (simp add: payload_ok_def payload_deserialize_def payload_bytes_def codec_simps unat_of_nat take_bit_nat_eq_self)
qed

lemma payload_serialize_Inr:
  "payload_serialize bo d = Inr bs \<longleftrightarrow> length (pd_feeds d) < 2 ^ 8 \<and>
     list_all (\<lambda>f. length (fd_properties f) < 2 ^ 8) (pd_feeds d) \<and> bs = payload_bytes bo d"
  by (auto simp: payload_serialize_def len_u8_def write_feeds_Inr payload_bytes_def)

section \<open>Parsed and binary payloads carry the same values\<close>

lemma value_set_property:
  "value_try_from p (set_property data q out) =
     (if p = q then Inr (property_value data p) else value_try_from p out)"
  by (cases q; cases p; simp)

lemma value_fold_property:
  "value_try_from p (fold (set_property data) qs out) =
     (if p \<in> set qs then Inr (property_value data p) else value_try_from p out)"
  by (induction qs arbitrary: out) (auto simp: value_set_property)

lemma fold_property_id: "pf_price_feed_id (fold (set_property data) qs out) = pf_price_feed_id out"
proof (induction qs arbitrary: out)
  case (Cons q qs)
  have "pf_price_feed_id (set_property data q out) = pf_price_feed_id out" by (cases q) simp_all
  with Cons show ?case by simp
qed simp

section \<open>Properties\<close>

text \<open>C17: Round trip of the standard payload in both byte orders.  A payload whose prices are non-zero
  (the invariant of the type \<^verbatim>\<open>Price\<close>) is read back as it was written, whatever follows it; writing
  fails exactly when there are more than 255 feeds or properties of a feed.\<close>

theorem payload_round_trip:
  assumes "list_all (\<lambda>f. list_all value_ok (fd_properties f)) (pd_feeds d)"
  shows "(payload_serialize bo d = Inr bs \<longrightarrow> payload_deserialize bo (bs @ rest) = Inr (d, rest)) \<and>
    (is_ok (payload_serialize bo d) \<longleftrightarrow>
       length (pd_feeds d) \<le> 255 \<and> list_all (\<lambda>f. length (fd_properties f) \<le> 255) (pd_feeds d))"
proof -
  have le: "n \<le> 255 \<longleftrightarrow> n < 2 ^ 8" for n :: nat by auto
  have ok: "payload_serialize bo d = Inr bs \<Longrightarrow> payload_ok d \<and> bs = payload_bytes bo d"
    using assms by (simp add: payload_serialize_Inr payload_ok_def feed_ok_def list_all_iff)
  have "is_ok (payload_serialize bo d) \<longleftrightarrow>
      length (pd_feeds d) < 2 ^ 8 \<and> list_all (\<lambda>f. length (fd_properties f) < 2 ^ 8) (pd_feeds d)"
    unfolding is_ok_iff payload_serialize_Inr by blast
  then show ?thesis
    using ok payload_codec.dec_enc [of d bo rest] unfolding le by blast
qed

theorem payload_round_trip_witness:
  "let d = \<lparr>pd_timestamp_us = 5, pd_channel_id = 3, pd_feeds = [\<lparr>fd_feed_id = 1,
       fd_properties = [V_Price (Some 7), V_BestBidPrice None, V_Exponent (- 8), V_FundingRate (Some 0)]\<rparr>]\<rparr>
   in \<exists>bs. payload_serialize BE d = Inr bs \<and> payload_deserialize BE (bs @ [9]) = Inr (d, [9])"
proof -
  let ?d = "\<lparr>pd_timestamp_us = 5, pd_channel_id = 3, pd_feeds = [\<lparr>fd_feed_id = 1,
       fd_properties = [V_Price (Some 7), V_BestBidPrice None, V_Exponent (- 8), V_FundingRate (Some 0)]\<rparr>]\<rparr>"
  have ok: "list_all (\<lambda>f. list_all value_ok (fd_properties f)) (pd_feeds ?d)" by (simp add: price_ok_def)
  obtain bs where "payload_serialize BE ?d = Inr bs"
    using payload_round_trip [OF ok, of BE "[]" "[]"] by (auto simp: is_ok_iff)
  with payload_round_trip [OF ok, of BE bs "[9]"] show ?thesis by simp
qed

text \<open>The JSON view of an update and its binary view agree.  For every requested property, reading
  it back from \<^verbatim>\<open>ParsedFeedPayload::new\<close> succeeds and gives the value that \<^verbatim>\<open>PayloadData::new\<close> puts in
  the binary payload; a property that was not requested and is mandatory in the binary format is
  reported missing; and \<^verbatim>\<open>new_full\<close> with the feed's exponent is \<^verbatim>\<open>new\<close> with all properties.\<close>

theorem parsed_and_binary_agree:
  "(\<forall>p \<in> set props. value_try_from p (parsed_feed_new feed_id data props) = Inr (property_value data p)) \<and>
   (\<forall>p \<in> {P_PublisherCount, P_Exponent, P_MarketSession} - set props.
      value_try_from p (parsed_feed_new feed_id data props) = Inl missing) \<and>
   parsed_feed_new_full feed_id (Some (ag_exponent data)) data = parsed_feed_new feed_id data all_properties"
  by (auto simp: parsed_feed_new_def value_fold_property parsed_feed_none_def parsed_feed_new_full_def all_properties_def)

theorem parsed_and_binary_agree_witness:
  "value_try_from P_Exponent (parsed_feed_new 4 (aggregated_empty (- 5) Closed 17) [P_Exponent]) = Inr (V_Exponent (- 5)) \<and>
   value_try_from P_MarketSession (parsed_feed_new 4 (aggregated_empty (- 5) Closed 17) [P_Exponent]) = Inl missing"
proof -
  have "P_Exponent \<in> set [P_Exponent]" "P_MarketSession \<in> {P_PublisherCount, P_Exponent, P_MarketSession} - set [P_Exponent]"
    "property_value (aggregated_empty (- 5) Closed 17) P_Exponent = V_Exponent (- 5)"
    by (simp_all add: aggregated_empty_def)
  then show ?thesis
    using parsed_and_binary_agree [of "[P_Exponent]" 4 "aggregated_empty (- 5) Closed 17"] by metis
qed

end
