(* ===== verification/Stellar_Sdk.thy ===== *)
theory Stellar_Sdk
  imports Lazer_Stellar Lazer_Payload
begin

text \<open>
  The Rust SDK for consumers on Stellar
  (\<^verbatim>\<open>contracts/stellar/sdk/rust/src/payload.rs\<close>, \<^verbatim>\<open>error.rs\<close>, \<^verbatim>\<open>client.rs\<close>): the cursor over host
  bytes, the payload parser and the client of the verifier contract.
\<close>

section \<open>Errors (error.rs)\<close>

datatype parse_error =
    PE_TruncatedData | PE_InvalidPayloadLength | PE_InvalidPayloadMagic | PE_InvalidChannel
  | PE_InvalidProperty | PE_InvalidMarketSession

datatype verify_error =
    VE_InvalidEnvelopeMagic | VE_TruncatedEnvelope | VE_InvalidEnvelopeLength | VE_SignerNotTrusted
  | VE_SignerExpired | VE_InvalidRecoveryId | VE_InvalidPayloadMagic | VE_InvalidPayloadLength
  | VE_TruncatedPayload | VE_InvalidChannel | VE_InvalidProperty | VE_InvalidMarketSession
  | VE_InvokeFailed

fun verify_error_of :: "parse_error \<Rightarrow> verify_error" where
  "verify_error_of PE_TruncatedData = VE_TruncatedPayload"
| "verify_error_of PE_InvalidPayloadLength = VE_InvalidPayloadLength"
| "verify_error_of PE_InvalidPayloadMagic = VE_InvalidPayloadMagic"
| "verify_error_of PE_InvalidChannel = VE_InvalidChannel"
| "verify_error_of PE_InvalidProperty = VE_InvalidProperty"
| "verify_error_of PE_InvalidMarketSession = VE_InvalidMarketSession"

text \<open>The error codes (\<^verbatim>\<open>repr(u32)\<close>) through which the two contracts communicate.\<close>

fun lazer_error_code :: "lazer_error \<Rightarrow> nat" where
  "lazer_error_code AlreadyInitialized = 1"
| "lazer_error_code NotInitialized = 2"
| "lazer_error_code InvalidMagic = 3"
| "lazer_error_code TruncatedData = 4"
| "lazer_error_code InvalidPayloadLength = 5"
| "lazer_error_code SignerNotTrusted = 6"
| "lazer_error_code SignerExpired = 7"
| "lazer_error_code Unauthorized = 8"
| "lazer_error_code InvalidPayloadMagic = 9"
| "lazer_error_code InvalidChannel = 10"
| "lazer_error_code InvalidProperty = 11"
| "lazer_error_code InvalidMarketSession = 12"
| "lazer_error_code InvalidRecoveryId = 13"

definition verify_error_codes :: "(nat \<times> verify_error) list" where
  "verify_error_codes = [(3, VE_InvalidEnvelopeMagic), (4, VE_TruncatedEnvelope), (5, VE_InvalidEnvelopeLength),
     (6, VE_SignerNotTrusted), (7, VE_SignerExpired), (13, VE_InvalidRecoveryId), (100, VE_InvalidPayloadMagic),
     (101, VE_InvalidPayloadLength), (102, VE_TruncatedPayload), (103, VE_InvalidChannel), (104, VE_InvalidProperty),
     (105, VE_InvalidMarketSession), (200, VE_InvokeFailed)]"

section \<open>Data (payload.rs)\<close>

definition PAYLOAD_MAGIC :: u32 where "PAYLOAD_MAGIC = 2479346549"

datatype channel = RealTime | FixedRate50ms | FixedRate200ms | FixedRate1000ms

record feed =
  sf_feed_id :: u32
  sf_price :: "i64 option"
  sf_best_bid_price :: "i64 option"
  sf_best_ask_price :: "i64 option"
  sf_publisher_count :: "u16 option"
  sf_exponent :: "i16 option"
  sf_confidence :: "i64 option"
  sf_funding_rate :: "i64 option"
  sf_funding_timestamp :: "u64 option"
  sf_funding_rate_interval :: "u64 option"
  sf_market_session :: "market_session option"
  sf_ema_price :: "i64 option"
  sf_ema_confidence :: "i64 option"
  sf_feed_update_timestamp :: "u64 option"

record update =
  up_timestamp :: u64
  up_channel :: channel
  up_feeds :: "feed list"

section \<open>The cursor\<close>

text \<open>A \<^verbatim>\<open>Reader\<close> is the data and the offset of the next byte; a read returns the moved reader.\<close>

record reader =
  rd_data :: bytes
  rd_offset :: nat

definition reader_new :: "bytes \<Rightarrow> reader" where
  "reader_new data = \<lparr>rd_data = data, rd_offset = 0\<rparr>"

definition remaining :: "reader \<Rightarrow> nat" where
  "remaining r = length (rd_data r) - rd_offset r"

definition sdk_get_byte :: "bytes \<Rightarrow> nat \<Rightarrow> parse_error + u8" where
  "sdk_get_byte data index = ok_or PE_TruncatedData (bytes_get data index)"

definition sdk_read_u8 :: "reader \<Rightarrow> parse_error + u8 \<times> reader" where
  "sdk_read_u8 r =
     (if length (rd_data r) \<le> rd_offset r then Inl PE_TruncatedData
      else and_then (sdk_get_byte (rd_data r) (rd_offset r)) (\<lambda>v.
           Inr (v, r\<lparr>rd_offset := rd_offset r + 1\<rparr>)))"

definition sdk_read_bool :: "reader \<Rightarrow> parse_error + bool \<times> reader" where
  "sdk_read_bool r = map_ok (\<lambda>(b, r). (b \<noteq> 0, r)) (sdk_read_u8 r)"

definition sdk_read_le_u16 :: "reader \<Rightarrow> parse_error + u16 \<times> reader" where
  "sdk_read_le_u16 r =
     (if remaining r < 2 then Inl PE_TruncatedData
      else
      and_then (sdk_get_byte (rd_data r) (rd_offset r)) (\<lambda>b0.
      and_then (sdk_get_byte (rd_data r) (rd_offset r + 1)) (\<lambda>b1.
      Inr (ucast b0 OR push_bit 8 (ucast b1), r\<lparr>rd_offset := rd_offset r + 2\<rparr>))))"

definition sdk_read_le_u32 :: "reader \<Rightarrow> parse_error + u32 \<times> reader" where
  "sdk_read_le_u32 r =
     (if remaining r < 4 then Inl PE_TruncatedData
      else
      and_then (sdk_get_byte (rd_data r) (rd_offset r)) (\<lambda>b0.
      and_then (sdk_get_byte (rd_data r) (rd_offset r + 1)) (\<lambda>b1.
      and_then (sdk_get_byte (rd_data r) (rd_offset r + 2)) (\<lambda>b2.
      and_then (sdk_get_byte (rd_data r) (rd_offset r + 3)) (\<lambda>b3.
      Inr (ucast b0 OR push_bit 8 (ucast b1) OR push_bit 16 (ucast b2) OR push_bit 24 (ucast b3),
           r\<lparr>rd_offset := rd_offset r + 4\<rparr>))))))"

text \<open>The loop \<^verbatim>\<open>for i in 0..8\<close> that ors the shifted bytes together, from round \<open>i\<close> with \<open>n\<close> left.\<close>

fun or_bytes :: "bytes \<Rightarrow> nat \<Rightarrow> nat \<Rightarrow> nat \<Rightarrow> u64 \<Rightarrow> parse_error + u64" where
  "or_bytes data offset i 0 val = Inr val"
| "or_bytes data offset i (Suc n) val =
     and_then (sdk_get_byte data (offset + i)) (\<lambda>b.
     or_bytes data offset (Suc i) n (val OR push_bit (i * 8) (ucast b)))"

definition sdk_read_le_u64 :: "reader \<Rightarrow> parse_error + u64 \<times> reader" where
  "sdk_read_le_u64 r =
     (if remaining r < 8 then Inl PE_TruncatedData
      else and_then (or_bytes (rd_data r) (rd_offset r) 0 8 0) (\<lambda>val.
           Inr (val, r\<lparr>rd_offset := rd_offset r + 8\<rparr>)))"

section \<open>The parser\<close>

definition parse_channel :: "u8 \<Rightarrow> parse_error + channel" where
  "parse_channel v =
     (if v = 1 then Inr RealTime else if v = 2 then Inr FixedRate50ms else if v = 3 then Inr FixedRate200ms
      else if v = 4 then Inr FixedRate1000ms else Inl PE_InvalidChannel)"

definition parse_market_session :: "u16 \<Rightarrow> parse_error + market_session" where
  "parse_market_session v =
     (if v = 0 then Inr Regular else if v = 1 then Inr PreMarket else if v = 2 then Inr PostMarket
      else if v = 3 then Inr OverNight else if v = 4 then Inr Closed else Inl PE_InvalidMarketSession)"

definition read_optional_i64 :: "reader \<Rightarrow> parse_error + i64 option \<times> reader" where
  "read_optional_i64 r =
     and_then (sdk_read_le_u64 r) (\<lambda>(raw, r). Inr (if raw = 0 then None else Some raw, r))"

text \<open>A flag and, when it is set, a value; the field keeps its value when the flag is not set.\<close>

definition read_flagged :: "(u64 \<Rightarrow> feed \<Rightarrow> feed) \<Rightarrow> reader \<Rightarrow> feed \<Rightarrow> parse_error + feed \<times> reader" where
  "read_flagged upd r fd =
     and_then (sdk_read_bool r) (\<lambda>(present, r).
     if present then and_then (sdk_read_le_u64 r) (\<lambda>(raw, r). Inr (upd raw fd, r)) else Inr (fd, r))"

definition parse_feed_property :: "u8 \<Rightarrow> reader \<Rightarrow> feed \<Rightarrow> parse_error + feed \<times> reader" where
  "parse_feed_property i r fd =
     (if i = 0 then and_then (read_optional_i64 r) (\<lambda>(v, r). Inr (fd\<lparr>sf_price := v\<rparr>, r))
      else if i = 1 then and_then (read_optional_i64 r) (\<lambda>(v, r). Inr (fd\<lparr>sf_best_bid_price := v\<rparr>, r))
      else if i = 2 then and_then (read_optional_i64 r) (\<lambda>(v, r). Inr (fd\<lparr>sf_best_ask_price := v\<rparr>, r))
      else if i = 3 then and_then (sdk_read_le_u16 r) (\<lambda>(v, r). Inr (fd\<lparr>sf_publisher_count := Some v\<rparr>, r))
      else if i = 4 then and_then (sdk_read_le_u16 r) (\<lambda>(v, r). Inr (fd\<lparr>sf_exponent := Some v\<rparr>, r))
      else if i = 5 then and_then (read_optional_i64 r) (\<lambda>(v, r). Inr (fd\<lparr>sf_confidence := v\<rparr>, r))
      else if i = 6 then read_flagged (\<lambda>v fd. fd\<lparr>sf_funding_rate := Some v\<rparr>) r fd
      else if i = 7 then read_flagged (\<lambda>v fd. fd\<lparr>sf_funding_timestamp := Some v\<rparr>) r fd
      else if i = 8 then read_flagged (\<lambda>v fd. fd\<lparr>sf_funding_rate_interval := Some v\<rparr>) r fd
      else if i = 9 then and_then (sdk_read_le_u16 r) (\<lambda>(v, r).
        and_then (parse_market_session v) (\<lambda>s. Inr (fd\<lparr>sf_market_session := Some s\<rparr>, r)))
      else if i = 10 then and_then (read_optional_i64 r) (\<lambda>(v, r). Inr (fd\<lparr>sf_ema_price := v\<rparr>, r))
      else if i = 11 then and_then (read_optional_i64 r) (\<lambda>(v, r). Inr (fd\<lparr>sf_ema_confidence := v\<rparr>, r))
      else if i = 12 then read_flagged (\<lambda>v fd. fd\<lparr>sf_feed_update_timestamp := Some v\<rparr>) r fd
      else Inl PE_InvalidProperty)"

fun parse_properties :: "nat \<Rightarrow> reader \<Rightarrow> feed \<Rightarrow> parse_error + feed \<times> reader" where
  "parse_properties 0 r fd = Inr (fd, r)"
| "parse_properties (Suc n) r fd =
     and_then (sdk_read_u8 r) (\<lambda>(property_id, r).
     and_then (parse_feed_property property_id r fd) (\<lambda>(fd, r).
     parse_properties n r fd))"

definition empty_feed :: "u32 \<Rightarrow> feed" where
  "empty_feed feed_id =
     \<lparr>sf_feed_id = feed_id, sf_price = None, sf_best_bid_price = None, sf_best_ask_price = None,
      sf_publisher_count = None, sf_exponent = None, sf_confidence = None, sf_funding_rate = None,
      sf_funding_timestamp = None, sf_funding_rate_interval = None, sf_market_session = None,
      sf_ema_price = None, sf_ema_confidence = None, sf_feed_update_timestamp = None\<rparr>"

definition parse_feed :: "reader \<Rightarrow> parse_error + feed \<times> reader" where
  "parse_feed r =
     and_then (sdk_read_le_u32 r) (\<lambda>(feed_id, r).
     and_then (sdk_read_u8 r) (\<lambda>(num_properties, r).
     parse_properties (unat num_properties) r (empty_feed feed_id)))"

fun parse_feeds :: "nat \<Rightarrow> reader \<Rightarrow> parse_error + feed list \<times> reader" where
  "parse_feeds 0 r = Inr ([], r)"
| "parse_feeds (Suc n) r =
     and_then (parse_feed r) (\<lambda>(fd, r). and_then (parse_feeds n r) (\<lambda>(fds, r). Inr (fd # fds, r)))"

definition parse_payload :: "bytes \<Rightarrow> parse_error + update" where
  "parse_payload payload =
     (let r = reader_new payload in
      and_then (sdk_read_le_u32 r) (\<lambda>(magic, r).
      if magic \<noteq> PAYLOAD_MAGIC then Inl PE_InvalidPayloadMagic
      else
      and_then (sdk_read_le_u64 r) (\<lambda>(timestamp, r).
      and_then (sdk_read_u8 r) (\<lambda>(channel_value, r).
      and_then (parse_channel channel_value) (\<lambda>channel.
      and_then (sdk_read_u8 r) (\<lambda>(num_feeds, r).
      and_then (parse_feeds (unat num_feeds) r) (\<lambda>(feeds, r).
      if remaining r \<noteq> 0 then Inl PE_InvalidPayloadLength
      else Inr \<lparr>up_timestamp = timestamp, up_channel = channel, up_feeds = feeds\<rparr>)))))))"

section \<open>The client (client.rs)\<close>

text \<open>
  \<open>try_invoke_contract\<close> gives the callee's value, or its error converted through the error codes,
  or \<open>InvokeFailed\<close> when the callee trapped or its code is not one of \<^verbatim>\<open>VerifyError\<close>.
\<close>

definition client_verify_update ::
  "(bytes \<Rightarrow> bytes) \<Rightarrow> (bytes \<Rightarrow> bytes \<Rightarrow> u32 \<Rightarrow> bytes option) \<Rightarrow> 'addr lazer_env \<Rightarrow> bytes \<Rightarrow> verify_error + update" where
  "client_verify_update keccak256 recover env data =
     and_then
       (case verify_update keccak256 recover data env of
          Inr (payload, _) \<Rightarrow> Inr payload
        | Inl (Fail e) \<Rightarrow> Inl (case map_of verify_error_codes (lazer_error_code e) of Some v \<Rightarrow> v | None \<Rightarrow> VE_InvokeFailed)
        | Inl Trap \<Rightarrow> Inl VE_InvokeFailed) (\<lambda>verified.
     map_err verify_error_of (parse_payload verified))"

section \<open>The cursor reads what the protocol writes\<close>

definition at :: "reader \<Rightarrow> bytes \<Rightarrow> bool" where
  "at r bs \<longleftrightarrow> rd_offset r \<le> length (rd_data r) \<and> drop (rd_offset r) (rd_data r) = bs"

definition advance :: "nat \<Rightarrow> reader \<Rightarrow> reader" where
  "advance n r = r\<lparr>rd_offset := rd_offset r + n\<rparr>"

lemma at_new: "at (reader_new data) data"
  by (simp add: at_def reader_new_def)

lemma at_length: "at r bs \<Longrightarrow> length (rd_data r) = rd_offset r + length bs"
  by (auto simp: at_def)

lemma at_remaining: "at r bs \<Longrightarrow> remaining r = length bs"
  by (auto simp: at_def remaining_def)

lemma at_advance: "at r (xs @ ys) \<Longrightarrow> at (advance (length xs) r) ys"
proof -
  assume a: "at r (xs @ ys)"
  have "drop (rd_offset r + length xs) (rd_data r) = drop (length xs) (drop (rd_offset r) (rd_data r))"
    by (simp add: add.commute)
  also have "\<dots> = ys" using a by (simp add: at_def)
  finally show ?thesis using at_length [OF a] by (simp add: at_def advance_def)
qed

lemma at_byte: "at r bs \<Longrightarrow> i < length bs \<Longrightarrow> sdk_get_byte (rd_data r) (rd_offset r + i) = Inr (bs ! i)"
proof -
  assume a: "at r bs" and i: "i < length bs"
  have "rd_data r ! (rd_offset r + i) = drop (rd_offset r) (rd_data r) ! i"
    by (rule nth_drop [symmetric]) (use a in \<open>simp add: at_def\<close>)
  also have "\<dots> = bs ! i" using a by (simp add: at_def)
  finally show "sdk_get_byte (rd_data r) (rd_offset r + i) = Inr (bs ! i)"
    using at_length [OF a] i by (simp add: sdk_get_byte_def bytes_get_def)
qed

lemma sdk_read_u8_at: "at r (b # bs) \<Longrightarrow> sdk_read_u8 r = Inr (b, advance 1 r) \<and> at (advance 1 r) bs"
  using at_byte [of r "b # bs" 0] at_length [of r "b # bs"] at_advance [of r "[b]" bs]
  by (simp add: sdk_read_u8_def advance_def)

lemma put_u16_nth: "put_uint LE 2 (w :: u16) = [ucast w, ucast (drop_bit 8 w)]"
  by (simp add: put_uint.simps numeral_2_eq_2)

lemma sdk_read_le_u16_at:
  assumes "at r (put_uint LE 2 w @ bs)"
  shows "sdk_read_le_u16 r = Inr (w, advance 2 r) \<and> at (advance 2 r) bs"
proof -
  have b: "sdk_get_byte (rd_data r) (rd_offset r) = Inr (ucast w)"
    "sdk_get_byte (rd_data r) (Suc (rd_offset r)) = Inr (ucast (drop_bit 8 w))"
    using at_byte [OF assms, of 0] at_byte [OF assms, of 1] by (simp_all add: put_u16_nth)
  have "(ucast (ucast w :: u8) OR push_bit 8 (ucast (ucast (drop_bit 8 w) :: u8)) :: u16) = get_uint LE (put_uint LE 2 w)"
    by (simp add: put_u16_nth get_uint.simps)
  also have "\<dots> = w" by (simp add: get_put_uint)
  finally show ?thesis
    using b at_remaining [OF assms] at_advance [OF assms] by (simp add: sdk_read_le_u16_def advance_def)
qed

lemma put_u32_nth:
  "put_uint LE 4 (w :: u32) = [ucast w, ucast (drop_bit 8 w), ucast (drop_bit 16 w), ucast (drop_bit 24 w)]"
  by (simp add: put_uint.simps eval_nat_numeral drop_bit_drop_bit)

lemma sdk_read_le_u32_at:
  assumes "at r (put_uint LE 4 w @ bs)"
  shows "sdk_read_le_u32 r = Inr (w, advance 4 r) \<and> at (advance 4 r) bs"
proof -
  have b: "sdk_get_byte (rd_data r) (rd_offset r + k) = Inr (put_uint LE 4 w ! k)" if "k < 4" for k
    using at_byte [OF assms, of k] that by (simp add: nth_append)
  have "(ucast (put_uint LE 4 w ! 0) OR push_bit 8 (ucast (put_uint LE 4 w ! 1)) OR push_bit 16 (ucast (put_uint LE 4 w ! 2)) OR
      push_bit 24 (ucast (put_uint LE 4 w ! 3)) :: u32) = get_uint LE (put_uint LE 4 w)"
    by (simp add: put_u32_nth get_uint.simps push_bit_or push_bit_push_bit ac_simps)
  also have "\<dots> = w" by (simp add: get_put_uint)
  finally show ?thesis
    using b [of 0] b [of 1] b [of 2] b [of 3] at_remaining [OF assms] at_advance [OF assms]
    by (simp add: sdk_read_le_u32_def advance_def)
qed

lemma or_bytes_le_word:
  assumes "at r (xs @ bs)" and "i + length ys = length xs" and "drop i xs = ys"
  shows "or_bytes (rd_data r) (rd_offset r) i (length ys) val = Inr (val OR push_bit (i * 8) (le_word ys))"
  using assms(2,3)
proof (induction ys arbitrary: i val)
  case Nil
  then show ?case by simp
next
  case (Cons y ys)
  have i: "i < length xs" "xs ! i = y" "drop (Suc i) xs = ys"
    using Cons.prems by (auto simp: nth_via_drop drop_Suc tl_drop [symmetric])
  have "sdk_get_byte (rd_data r) (rd_offset r + i) = Inr y"
    using at_byte [OF assms(1), of i] i by (simp add: nth_append)
  moreover have "or_bytes (rd_data r) (rd_offset r) (Suc i) (length ys) v = Inr (v OR push_bit (Suc i * 8) (le_word ys))" for v
    using Cons.prems i by (intro Cons.IH) auto
  ultimately show ?case
    by (simp add: push_bit_or push_bit_push_bit or.assoc add.commute)
qed

lemma sdk_read_le_u64_at:
  assumes "at r (put_uint LE 8 w @ bs)"
  shows "sdk_read_le_u64 r = Inr (w, advance 8 r) \<and> at (advance 8 r) bs"
proof -
  have "or_bytes (rd_data r) (rd_offset r) 0 8 0 = Inr (le_word (put_uint LE 8 w))"
    using or_bytes_le_word [OF assms, of 0 "put_uint LE 8 w" 0] by simp
  moreover have "le_word (put_uint LE 8 w) = w"
    using get_put_uint [of 8 LE w] by (simp add: get_uint.simps)
  ultimately show ?thesis
    using at_remaining [OF assms] at_advance [OF assms] by (simp add: sdk_read_le_u64_def advance_def)
qed

section \<open>The parser reads what the protocol writes\<close>

fun apply_value :: "payload_property_value \<Rightarrow> feed \<Rightarrow> feed" where
  "apply_value (V_Price v) fd = fd\<lparr>sf_price := v\<rparr>"
| "apply_value (V_BestBidPrice v) fd = fd\<lparr>sf_best_bid_price := v\<rparr>"
| "apply_value (V_BestAskPrice v) fd = fd\<lparr>sf_best_ask_price := v\<rparr>"
| "apply_value (V_PublisherCount v) fd = fd\<lparr>sf_publisher_count := Some v\<rparr>"
| "apply_value (V_Exponent v) fd = fd\<lparr>sf_exponent := Some v\<rparr>"
| "apply_value (V_Confidence v) fd = fd\<lparr>sf_confidence := v\<rparr>"
| "apply_value (V_FundingRate v) fd = (case v of Some x \<Rightarrow> fd\<lparr>sf_funding_rate := Some x\<rparr> | None \<Rightarrow> fd)"
| "apply_value (V_FundingTimestamp v) fd = (case v of Some x \<Rightarrow> fd\<lparr>sf_funding_timestamp := Some x\<rparr> | None \<Rightarrow> fd)"
| "apply_value (V_FundingRateInterval v) fd = (case v of Some x \<Rightarrow> fd\<lparr>sf_funding_rate_interval := Some x\<rparr> | None \<Rightarrow> fd)"
| "apply_value (V_MarketSession s) fd = fd\<lparr>sf_market_session := Some s\<rparr>"
| "apply_value (V_EmaPrice v) fd = fd\<lparr>sf_ema_price := v\<rparr>"
| "apply_value (V_EmaConfidence v) fd = fd\<lparr>sf_ema_confidence := v\<rparr>"
| "apply_value (V_FeedUpdateTimestamp v) fd = (case v of Some x \<Rightarrow> fd\<lparr>sf_feed_update_timestamp := Some x\<rparr> | None \<Rightarrow> fd)"

definition sdk_feed_of :: "payload_feed_data \<Rightarrow> feed" where
  "sdk_feed_of f = fold apply_value (fd_properties f) (empty_feed (fd_feed_id f))"

lemma read_optional_i64_at:
  assumes "at r (write_option_price LE v @ bs)" and "price_ok v"
  shows "read_optional_i64 r = Inr (v, advance 8 r) \<and> at (advance 8 r) bs"
  using sdk_read_le_u64_at [OF assms(1) [unfolded write_option_price_def]] assms(2)
  by (cases v) (simp_all add: read_optional_i64_def price_ok_def)

lemma read_flagged_at:
  assumes "at r ((case v of Some x \<Rightarrow> 1 # put_uint LE 8 (x :: u64) | None \<Rightarrow> [0]) @ bs)"
  shows "\<exists>r'. read_flagged upd r fd = Inr (case v of Some x \<Rightarrow> upd x fd | None \<Rightarrow> fd, r') \<and> at r' bs"
proof (cases v)
  case None
  then show ?thesis
    using sdk_read_u8_at [of r 0 bs] assms by (simp add: read_flagged_def sdk_read_bool_def)
next
  case (Some x)
  then have "at (advance 1 r) (put_uint LE 8 x @ bs)" and rd: "sdk_read_u8 r = Inr (1, advance 1 r)"
    using sdk_read_u8_at [of r 1 "put_uint LE 8 x @ bs"] assms by simp_all
  with sdk_read_le_u64_at [OF this(1)] Some show ?thesis
    by (simp add: read_flagged_def sdk_read_bool_def)
qed

lemma parse_market_session_i16: "parse_market_session (market_session_i16 s) = Inr s"
  by (cases s) (simp_all add: parse_market_session_def)

lemma parse_property_at:
  assumes "at r (write_property LE v @ bs)" and "value_ok v"
  shows "\<exists>i r1 r2. sdk_read_u8 r = Inr (i, r1) \<and> parse_feed_property i r1 fd = Inr (apply_value v fd, r2) \<and> at r2 bs"
proof -
  obtain i enc where w: "write_property LE v = i # enc" by (cases v) auto
  from sdk_read_u8_at [of r i "enc @ bs"] assms(1)
  have rd: "sdk_read_u8 r = Inr (i, advance 1 r)" and a: "at (advance 1 r) (enc @ bs)" by (simp_all add: w)
  have "\<exists>r2. parse_feed_property i (advance 1 r) fd = Inr (apply_value v fd, r2) \<and> at r2 bs"
  proof (cases v)
    case (V_FundingRate x)
    with w a show ?thesis using read_flagged_at [of "advance 1 r" x bs "\<lambda>v fd. fd\<lparr>sf_funding_rate := Some v\<rparr>" fd]
      by (auto simp: parse_feed_property_def write_option_rate_def split: option.splits)
  next
    case (V_FundingTimestamp x)
    with w a show ?thesis using read_flagged_at [of "advance 1 r" x bs "\<lambda>v fd. fd\<lparr>sf_funding_timestamp := Some v\<rparr>" fd]
      by (auto simp: parse_feed_property_def write_option_timestamp_def split: option.splits)
  next
    case (V_FundingRateInterval x)
    with w a show ?thesis using read_flagged_at [of "advance 1 r" x bs "\<lambda>v fd. fd\<lparr>sf_funding_rate_interval := Some v\<rparr>" fd]
      by (auto simp: parse_feed_property_def write_option_duration_def split: option.splits)
  next
    case (V_FeedUpdateTimestamp x)
    with w a show ?thesis using read_flagged_at [of "advance 1 r" x bs "\<lambda>v fd. fd\<lparr>sf_feed_update_timestamp := Some v\<rparr>" fd]
      by (auto simp: parse_feed_property_def write_option_timestamp_def split: option.splits)
  qed (use w a assms(2) read_optional_i64_at [of "advance 1 r" _ bs] sdk_read_le_u16_at [of "advance 1 r" _ bs] in
    \<open>auto simp: parse_feed_property_def parse_market_session_i16\<close>)
  with rd show ?thesis by blast
qed

lemma parse_properties_at:
  "at r (concat (map (write_property LE) vs) @ bs) \<Longrightarrow> list_all value_ok vs \<Longrightarrow>
     \<exists>r'. parse_properties (length vs) r fd = Inr (fold apply_value vs fd, r') \<and> at r' bs"
proof (induction vs arbitrary: r fd)
  case (Cons v vs)
  obtain i r1 r2 where p: "sdk_read_u8 r = Inr (i, r1)" "parse_feed_property i r1 fd = Inr (apply_value v fd, r2)"
    "at r2 (concat (map (write_property LE) vs) @ bs)"
    using parse_property_at [of r v "concat (map (write_property LE) vs) @ bs" fd] Cons.prems by auto
  with Cons.IH [OF p(3), of "apply_value v fd"] Cons.prems(2) show ?case by auto
qed auto

lemma parse_feed_at:
  assumes "at r (feed_bytes LE f @ bs)" and "feed_ok f"
  shows "\<exists>r'. parse_feed r = Inr (sdk_feed_of f, r') \<and> at r' bs"
proof -
  let ?ps = "concat (map (write_property LE) (fd_properties f)) @ bs"
  have a: "at r (put_uint LE 4 (fd_feed_id f) @ word_of_nat (length (fd_properties f)) # ?ps)"
    using assms(1) by (simp add: feed_bytes_def)
  note u32 = sdk_read_le_u32_at [OF a]
  note u8 = sdk_read_u8_at [OF conjunct2 [OF u32]]
  obtain r' where r': "parse_properties (length (fd_properties f)) (advance 1 (advance 4 r)) (empty_feed (fd_feed_id f)) =
      Inr (fold apply_value (fd_properties f) (empty_feed (fd_feed_id f)), r')" "at r' bs"
    using parse_properties_at [OF conjunct2 [OF u8]] assms(2) by (auto simp: feed_ok_def)
  have "unat (word_of_nat (length (fd_properties f)) :: u8) = length (fd_properties f)"
    using assms(2) by (simp add: feed_ok_def unat_of_nat take_bit_nat_eq_self)
  with u32 u8 r' show ?thesis by (simp add: parse_feed_def sdk_feed_of_def)
qed

lemma parse_feeds_at:
  "at r (concat (map (feed_bytes LE) fs) @ bs) \<Longrightarrow> list_all feed_ok fs \<Longrightarrow>
     \<exists>r'. parse_feeds (length fs) r = Inr (map sdk_feed_of fs, r') \<and> at r' bs"
proof (induction fs arbitrary: r)
  case (Cons f fs)
  obtain r1 where p: "parse_feed r = Inr (sdk_feed_of f, r1)" "at r1 (concat (map (feed_bytes LE) fs) @ bs)"
    using parse_feed_at [of r f "concat (map (feed_bytes LE) fs) @ bs"] Cons.prems by auto
  with Cons.IH [OF p(2)] Cons.prems(2) show ?case by auto
qed auto

lemma parse_payload_bytes:
  assumes ok: "payload_ok d" and ch: "parse_channel (pd_channel_id d) = Inr c"
  shows "parse_payload (payload_bytes LE d @ rest) =
     (if rest = []
      then Inr \<lparr>up_timestamp = pd_timestamp_us d, up_channel = c, up_feeds = map sdk_feed_of (pd_feeds d)\<rparr>
      else Inl PE_InvalidPayloadLength)"
proof -
  let ?n = "word_of_nat (length (pd_feeds d)) :: u8" and ?fs = "concat (map (feed_bytes LE) (pd_feeds d))"
  let ?r = "reader_new (payload_bytes LE d @ rest)"
  have a: "at ?r (put_uint LE 4 PAYLOAD_MAGIC @ put_uint LE 8 (pd_timestamp_us d) @ pd_channel_id d # ?n # ?fs @ rest)"
    using at_new [of "payload_bytes LE d @ rest"]
    by (simp add: payload_bytes_def PAYLOAD_MAGIC_def PAYLOAD_FORMAT_MAGIC_def)
  note u32 = sdk_read_le_u32_at [OF a]
  note u64 = sdk_read_le_u64_at [OF conjunct2 [OF u32]]
  note c8 = sdk_read_u8_at [OF conjunct2 [OF u64]]
  note n8 = sdk_read_u8_at [OF conjunct2 [OF c8]]
  have n: "unat ?n = length (pd_feeds d)"
    using ok by (simp add: payload_ok_def unat_of_nat take_bit_nat_eq_self)
  obtain r' where "parse_feeds (length (pd_feeds d)) (advance 1 (advance 1 (advance 8 (advance 4 ?r)))) =
      Inr (map sdk_feed_of (pd_feeds d), r')" "at r' rest"
    using parse_feeds_at [OF conjunct2 [OF n8]] ok by (auto simp: payload_ok_def)
  with u32 u64 c8 n8 ch n at_remaining [of r' rest] show ?thesis
    by (simp add: parse_payload_def Let_def)
qed

text \<open>The feed a consumer sees, next to the JSON form of the same feed.\<close>

definition feed_of_parsed :: "parsed_feed_payload \<Rightarrow> feed" where
  "feed_of_parsed f =
     \<lparr>sf_feed_id = pf_price_feed_id f, sf_price = pf_price f, sf_best_bid_price = pf_best_bid_price f,
      sf_best_ask_price = pf_best_ask_price f, sf_publisher_count = pf_publisher_count f, sf_exponent = pf_exponent f,
      sf_confidence = pf_confidence f, sf_funding_rate = pf_funding_rate f,
      sf_funding_timestamp = pf_funding_timestamp f, sf_funding_rate_interval = pf_funding_rate_interval f,
      sf_market_session = pf_market_session f, sf_ema_price = pf_ema_price f,
      sf_ema_confidence = pf_ema_confidence f, sf_feed_update_timestamp = pf_feed_update_timestamp f\<rparr>"

text \<open>A flagged value that is absent leaves the field alone, so the fields that may be set already
  hold nothing or the value of the same data.\<close>

definition flagged_from :: "aggregated_price_feed_data \<Rightarrow> parsed_feed_payload \<Rightarrow> bool" where
  "flagged_from data out \<longleftrightarrow>
     pf_funding_rate out \<in> {None, ag_funding_rate data} \<and>
     pf_funding_timestamp out \<in> {None, ag_funding_timestamp data} \<and>
     pf_funding_rate_interval out \<in> {None, ag_funding_rate_interval data} \<and>
     pf_feed_update_timestamp out \<in> {None, ag_feed_update_timestamp data}"

lemma apply_property_value:
  "flagged_from data out \<Longrightarrow>
     apply_value (property_value data p) (feed_of_parsed out) = feed_of_parsed (set_property data p out) \<and>
     flagged_from data (set_property data p out)"
  by (cases p) (auto simp: flagged_from_def feed_of_parsed_def split: option.splits)

lemma fold_property_values:
  "flagged_from data out \<Longrightarrow>
     fold apply_value (map (property_value data) ps) (feed_of_parsed out) = feed_of_parsed (fold (set_property data) ps out)"
proof (induction ps arbitrary: out)
  case (Cons p ps)
  with apply_property_value [OF Cons.prems, of p] show ?case by simp
qed simp

lemma sdk_feed_of_new:
  "sdk_feed_of \<lparr>fd_feed_id = i, fd_properties = map (property_value data) ps\<rparr> = feed_of_parsed (parsed_feed_new i data ps)"
proof -
  have "empty_feed i = feed_of_parsed (parsed_feed_none i)" "flagged_from data (parsed_feed_none i)"
    by (simp_all add: empty_feed_def feed_of_parsed_def parsed_feed_none_def flagged_from_def)
  then show ?thesis
    using fold_property_values [of data "parsed_feed_none i" ps] by (simp add: sdk_feed_of_def parsed_feed_new_def)
qed

lemma serialized_payload_ok:
  "payload_serialize bo d = Inr bs \<Longrightarrow> list_all (\<lambda>f. list_all value_ok (fd_properties f)) (pd_feeds d) \<Longrightarrow>
     payload_ok d \<and> bs = payload_bytes bo d"
  by (simp add: payload_serialize_Inr payload_ok_def feed_ok_def list_all_iff)

section \<open>Properties\<close>

text \<open>C20: The on-chain parser understands what the protocol writes.  For a payload built from aggregated
  data whose prices are non-zero, written in little-endian order with one of the four channels, the
  parser of the Stellar SDK returns the timestamp, the channel and, for every feed in order, exactly the
  fields that the JSON form of the feed has; with any bytes after the payload it reports an invalid
  length instead.\<close>

theorem sdk_parses_protocol_payload:
  assumes "payload_serialize LE (payload_new ts ch feeds ps) = Inr bs"
    and "list_all (\<lambda>(i, data). list_all (\<lambda>p. value_ok (property_value data p)) ps) feeds"
    and "parse_channel ch = Inr c"
  shows "parse_payload (bs @ rest) =
     (if rest = []
      then Inr \<lparr>up_timestamp = ts, up_channel = c, up_feeds = map (\<lambda>(i, data). feed_of_parsed (parsed_feed_new i data ps)) feeds\<rparr>
      else Inl PE_InvalidPayloadLength)"
proof -
  let ?d = "payload_new ts ch feeds ps"
  have "payload_ok ?d \<and> bs = payload_bytes LE ?d"
    using assms(1,2) by (intro serialized_payload_ok) (assumption, fastforce simp: payload_new_def list_all_iff)
  moreover have "map sdk_feed_of (pd_feeds ?d) = map (\<lambda>(i, data). feed_of_parsed (parsed_feed_new i data ps)) feeds"
    by (auto simp: payload_new_def sdk_feed_of_new)
  moreover have "pd_timestamp_us ?d = ts" "pd_channel_id ?d = ch" by (simp_all add: payload_new_def)
  ultimately show ?thesis using parse_payload_bytes [of ?d c rest] assms(3) by simp
qed

theorem sdk_parses_protocol_payload_witness:
  "let data = (aggregated_empty (- 8) PreMarket 77)\<lparr>ag_price := Some 5, ag_funding_rate := Some 0\<rparr>
   in \<exists>bs. payload_serialize LE (payload_new 9 3 [(1, data)] [P_Price, P_FundingRate, P_FundingTimestamp, P_Exponent]) = Inr bs \<and>
        map_ok up_channel (parse_payload (bs @ [])) = Inr FixedRate200ms"
proof -
  let ?data = "(aggregated_empty (- 8) PreMarket 77)\<lparr>ag_price := Some 5, ag_funding_rate := Some 0\<rparr>"
  let ?ps = "[P_Price, P_FundingRate, P_FundingTimestamp, P_Exponent]"
  have "payload_serialize LE (payload_new 9 3 [(1, ?data)] ?ps) =
      Inr (payload_bytes LE (payload_new 9 3 [(1, ?data)] ?ps))"
    by (simp add: payload_serialize_Inr payload_new_def)
  moreover have "list_all (\<lambda>(i :: u32, data). list_all (\<lambda>p. value_ok (property_value data p)) ?ps) [(1, ?data)]"
    by (simp add: price_ok_def)
  moreover have "parse_channel 3 = Inr FixedRate200ms" by (simp add: parse_channel_def)
  ultimately show ?thesis
    using sdk_parses_protocol_payload [of 9 3 "[(1, ?data)]" ?ps _ FixedRate200ms "[]"] by simp
qed

end
