(* ===== verification/Lazer_Time.thy ===== *)
theory Lazer_Time
  imports Lazer_Prelude
begin

text \<open>
  Timestamps and durations (\<^verbatim>\<open>sdk/rust/protocol/src/time.rs\<close>).  \<^verbatim>\<open>TimestampUs\<close> and \<^verbatim>\<open>DurationUs\<close>
  are newtypes around \<^verbatim>\<open>u64\<close> microseconds and are that word here; the Protobuf well-known types
  are records of a signed number of seconds and a signed number of nanoseconds.
\<close>

section \<open>Timestamps\<close>

definition ctx :: "string \<Rightarrow> 'a option \<Rightarrow> anyhow + 'a" where
  "ctx msg v = ok_or (Message msg) v"

text \<open>\<^verbatim>\<open>try_into\<close> between integer types.\<close>

definition try_into_u64 :: "int \<Rightarrow> anyhow + u64" where
  "try_into_u64 x = ok_or TryFromIntError (to_unsigned x)"

definition ts_as_nanos :: "u64 \<Rightarrow> u128" where
  "ts_as_nanos t = ucast t * 1000"

definition ts_as_nanos_i128 :: "u64 \<Rightarrow> i128" where
  "ts_as_nanos_i128 t = ucast t * 1000"

definition ts_from_nanos :: "u128 \<Rightarrow> anyhow + u64" where
  "ts_from_nanos nanos =
     and_then (ctx ''nanos.checked_div(1000) failed'' (checked_div_u nanos 1000)) (\<lambda>micros.
     try_into_u64 (uint micros))"

definition ts_from_nanos_i128 :: "i128 \<Rightarrow> anyhow + u64" where
  "ts_from_nanos_i128 nanos =
     and_then (ctx ''nanos.checked_div(1000) failed'' (checked_div_s nanos 1000)) (\<lambda>micros.
     try_into_u64 (sint micros))"

definition ts_as_millis :: "u64 \<Rightarrow> u64" where "ts_as_millis t = t div 1000"

definition ts_from_millis :: "u64 \<Rightarrow> anyhow + u64" where
  "ts_from_millis millis = ctx ''millis.checked_mul(1000) failed'' (checked_mul_u millis 1000)"

definition ts_as_secs :: "u64 \<Rightarrow> u64" where "ts_as_secs t = t div 1000000"

definition ts_from_secs :: "u64 \<Rightarrow> anyhow + u64" where
  "ts_from_secs secs = ctx ''secs.checked_mul(1_000_000) failed'' (checked_mul_u secs 1000000)"

definition duration_since :: "u64 \<Rightarrow> u64 \<Rightarrow> anyhow + u64" where
  "duration_since t other = ctx ''timestamp.checked_sub(duration) failed'' (checked_sub_u t other)"

definition saturating_duration_since :: "u64 \<Rightarrow> u64 \<Rightarrow> u64" where
  "saturating_duration_since t other = saturating_sub_u t other"

definition ts_saturating_add :: "u64 \<Rightarrow> u64 \<Rightarrow> u64" where
  "ts_saturating_add t duration = saturating_add_u t duration"

definition ts_saturating_sub :: "u64 \<Rightarrow> u64 \<Rightarrow> u64" where
  "ts_saturating_sub t duration = saturating_sub_u t duration"

definition is_multiple_of :: "u64 \<Rightarrow> u64 \<Rightarrow> bool" where
  "is_multiple_of t duration = (case checked_rem_u t duration of Some rem \<Rightarrow> rem = 0 | None \<Rightarrow> True)"

definition checked_next_multiple_of :: "u64 \<Rightarrow> u64 \<Rightarrow> u64 option" where
  "checked_next_multiple_of lhs rhs =
     (case checked_rem_u lhs rhs of
        None \<Rightarrow> None
      | Some r \<Rightarrow> if r = 0 then Some lhs else checked_add_u lhs (rhs - r))"

definition next_multiple_of :: "u64 \<Rightarrow> u64 \<Rightarrow> anyhow + u64" where
  "next_multiple_of t duration = ctx ''checked_next_multiple_of failed'' (checked_next_multiple_of t duration)"

definition previous_multiple_of :: "u64 \<Rightarrow> u64 \<Rightarrow> anyhow + u64" where
  "previous_multiple_of t duration =
     and_then (ctx ''checked_div failed'' (checked_div_u t duration)) (\<lambda>q.
     ctx ''checked_mul failed'' (checked_mul_u q duration))"

definition ts_checked_add :: "u64 \<Rightarrow> u64 \<Rightarrow> anyhow + u64" where
  "ts_checked_add t duration = ctx ''checked_add failed'' (checked_add_u t duration)"

definition ts_checked_sub :: "u64 \<Rightarrow> u64 \<Rightarrow> anyhow + u64" where
  "ts_checked_sub t duration = ctx ''checked_sub failed'' (checked_sub_u t duration)"

section \<open>Protobuf\<close>

record proto_time =
  pb_seconds :: i64
  pb_nanos :: i32

text \<open>\<^verbatim>\<open>TryFrom<&ProtobufTimestamp> for TimestampUs\<close>; the conversion of durations has the same body.\<close>

definition ts_try_from_proto :: "proto_time \<Rightarrow> anyhow + u64" where
  "ts_try_from_proto p =
     and_then (ctx ''checked_mul failed'' (checked_mul_s (pb_seconds p) 1000000)) (\<lambda>s.
     and_then (try_into_u64 (sint s)) (\<lambda>seconds_in_micros.
     and_then (ctx ''checked_div failed'' (checked_div_s (pb_nanos p) 1000)) (\<lambda>n.
     and_then (try_into_u64 (sint n)) (\<lambda>nanos_in_micros.
     ctx ''checked_add failed'' (checked_add_u seconds_in_micros nanos_in_micros)))))"

definition dur_try_from_proto :: "proto_time \<Rightarrow> anyhow + u64" where
  "dur_try_from_proto p =
     and_then (ctx ''checked_mul failed'' (checked_mul_s (pb_seconds p) 1000000)) (\<lambda>s.
     and_then (try_into_u64 (sint s)) (\<lambda>seconds_in_micros.
     and_then (ctx ''nanos.checked_div(1_000) failed'' (checked_div_s (pb_nanos p) 1000)) (\<lambda>n.
     and_then (try_into_u64 (sint n)) (\<lambda>nanos_in_micros.
     ctx ''checked_add failed'' (checked_add_u seconds_in_micros nanos_in_micros)))))"

text \<open>The casts \<^verbatim>\<open>as i64\<close> and \<^verbatim>\<open>as i32\<close> of the other direction keep the low bits.\<close>

definition ts_to_proto :: "u64 \<Rightarrow> proto_time" where
  "ts_to_proto t = \<lparr>pb_seconds = t div 1000000, pb_nanos = ucast (t mod 1000000) * 1000\<rparr>"

definition dur_to_proto :: "u64 \<Rightarrow> proto_time" where
  "dur_to_proto t = \<lparr>pb_seconds = t div 1000000, pb_nanos = ucast (t mod 1000000) * 1000\<rparr>"

section \<open>Durations\<close>

definition dur_as_nanos :: "u64 \<Rightarrow> u128" where "dur_as_nanos d = ucast d * 1000"

definition dur_from_nanos :: "u128 \<Rightarrow> anyhow + u64" where
  "dur_from_nanos nanos =
     and_then (ctx ''checked_div failed'' (checked_div_u nanos 1000)) (\<lambda>micros. try_into_u64 (uint micros))"

definition dur_as_millis :: "u64 \<Rightarrow> u64" where "dur_as_millis d = d div 1000"

definition dur_from_millis_u32 :: "u32 \<Rightarrow> u64" where "dur_from_millis_u32 millis = ucast millis * 1000"

definition dur_from_millis :: "u64 \<Rightarrow> anyhow + u64" where
  "dur_from_millis millis = ctx ''millis.checked_mul(1000) failed'' (checked_mul_u millis 1000)"

definition dur_as_secs :: "u64 \<Rightarrow> u64" where "dur_as_secs d = d div 1000000"

definition dur_from_secs_u32 :: "u32 \<Rightarrow> u64" where "dur_from_secs_u32 secs = ucast secs * 1000000"

definition dur_from_secs :: "u64 \<Rightarrow> anyhow + u64" where
  "dur_from_secs secs = ctx ''secs.checked_mul(1_000_000) failed'' (checked_mul_u secs 1000000)"

definition dur_from_days_u16 :: "u16 \<Rightarrow> u64" where
  "dur_from_days_u16 days = ucast days * 24 * 3600 * 1000000"

definition dur_is_multiple_of :: "u64 \<Rightarrow> u64 \<Rightarrow> bool" where
  "dur_is_multiple_of d other = (case checked_rem_u d other of Some rem \<Rightarrow> rem = 0 | None \<Rightarrow> True)"

definition dur_checked_add :: "u64 \<Rightarrow> u64 \<Rightarrow> anyhow + u64" where
  "dur_checked_add d other = ctx ''checked_add failed'' (checked_add_u d other)"

definition dur_checked_sub :: "u64 \<Rightarrow> u64 \<Rightarrow> anyhow + u64" where
  "dur_checked_sub d other = ctx ''checked_sub failed'' (checked_sub_u d other)"

definition dur_checked_mul :: "u64 \<Rightarrow> u64 \<Rightarrow> anyhow + u64" where
  "dur_checked_mul d n = ctx ''checked_mul failed'' (checked_mul_u d n)"

definition dur_checked_div :: "u64 \<Rightarrow> u64 \<Rightarrow> anyhow + u64" where
  "dur_checked_div d n = ctx ''checked_div failed'' (checked_div_u d n)"

section \<open>Fixed rates\<close>

text \<open>A \<^verbatim>\<open>FixedRate\<close> is one of three durations.\<close>

definition RATE_50_MS :: u64 where "RATE_50_MS = dur_from_millis_u32 50"
definition RATE_200_MS :: u64 where "RATE_200_MS = dur_from_millis_u32 200"
definition RATE_1000_MS :: u64 where "RATE_1000_MS = dur_from_millis_u32 1000"

definition ALL_RATES :: "u64 list" where "ALL_RATES = [RATE_50_MS, RATE_200_MS, RATE_1000_MS]"

definition fixed_rate_from_millis :: "u32 \<Rightarrow> u64 option" where
  "fixed_rate_from_millis millis = find (\<lambda>v. dur_as_millis v = ucast millis) ALL_RATES"

definition fixed_rate_try_from :: "u64 \<Rightarrow> anyhow + u64" where
  "fixed_rate_try_from value = ctx ''unsupported rate'' (find (\<lambda>v. v = value) ALL_RATES)"

definition fixed_rate_try_from_proto :: "proto_time \<Rightarrow> anyhow + u64" where
  "fixed_rate_try_from_proto p = and_then (dur_try_from_proto p) fixed_rate_try_from"

section \<open>Facts\<close>

lemma ctx_Inr_iff [simp]: "ctx msg v = Inr x \<longleftrightarrow> v = Some x"
  by (simp add: ctx_def)

lemma try_into_u64_Inr_iff [simp]: "try_into_u64 x = Inr w \<longleftrightarrow> uint w = x"
  by (simp add: try_into_u64_def to_unsigned_Some_iff)

lemma proto_micros:
  assumes "sint (pb_seconds p) = s" and "sint (pb_nanos p) = n" and "0 \<le> s" and "0 \<le> n"
    and "s * 1000000 < 2 ^ 63"
  shows "ts_try_from_proto p = Inr (word_of_int (s * 1000000 + n div 1000))"
    and "dur_try_from_proto p = Inr (word_of_int (s * 1000000 + n div 1000))"
proof -
  have nn: "0 \<le> n div 1000" using assms(4) by (simp add: pos_imp_zdiv_nonneg_iff)
  have n1: "n div 1000 < 2 ^ 31"
    using sint_range_upper [of "pb_nanos p"] assms(2) by simp
  obtain a :: i64 where a: "to_signed (s * 1000000) = Some a" "sint a = s * 1000000"
    by (rule to_signed_in_range [of "s * 1000000", where 'a = 64]) (use assms nn in simp_all)
  obtain b :: i32 where b: "to_signed (n sdiv 1000) = Some b" "sint b = n div 1000"
    by (rule to_signed_in_range [of "n sdiv 1000", where 'a = 32])
      (use assms(4) n1 nn in \<open>simp_all add: sdiv_nonneg\<close>)
  obtain c :: u64 where c: "to_unsigned (s * 1000000) = Some c" "uint c = s * 1000000"
    by (rule to_unsigned_in_range [of "s * 1000000", where 'a = 64]) (use assms nn in simp_all)
  obtain d :: u64 where d: "to_unsigned (n div 1000) = Some d" "uint d = n div 1000"
    by (rule to_unsigned_in_range [of "n div 1000", where 'a = 64]) (use n1 nn in simp_all)
  have e: "checked_add_u c d = Some (word_of_int (s * 1000000 + n div 1000))"
    using assms nn n1 by (simp add: checked_add_u_def to_unsigned_def c(2) d(2))
  show "ts_try_from_proto p = Inr (word_of_int (s * 1000000 + n div 1000))"
    "dur_try_from_proto p = Inr (word_of_int (s * 1000000 + n div 1000))"
    using a b c d e
    by (simp_all add: ts_try_from_proto_def dur_try_from_proto_def checked_mul_s_def checked_div_s_def assms(1,2) ctx_def
        try_into_u64_def)
qed

lemma proto_too_large:
  assumes "2 ^ 63 \<le> sint (pb_seconds p) * 1000000"
  shows "ts_try_from_proto p = Inl (Message ''checked_mul failed'')"
    and "dur_try_from_proto p = Inl (Message ''checked_mul failed'')"
  using assms by (simp_all add: ts_try_from_proto_def dur_try_from_proto_def checked_mul_s_def to_signed_def ctx_def)

lemma to_proto_fields:
  "sint (pb_seconds (ts_to_proto t)) = uint t div 1000000"
  "sint (pb_nanos (ts_to_proto t)) = uint t mod 1000000 * 1000"
proof -
  have b: "uint t < 2 ^ 64" using uint_range_upper [of t] by simp
  have "uint (t div 1000000) = uint t div 1000000" by (simp add: uint_div)
  moreover have "uint t div 1000000 < 2 ^ 63" using b by simp
  ultimately show "sint (pb_seconds (ts_to_proto t)) = uint t div 1000000"
    using sint_small [of "t div 1000000"] by (simp add: ts_to_proto_def)
  have m: "0 \<le> uint t mod 1000000" "uint t mod 1000000 < 1000000" by simp_all
  have "uint (t mod 1000000) = uint t mod 1000000" by (simp add: uint_mod)
  with m have "uint (ucast (t mod 1000000) :: i32) = uint t mod 1000000"
    by (simp add: unsigned_ucast_eq take_bit_int_eq_self)
  then have v: "uint (ucast (t mod 1000000) :: i32) * uint (1000 :: i32) = uint t mod 1000000 * 1000" by simp
  with m(2) have "uint (ucast (t mod 1000000) :: i32) * uint (1000 :: i32) < 2 ^ LENGTH(32)" by simp
  then have "uint (ucast (t mod 1000000) * 1000 :: i32) = uint (ucast (t mod 1000000) :: i32) * uint (1000 :: i32)"
    by (simp only: uint_mult_lem)
  with v have u: "uint (ucast (t mod 1000000) * 1000 :: i32) = uint t mod 1000000 * 1000" by (simp only:)
  show "sint (pb_nanos (ts_to_proto t)) = uint t mod 1000000 * 1000"
    using sint_small [of "ucast (t mod 1000000) * 1000 :: i32"] u m by (simp add: ts_to_proto_def)
qed

lemma multiple_iff: "is_multiple_of t d \<longleftrightarrow> d = 0 \<or> uint d dvd uint t"
  by (auto simp: is_multiple_of_def checked_rem_u_def word_uint_eq_iff uint_mod dvd_eq_mod_eq_0)

lemma previous_multiple_of_Inr:
  assumes "d \<noteq> 0"
  shows "\<exists>m. previous_multiple_of t d = Inr m \<and> uint m = uint t div uint d * uint d"
proof -
  have "uint (t div d) * uint d \<le> uint t"
    by (simp add: uint_div) (metis mod_div_decomp le_add_same_cancel1 uint_mod uint_ge_0)
  then have "uint (t div d) * uint d < 2 ^ LENGTH(64)"
    using uint_range_upper [of t] by linarith
  then have "checked_mul_u (t div d) d = Some (t div d * d)" by (rule checked_mul_u_ok)
  moreover from this have "uint (t div d * d) = uint (t div d) * uint d"
    unfolding checked_mul_u_Some_iff by blast
  ultimately show ?thesis
    using assms by (simp add: previous_multiple_of_def checked_div_u_def ctx_def uint_div)
qed

lemma next_multiple_of_Inr_iff:
  "next_multiple_of t d = Inr m \<longleftrightarrow>
     d \<noteq> 0 \<and> uint m = (if uint d dvd uint t then uint t else (uint t div uint d + 1) * uint d)"
proof (cases "d = 0")
  case True
  then show ?thesis by (simp add: next_multiple_of_def checked_next_multiple_of_def checked_rem_u_def)
next
  case False
  have dpos: "0 < uint d" using False uint_ge_0 [of d] by (simp add: word_uint_eq_iff less_le)
  show ?thesis
  proof (cases "uint d dvd uint t")
    case True
    then have "t mod d = 0" by (simp add: word_uint_eq_iff uint_mod dvd_eq_mod_eq_0)
    with False True show ?thesis
      by (auto simp: next_multiple_of_def checked_next_multiple_of_def checked_rem_u_def word_uint_eq_iff)
  next
    case ndvd: False
    then have "t mod d \<noteq> 0" by (simp add: word_uint_eq_iff uint_mod dvd_eq_mod_eq_0)
    moreover have sub: "uint (d - t mod d) = uint d - uint t mod uint d"
      using dpos by (subst uint_sub_lem [THEN iffD1]) (simp_all add: uint_mod order_less_imp_le)
    moreover have "uint t + (uint d - uint t mod uint d) = (uint t div uint d + 1) * uint d"
      by (simp add: algebra_simps)
    ultimately show ?thesis
      using False ndvd
      by (auto simp: next_multiple_of_def checked_next_multiple_of_def checked_rem_u_def checked_add_u_def
          to_unsigned_Some_iff)
  qed
qed

text \<open>The multiples of a positive integer around another.\<close>

lemma multiple_below: "0 < D \<Longrightarrow> D dvd K \<Longrightarrow> K \<le> T \<Longrightarrow> K \<le> T div D * D" for D K T :: int
  using zdiv_mono1 [of K T D] mult_right_mono [of "K div D" "T div D" D] by simp

lemma multiple_above:
  fixes D K T :: int
  assumes "0 < D" "D dvd K" "T \<le> K"
  shows "(if D dvd T then T else (T div D + 1) * D) \<le> K"
proof (cases "D dvd T")
  case False
  have "T div D \<le> K div D" using assms by (intro zdiv_mono1)
  moreover have "T div D \<noteq> K div D"
  proof
    assume eq: "T div D = K div D"
    have "K = K div D * D" using assms(2) by simp
    also have "\<dots> \<le> T" unfolding eq [symmetric] using assms(1) by (simp add: minus_mod_eq_div_mult [symmetric])
    finally show False using assms False by simp
  qed
  ultimately have "(T div D + 1) * D \<le> K div D * D" using assms(1) by (intro mult_right_mono) simp_all
  with False assms(2) show ?thesis by simp
qed (use assms in simp)

lemma next_value_bounds:
  fixes D T :: int
  assumes "0 < D"
  shows "D dvd (if D dvd T then T else (T div D + 1) * D) \<and> T \<le> (if D dvd T then T else (T div D + 1) * D)"
proof -
  have "T = T div D * D + T mod D" by simp
  moreover have "T mod D < D" using assms by simp
  ultimately have "T \<le> T div D * D + D" by linarith
  then show ?thesis by (simp add: algebra_simps)
qed

lemma ts_proto_back:
  "ts_try_from_proto (ts_to_proto t) =
     (if uint t div 1000000 * 1000000 < 2 ^ 63 then Inr t else Inl (Message ''checked_mul failed''))"
  and dur_proto_back:
  "dur_try_from_proto (dur_to_proto t) =
     (if uint t div 1000000 * 1000000 < 2 ^ 63 then Inr t else Inl (Message ''checked_mul failed''))"
proof -
  have dur: "dur_to_proto t = ts_to_proto t" by (simp add: dur_to_proto_def ts_to_proto_def)
  have "0 \<le> uint t div 1000000" by (simp add: pos_imp_zdiv_nonneg_iff)
  moreover have "uint t div 1000000 * 1000000 + uint t mod 1000000 * 1000 div 1000 = uint t" by simp
  ultimately show
    "ts_try_from_proto (ts_to_proto t) =
       (if uint t div 1000000 * 1000000 < 2 ^ 63 then Inr t else Inl (Message ''checked_mul failed''))"
    "dur_try_from_proto (dur_to_proto t) =
       (if uint t div 1000000 * 1000000 < 2 ^ 63 then Inr t else Inl (Message ''checked_mul failed''))"
    using proto_micros [OF to_proto_fields, of t] proto_too_large [of "ts_to_proto t"] unfolding dur
    by (auto simp: to_proto_fields(1))
qed

section \<open>Properties\<close>

text \<open>Conversion to Protobuf and back.  A timestamp or duration is recovered exactly from its
  Protobuf form if its whole seconds are below \<open>2 ^ 63\<close> microseconds, and the conversion back fails
  otherwise.\<close>

lemma proto_round_trip:
  "ts_try_from_proto (ts_to_proto t) =
     (if uint t div 1000000 * 1000000 < 2 ^ 63 then Inr t else Inl (Message ''checked_mul failed'')) \<and>
   dur_try_from_proto (dur_to_proto t) =
     (if uint t div 1000000 * 1000000 < 2 ^ 63 then Inr t else Inl (Message ''checked_mul failed''))"
  using ts_proto_back [of t] dur_proto_back [of t] by blast

text \<open>Aligning timestamps.  For a non-zero duration the previous multiple is always found and is the
  largest multiple not after the timestamp; the next multiple, when it fits the type, is the
  smallest multiple not before it, and is not found exactly when that value does not fit.\<close>

theorem multiples_of_duration:
  assumes "d \<noteq> 0"
  shows "(\<exists>m. previous_multiple_of t d = Inr m \<and> is_multiple_of m d \<and> m \<le> t \<and>
      (\<forall>k. is_multiple_of k d \<and> k \<le> t \<longrightarrow> k \<le> m)) \<and>
    (case next_multiple_of t d of
       Inr m \<Rightarrow> is_multiple_of m d \<and> t \<le> m \<and> (\<forall>k. is_multiple_of k d \<and> t \<le> k \<longrightarrow> m \<le> k)
     | Inl e \<Rightarrow> \<not> (\<exists>k. is_multiple_of k d \<and> t \<le> k))"
proof -
  have D: "0 < uint d" using assms uint_ge_0 [of d] by (simp add: word_uint_eq_iff less_le)
  have mult: "is_multiple_of k d \<longleftrightarrow> uint d dvd uint k" for k using assms by (simp add: multiple_iff)
  obtain m where m: "previous_multiple_of t d = Inr m" "uint m = uint t div uint d * uint d"
    using previous_multiple_of_Inr [OF assms] by blast
  have "uint m \<le> uint t" unfolding m(2) using D by (simp add: minus_mod_eq_div_mult [symmetric])
  then have prev: "\<exists>m. previous_multiple_of t d = Inr m \<and> is_multiple_of m d \<and> m \<le> t \<and>
      (\<forall>k. is_multiple_of k d \<and> k \<le> t \<longrightarrow> k \<le> m)"
    using m multiple_below [OF D] by (auto simp: mult word_le_def)
  let ?n = "if uint d dvd uint t then uint t else (uint t div uint d + 1) * uint d"
  note n = next_value_bounds [OF D, of "uint t"] and above = multiple_above [OF D]
  have "case next_multiple_of t d of
       Inr m \<Rightarrow> is_multiple_of m d \<and> t \<le> m \<and> (\<forall>k. is_multiple_of k d \<and> t \<le> k \<longrightarrow> m \<le> k)
     | Inl e \<Rightarrow> \<not> (\<exists>k. is_multiple_of k d \<and> t \<le> k)"
  proof (cases "next_multiple_of t d")
    case (Inr m)
    then have "uint m = ?n" by (simp add: next_multiple_of_Inr_iff)
    then show ?thesis using Inr n above by (auto simp: mult word_le_def)
  next
    case (Inl e)
    have "False" if k: "is_multiple_of k d" "t \<le> k" for k
    proof -
      have "?n \<le> uint k" using k above [of "uint k" "uint t"] by (simp add: mult word_le_def)
      then have "0 \<le> ?n" "?n < 2 ^ LENGTH(64)"
        using n uint_ge_0 [of t] uint_range_upper [of k] by linarith+
      then obtain w :: u64 where "uint w = ?n" by (rule to_unsigned_in_range)
      then have "next_multiple_of t d = Inr w" using assms by (simp add: next_multiple_of_Inr_iff)
      with Inl show False by simp
    qed
    with Inl show ?thesis by auto
  qed
  with prev show ?thesis by blast
qed

theorem multiples_of_duration_witness:
  "(\<exists>m. previous_multiple_of 1234 200 = Inr m) \<and> next_multiple_of 1234 200 = Inr 1400"
  using multiples_of_duration [of 200 1234] by (simp add: next_multiple_of_Inr_iff) blast

end
