(* ===== verification/Lazer_Price.thy ===== *)
theory Lazer_Price
  imports Lazer_Prelude
begin

text \<open>
  Prices and rates of the protocol crate (\<^verbatim>\<open>src/sdk/rust/protocol/src/price.rs\<close>, \<^verbatim>\<open>rate.rs\<close>, and
  \<^verbatim>\<open>ExponentFactor\<close> of \<^verbatim>\<open>lib.rs\<close>).  A price is a non-zero \<^verbatim>\<open>i64\<close> mantissa, a rate an \<^verbatim>\<open>i64\<close>
  mantissa, both scaled by a decimal exponent kept elsewhere.  The decimal type of the
  \<^verbatim>\<open>rust_decimal\<close> crate and the conversion from floating point are a record of operations, a
  parameter of the functions that use them.
\<close>

section \<open>Scaling by a power of ten\<close>

datatype exponent_factor = Factor_Mul i64 | Factor_Div i64

definition checked_pow_s :: "'a::len word \<Rightarrow> u32 \<Rightarrow> 'a word option" where
  "checked_pow_s a n = to_signed (sint a ^ unat n)"

definition exponent_factor_get :: "i16 \<Rightarrow> exponent_factor option" where
  "exponent_factor_get e =
     (if 0 \<le> sint e
      then Option.bind (to_unsigned (sint e)) (\<lambda>n. map_option Factor_Div (checked_pow_s 10 n))
      else Option.bind (checked_neg_s e) (\<lambda>m.
           Option.bind (to_unsigned (sint m)) (\<lambda>n. map_option Factor_Mul (checked_pow_s 10 n))))"

section \<open>Prices\<close>

datatype 'e price_error = DecimalParse 'e | TooPrecise | ZeroPriceUnsupported | PriceOverflow

text \<open>\<^verbatim>\<open>NonZeroI64::new\<close>.\<close>

definition nonzero_new :: "i64 \<Rightarrow> i64 option" where
  "nonzero_new m = (if m = 0 then None else Some m)"

text \<open>The operations of \<^verbatim>\<open>rust_decimal::Decimal\<close> that the crate calls.\<close>

record ('d, 'e, 'f) decimal_api =
  dec_parse :: "string \<Rightarrow> 'e + 'd"
  dec_from_f64 :: "'f \<Rightarrow> 'd option"
  dec_from_i64 :: "i64 \<Rightarrow> 'd option"
  dec_checked_mul :: "'d \<Rightarrow> 'd \<Rightarrow> 'd option"
  dec_checked_div :: "'d \<Rightarrow> 'd \<Rightarrow> 'd option"
  dec_is_integer :: "'d \<Rightarrow> bool"
  dec_try_into_i64 :: "'d \<Rightarrow> i64 option"

definition price_from_integer :: "i64 \<Rightarrow> i16 \<Rightarrow> 'e price_error + i64" where
  "price_from_integer value exponent =
     and_then (ok_or PriceOverflow (exponent_factor_get exponent)) (\<lambda>factor.
     and_then (case factor of
         Factor_Mul coef \<Rightarrow> ok_or PriceOverflow (checked_mul_s value coef)
       | Factor_Div coef \<Rightarrow> ok_or PriceOverflow (checked_div_s value coef)) (\<lambda>mantissa.
     ok_or ZeroPriceUnsupported (nonzero_new mantissa)))"

text \<open>The scaling step shared by the text of \<^verbatim>\<open>parse_str\<close> and \<^verbatim>\<open>from_f64\<close>.\<close>

definition scale_decimal :: "('d, 'e, 'f) decimal_api \<Rightarrow> 'r \<Rightarrow> 'd \<Rightarrow> i16 \<Rightarrow> 'r + 'd" where
  "scale_decimal api overflow value exponent =
     and_then (ok_or overflow (exponent_factor_get exponent)) (\<lambda>factor.
       case factor of
         Factor_Mul coef \<Rightarrow> and_then (ok_or overflow (dec_from_i64 api coef)) (\<lambda>c.
           ok_or overflow (dec_checked_mul api value c))
       | Factor_Div coef \<Rightarrow> and_then (ok_or overflow (dec_from_i64 api coef)) (\<lambda>c.
           ok_or overflow (dec_checked_div api value c)))"

definition price_parse_str :: "('d, 'e, 'f) decimal_api \<Rightarrow> string \<Rightarrow> i16 \<Rightarrow> 'e price_error + i64" where
  "price_parse_str api s exponent =
     and_then (map_err DecimalParse (dec_parse api s)) (\<lambda>value.
     and_then (scale_decimal api PriceOverflow value exponent) (\<lambda>mantissa.
     if \<not> dec_is_integer api mantissa then Inl TooPrecise
     else and_then (ok_or PriceOverflow (dec_try_into_i64 api mantissa)) (\<lambda>m.
          ok_or PriceOverflow (nonzero_new m))))"

definition price_from_mantissa :: "i64 \<Rightarrow> 'e price_error + i64" where
  "price_from_mantissa mantissa =
     (case nonzero_new mantissa of Some m \<Rightarrow> Inr m | None \<Rightarrow> Inl ZeroPriceUnsupported)"

definition price_from_f64 :: "('d, 'e, 'f) decimal_api \<Rightarrow> 'f \<Rightarrow> i16 \<Rightarrow> 'e price_error + i64" where
  "price_from_f64 api x exponent =
     and_then (ok_or PriceOverflow (dec_from_f64 api x)) (\<lambda>value.
     and_then (scale_decimal api PriceOverflow value exponent) (\<lambda>mantissa.
     and_then (ok_or PriceOverflow (dec_try_into_i64 api mantissa)) (\<lambda>m.
     ok_or ZeroPriceUnsupported (nonzero_new m))))"

definition add_with_same_exponent :: "i64 \<Rightarrow> i64 \<Rightarrow> 'e price_error + i64" where
  "add_with_same_exponent self other =
     and_then (ok_or PriceOverflow (checked_add_s self other)) (\<lambda>mantissa.
     map_err (\<lambda>_. ZeroPriceUnsupported) (price_from_mantissa mantissa :: 'e price_error + i64))"

definition sub_with_same_exponent :: "i64 \<Rightarrow> i64 \<Rightarrow> 'e price_error + i64" where
  "sub_with_same_exponent self other =
     and_then (ok_or PriceOverflow (checked_sub_s self other)) (\<lambda>mantissa.
     map_err (\<lambda>_. ZeroPriceUnsupported) (price_from_mantissa mantissa :: 'e price_error + i64))"

definition mul_integer :: "i64 \<Rightarrow> i64 \<Rightarrow> 'e price_error + i64" where
  "mul_integer self factor =
     and_then (ok_or PriceOverflow (checked_mul_s self factor)) (\<lambda>mantissa.
     map_err (\<lambda>_. ZeroPriceUnsupported) (price_from_mantissa mantissa :: 'e price_error + i64))"

definition div_integer :: "i64 \<Rightarrow> i64 \<Rightarrow> 'e price_error + i64" where
  "div_integer self factor =
     and_then (ok_or PriceOverflow (checked_div_s self factor)) (\<lambda>mantissa.
     map_err (\<lambda>_. ZeroPriceUnsupported) (price_from_mantissa mantissa :: 'e price_error + i64))"

text \<open>\<^verbatim>\<open>i64::abs_diff\<close> and \<^verbatim>\<open>i64::unsigned_abs\<close>.\<close>

definition abs_diff :: "i64 \<Rightarrow> i64 \<Rightarrow> u64" where
  "abs_diff a b = word_of_int \<bar>sint a - sint b\<bar>"

definition unsigned_abs :: "i64 \<Rightarrow> u64" where
  "unsigned_abs a = word_of_int \<bar>sint a\<bar>"

definition has_moved_with_same_exponent :: "i64 \<Rightarrow> i64 \<Rightarrow> u64 \<Rightarrow> bool" where
  "has_moved_with_same_exponent self other threshold_ppm =
     (let diff = abs_diff self other;
          self_abs = unsigned_abs self
      in case (checked_mul_u diff 1000000, checked_mul_u self_abs threshold_ppm) of
           (Some l, Some r) \<Rightarrow> l > r
         | (None, Some _) \<Rightarrow> True
         | (Some _, None) \<Rightarrow> False
         | (None, None) \<Rightarrow>
             (ucast diff :: u128) * 1000000 > (ucast self_abs :: u128) * (ucast threshold_ppm :: u128))"

definition mul_decimal :: "i64 \<Rightarrow> i64 \<Rightarrow> i16 \<Rightarrow> 'e price_error + i64" where
  "mul_decimal self mantissa exponent =
     (let left_mantissa = scast self :: i128; right_mantissa = scast mantissa :: i128 in
      and_then (ok_or PriceOverflow (checked_mul_s left_mantissa right_mantissa)) (\<lambda>multiplied.
      and_then (ok_or PriceOverflow (exponent_factor_get exponent)) (\<lambda>factor.
      and_then (case factor of
          Factor_Mul coef \<Rightarrow> ok_or PriceOverflow (checked_div_s multiplied (scast coef :: i128))
        | Factor_Div coef \<Rightarrow> ok_or PriceOverflow (checked_mul_s multiplied (scast coef :: i128))) (\<lambda>result.
      and_then (ok_or PriceOverflow (to_signed (sint result))) (\<lambda>m.
      map_err (\<lambda>_. ZeroPriceUnsupported) (price_from_mantissa m :: 'e price_error + i64))))))"

section \<open>Rates\<close>

datatype 'e rate_error = Rate_DecimalParse 'e | Rate_TooPrecise | Rate_Overflow

definition rate_from_integer :: "i64 \<Rightarrow> i16 \<Rightarrow> 'e rate_error + i64" where
  "rate_from_integer value exponent =
     and_then (ok_or Rate_Overflow (exponent_factor_get exponent)) (\<lambda>factor.
       case factor of
         Factor_Mul coef \<Rightarrow> ok_or Rate_Overflow (checked_mul_s value coef)
       | Factor_Div coef \<Rightarrow> ok_or Rate_Overflow (checked_div_s value coef))"

definition rate_parse_str :: "('d, 'e, 'f) decimal_api \<Rightarrow> string \<Rightarrow> i16 \<Rightarrow> 'e rate_error + i64" where
  "rate_parse_str api s exponent =
     and_then (map_err Rate_DecimalParse (dec_parse api s)) (\<lambda>value.
     and_then (scale_decimal api Rate_Overflow value exponent) (\<lambda>mantissa.
     if \<not> dec_is_integer api mantissa then Inl Rate_TooPrecise
     else ok_or Rate_Overflow (dec_try_into_i64 api mantissa)))"

definition rate_from_f64 :: "('d, 'e, 'f) decimal_api \<Rightarrow> 'f \<Rightarrow> i16 \<Rightarrow> 'e rate_error + i64" where
  "rate_from_f64 api x exponent =
     and_then (ok_or Rate_Overflow (dec_from_f64 api x)) (\<lambda>value.
     and_then (scale_decimal api Rate_Overflow value exponent) (\<lambda>mantissa.
     ok_or Rate_Overflow (dec_try_into_i64 api mantissa)))"

section \<open>Reference: shifting by decimal places\<close>

text \<open>\<open>shift10 x k\<close> is \<open>x\<close> times the \<open>k\<close>-th power of ten, truncated toward zero.\<close>

definition shift10 :: "int \<Rightarrow> int \<Rightarrow> int" where
  "shift10 x k = (if 0 \<le> k then x * 10 ^ nat k else x sdiv 10 ^ nat (- k))"

lemma pow10_bound: "(10 :: int) ^ n < 2 ^ 63 \<longleftrightarrow> n \<le> 18"
proof
  assume "(10 :: int) ^ n < 2 ^ 63"
  show "n \<le> 18"
  proof (rule ccontr)
    assume "\<not> n \<le> 18"
    then have "(10 :: int) ^ 19 \<le> 10 ^ n" by (intro power_increasing) simp_all
    with \<open>10 ^ n < 2 ^ 63\<close> show False by simp
  qed
next
  assume "n \<le> 18"
  then have "(10 :: int) ^ n \<le> 10 ^ 18" by (intro power_increasing) simp_all
  then show "(10 :: int) ^ n < 2 ^ 63" by simp
qed

definition pow10 :: "nat \<Rightarrow> i64" where
  "pow10 n = word_of_int (10 ^ n)"

lemma checked_pow_10: "checked_pow_s (10 :: i64) n = (if unat n \<le> 18 then Some (pow10 (unat n)) else None)"
proof -
  have "- (2 ^ 63) \<le> (10 :: int) ^ unat n" by (rule order_trans [of _ 0]) simp_all
  then show ?thesis
    using pow10_bound [of "unat n"] by (simp add: checked_pow_s_def to_signed_def pow10_def)
qed

lemma sint_pow10: "n \<le> 18 \<Longrightarrow> sint (pow10 n) = 10 ^ n"
proof -
  assume "n \<le> 18"
  then have "(10 :: int) ^ n < 2 ^ 63" by (simp only: pow10_bound)
  moreover have "- (2 ^ 63) \<le> (10 :: int) ^ n" by (rule order_trans [of _ 0]) simp_all
  ultimately have "to_signed (10 ^ n) = Some (pow10 n)" by (simp add: to_signed_def pow10_def)
  then show ?thesis by (simp only: to_signed_Some_iff)
qed

lemma pow10_nonzero: "n \<le> 18 \<Longrightarrow> pow10 n \<noteq> 0"
  using sint_pow10 [of n] by (metis signed_0 power_not_zero zero_neq_numeral)

lemma exponent_factor_get_eq:
  "exponent_factor_get e =
     (if \<bar>sint e\<bar> \<le> 18
      then Some (if 0 \<le> sint e then Factor_Div (pow10 (nat (sint e))) else Factor_Mul (pow10 (nat (- sint e))))
      else None)"
proof (cases "0 \<le> sint e")
  case True
  moreover from True have "sint e < 2 ^ LENGTH(32)" using sint_range_upper [of e] by simp
  ultimately obtain n :: u32 where n: "to_unsigned (sint e) = Some n" "uint n = sint e"
    by (rule to_unsigned_in_range)
  then have "unat n = nat (sint e)" by (simp only: unat_eq_nat_uint)
  with True n show ?thesis by (simp add: exponent_factor_get_def checked_pow_10 nat_le_iff)
next
  case False
  show ?thesis
  proof (cases "checked_neg_s e")
    case None
    with False have "18 < - sint e" by (auto simp: checked_neg_s_def to_signed_None_iff)
    with False None show ?thesis by (simp add: exponent_factor_get_def)
  next
    case (Some m)
    then have m: "sint m = - sint e" by (simp add: checked_neg_s_def to_signed_Some_iff)
    with False have "0 \<le> sint m" "sint m < 2 ^ LENGTH(32)" using sint_range_upper [of m] by simp_all
    then obtain n :: u32 where n: "to_unsigned (sint m) = Some n" "uint n = sint m"
      by (rule to_unsigned_in_range)
    then have "unat n = nat (- sint e)" using m by (simp only: unat_eq_nat_uint)
    with False n Some show ?thesis by (simp add: exponent_factor_get_def checked_pow_10 nat_le_iff)
  qed
qed

lemma checked_mul_pow10:
  "n \<le> 18 \<Longrightarrow> checked_mul_s v (pow10 n) = Some m \<longleftrightarrow> sint m = sint v * 10 ^ n"
  by (simp add: checked_mul_s_def sint_pow10 to_signed_Some_iff)

lemma checked_div_pow10:
  "n \<le> 18 \<Longrightarrow> checked_div_s v (pow10 n) = Some m \<longleftrightarrow> sint m = sint v sdiv 10 ^ n"
  by (simp add: checked_div_s_def sint_pow10 to_signed_Some_iff pow10_nonzero)

lemma shift10_neg: "shift10 x (- k) = (if 0 \<le> k then x sdiv 10 ^ nat k else x * 10 ^ nat (- k))"
  by (auto simp: shift10_def)

lemma price_from_mantissa_Inr [simp]: "price_from_mantissa m = Inr r \<longleftrightarrow> m \<noteq> 0 \<and> r = m"
  by (auto simp: price_from_mantissa_def nonzero_new_def)

lemma nonzero_new_Some [simp]: "nonzero_new m = Some r \<longleftrightarrow> m \<noteq> 0 \<and> r = m"
  by (auto simp: nonzero_new_def)

lemma rate_from_integer_Inr_iff:
  "(rate_from_integer v e :: 'e rate_error + i64) = Inr m \<longleftrightarrow>
     \<bar>sint e\<bar> \<le> 18 \<and> sint m = shift10 (sint v) (- sint e)"
  by (auto simp: rate_from_integer_def exponent_factor_get_eq shift10_neg checked_mul_pow10 checked_div_pow10)

lemma price_from_integer_Inr_iff:
  "(price_from_integer v e :: 'e price_error + i64) = Inr m \<longleftrightarrow>
     \<bar>sint e\<bar> \<le> 18 \<and> m \<noteq> 0 \<and> sint m = shift10 (sint v) (- sint e)"
  by (auto simp: price_from_integer_def exponent_factor_get_eq shift10_neg checked_mul_pow10 checked_div_pow10)

text \<open>Widening to \<^verbatim>\<open>i128\<close> keeps the value, and the product of two \<^verbatim>\<open>i64\<close> always fits.\<close>

lemma sint_widen [simp]: "sint (scast a :: i128) = sint a" for a :: i64
proof -
  have "- (2 ^ 127) \<le> sint a" "sint a < 2 ^ 127"
    using sint_range [of a] sint_range_upper [of a] by simp_all
  then have "to_signed (sint a) = Some (scast a :: i128)" by (simp add: to_signed_def)
  then show ?thesis by (simp only: to_signed_Some_iff)
qed

lemma wide_value_iff: "(\<exists>r :: i128. sint r = x \<and> sint m = sint r) \<longleftrightarrow> sint m = x" for m :: i64
  by (metis sint_widen)

lemma product_fits_i128:
  fixes a b :: i64
  obtains r :: i128 where "checked_mul_s (scast a :: i128) (scast b) = Some r" and "sint r = sint a * sint b"
proof -
  have "\<bar>sint a\<bar> \<le> 2 ^ 63" "\<bar>sint b\<bar> \<le> 2 ^ 63"
    using sint_range [of a] sint_range_upper [of a] sint_range [of b] sint_range_upper [of b] by simp_all
  then have "\<bar>sint a\<bar> * \<bar>sint b\<bar> \<le> 2 ^ 63 * 2 ^ 63" by (intro mult_mono) simp_all
  then have "\<bar>sint a * sint b\<bar> \<le> 2 ^ 126" by (simp add: abs_mult)
  then have "- (2 ^ (LENGTH(128) - 1)) \<le> sint a * sint b" "sint a * sint b < 2 ^ (LENGTH(128) - 1)" by simp_all
  then obtain r :: i128 where "to_signed (sint a * sint b) = Some r" "sint r = sint a * sint b"
    by (rule to_signed_in_range)
  then show ?thesis by (intro that [of r]) (simp_all add: checked_mul_s_def)
qed

lemma scast_pow10_nonzero: "n \<le> 18 \<Longrightarrow> (scast (pow10 n) :: i128) \<noteq> 0"
  using sint_pow10 [of n] by (metis sint_widen signed_0 power_not_zero zero_neq_numeral)

lemma mul_decimal_Inr_iff:
  "(mul_decimal p f e :: 'e price_error + i64) = Inr m \<longleftrightarrow>
     \<bar>sint e\<bar> \<le> 18 \<and> m \<noteq> 0 \<and> sint m = shift10 (sint p * sint f) (sint e)"
proof -
  obtain r :: i128 where r: "checked_mul_s (scast p :: i128) (scast f) = Some r" "sint r = sint p * sint f"
    by (rule product_fits_i128)
  have mul: "checked_mul_s r (scast (pow10 n)) = Some q \<longleftrightarrow> sint q = sint r * 10 ^ n"
    and div: "checked_div_s r (scast (pow10 n)) = Some q \<longleftrightarrow> sint q = sint r sdiv 10 ^ n"
    if "n \<le> 18" for n and q :: i128
    using that by (simp_all add: checked_mul_s_def checked_div_s_def sint_pow10 to_signed_Some_iff scast_pow10_nonzero)
  show ?thesis
  proof (cases "\<bar>sint e\<bar> \<le> 18")
    case False
    then show ?thesis using r by (simp add: mul_decimal_def exponent_factor_get_eq)
  next
    case True
    then show ?thesis
      using r wide_value_iff [of "shift10 (sint p * sint f) (sint e)" m]
      by (auto simp: mul_decimal_def exponent_factor_get_eq Let_def mul div to_signed_Some_iff shift10_def)
  qed
qed

section \<open>Relative movement\<close>

lemma uint_abs_diff: "uint (abs_diff a b) = \<bar>sint a - sint b\<bar>"
  and uint_unsigned_abs: "uint (unsigned_abs a) = \<bar>sint a\<bar>"
proof -
  have b: "- (2 ^ 63) \<le> sint a" "sint a < 2 ^ 63" "- (2 ^ 63) \<le> sint b" "sint b < 2 ^ 63"
    using sint_range [of a] sint_range_upper [of a] sint_range [of b] sint_range_upper [of b] by simp_all
  then have "to_unsigned \<bar>sint a - sint b\<bar> = Some (abs_diff a b)" "to_unsigned \<bar>sint a\<bar> = Some (unsigned_abs a)"
    by (simp_all add: to_unsigned_def abs_diff_def unsigned_abs_def)
  then show "uint (abs_diff a b) = \<bar>sint a - sint b\<bar>" "uint (unsigned_abs a) = \<bar>sint a\<bar>"
    by (simp_all only: to_unsigned_Some_iff)
qed

lemma uint_wide_mult: "uint ((ucast a :: u128) * ucast b) = uint a * uint b" for a b :: u64
proof -
  have u: "uint (ucast x :: u128) = uint x" for x :: u64
    using uint_range_upper [of x] by (simp add: unsigned_ucast_eq take_bit_int_eq_self)
  have "uint a * uint b < 2 ^ 64 * 2 ^ 64"
    using uint_range_upper [of a] uint_range_upper [of b] by (intro mult_strict_mono) simp_all
  then have "uint (ucast a :: u128) * uint (ucast b :: u128) < 2 ^ LENGTH(128)" by (simp add: u)
  then have "uint ((ucast a :: u128) * ucast b) = uint (ucast a :: u128) * uint (ucast b :: u128)"
    by (simp only: uint_mult_lem)
  then show ?thesis by (simp only: u)
qed

lemma checked_mul_u_cases:
  "checked_mul_u a b = (if uint a * uint b < 2 ^ LENGTH('a) then Some (a * b) else None)" for a b :: "'a::len word"
  using uint_ge_0 [of a] uint_ge_0 [of b] by (simp add: checked_mul_u_def to_unsigned_def)

lemma has_moved_iff:
  "has_moved_with_same_exponent p q t \<longleftrightarrow> \<bar>sint p\<bar> * uint t < \<bar>sint p - sint q\<bar> * 1000000"
proof -
  define d s where "d = abs_diff p q" and "s = unsigned_abs p"
  have u: "uint d = \<bar>sint p - sint q\<bar>" "uint s = \<bar>sint p\<bar>"
    by (simp_all add: d_def s_def uint_abs_diff uint_unsigned_abs)
  have w: "uint ((ucast d :: u128) * 1000000) = uint d * 1000000"
    using uint_wide_mult [of d 1000000] by simp
  have "checked_mul_u d 1000000 = Some l \<Longrightarrow> uint l = uint d * uint (1000000 :: u64)" for l
    unfolding checked_mul_u_Some_iff by blast
  then have lhs: "checked_mul_u d 1000000 = Some l \<Longrightarrow> uint l = uint d * 1000000" for l by simp
  have lhs': "checked_mul_u d 1000000 = None \<Longrightarrow> 2 ^ 64 \<le> uint d * 1000000"
    by (simp add: checked_mul_u_cases split: if_splits)
  have rhs: "checked_mul_u s t = Some r \<Longrightarrow> uint r = uint s * uint t" for r
    unfolding checked_mul_u_Some_iff by blast
  have rhs': "checked_mul_u s t = None \<Longrightarrow> 2 ^ 64 \<le> uint s * uint t"
    by (simp add: checked_mul_u_cases split: if_splits)
  have "has_moved_with_same_exponent p q t \<longleftrightarrow> uint s * uint t < uint d * 1000000"
  proof (cases "checked_mul_u d 1000000"; cases "checked_mul_u s t")
    assume "checked_mul_u d 1000000 = None" "checked_mul_u s t = None"
    then show ?thesis
      by (simp add: has_moved_with_same_exponent_def d_def [symmetric] s_def [symmetric] word_less_def w uint_wide_mult)
  next
    fix r assume a: "checked_mul_u d 1000000 = None" "checked_mul_u s t = Some r"
    have "uint s * uint t < 2 ^ 64" using rhs [OF a(2)] uint_range_upper [of r] by simp
    with lhs' [OF a(1)] a show ?thesis
      by (simp add: has_moved_with_same_exponent_def d_def [symmetric] s_def [symmetric])
  next
    fix l assume a: "checked_mul_u d 1000000 = Some l" "checked_mul_u s t = None"
    have "uint d * 1000000 < 2 ^ 64" using lhs [OF a(1)] uint_range_upper [of l] by simp
    with rhs' [OF a(2)] a show ?thesis
      by (simp add: has_moved_with_same_exponent_def d_def [symmetric] s_def [symmetric])
  next
    fix l r assume a: "checked_mul_u d 1000000 = Some l" "checked_mul_u s t = Some r"
    with lhs [OF a(1)] rhs [OF a(2)] show ?thesis
      by (simp add: has_moved_with_same_exponent_def d_def [symmetric] s_def [symmetric] word_less_def)
  qed
  then show ?thesis by (simp only: u)
qed

section \<open>Properties\<close>

text \<open>C18: Decimal scaling is exact.  Building a price or a rate from an integer, and multiplying a
  price by a decimal, succeed exactly when the exponent is between -18 and 18 and the true result,
  truncated toward zero, fits in 64 bits and (for a price) is not zero; the result then has exactly
  that value.  In particular, with an exponent in this range the intermediate 128-bit product never
  causes a failure on a representable result.\<close>

theorem price_scaling_exact:
  "((price_from_integer v e :: 'e price_error + i64) = Inr m \<longleftrightarrow>
      \<bar>sint e\<bar> \<le> 18 \<and> m \<noteq> 0 \<and> sint m = shift10 (sint v) (- sint e)) \<and>
   ((rate_from_integer v e :: 'e rate_error + i64) = Inr m \<longleftrightarrow>
      \<bar>sint e\<bar> \<le> 18 \<and> sint m = shift10 (sint v) (- sint e)) \<and>
   ((mul_decimal p f e :: 'e price_error + i64) = Inr m \<longleftrightarrow>
      \<bar>sint e\<bar> \<le> 18 \<and> m \<noteq> 0 \<and> sint m = shift10 (sint p * sint f) (sint e))"
  by (simp only: price_from_integer_Inr_iff rate_from_integer_Inr_iff mul_decimal_Inr_iff simp_thms)

text \<open>C19: The movement test is exact.  The test that a price moved by more than a threshold, whose
  code falls back from 64-bit to 128-bit arithmetic when a product overflows, computes the comparison
  of the unbounded integers for all prices and all thresholds.\<close>

theorem price_movement_exact:
  "has_moved_with_same_exponent p q threshold_ppm \<longleftrightarrow>
     \<bar>sint p\<bar> * uint threshold_ppm < \<bar>sint p - sint q\<bar> * 1000000"
  by (rule has_moved_iff)

text \<open>No operation produces a zero price.  Whatever the decimal library does, every function of
  the crate that builds or combines prices returns a non-zero mantissa or an error.\<close>

theorem price_never_zero:
  "(price_from_integer v e :: 'e price_error + i64) \<noteq> Inr 0 \<and>
   price_parse_str (api :: ('d, 'e, 'f) decimal_api) s e \<noteq> Inr 0 \<and>
   price_from_f64 api x e \<noteq> Inr 0 \<and>
   (price_from_mantissa v :: 'e price_error + i64) \<noteq> Inr 0 \<and>
   (add_with_same_exponent p q :: 'e price_error + i64) \<noteq> Inr 0 \<and>
   (sub_with_same_exponent p q :: 'e price_error + i64) \<noteq> Inr 0 \<and>
   (mul_integer p v :: 'e price_error + i64) \<noteq> Inr 0 \<and>
   (div_integer p v :: 'e price_error + i64) \<noteq> Inr 0 \<and>
   (mul_decimal p v e :: 'e price_error + i64) \<noteq> Inr 0"
proof -
  have "r = Inr m \<Longrightarrow> m \<noteq> 0" if "map_err g (price_from_mantissa k :: 'e price_error + i64) = r"
    for r :: "'g + i64" and g k m
    using that by (auto simp: price_from_mantissa_def nonzero_new_def split: if_splits)
  then show ?thesis
    by (auto simp: price_from_integer_Inr_iff price_parse_str_def price_from_f64_def add_with_same_exponent_def
        sub_with_same_exponent_def mul_integer_def div_integer_def mul_decimal_Inr_iff split: if_splits)
qed

end
