(* ===== verification/Packed_Price.thy ===== *)
theory Packed_Price
  imports Lazer_Prelude
begin

text \<open>
  The 32-bit price of the packed EVM payload
  (\<^verbatim>\<open>src/sdk/rust/protocol/src/payload/packed_evm/lane/packed_price.rs\<close>): a decimal floating point
  format with five bits for a negated exponent and 27 bits for a mantissa, the all-ones pattern
  meaning that no price is available.  The packing loop drops decimal digits until the price fits and
  remembers in a small state machine how the dropped digits have to round.  The lemmas identify that
  state machine with rounding half to even, the loop with a search for the first exponent that fits,
  and the byte encoding with a bijection.
\<close>

section \<open>Bounded integers\<close>

definition U5_MAX_VALUE :: u8 where "U5_MAX_VALUE = push_bit 5 1 - 1"

definition u5_new :: "u16 \<Rightarrow> u8 option" where
  "u5_new v = Option.bind (to_unsigned (uint v)) (\<lambda>b. if b \<le> U5_MAX_VALUE then Some b else None)"

definition U27_MAX_VALUE :: u32 where "U27_MAX_VALUE = push_bit 27 1 - 1"

definition u27_new :: "i64 \<Rightarrow> u32 option" where
  "u27_new v = Option.bind (to_unsigned (sint v)) (\<lambda>w. if w \<le> U27_MAX_VALUE then Some w else None)"

section \<open>Rounding\<close>

datatype rounding_method = Up | Down | NearestEven | Unnecessary

definition update_from_remainder :: "rounding_method \<Rightarrow> i64 \<Rightarrow> rounding_method option" where
  "update_from_remainder self remainder =
     (if 1 \<le> sint remainder \<and> sint remainder \<le> 4 then Some Down
      else if 6 \<le> sint remainder \<and> sint remainder \<le> 9 then Some Up
      else if self = Unnecessary \<and> remainder = 0 then Some Unnecessary
      else if self = Unnecessary \<and> remainder = 5 then Some NearestEven
      else if remainder = 5 then Some Up
      else if remainder = 0 then Some Down
      else None)"

definition saturating_add_s :: "i64 \<Rightarrow> i64 \<Rightarrow> i64" where
  "saturating_add_s a b =
     (case checked_add_s a b of Some c \<Rightarrow> c
      | None \<Rightarrow> word_of_int (if sint b < 0 then - (2 ^ 63) else 2 ^ 63 - 1))"

text \<open>The operators \<^verbatim>\<open>/\<close> and \<^verbatim>\<open>%\<close> on \<^verbatim>\<open>i64\<close> for a positive divisor.\<close>

definition div_s :: "i64 \<Rightarrow> i64 \<Rightarrow> i64" where "div_s a b = word_of_int (sint a sdiv sint b)"
definition rem_s :: "i64 \<Rightarrow> i64 \<Rightarrow> i64" where "rem_s a b = word_of_int (sint a smod sint b)"

fun round_to :: "rounding_method \<Rightarrow> i64 \<Rightarrow> i64" where
  "round_to Up target = saturating_add_s target 1"
| "round_to Down target = target"
| "round_to NearestEven target = (if rem_s target 2 = 0 then target else saturating_add_s target 1)"
| "round_to Unnecessary target = target"

section \<open>Packed prices\<close>

record u64x27 =
  x_neg_exponent :: u8
  x_mantissa :: u32

definition u64x27_new :: "u8 \<Rightarrow> u32 \<Rightarrow> u64x27 option" where
  "u64x27_new neg_exponent mantissa =
     (if neg_exponent \<noteq> U5_MAX_VALUE \<or> mantissa \<noteq> U27_MAX_VALUE
      then Some \<lparr>x_neg_exponent = neg_exponent, x_mantissa = mantissa\<rparr> else None)"

definition u64x27_to_bytes :: "u64x27 \<Rightarrow> bytes" where
  "u64x27_to_bytes p = put_uint BE 4 (push_bit 27 (ucast (x_neg_exponent p)) OR x_mantissa p :: u32)"

datatype packed_price = U64x27 u64x27 | Price_Unavailable

fun packed_price_to_bytes :: "packed_price \<Rightarrow> bytes" where
  "packed_price_to_bytes (U64x27 p) = u64x27_to_bytes p"
| "packed_price_to_bytes Price_Unavailable = [255, 255, 255, 255]"

definition packed_price_from_bytes :: "u8 \<Rightarrow> u8 \<Rightarrow> u8 \<Rightarrow> u8 \<Rightarrow> packed_price" where
  "packed_price_from_bytes b1 b2 b3 b4 =
     (let neg_exponent = drop_bit 3 b1;
          mantissa = push_bit 24 (ucast (b1 AND 7)) OR push_bit 16 (ucast b2) OR push_bit 8 (ucast b3) OR ucast b4
      in case u64x27_new neg_exponent mantissa of
           Some p \<Rightarrow> U64x27 p
         | None \<Rightarrow> Price_Unavailable)"

text \<open>\<^verbatim>\<open>i16::unsigned_abs\<close>.\<close>

definition unsigned_abs_i16 :: "i16 \<Rightarrow> u16" where
  "unsigned_abs_i16 e = word_of_int \<bar>sint e\<bar>"

lemma abs_sdiv_10: "\<bar>x sdiv 10\<bar> = \<bar>x\<bar> div 10" for x :: int
  by (cases "x = 0") (simp_all add: signed_divide_int_def abs_mult abs_sgn_eq)

lemma div_s_10: "sint (div_s m 10) = sint m sdiv 10"
proof -
  have "\<bar>sint m\<bar> \<le> 2 ^ 63" using sint_range [of m] sint_range_upper [of m] by simp
  then have "\<bar>sint m sdiv 10\<bar> < 2 ^ 63" unfolding abs_sdiv_10 by simp
  then have "- (2 ^ 63) \<le> sint m sdiv 10" "sint m sdiv 10 < 2 ^ 63" by linarith+
  then have "to_signed (sint m sdiv 10) = Some (div_s m 10)" by (simp add: to_signed_def div_s_def)
  then show ?thesis by (simp only: to_signed_Some_iff)
qed

lemma div_s_10_decreases:
  assumes "div_s m 10 \<noteq> 0"
  shows "nat \<bar>sint (div_s m 10)\<bar> < nat \<bar>sint m\<bar>"
proof -
  have "sint m \<noteq> 0"
  proof
    assume "sint m = 0"
    then have "sint (div_s m 10) = 0" by (simp add: div_s_10 signed_divide_int_def)
    with assms show False by (metis signed_0 to_signed_Some_iff option.inject)
  qed
  then have "\<bar>sint m\<bar> div 10 < \<bar>sint m\<bar>" by (simp add: int_div_less_self)
  then show ?thesis by (simp add: div_s_10 abs_sdiv_10)
qed

function pack_price_loop :: "i64 \<Rightarrow> i16 \<Rightarrow> rounding_method \<Rightarrow> packed_price option" where
  "pack_price_loop mantissa exponent rounding =
     (case Option.bind (u5_new (unsigned_abs_i16 exponent)) (\<lambda>neg_exponent.
           Option.bind (u27_new (round_to rounding mantissa)) (\<lambda>m. u64x27_new neg_exponent m)) of
        Some price \<Rightarrow> Some (U64x27 price)
      | None \<Rightarrow>
          let remainder = rem_s mantissa 10; mantissa = div_s mantissa 10 in
          Option.bind (checked_add_s exponent 1) (\<lambda>exponent.
          Option.bind (update_from_remainder rounding remainder) (\<lambda>rounding.
          if mantissa = 0 \<or> 0 < sint exponent then None
          else pack_price_loop mantissa exponent rounding)))"
  by pat_completeness auto

termination
  by (relation "measure (\<lambda>(m, e, r). nat \<bar>sint m\<bar>)") (simp_all only: wf_measure in_measure split_conv div_s_10_decreases de_Morgan_disj not_False_eq_True)

declare pack_price_loop.simps [simp del]

definition pack_price_inner :: "i64 \<Rightarrow> i16 \<Rightarrow> packed_price option" where
  "pack_price_inner mantissa exponent =
     (if sint mantissa \<le> 0 \<or> 0 < sint exponent then None
      else pack_price_loop mantissa exponent Unnecessary)"

definition pack_price :: "i64 \<Rightarrow> i16 \<Rightarrow> packed_price" where
  "pack_price mantissa exponent =
     (case pack_price_inner mantissa exponent of Some p \<Rightarrow> p | None \<Rightarrow> Price_Unavailable)"

section \<open>Reference: the first exponent that fits, rounded half to even\<close>

definition round_half_even :: "int \<Rightarrow> int \<Rightarrow> int" where
  "round_half_even x d =
     (if 2 * (x mod d) < d \<or> (2 * (x mod d) = d \<and> even (x div d)) then x div d else x div d + 1)"

text \<open>What the state machine knows of a remainder \<open>r\<close> below \<open>D\<close>, and so after dropping \<open>k\<close> digits of \<open>x\<close>.\<close>

definition classify :: "int \<Rightarrow> int \<Rightarrow> rounding_method" where
  "classify r D =
     (if r = 0 then Unnecessary else if 2 * r < D then Down else if 2 * r = D then NearestEven else Up)"

definition method_of :: "int \<Rightarrow> nat \<Rightarrow> rounding_method" where
  "method_of x k = classify (x mod 10 ^ k) (10 ^ k)"

lemma classify_step:
  assumes w: "sint w = d" and d: "0 \<le> d" "d \<le> 9" and r: "0 \<le> r" "r < P"
  shows "update_from_remainder (classify r P) w = Some (classify (d * P + r) (10 * P))"
proof -
  have w0: "w = 0 \<longleftrightarrow> d = 0" and w5: "w = 5 \<longleftrightarrow> d = 5"
    using w by (auto intro: signed_word_eqI)
  consider "d = 0" | "1 \<le> d" "d \<le> 4" | "d = 5" | "6 \<le> d" using d by linarith
  then show ?thesis
  proof cases
    case 2
    define D where "D = d * P"
    have "P \<le> D" "D \<le> 4 * P" using 2 r by (simp_all add: D_def)
    with 2 r w show ?thesis by (simp add: update_from_remainder_def classify_def D_def [symmetric])
  next
    case 4
    define D where "D = d * P"
    have "6 * P \<le> D" using 4 r by (simp add: D_def)
    with 4 r w d show ?thesis by (simp add: update_from_remainder_def classify_def D_def [symmetric])
  qed (use r w w0 w5 in \<open>auto simp: update_from_remainder_def classify_def\<close>)
qed

lemma method_of_Suc:
  assumes "sint w = x div 10 ^ k mod 10"
  shows "update_from_remainder (method_of x k) w = Some (method_of x (Suc k))"
proof -
  have "x mod (10 ^ k * 10) = 10 ^ k * (x div 10 ^ k mod 10) + x mod 10 ^ k" by (rule zmod_zmult2_eq) simp
  then have "method_of x (Suc k) = classify (x div 10 ^ k mod 10 * 10 ^ k + x mod 10 ^ k) (10 * 10 ^ k)"
    by (simp add: method_of_def mult.commute)
  then show ?thesis
    unfolding method_of_def using classify_step [of w "x div 10 ^ k mod 10" "x mod 10 ^ k" "10 ^ k"] assms by simp
qed

text \<open>The value of the mantissa after dropping \<open>k\<close> digits fits with the exponent that is left.\<close>

definition fits :: "int \<Rightarrow> int \<Rightarrow> nat \<Rightarrow> bool" where
  "fits x e k \<longleftrightarrow> \<bar>e + int k\<bar> \<le> 31 \<and> round_half_even x (10 ^ k) < 2 ^ 27 \<and>
     \<not> (\<bar>e + int k\<bar> = 31 \<and> round_half_even x (10 ^ k) = 2 ^ 27 - 1)"

definition packed_at :: "int \<Rightarrow> int \<Rightarrow> nat \<Rightarrow> packed_price" where
  "packed_at x e k = U64x27 \<lparr>x_neg_exponent = word_of_int \<bar>e + int k\<bar>, x_mantissa = word_of_int (round_half_even x (10 ^ k))\<rparr>"

text \<open>\<open>k\<close> digits can be dropped: a digit of the price and a non-positive exponent are left.\<close>

definition droppable :: "int \<Rightarrow> int \<Rightarrow> nat \<Rightarrow> bool" where
  "droppable x e k \<longleftrightarrow> 0 < x div 10 ^ k \<and> e + int k \<le> 0"

lemma even_rem_s: "0 \<le> sint w \<Longrightarrow> rem_s w 2 = 0 \<longleftrightarrow> even (sint w)"
proof -
  assume "0 \<le> sint w"
  then have "sint w smod 2 = sint w mod 2" by (simp add: smod_nonneg)
  then have "rem_s w 2 = word_of_int (sint w mod 2)" by (simp add: rem_s_def)
  then show ?thesis by (cases "even (sint w)") (simp_all add: odd_iff_mod_2_eq_one)
qed

lemma round_to_method_of:
  assumes w: "sint w = x div 10 ^ k" and x: "0 < x" "x < 2 ^ 63"
  shows "sint (round_to (method_of x k) w) = round_half_even x (10 ^ k)"
proof (cases "x mod 10 ^ k = 0")
  case True
  then show ?thesis using w by (simp add: method_of_def classify_def round_half_even_def)
next
  case False
  then have "0 < k" by (cases k) simp_all
  then have "(10 :: int) ^ 1 \<le> 10 ^ k" by (intro power_increasing) simp_all
  then have "x div 10 ^ k \<le> x div 10" using x by (intro zdiv_mono2) simp_all
  also have "\<dots> < 2 ^ 62" using x by simp
  finally have q: "0 \<le> sint w" "sint w < 2 ^ 62" using x w by (simp_all add: pos_imp_zdiv_nonneg_iff)
  obtain c :: i64 where "to_signed (sint w + 1) = Some c" "sint c = sint w + 1"
    by (rule to_signed_in_range [of "sint w + 1", where 'a = 64]) (use q in simp_all)
  then have sat: "sint (saturating_add_s w 1) = sint w + 1"
    by (simp add: saturating_add_s_def checked_add_s_def)
  have "round_half_even x (10 ^ k) =
      (if 2 * (x mod 10 ^ k) < 10 ^ k \<or> (2 * (x mod 10 ^ k) = 10 ^ k \<and> even (sint w)) then sint w else sint w + 1)"
    by (simp add: round_half_even_def w)
  with False sat even_rem_s [OF q(1)] show ?thesis by (simp add: method_of_def classify_def)
qed

lemma u27_new_Some: "u27_new v = Some m \<longleftrightarrow> uint m = sint v \<and> uint m < 2 ^ 27"
proof -
  have "w \<le> U27_MAX_VALUE \<longleftrightarrow> uint w < 2 ^ 27" for w
    by (simp add: U27_MAX_VALUE_def word_le_def) linarith
  then show ?thesis
    by (auto simp: u27_new_def bind_eq_Some_conv to_unsigned_Some_iff split: if_splits)
qed

lemma u5_new_Some: "u5_new (unsigned_abs_i16 e) = Some n \<longleftrightarrow> uint n = \<bar>sint e\<bar> \<and> uint n \<le> 31"
proof -
  have "\<bar>sint e\<bar> < 2 ^ 16" using sint_range [of e] sint_range_upper [of e] by simp
  then have u: "uint (unsigned_abs_i16 e) = \<bar>sint e\<bar>"
    unfolding unsigned_abs_i16_def by (intro uint_word_of_int_small) simp_all
  have "w \<le> U5_MAX_VALUE \<longleftrightarrow> uint w \<le> 31" for w
    by (simp add: U5_MAX_VALUE_def word_le_def)
  then show ?thesis
    by (auto simp: u5_new_def u bind_eq_Some_conv to_unsigned_Some_iff split: if_splits)
qed

section \<open>The loop searches\<close>

lemma attempt_Some:
  assumes w: "sint w = x div 10 ^ k" and e: "sint ex = e + int k" and x: "0 < x" "x < 2 ^ 63"
  shows "Option.bind (u5_new (unsigned_abs_i16 ex)) (\<lambda>n.
      Option.bind (u27_new (round_to (method_of x k) w)) (\<lambda>m. u64x27_new n m)) =
    (if fits x e k then Some \<lparr>x_neg_exponent = word_of_int \<bar>e + int k\<bar>, x_mantissa = word_of_int (round_half_even x (10 ^ k))\<rparr>
     else None)"
proof -
  let ?q = "round_half_even x (10 ^ k)" and ?a = "\<bar>e + int k\<bar>"
  note r = round_to_method_of [OF w x]
  have q: "0 \<le> ?q" using x by (simp add: round_half_even_def pos_imp_zdiv_nonneg_iff add_nonneg_nonneg)
  have u5: "u5_new (unsigned_abs_i16 ex) = (if ?a \<le> 31 then Some (word_of_int ?a) else None)"
  proof (cases "?a \<le> 31")
    case True
    then have "uint (word_of_int ?a :: u8) = ?a" by (intro uint_word_of_int_small) simp_all
    with True e show ?thesis by (simp add: u5_new_Some)
  next
    case False
    have "u5_new (unsigned_abs_i16 ex) \<noteq> Some n" for n using False e by (auto simp: u5_new_Some)
    with False show ?thesis by (cases "u5_new (unsigned_abs_i16 ex)") auto
  qed
  have u27: "u27_new (round_to (method_of x k) w) = (if ?q < 2 ^ 27 then Some (word_of_int ?q) else None)"
  proof (cases "?q < 2 ^ 27")
    case True
    then have "uint (word_of_int ?q :: u32) = ?q" using q by (intro uint_word_of_int_small) simp_all
    with True r show ?thesis by (simp add: u27_new_Some)
  next
    case False
    have "u27_new (round_to (method_of x k) w) \<noteq> Some n" for n using False r by (auto simp: u27_new_Some)
    with False show ?thesis by (cases "u27_new (round_to (method_of x k) w)") auto
  qed
  have n5: "(word_of_int ?a :: u8) = U5_MAX_VALUE \<longleftrightarrow> ?a = 31" if "?a \<le> 31"
    using uint_word_of_int_small [of ?a, where 'a = 8] that by (auto simp: U5_MAX_VALUE_def word_uint_eq_iff)
  have n27: "(word_of_int ?q :: u32) = U27_MAX_VALUE \<longleftrightarrow> ?q = 2 ^ 27 - 1" if "?q < 2 ^ 27"
    using uint_word_of_int_small [of ?q, where 'a = 32] that q by (auto simp: U27_MAX_VALUE_def word_uint_eq_iff)
  show ?thesis
    using n5 n27 by (auto simp: u5 u27 u64x27_new_def fits_def)
qed

lemma positive_steps:
  assumes w: "sint w = x div 10 ^ k" and x: "0 < x"
  shows "sint (div_s w 10) = x div 10 ^ Suc k" and "sint (rem_s w 10) = x div 10 ^ k mod 10"
proof -
  have nn: "0 \<le> sint w" using w x by (simp add: pos_imp_zdiv_nonneg_iff)
  have "sint (div_s w 10) = x div 10 ^ k div 10" using nn by (simp add: div_s_10 sdiv_nonneg w [symmetric])
  also have "\<dots> = x div (10 ^ k * 10)" by (rule zdiv_zmult2_eq [symmetric]) simp
  finally show "sint (div_s w 10) = x div 10 ^ Suc k" by (simp add: mult.commute)
  have "sint w smod 10 = sint w mod 10"
    using nn by (simp add: smod_nonneg)
  then have r: "rem_s w 10 = word_of_int (sint w mod 10)" by (simp add: rem_s_def)
  have "0 \<le> sint w mod 10" "sint w mod 10 < 10" by simp_all
  then have "sint (rem_s w 10) = sint w mod 10"
    unfolding r by (intro to_signed_Some_iff [THEN iffD1]) (simp only: to_signed_def, simp, linarith)
  then show "sint (rem_s w 10) = x div 10 ^ k mod 10" by (simp add: w)
qed

text \<open>The first number of dropped digits, from \<open>k\<close> on, at which the price fits.\<close>

definition first_fit :: "int \<Rightarrow> int \<Rightarrow> nat \<Rightarrow> nat \<Rightarrow> bool" where
  "first_fit x e k j \<longleftrightarrow> k \<le> j \<and> droppable x e j \<and> fits x e j \<and> (\<forall>i. k \<le> i \<and> i < j \<longrightarrow> \<not> fits x e i)"

lemma droppable_antimono: "droppable x e j \<Longrightarrow> i \<le> j \<Longrightarrow> 0 < x \<Longrightarrow> droppable x e i"
proof -
  assume d: "droppable x e j" and "i \<le> j" "0 < x"
  then have "x div 10 ^ j \<le> x div 10 ^ i" by (intro zdiv_mono2 power_increasing) simp_all
  with d \<open>i \<le> j\<close> show ?thesis by (auto simp: droppable_def)
qed

lemma first_fit_step:
  assumes "\<not> fits x e k"
  shows "first_fit x e k j \<longleftrightarrow> first_fit x e (Suc k) j"
  using assms by (auto simp: first_fit_def Suc_le_eq) (metis le_neq_implies_less)+

lemma first_fit_none: "\<not> droppable x e k \<Longrightarrow> 0 < x \<Longrightarrow> \<not> first_fit x e k j"
  using droppable_antimono by (auto simp: first_fit_def)

lemma pack_price_loop_first_fit:
  assumes "sint w = x div 10 ^ k" and "sint ex = e + int k" and "0 < x" "x < 2 ^ 63" and "droppable x e k"
  shows "pack_price_loop w ex (method_of x k) = Some p \<longleftrightarrow> (\<exists>j. first_fit x e k j \<and> p = packed_at x e j)"
  using assms
proof (induction "nat (x div 10 ^ k)" arbitrary: k w ex rule: less_induct)
  case less
  note att = attempt_Some [OF less.prems(1,2,3,4)]
  show ?case
  proof (cases "fits x e k")
    case True
    then have "pack_price_loop w ex (method_of x k) = Some (packed_at x e k)"
      by (subst pack_price_loop.simps) (simp add: att packed_at_def)
    moreover have "first_fit x e k j \<longleftrightarrow> j = k" for j
      using True less.prems(5) by (auto simp: first_fit_def le_less)
    ultimately show ?thesis by auto
  next
    case False
    note st = positive_steps [OF less.prems(1,3)]
    have "sint ex \<le> 0" using less.prems(2,5) by (simp add: droppable_def)
    obtain ex' :: i16 where ex': "checked_add_s ex 1 = Some ex'" "sint ex' = e + int (Suc k)"
    proof -
      obtain ex' :: i16 where "to_signed (sint ex + 1) = Some ex'" "sint ex' = sint ex + 1"
        by (rule to_signed_in_range [of "sint ex + 1", where 'a = 16])
          (use \<open>sint ex \<le> 0\<close> sint_range [of ex] in simp_all)
      then show ?thesis using less.prems(2) by (intro that [of ex']) (simp_all add: checked_add_s_def)
    qed
    have zero: "div_s w 10 = 0 \<longleftrightarrow> x div 10 ^ Suc k = 0"
      using st(1) signed_eq_0_iff [of "div_s w 10"] by (metis)
    have drop: "(div_s w 10 = 0 \<or> 0 < sint ex') \<longleftrightarrow> \<not> droppable x e (Suc k)"
      using less.prems(3) pos_imp_zdiv_nonneg_iff [of "10 ^ Suc k" x]
      unfolding zero ex'(2) droppable_def by auto
    have loop: "pack_price_loop w ex (method_of x k) =
        (if droppable x e (Suc k) then pack_price_loop (div_s w 10) ex' (method_of x (Suc k)) else None)"
      by (subst pack_price_loop.simps) (simp add: att False ex'(1) method_of_Suc [OF st(2)] drop Let_def)
    show ?thesis
    proof (cases "droppable x e (Suc k)")
      case True
      have "0 < x div 10 ^ Suc k" using True by (simp add: droppable_def)
      moreover have "x div 10 ^ Suc k = x div 10 ^ k div 10"
        using zdiv_zmult2_eq [of 10 x "10 ^ k"] by (simp add: mult.commute)
      ultimately have "nat (x div 10 ^ Suc k) < nat (x div 10 ^ k)" by linarith
      from less.hyps [OF this st(1) ex'(2) less.prems(3,4) True] show ?thesis
        using True by (simp add: loop first_fit_step [OF False])
    next
      case nd: False
      with first_fit_none [OF this less.prems(3)] show ?thesis
        by (simp add: loop first_fit_step [OF False])
    qed
  qed
qed

lemma pack_price_U64x27:
  "pack_price m ex = U64x27 p \<longleftrightarrow>
     0 < sint m \<and> sint ex \<le> 0 \<and>
     (\<exists>k. first_fit (sint m) (sint ex) 0 k \<and> U64x27 p = packed_at (sint m) (sint ex) k)"
proof (cases "0 < sint m \<and> sint ex \<le> 0")
  case True
  then have "droppable (sint m) (sint ex) 0" by (simp add: droppable_def)
  moreover have "sint m < 2 ^ 63" using sint_range_upper [of m] by simp
  ultimately have "pack_price_loop m ex Unnecessary = Some q \<longleftrightarrow>
      (\<exists>j. first_fit (sint m) (sint ex) 0 j \<and> q = packed_at (sint m) (sint ex) j)" for q
    using pack_price_loop_first_fit [of m "sint m" 0 ex "sint ex" q] True by (simp add: method_of_def classify_def)
  moreover have "pack_price m ex = (case pack_price_loop m ex Unnecessary of Some p \<Rightarrow> p | None \<Rightarrow> Price_Unavailable)"
    using True by (simp add: pack_price_def pack_price_inner_def)
  ultimately show ?thesis
    using True by (cases "pack_price_loop m ex Unnecessary") (auto simp: packed_at_def)
next
  case False
  then show ?thesis by (auto simp: pack_price_def pack_price_inner_def)
qed

lemma first_fit_fields:
  assumes "first_fit x e 0 k" and "0 < x" and "U64x27 p = packed_at x e k"
  shows "uint (x_neg_exponent p) = - (e + int k)" and "uint (x_mantissa p) = round_half_even x (10 ^ k)"
proof -
  have f: "\<bar>e + int k\<bar> \<le> 31" "e + int k \<le> 0" "round_half_even x (10 ^ k) < 2 ^ 27"
    using assms(1) unfolding first_fit_def fits_def droppable_def by blast+
  have "0 \<le> round_half_even x (10 ^ k)"
    using assms(2) by (simp add: round_half_even_def pos_imp_zdiv_nonneg_iff add_nonneg_nonneg)
  with f have "uint (word_of_int \<bar>e + int k\<bar> :: u8) = \<bar>e + int k\<bar>"
    "uint (word_of_int (round_half_even x (10 ^ k)) :: u32) = round_half_even x (10 ^ k)"
    by (intro uint_word_of_int_small; simp)+
  with assms(3) f show "uint (x_neg_exponent p) = - (e + int k)" "uint (x_mantissa p) = round_half_even x (10 ^ k)"
    by (simp_all add: packed_at_def)
qed

lemma round_half_even_error:
  assumes "0 < D" and "0 < x div D"
  shows "2 * \<bar>round_half_even x D * D - x\<bar> \<le> D" and "3 * \<bar>round_half_even x D * D - x\<bar> \<le> x"
    and "0 < round_half_even x D"
proof -
  define q r where "q = x div D" and "r = x mod D"
  have x: "x = q * D + r" and r: "0 \<le> r" "r < D" and q: "0 < q"
    using assms by (simp_all add: q_def r_def)
  have "D \<le> q * D" using q assms(1) by simp
  then have big: "D + r \<le> x" using x by linarith
  have "round_half_even x D = (if 2 * r < D \<or> 2 * r = D \<and> even q then q else q + 1)"
    by (simp add: round_half_even_def q_def r_def)
  moreover have "q * D - x = - r" "(q + 1) * D - x = D - r" unfolding x by (simp_all add: algebra_simps)
  ultimately show "2 * \<bar>round_half_even x D * D - x\<bar> \<le> D" "3 * \<bar>round_half_even x D * D - x\<bar> \<le> x"
    "0 < round_half_even x D"
    using r big q by (auto split: if_splits)
qed

section \<open>The bytes of a packed price\<close>

fun packed_price_ok :: "packed_price \<Rightarrow> bool" where
  "packed_price_ok (U64x27 p) \<longleftrightarrow> x_neg_exponent p \<le> U5_MAX_VALUE \<and> x_mantissa p \<le> U27_MAX_VALUE \<and>
     (x_neg_exponent p \<noteq> U5_MAX_VALUE \<or> x_mantissa p \<noteq> U27_MAX_VALUE)"
| "packed_price_ok Price_Unavailable = True"

lemma take_bit_word_self: "take_bit k w = w \<longleftrightarrow> uint w < 2 ^ k" for w :: "'a::len word"
  by (simp add: word_uint_eq_iff unsigned_take_bit_eq take_bit_int_eq_self_iff)

lemma u5_bits: "(n :: u8) \<le> U5_MAX_VALUE \<longleftrightarrow> take_bit 5 n = n"
  and u27_bits: "(m :: u32) \<le> U27_MAX_VALUE \<longleftrightarrow> take_bit 27 m = m"
  by (auto simp: take_bit_word_self U5_MAX_VALUE_def U27_MAX_VALUE_def word_le_def)

lemma put_u32_BE:
  "put_uint BE 4 (w :: u32) = [ucast (drop_bit 24 w), ucast (drop_bit 16 w), ucast (drop_bit 8 w), ucast w]"
  by (simp add: put_uint.simps eval_nat_numeral drop_bit_drop_bit)

lemma get_u32_BE:
  "get_uint BE [b1, b2, b3, b4] = push_bit 24 (ucast b1) OR push_bit 16 (ucast b2) OR push_bit 8 (ucast b3) OR (ucast b4 :: u32)"
  by (simp add: get_uint.simps push_bit_or push_bit_push_bit ac_simps)

lemma from_bytes_fields:
  fixes b1 b2 b3 b4 :: u8
  defines "w \<equiv> get_uint BE [b1, b2, b3, b4] :: u32"
  shows "drop_bit 3 b1 = ucast (drop_bit 27 w)"
    and "push_bit 24 (ucast (b1 AND 7)) OR push_bit 16 (ucast b2) OR push_bit 8 (ucast b3) OR ucast b4 = take_bit 27 w"
proof -
  have l: "bit b i \<Longrightarrow> i < 8" for b :: u8 and i using bit_imp_le_length [of b i] by simp
  show "drop_bit 3 b1 = ucast (drop_bit 27 w)"
    unfolding w_def get_u32_BE by (rule bit_word_eqI) (auto simp: bit_simps ac_simps dest: l)
  have seven: "(7 :: u8) = mask 3" by (simp add: mask_eq_exp_minus_1)
  have "take_bit 27 (push_bit 24 (ucast b1)) = (push_bit 24 (ucast (b1 AND mask 3)) :: u32)"
    by (rule bit_word_eqI) (auto simp: bit_simps bit_mask_iff dest: l)
  moreover have "take_bit 27 (push_bit 16 (ucast b2)) = (push_bit 16 (ucast b2) :: u32)"
    "take_bit 27 (push_bit 8 (ucast b3)) = (push_bit 8 (ucast b3) :: u32)" "take_bit 27 (ucast b4) = (ucast b4 :: u32)"
    by (rule bit_word_eqI; auto simp: bit_simps dest: l)+
  ultimately show "push_bit 24 (ucast (b1 AND 7)) OR push_bit 16 (ucast b2) OR push_bit 8 (ucast b3) OR ucast b4 = take_bit 27 w"
    unfolding w_def get_u32_BE seven by (simp only: take_bit_or)
qed

lemma from_bytes_word:
  assumes "put_uint BE 4 (w :: u32) = [b1, b2, b3, b4]"
  shows "packed_price_from_bytes b1 b2 b3 b4 =
     (case u64x27_new (ucast (drop_bit 27 w)) (take_bit 27 w) of Some p \<Rightarrow> U64x27 p | None \<Rightarrow> Price_Unavailable)"
proof -
  have "get_uint BE [b1, b2, b3, b4] = w" using get_put_uint [of 4 BE w] assms by simp
  then show ?thesis
    using from_bytes_fields [of b1 b2 b3 b4] by (simp only: packed_price_from_bytes_def Let_def)
qed

lemma word_fields:
  fixes n :: u8 and m :: u32
  assumes "n \<le> U5_MAX_VALUE" and "m \<le> U27_MAX_VALUE"
  shows "ucast (drop_bit 27 (push_bit 27 (ucast n) OR m)) = n" and "take_bit 27 (push_bit 27 (ucast n) OR m) = m"
proof -
  have "take_bit 5 n = n" "take_bit 27 m = m"
    using assms by (simp_all only: u5_bits u27_bits)
  then have n: "bit n i \<Longrightarrow> i < 5" and m: "bit m i \<Longrightarrow> i < 27" for i
    by (metis bit_take_bit_iff)+
  show "ucast (drop_bit 27 (push_bit 27 (ucast n) OR m)) = n"
    by (rule bit_word_eqI) (auto simp: bit_simps ac_simps dest: n m)
  show "take_bit 27 (push_bit 27 (ucast n) OR m) = m"
    by (rule bit_word_eqI) (auto simp: bit_simps dest: n m)
qed

lemma word_of_fields: "push_bit 27 (ucast (ucast (drop_bit 27 w) :: u8)) OR take_bit 27 w = w" for w :: u32
  by (rule bit_word_eqI) (auto simp: bit_simps dest: bit_imp_le_length)

lemma packed_price_round_trip:
  assumes "packed_price_ok p" and "packed_price_to_bytes p = [b1, b2, b3, b4]"
  shows "packed_price_from_bytes b1 b2 b3 b4 = p"
proof (cases p)
  case (U64x27 q)
  let ?w = "push_bit 27 (ucast (x_neg_exponent q)) OR x_mantissa q :: u32"
  have ok: "x_neg_exponent q \<le> U5_MAX_VALUE" "x_mantissa q \<le> U27_MAX_VALUE"
    "x_neg_exponent q \<noteq> U5_MAX_VALUE \<or> x_mantissa q \<noteq> U27_MAX_VALUE"
    using assms(1) U64x27 by simp_all
  have "put_uint BE 4 ?w = [b1, b2, b3, b4]"
    using assms(2) by (simp only: U64x27 packed_price_to_bytes.simps u64x27_to_bytes_def)
  from from_bytes_word [OF this] have "packed_price_from_bytes b1 b2 b3 b4 =
      (case u64x27_new (x_neg_exponent q) (x_mantissa q) of Some p \<Rightarrow> U64x27 p | None \<Rightarrow> Price_Unavailable)"
    by (simp only: from_bytes_word word_fields [OF ok(1,2)])
  with ok(3) U64x27 show ?thesis by (simp add: u64x27_new_def)
next
  case Price_Unavailable
  then show ?thesis
    using assms(2) by (simp add: packed_price_from_bytes_def u64x27_new_def U5_MAX_VALUE_def U27_MAX_VALUE_def)
qed

lemma packed_price_bytes_onto:
  "packed_price_to_bytes (packed_price_from_bytes b1 b2 b3 b4) = [b1, b2, b3, b4]"
  and packed_price_from_bytes_ok: "packed_price_ok (packed_price_from_bytes b1 b2 b3 b4)"
proof -
  define w where "w = (get_uint BE [b1, b2, b3, b4] :: u32)"
  have w: "put_uint BE 4 w = [b1, b2, b3, b4]" unfolding w_def by (rule put_get_uint) simp_all
  let ?n = "ucast (drop_bit 27 w) :: u8" and ?m = "take_bit 27 w"
  have f: "packed_price_from_bytes b1 b2 b3 b4 =
      (if ?n \<noteq> U5_MAX_VALUE \<or> ?m \<noteq> U27_MAX_VALUE then U64x27 \<lparr>x_neg_exponent = ?n, x_mantissa = ?m\<rparr> else Price_Unavailable)"
    by (simp add: from_bytes_word [OF w] u64x27_new_def)
  have le: "?n \<le> U5_MAX_VALUE" "?m \<le> U27_MAX_VALUE"
    unfolding u5_bits u27_bits using bit_imp_le_length [of w] by (fastforce intro!: bit_word_eqI simp: bit_simps)+
  then show "packed_price_ok (packed_price_from_bytes b1 b2 b3 b4)" by (simp add: f)
  show "packed_price_to_bytes (packed_price_from_bytes b1 b2 b3 b4) = [b1, b2, b3, b4]"
  proof (cases "?n \<noteq> U5_MAX_VALUE \<or> ?m \<noteq> U27_MAX_VALUE")
    case True
    then show ?thesis by (simp only: f if_True packed_price_to_bytes.simps u64x27_to_bytes_def u64x27.select_convs
          word_of_fields w)
  next
    case False
    then have "w = push_bit 27 (ucast U5_MAX_VALUE) OR U27_MAX_VALUE" using word_of_fields [of w] by simp
    then have "w = 4294967295" by (simp add: U5_MAX_VALUE_def U27_MAX_VALUE_def)
    then have "[b1, b2, b3, b4] = [255, 255, 255, 255]" by (simp add: w [symmetric] put_u32_BE)
    moreover have "packed_price_from_bytes b1 b2 b3 b4 = Price_Unavailable" using False by (simp only: f) simp
    ultimately show ?thesis by (simp only: packed_price_to_bytes.simps)
  qed
qed

lemma pack_price_ok: "packed_price_ok (pack_price m ex)"
proof (cases "pack_price m ex")
  case (U64x27 p)
  then obtain k where x: "0 < sint m" and k: "first_fit (sint m) (sint ex) 0 k"
    and p: "U64x27 p = packed_at (sint m) (sint ex) k"
    unfolding pack_price_U64x27 by blast
  note f = first_fit_fields [OF k x p]
  have fit: "\<bar>sint ex + int k\<bar> \<le> 31" "sint ex + int k \<le> 0" "round_half_even (sint m) (10 ^ k) < 2 ^ 27"
    "\<not> (\<bar>sint ex + int k\<bar> = 31 \<and> round_half_even (sint m) (10 ^ k) = 2 ^ 27 - 1)"
    using k unfolding first_fit_def fits_def droppable_def by blast+
  have "uint U5_MAX_VALUE = 31" "uint U27_MAX_VALUE = 2 ^ 27 - 1" by (simp_all add: U5_MAX_VALUE_def U27_MAX_VALUE_def)
  with fit f show ?thesis unfolding U64x27 by (simp add: word_le_def word_uint_eq_iff)
qed simp

section \<open>Properties\<close>

text \<open>C23: The packing loop is rounding half to even at the first exponent that fits.  A price is packed
  exactly when it is positive, its exponent is not positive, and after dropping some number of its last
  digits (but not all of them, and not below exponent zero) it fits in 5 and 27 bits without being the
  reserved pattern; the smallest such number of digits is dropped, and the mantissa is the price divided
  by that power of ten, rounded half to even on all the dropped digits.\<close>

theorem pack_price_exact:
  "pack_price mantissa exponent = U64x27 p \<longleftrightarrow>
     0 < sint mantissa \<and> sint exponent \<le> 0 \<and>
     (\<exists>k. first_fit (sint mantissa) (sint exponent) 0 k \<and>
        uint (x_neg_exponent p) = - (sint exponent + int k) \<and>
        uint (x_mantissa p) = round_half_even (sint mantissa) (10 ^ k))"
proof -
  have "U64x27 p = packed_at x e k \<longleftrightarrow>
      uint (x_neg_exponent p) = - (e + int k) \<and> uint (x_mantissa p) = round_half_even x (10 ^ k)"
    if "first_fit x e 0 k" "0 < x" for x e k
  proof
    assume a: "uint (x_neg_exponent p) = - (e + int k) \<and> uint (x_mantissa p) = round_half_even x (10 ^ k)"
    obtain q where q: "packed_at x e k = U64x27 q" by (simp add: packed_at_def)
    from first_fit_fields [OF that q [symmetric]] a have "x_neg_exponent p = x_neg_exponent q" "x_mantissa p = x_mantissa q"
      by (simp_all add: word_uint_eq_iff)
    then show "U64x27 p = packed_at x e k" by (simp add: q)
  qed (use first_fit_fields [OF that] in blast)
  then show ?thesis unfolding pack_price_U64x27 by blast
qed

text \<open>Accuracy.  A packed price differs from the price by at most half a unit of its last place, by
  at most a third of the price, and is never zero.\<close>

theorem pack_price_accurate:
  assumes "pack_price mantissa exponent = U64x27 p"
  shows "\<exists>k. - int (unat (x_neg_exponent p)) = sint exponent + int k \<and>
     2 * \<bar>uint (x_mantissa p) * 10 ^ k - sint mantissa\<bar> \<le> 10 ^ k \<and>
     3 * \<bar>uint (x_mantissa p) * 10 ^ k - sint mantissa\<bar> \<le> sint mantissa \<and> 0 < uint (x_mantissa p)"
proof -
  from assms obtain k where x: "0 < sint mantissa" and k: "first_fit (sint mantissa) (sint exponent) 0 k"
    and p: "U64x27 p = packed_at (sint mantissa) (sint exponent) k"
    unfolding pack_price_U64x27 by blast
  note f = first_fit_fields [OF k x p]
  have "0 < sint mantissa div 10 ^ k" using k by (simp add: first_fit_def droppable_def)
  from round_half_even_error [OF _ this] f show ?thesis by (intro exI [of _ k]) simp
qed

theorem pack_price_accurate_witness:
  "let p = \<lparr>x_neg_exponent = 3, x_mantissa = 67134363\<rparr> in
   pack_price 6713436287632 (- 8) = U64x27 p \<and>
   (\<exists>k. - int (unat (x_neg_exponent p)) = - 8 + int k \<and>
      2 * \<bar>uint (x_mantissa p) * 10 ^ k - 6713436287632\<bar> \<le> 10 ^ k)"
proof -
  have "pack_price 6713436287632 (- 8) = U64x27 \<lparr>x_neg_exponent = 3, x_mantissa = 67134363\<rparr>" by code_simp
  from this pack_price_accurate [OF this] show ?thesis by (auto simp: Let_def)
qed

text \<open>The byte form is a bijection.  Every packed price is read back from its four bytes, every four
  bytes are a packed price, and they are the bytes of exactly that price.\<close>

lemma packed_price_bytes_bijection:
  "(packed_price_ok p \<and> packed_price_to_bytes p = [b1, b2, b3, b4]) \<longleftrightarrow> packed_price_from_bytes b1 b2 b3 b4 = p"
  using packed_price_round_trip packed_price_bytes_onto packed_price_from_bytes_ok by metis

end
