(* ===== verification/Packed_Evm.thy ===== *)
theory Packed_Evm
  imports Packed_Price Lazer_Price Lazer_Payload Lazer_Time
begin

text \<open>
  The packed EVM payload (\<^verbatim>\<open>src/sdk/rust/protocol/src/payload/packed_evm/\<close>): the confidence of a feed
  relative to its price, lanes of a price and a confidence in six bytes, staleness markers of two bits,
  56-bit timestamps, blocks of four feeds and the payload with its header.  Fixed-size byte arrays are
  byte lists whose length the functions that produce them establish.
\<close>

section \<open>Confidence (lane/confidence.rs)\<close>

datatype confidence = Conf_Unavailable | Conf_Available u16

definition MAX_HUNDREDTHS_BPS :: u16 where "MAX_HUNDREDTHS_BPS = - 1 - 1"

definition confidence_new :: "u16 \<Rightarrow> confidence" where
  "confidence_new hundredths_bps = (if hundredths_bps = - 1 then Conf_Unavailable else Conf_Available hundredths_bps)"

definition confidence_from_bytes :: "bytes \<Rightarrow> confidence" where
  "confidence_from_bytes bs = confidence_new (get_uint BE bs)"

fun confidence_to_bytes :: "confidence \<Rightarrow> bytes" where
  "confidence_to_bytes Conf_Unavailable = [255, 255]"
| "confidence_to_bytes (Conf_Available hundredths_bps) = put_uint BE 2 hundredths_bps"

fun hundredths_bps :: "confidence \<Rightarrow> u16 option" where
  "hundredths_bps Conf_Unavailable = None"
| "hundredths_bps (Conf_Available h) = Some h"

section \<open>Lanes (lane/mod.rs)\<close>

record lane =
  ln_price :: packed_price
  ln_confidence :: confidence

definition HUNDREDTHS_BPS_PER_UNIT :: i128 where "HUNDREDTHS_BPS_PER_UNIT = 1000000"

definition LANE_SIZE :: nat where "LANE_SIZE = 6"

definition LANE_UNAVAILABLE :: lane where
  "LANE_UNAVAILABLE = \<lparr>ln_price = Price_Unavailable, ln_confidence = Conf_Unavailable\<rparr>"

record quote =
  qt_price :: i64
  qt_confidence :: "i64 option"
  qt_exponent :: i16

definition relative_hundredths_bps :: "i128 \<Rightarrow> i64 \<Rightarrow> u16 option" where
  "relative_hundredths_bps part price =
     (if sint price \<le> 0 \<or> sint part < 0 then None
      else let price = scast price :: i128 in
        Option.bind (checked_mul_s part HUNDREDTHS_BPS_PER_UNIT) (\<lambda>x.
        Option.bind (checked_add_s x (word_of_int (sint price sdiv 2))) (\<lambda>scaled.
        Option.bind (checked_div_s scaled price) (\<lambda>q.
        to_unsigned (sint q)))))"

definition lane_encode :: "quote \<Rightarrow> lane" where
  "lane_encode quote =
     (let confidence = (case Option.bind (qt_confidence quote) (\<lambda>c. relative_hundredths_bps (scast c) (qt_price quote)) of
            Some h \<Rightarrow> confidence_new h
          | None \<Rightarrow> Conf_Unavailable)
      in \<lparr>ln_price = pack_price (qt_price quote) (qt_exponent quote), ln_confidence = confidence\<rparr>)"

definition is_unavailable :: "lane \<Rightarrow> bool" where
  "is_unavailable l \<longleftrightarrow> l = LANE_UNAVAILABLE"

definition lane_to_bytes :: "lane \<Rightarrow> bytes" where
  "lane_to_bytes l =
     (let packed = push_bit 16 (ucast (get_uint BE (packed_price_to_bytes (ln_price l)) :: u32)) OR
                   ucast (get_uint BE (confidence_to_bytes (ln_confidence l)) :: u16) :: u64
      in drop 2 (put_uint BE 8 packed))"

definition lane_from_bytes :: "bytes \<Rightarrow> lane" where
  "lane_from_bytes lane =
     \<lparr>ln_price = packed_price_from_bytes (lane ! 0) (lane ! 1) (lane ! 2) (lane ! 3),
      ln_confidence = confidence_from_bytes [lane ! 4, lane ! 5]\<rparr>"

section \<open>Staleness markers (staleness_marker.rs)\<close>

datatype staleness_marker = Zero | OneSecondOrLess | FiveSecondsOrLess | MoreThanFiveSeconds

fun max_age :: "staleness_marker \<Rightarrow> duration_us option" where
  "max_age Zero = Some 0"
| "max_age OneSecondOrLess = Some (dur_from_secs_u32 1)"
| "max_age FiveSecondsOrLess = Some (dur_from_secs_u32 5)"
| "max_age MoreThanFiveSeconds = None"

definition from_age :: "duration_us \<Rightarrow> staleness_marker" where
  "from_age age =
     (if age = 0 then Zero
      else if age \<le> dur_from_secs_u32 1 then OneSecondOrLess
      else if age \<le> dur_from_secs_u32 5 then FiveSecondsOrLess
      else MoreThanFiveSeconds)"

fun marker_to_bits :: "staleness_marker \<Rightarrow> u8" where
  "marker_to_bits Zero = 0"
| "marker_to_bits OneSecondOrLess = 1"
| "marker_to_bits FiveSecondsOrLess = 2"
| "marker_to_bits MoreThanFiveSeconds = 3"

definition marker_from_bits :: "u8 \<Rightarrow> staleness_marker" where
  "marker_from_bits bits =
     (let b = bits AND 3 in
      if b = 0 then Zero else if b = 1 then OneSecondOrLess else if b = 2 then FiveSecondsOrLess
      else MoreThanFiveSeconds)"

definition pack_markers :: "staleness_marker list \<Rightarrow> u8" where
  "pack_markers markers = foldl (\<lambda>byte marker. push_bit 2 byte OR marker_to_bits marker) 0 markers"

definition unpack_markers :: "u8 \<Rightarrow> staleness_marker list" where
  "unpack_markers byte =
     [marker_from_bits (drop_bit 6 byte), marker_from_bits (drop_bit 4 byte), marker_from_bits (drop_bit 2 byte),
      marker_from_bits byte]"

section \<open>Timestamps of 56 bits (timestamp.rs)\<close>

definition TIMESTAMP_SIZE :: nat where "TIMESTAMP_SIZE = 7"

definition TS56_MAX :: timestamp_us where "TS56_MAX = push_bit 56 1 - 1"

datatype timestamp_too_large = TimestampTooLarge timestamp_us

definition ts56_new :: "timestamp_us \<Rightarrow> timestamp_too_large + timestamp_us" where
  "ts56_new timestamp_us = (if TS56_MAX < timestamp_us then Inl (TimestampTooLarge timestamp_us) else Inr timestamp_us)"

definition ts56_to_bytes :: "timestamp_us \<Rightarrow> bytes" where
  "ts56_to_bytes t = drop 1 (put_uint BE 8 t)"

definition ts56_from_bytes :: "bytes \<Rightarrow> timestamp_us" where
  "ts56_from_bytes bs = get_uint BE (0 # bs)"

section \<open>Feeds, blocks and payloads (mod.rs)\<close>

definition PACKED_EVM_PAYLOAD_FORMAT_MAGIC :: u32 where "PACKED_EVM_PAYLOAD_FORMAT_MAGIC = 1346721357"

record packed_evm_feed =
  pe_feed_id :: u32
  pe_lane :: lane
  pe_staleness_marker :: staleness_marker

definition lane_for :: "aggregated_price_feed_data option \<Rightarrow> lane" where
  "lane_for data =
     (case data of
        None \<Rightarrow> LANE_UNAVAILABLE
      | Some data \<Rightarrow>
          (case ag_price data of
             None \<Rightarrow> LANE_UNAVAILABLE
           | Some price \<Rightarrow> lane_encode \<lparr>qt_price = price, qt_confidence = ag_confidence data, qt_exponent = ag_exponent data\<rparr>))"

definition staleness_marker_for :: "aggregated_price_feed_data option \<Rightarrow> timestamp_us \<Rightarrow> staleness_marker" where
  "staleness_marker_for data timestamp_us =
     (case data of
        None \<Rightarrow> MoreThanFiveSeconds
      | Some data \<Rightarrow>
          (case ag_feed_update_timestamp data of
             None \<Rightarrow> MoreThanFiveSeconds
           | Some feed_update_timestamp \<Rightarrow> from_age (saturating_duration_since timestamp_us feed_update_timestamp)))"

record packed_evm_payload =
  pp_timestamp_us :: timestamp_us
  pp_channel_id :: u8
  pp_feeds :: "packed_evm_feed list"

record block =
  bk_feeds :: "packed_evm_feed list"
  bk_timestamp_us :: timestamp_us

definition NUM_FEEDS :: nat where "NUM_FEEDS = 4"

text \<open>The markers of the feeds written over four \<^verbatim>\<open>Zero\<close> markers.\<close>

definition block_markers :: "packed_evm_feed list \<Rightarrow> staleness_marker list" where
  "block_markers feeds = take 4 (map pe_staleness_marker feeds) @ replicate (4 - length feeds) Zero"

definition block_serialize :: "block \<Rightarrow> bytes" where
  "block_serialize b =
     concat (map (\<lambda>f. put_uint BE 4 (pe_feed_id f)) (bk_feeds b)) @
     concat (replicate (NUM_FEEDS - length (bk_feeds b)) (put_uint BE 4 (0 :: u32))) @
     concat (map (\<lambda>f. lane_to_bytes (pe_lane f)) (bk_feeds b)) @
     concat (replicate (NUM_FEEDS - length (bk_feeds b)) (replicate LANE_SIZE 0)) @
     ts56_to_bytes (bk_timestamp_us b) @
     [pack_markers (block_markers (bk_feeds b))]"

definition not_zero_filled :: anyhow where
  "not_zero_filled = Message ''PackedEvm slot past num_feeds is not zero-filled''"

fun expect_zero_ids :: "nat \<Rightarrow> bytes \<Rightarrow> anyhow + bytes" where
  "expect_zero_ids 0 r = Inr r"
| "expect_zero_ids (Suc n) r =
     and_then (read_u32 BE r) (\<lambda>(w, r). if w \<noteq> 0 then Inl not_zero_filled else expect_zero_ids n r)"

fun expect_zero_lanes :: "nat \<Rightarrow> bytes \<Rightarrow> anyhow + bytes" where
  "expect_zero_lanes 0 r = Inr r"
| "expect_zero_lanes (Suc n) r =
     and_then (read_exact LANE_SIZE r) (\<lambda>(lane_bytes, r).
     if lane_bytes \<noteq> replicate LANE_SIZE 0 then Inl not_zero_filled else expect_zero_lanes n r)"

definition read_lane :: "bytes \<Rightarrow> anyhow + lane \<times> bytes" where
  "read_lane r = map_ok (\<lambda>(lane_bytes, r). (lane_from_bytes lane_bytes, r)) (read_exact LANE_SIZE r)"

definition block_deserialize :: "nat \<Rightarrow> bytes \<Rightarrow> anyhow + block \<times> bytes" where
  "block_deserialize expected_num_feeds r =
     and_then (read_many (read_u32 BE) expected_num_feeds r) (\<lambda>(feed_ids, r).
     and_then (expect_zero_ids (NUM_FEEDS - expected_num_feeds) r) (\<lambda>r.
     and_then (read_many read_lane expected_num_feeds r) (\<lambda>(lanes, r).
     and_then (expect_zero_lanes (NUM_FEEDS - expected_num_feeds) r) (\<lambda>r.
     and_then (read_exact TIMESTAMP_SIZE r) (\<lambda>(ts, r).
     and_then (read_u8 r) (\<lambda>(b, r).
     let timestamp_us = ts56_from_bytes ts; markers = unpack_markers b in
     if list_ex (\<lambda>marker. marker \<noteq> Zero) (drop expected_num_feeds markers)
     then Inl (Message ''PackedEvm staleness marker past num_feeds is not zero'')
     else Inr (\<lparr>bk_feeds = map (\<lambda>(feed_id, lane, marker).
                  \<lparr>pe_feed_id = feed_id, pe_lane = lane, pe_staleness_marker = marker\<rparr>) (zip feed_ids (zip lanes markers)),
                bk_timestamp_us = timestamp_us\<rparr>, r)))))))"

definition from_aggregated ::
  "timestamp_us \<Rightarrow> u8 \<Rightarrow> u32 list \<Rightarrow> (u32 \<times> aggregated_price_feed_data) list \<Rightarrow> anyhow + packed_evm_payload" where
  "from_aggregated timestamp_us channel_id feed_ids feeds =
     (let feeds = map (\<lambda>feed_id.
            let data = map_option snd (find (\<lambda>(i, _). i = feed_id) feeds) in
            \<lparr>pe_feed_id = feed_id, pe_lane = lane_for data,
             pe_staleness_marker = staleness_marker_for data timestamp_us\<rparr>) feed_ids
      in if feeds = [] then Inl (Message ''PackedEvm payload carries no feeds'')
         else
         and_then (map_err (\<lambda>_. Message ''timestamp does not fit the 56 bits a PackedEvm word holds'') (ts56_new timestamp_us)) (\<lambda>t.
         Inr \<lparr>pp_timestamp_us = t, pp_channel_id = channel_id, pp_feeds = feeds\<rparr>))"

text \<open>\<^verbatim>\<open>slice::chunks\<close>, and the sizes of the chunks of \<^verbatim>\<open>0..n\<close>.\<close>

function chunks :: "nat \<Rightarrow> 'a list \<Rightarrow> 'a list list" where
  "chunks k xs = (if xs = [] \<or> k = 0 then [] else take k xs # chunks k (drop k xs))"
  by pat_completeness auto
termination by (relation "measure (\<lambda>(k, xs). length xs)") auto

function chunk_counts :: "nat \<Rightarrow> nat \<Rightarrow> nat list" where
  "chunk_counts k n = (if n = 0 \<or> k = 0 then [] else min k n # chunk_counts k (n - k))"
  by pat_completeness auto
termination by (relation "measure (\<lambda>(k, n). n)") auto

declare chunks.simps [simp del] chunk_counts.simps [simp del]

definition payload_blocks :: "packed_evm_payload \<Rightarrow> block list" where
  "payload_blocks p = map (\<lambda>chunk. \<lparr>bk_feeds = chunk, bk_timestamp_us = pp_timestamp_us p\<rparr>) (chunks NUM_FEEDS (pp_feeds p))"

definition packed_serialize :: "packed_evm_payload \<Rightarrow> anyhow + bytes" where
  "packed_serialize p =
     and_then (len_u8 (pp_feeds p)) (\<lambda>n.
     Inr (put_uint BE 4 PACKED_EVM_PAYLOAD_FORMAT_MAGIC @ [pp_channel_id p, n] @
          concat (map block_serialize (payload_blocks p))))"

fun read_blocks :: "nat list \<Rightarrow> bytes \<Rightarrow> anyhow + block list \<times> bytes" where
  "read_blocks [] r = Inr ([], r)"
| "read_blocks (n # ns) r =
     and_then (block_deserialize n r) (\<lambda>(b, r).
     and_then (read_blocks ns r) (\<lambda>(bs, r). Inr (b # bs, r)))"

definition PACKED_HEADER_SIZE :: nat where "PACKED_HEADER_SIZE = 6"

definition all_equal :: "'a list \<Rightarrow> bool" where
  "all_equal xs = (case xs of [] \<Rightarrow> True | x # xs \<Rightarrow> list_all (\<lambda>y. y = x) xs)"

definition packed_deserialize_slice :: "bytes \<Rightarrow> anyhow + packed_evm_payload" where
  "packed_deserialize_slice data =
     (if length data < PACKED_HEADER_SIZE then Inl (Message ''PackedEvm payload must be at least 6 bytes'')
      else
      and_then (read_u32 BE data) (\<lambda>(magic, r).
      if magic \<noteq> PACKED_EVM_PAYLOAD_FORMAT_MAGIC then Inl (Message ''magic mismatch'')
      else
      and_then (read_u8 r) (\<lambda>(channel_id, r).
      and_then (read_u8 r) (\<lambda>(num_feeds, r).
      and_then (read_blocks (chunk_counts NUM_FEEDS (unat num_feeds)) r) (\<lambda>(blocks, r).
      if \<not> all_equal (map bk_timestamp_us blocks) then Inl (Message ''PackedEvm blocks have different timestamps'')
      else case blocks of
        [] \<Rightarrow> Inl (Message ''PackedEvm payload carries no feeds'')
      | b # _ \<Rightarrow>
          if r \<noteq> [] then Inl (Message ''Not all bytes were read'')
          else Inr \<lparr>pp_timestamp_us = bk_timestamp_us b, pp_channel_id = channel_id,
                    pp_feeds = concat (map bk_feeds blocks)\<rparr>)))))"

section \<open>Lanes and their bytes\<close>

definition lane_ok :: "lane \<Rightarrow> bool" where
  "lane_ok l \<longleftrightarrow> packed_price_ok (ln_price l) \<and> ln_confidence l \<noteq> Conf_Available (- 1)"

lemma length_packed_price_to_bytes [simp]: "length (packed_price_to_bytes p) = 4"
  by (cases p) (simp_all add: u64x27_to_bytes_def)

lemma length_confidence_to_bytes [simp]: "length (confidence_to_bytes c) = 2"
  by (cases c) simp_all

lemma put_u16_ones: "put_uint BE 2 (- 1 :: u16) = [255, 255]"
  by code_simp

lemma confidence_from_to: "c \<noteq> Conf_Available (- 1) \<Longrightarrow> confidence_from_bytes (confidence_to_bytes c) = c"
  using put_u16_ones get_put_uint [of 2 BE "- 1 :: u16"]
  by (cases c) (auto simp: confidence_from_bytes_def confidence_new_def get_put_uint)

lemma confidence_to_from: "length bs = 2 \<Longrightarrow> confidence_to_bytes (confidence_from_bytes bs) = bs"
  using put_get_uint [of bs 2 BE, where 'a = 16] put_u16_ones
  by (cases "get_uint BE bs = (- 1 :: u16)") (simp_all add: confidence_from_bytes_def confidence_new_def)

lemma lane_to_bytes_eq: "lane_to_bytes l = packed_price_to_bytes (ln_price l) @ confidence_to_bytes (ln_confidence l)"
proof -
  define pb cb where "pb = packed_price_to_bytes (ln_price l)" and "cb = confidence_to_bytes (ln_confidence l)"
  have len: "length pb = 4" "length cb = 2" by (simp_all add: pb_def cb_def)
  have "(get_uint BE ([0, 0] @ pb @ cb) :: u64) = le_word (rev cb) OR push_bit 16 (le_word (rev pb) OR push_bit 32 (le_word [0, 0]))"
    using len by (simp add: get_uint.simps le_word_append)
  also have "\<dots> = push_bit 16 (ucast (get_uint BE pb :: u32)) OR ucast (get_uint BE cb :: u16)"
    using len by (simp add: get_uint.simps ucast_le_word or.commute)
  finally have "lane_to_bytes l = drop 2 (put_uint BE 8 (get_uint BE ([0, 0] @ pb @ cb) :: u64))"
    by (simp add: lane_to_bytes_def pb_def cb_def)
  also have "\<dots> = pb @ cb" using len put_get_uint [of "[0, 0] @ pb @ cb" 8 BE, where 'a = 64] by simp
  finally show ?thesis by (simp add: pb_def cb_def)
qed

lemma length_lane_to_bytes [simp]: "length (lane_to_bytes l) = 6"
  by (simp add: lane_to_bytes_eq)

lemma six_bytes:
  assumes "length bs = 6"
  obtains a b c d e f where "bs = [a, b, c, d, e, f]"
  using assms by (auto simp: length_Suc_conv numeral_eq_Suc)

lemma lane_from_to: "lane_ok l \<Longrightarrow> lane_from_bytes (lane_to_bytes l) = l"
proof -
  assume ok: "lane_ok l"
  obtain a b c d e f where l: "lane_to_bytes l = [a, b, c, d, e, f]" by (rule six_bytes [of "lane_to_bytes l"]) simp
  then have pb: "packed_price_to_bytes (ln_price l) = [a, b, c, d]" and cb: "confidence_to_bytes (ln_confidence l) = [e, f]"
    using arg_cong [OF lane_to_bytes_eq [of l], of "take 4"] arg_cong [OF lane_to_bytes_eq [of l], of "drop 4"] by simp_all
  have "packed_price_from_bytes a b c d = ln_price l" using packed_price_round_trip [OF _ pb] ok by (simp add: lane_ok_def)
  moreover have "confidence_from_bytes [e, f] = ln_confidence l"
    using confidence_from_to [of "ln_confidence l"] ok cb by (simp add: lane_ok_def)
  ultimately show ?thesis by (simp add: l lane_from_bytes_def)
qed

lemma lane_to_from: "length bs = 6 \<Longrightarrow> lane_to_bytes (lane_from_bytes bs) = bs \<and> lane_ok (lane_from_bytes bs)"
proof -
  assume "length bs = 6"
  then obtain a b c d e f where bs: "bs = [a, b, c, d, e, f]" by (rule six_bytes)
  have "confidence_from_bytes [e, f] \<noteq> Conf_Available (- 1)" by (simp add: confidence_from_bytes_def confidence_new_def)
  then show ?thesis
    using confidence_to_from [of "[e, f]"]
    by (simp add: bs lane_to_bytes_eq lane_from_bytes_def packed_price_bytes_onto packed_price_from_bytes_ok lane_ok_def)
qed

interpretation lane_codec: canonical_codec lane_to_bytes read_lane lane_ok
proof
  fix l r assume "lane_ok l"
  then show "read_lane (lane_to_bytes l @ r) = Inr (l, r)"
    by (simp add: read_lane_def codec_simps LANE_SIZE_def lane_from_to)
next
  fix bs l r assume "read_lane bs = Inr (l, r)"
  then show "lane_ok l \<and> bs = lane_to_bytes l @ r"
    by (auto simp: read_lane_def LANE_SIZE_def read_exact_Inr_iff lane_to_from)
qed

interpretation id_codec: canonical_codec "put_uint BE 4 :: u32 \<Rightarrow> bytes" "read_u32 BE" "\<lambda>_. True"
  by unfold_locales (simp_all add: read_uint_put read_uint_Inr_iff)

section \<open>Timestamps, markers and padding\<close>

lemma ts56_from_to:
  assumes "t \<le> TS56_MAX"
  shows "ts56_from_bytes (ts56_to_bytes t) = t"
proof -
  have "uint t < 2 ^ 56" using assms by (simp add: TS56_MAX_def word_le_def)
  then have "drop_bit 56 t = 0" by (simp add: word_uint_eq_iff drop_bit_eq_div uint_div)
  then have "put_uint BE 8 t ! 0 = 0" by (simp add: put_uint.simps eval_nat_numeral drop_bit_drop_bit)
  moreover have "put_uint BE 8 t = put_uint BE 8 t ! 0 # drop 1 (put_uint BE 8 t)"
    by (metis Cons_nth_drop_Suc One_nat_def drop0 length_put_uint zero_less_numeral)
  ultimately have "get_uint BE (0 # drop 1 (put_uint BE 8 t)) = t" using get_put_uint [of 8 BE t] by simp
  then show ?thesis by (simp add: ts56_from_bytes_def ts56_to_bytes_def)
qed

lemma ts56_to_from: "length bs = 7 \<Longrightarrow> ts56_to_bytes (ts56_from_bytes bs) = bs \<and> ts56_from_bytes bs \<le> TS56_MAX"
proof -
  assume len: "length bs = 7"
  then have p: "put_uint BE 8 (ts56_from_bytes bs) = 0 # bs"
    unfolding ts56_from_bytes_def by (intro put_get_uint) simp_all
  have "uint (le_word (rev bs) :: u64) < 2 ^ 56"
  proof -
    have "take_bit 56 (le_word (rev bs) :: u64) = le_word (rev bs)"
      using len by (intro bit_word_eqI) (auto simp: bit_take_bit_iff bit_le_word)
    then show ?thesis by (simp add: take_bit_word_self)
  qed
  moreover have "ts56_from_bytes bs = le_word (rev bs)"
    by (simp add: ts56_from_bytes_def get_uint.simps le_word_append)
  ultimately show ?thesis using p by (simp add: ts56_to_bytes_def TS56_MAX_def word_le_def)
qed

lemma length_ts56_to_bytes [simp]: "length (ts56_to_bytes t) = 7"
  by (simp add: ts56_to_bytes_def)

lemma unpack_pack: "length ms = 4 \<Longrightarrow> unpack_markers (pack_markers ms) = ms"
proof -
  assume "length ms = 4"
  then obtain a b c d where "ms = [a, b, c, d]" by (auto simp: length_Suc_conv numeral_eq_Suc)
  then show ?thesis
    by (cases a; cases b; cases c; cases d; simp add: pack_markers_def unpack_markers_def marker_from_bits_def)
qed

lemma marker_bits: "marker_to_bits (marker_from_bits b) = b AND 3"
proof -
  have "b AND 3 = take_bit 2 b" using take_bit_eq_mask [of 2 b] by (simp add: mask_eq_exp_minus_1)
  then have "uint (b AND 3) < 4" by (simp add: unsigned_take_bit_eq) (simp add: take_bit_eq_mod)
  moreover have "0 \<le> uint (b AND 3)" by simp
  ultimately have "uint (b AND 3) = 0 \<or> uint (b AND 3) = 1 \<or> uint (b AND 3) = 2 \<or> uint (b AND 3) = 3" by linarith
  then have "b AND 3 \<in> {0, 1, 2, 3}" by (auto simp: word_uint_eq_iff)
  then show ?thesis by (auto simp: marker_from_bits_def Let_def)
qed

lemma pack_unpack: "pack_markers (unpack_markers b) = b"
proof -
  have three: "(3 :: u8) = mask 2" by (simp add: mask_eq_exp_minus_1)
  have "pack_markers (unpack_markers b) =
      push_bit 6 (drop_bit 6 b AND mask 2) OR push_bit 4 (drop_bit 4 b AND mask 2) OR push_bit 2 (drop_bit 2 b AND mask 2) OR
      (b AND mask 2)"
    by (simp add: pack_markers_def unpack_markers_def marker_bits three push_bit_or push_bit_push_bit ac_simps)
  also have "\<dots> = b"
  proof (rule bit_word_eqI)
    fix i assume "i < LENGTH(8)"
    then have "i = 0 \<or> i = 1 \<or> i = 2 \<or> i = 3 \<or> i = 4 \<or> i = 5 \<or> i = 6 \<or> i = 7" by auto
    then show "bit (push_bit 6 (drop_bit 6 b AND mask 2) OR push_bit 4 (drop_bit 4 b AND mask 2) OR
        push_bit 2 (drop_bit 2 b AND mask 2) OR (b AND mask 2)) i = bit b i"
      by (elim disjE) (simp_all add: bit_simps bit_mask_iff)
  qed
  finally show ?thesis .
qed

lemma expect_zero_ids_iff:
  "expect_zero_ids n r = Inr r' \<longleftrightarrow> r = concat (replicate n (put_uint BE 4 (0 :: u32))) @ r'"
proof (induction n arbitrary: r)
  case (Suc n)
  have "expect_zero_ids (Suc n) r = Inr r' \<longleftrightarrow> (\<exists>r1. read_u32 BE r = Inr (0, r1) \<and> expect_zero_ids n r1 = Inr r')"
    by (auto split: if_splits)
  then show ?case unfolding id_codec.dec_iff Suc.IH by auto
qed auto

lemma expect_zero_lanes_iff:
  "expect_zero_lanes n r = Inr r' \<longleftrightarrow> r = concat (replicate n (replicate LANE_SIZE 0)) @ r'"
proof (induction n arbitrary: r)
  case (Suc n)
  have "expect_zero_lanes (Suc n) r = Inr r' \<longleftrightarrow>
      (\<exists>r1. read_exact LANE_SIZE r = Inr (replicate LANE_SIZE 0, r1) \<and> expect_zero_lanes n r1 = Inr r')"
    by (auto split: if_splits)
  then show ?case unfolding read_exact_Inr_iff Suc.IH by auto
qed auto

section \<open>Blocks\<close>

definition make_feeds :: "u32 list \<Rightarrow> lane list \<Rightarrow> staleness_marker list \<Rightarrow> packed_evm_feed list" where
  "make_feeds ids lanes markers =
     map (\<lambda>(i, l, m). \<lparr>pe_feed_id = i, pe_lane = l, pe_staleness_marker = m\<rparr>) (zip ids (zip lanes markers))"

lemma make_feeds_fields:
  assumes "length ids = n" and "length lanes = n" and "n \<le> length markers"
  shows "map pe_feed_id (make_feeds ids lanes markers) = ids" "map pe_lane (make_feeds ids lanes markers) = lanes"
    "map pe_staleness_marker (make_feeds ids lanes markers) = take n markers"
  using assms by (auto simp: make_feeds_def intro!: nth_equalityI)

lemma make_feeds_self:
  "make_feeds (map pe_feed_id fs) (map pe_lane fs) (map pe_staleness_marker fs @ ms) = fs"
  by (auto simp: make_feeds_def nth_append intro!: nth_equalityI)

definition block_ok :: "block \<Rightarrow> bool" where
  "block_ok b \<longleftrightarrow> length (bk_feeds b) \<le> 4 \<and> list_all (\<lambda>f. lane_ok (pe_lane f)) (bk_feeds b) \<and> bk_timestamp_us b \<le> TS56_MAX"

definition block_layout :: "u32 list \<Rightarrow> lane list \<Rightarrow> bytes \<Rightarrow> u8 \<Rightarrow> bytes" where
  "block_layout ids lanes ts mb =
     concat (map (put_uint BE 4) ids) @ concat (replicate (NUM_FEEDS - length ids) (put_uint BE 4 (0 :: u32))) @
     concat (map lane_to_bytes lanes) @ concat (replicate (NUM_FEEDS - length ids) (replicate LANE_SIZE 0)) @ ts @ [mb]"

lemma block_serialize_layout:
  "block_serialize b = block_layout (map pe_feed_id (bk_feeds b)) (map pe_lane (bk_feeds b))
     (ts56_to_bytes (bk_timestamp_us b)) (pack_markers (block_markers (bk_feeds b)))"
  by (simp add: block_serialize_def block_layout_def comp_def)

lemma block_deserialize_layout:
  "block_deserialize n bs = Inr (b, r) \<longleftrightarrow>
     (\<exists>ids lanes ts mb. length ids = n \<and> length lanes = n \<and> list_all lane_ok lanes \<and> length ts = 7 \<and>
        bs = block_layout ids lanes ts mb @ r \<and> list_all (\<lambda>m. m = Zero) (drop n (unpack_markers mb)) \<and>
        b = \<lparr>bk_feeds = make_feeds ids lanes (unpack_markers mb), bk_timestamp_us = ts56_from_bytes ts\<rparr>)"
proof -
  have "block_deserialize n bs = Inr (b, r) \<longleftrightarrow>
      (\<exists>ids r1 r2 lanes r3 r4 ts r5 mb. read_many (read_u32 BE) n bs = Inr (ids, r1) \<and>
        expect_zero_ids (NUM_FEEDS - n) r1 = Inr r2 \<and> read_many read_lane n r2 = Inr (lanes, r3) \<and>
        expect_zero_lanes (NUM_FEEDS - n) r3 = Inr r4 \<and> read_exact TIMESTAMP_SIZE r4 = Inr (ts, r5) \<and>
        read_u8 r5 = Inr (mb, r) \<and> list_all (\<lambda>m. m = Zero) (drop n (unpack_markers mb)) \<and>
        b = \<lparr>bk_feeds = make_feeds ids lanes (unpack_markers mb), bk_timestamp_us = ts56_from_bytes ts\<rparr>)"
    by (auto simp: block_deserialize_def make_feeds_def Let_def list_ex_iff list_all_iff split: if_splits)
      (metis (mono_tags, lifting))+
  also have "\<dots> \<longleftrightarrow> (\<exists>ids lanes ts mb. length ids = n \<and> length lanes = n \<and> list_all lane_ok lanes \<and> length ts = 7 \<and>
        bs = concat (map (put_uint BE 4) ids) @ concat (replicate (NUM_FEEDS - n) (put_uint BE 4 (0 :: u32))) @
          concat (map lane_to_bytes lanes) @ concat (replicate (NUM_FEEDS - n) (replicate LANE_SIZE 0)) @ ts @ mb # r \<and>
        list_all (\<lambda>m. m = Zero) (drop n (unpack_markers mb)) \<and>
        b = \<lparr>bk_feeds = make_feeds ids lanes (unpack_markers mb), bk_timestamp_us = ts56_from_bytes ts\<rparr>)"
    by (simp add: id_codec.read_many_iff lane_codec.read_many_iff expect_zero_ids_iff expect_zero_lanes_iff
        read_exact_Inr_iff read_u8_Inr_iff TIMESTAMP_SIZE_def) (simp add: list_all_iff, blast)
  finally show ?thesis by (simp add: block_layout_def cong: conj_cong)
qed

lemma length_unpack [simp]: "length (unpack_markers b) = 4"
  by (simp add: unpack_markers_def)

lemma zero_tail:
  "list_all (\<lambda>m. m = Zero) (drop n ms) \<Longrightarrow> length ms = 4 \<Longrightarrow> n \<le> 4 \<Longrightarrow> take n ms @ replicate (4 - n) Zero = ms"
proof -
  assume "list_all (\<lambda>m. m = Zero) (drop n ms)" "length ms = 4" "n \<le> 4"
  then have "replicate (4 - n) Zero = drop n ms" by (intro replicate_eqI [symmetric]) (auto simp: list_all_iff)
  then show ?thesis by (simp add: append_take_drop_id)
qed

lemma block_deserialize_iff:
  assumes n: "n \<le> 4"
  shows "block_deserialize n bs = Inr (b, r) \<longleftrightarrow>
     length (bk_feeds b) = n \<and> block_ok b \<and> bs = block_serialize b @ r" (is "?l \<longleftrightarrow> ?r")
proof
  assume ?l
  then obtain ids lanes ts mb where d: "length ids = n" "length lanes = n" "list_all lane_ok lanes" "length ts = 7"
    "bs = block_layout ids lanes ts mb @ r" "list_all (\<lambda>m. m = Zero) (drop n (unpack_markers mb))"
    and b: "b = \<lparr>bk_feeds = make_feeds ids lanes (unpack_markers mb), bk_timestamp_us = ts56_from_bytes ts\<rparr>"
    unfolding block_deserialize_layout by blast
  let ?fs = "make_feeds ids lanes (unpack_markers mb)"
  have f: "map pe_feed_id ?fs = ids" "map pe_lane ?fs = lanes" "map pe_staleness_marker ?fs = take n (unpack_markers mb)"
    using make_feeds_fields [OF d(1,2), of "unpack_markers mb"] n by simp_all
  have len: "length ?fs = n" using arg_cong [OF f(1), of length] d(1) by simp
  have "block_markers ?fs = unpack_markers mb"
    using zero_tail [OF d(6)] n len by (simp add: block_markers_def f(3))
  moreover have "list_all lane_ok (map pe_lane ?fs)" using d(3) by (simp only: f(2))
  then have "list_all (\<lambda>f. lane_ok (pe_lane f)) ?fs" by (simp add: list_all_iff)
  ultimately show ?r
    using ts56_to_from [OF d(4)] d(5) len n by (simp add: b block_ok_def block_serialize_layout f pack_unpack)
next
  assume r: ?r
  let ?fs = "bk_feeds b"
  have mk: "block_markers ?fs = map pe_staleness_marker ?fs @ replicate (4 - n) Zero" "length (block_markers ?fs) = 4"
    using r n by (simp_all add: block_markers_def)
  have u: "unpack_markers (pack_markers (block_markers ?fs)) = block_markers ?fs" by (rule unpack_pack [OF mk(2)])
  have "b = \<lparr>bk_feeds = make_feeds (map pe_feed_id ?fs) (map pe_lane ?fs) (block_markers ?fs),
      bk_timestamp_us = ts56_from_bytes (ts56_to_bytes (bk_timestamp_us b))\<rparr>"
    using r ts56_from_to [of "bk_timestamp_us b"] by (simp add: mk(1) make_feeds_self block_ok_def)
  moreover have "list_all (\<lambda>m. m = Zero) (drop n (block_markers ?fs))" using r by (simp add: mk(1) list_all_iff)
  moreover have "list_all lane_ok (map pe_lane ?fs)" using r by (simp add: block_ok_def list_all_iff)
  ultimately show ?l
    unfolding block_deserialize_layout
    by (intro exI [of _ "map pe_feed_id ?fs"] exI [of _ "map pe_lane ?fs"] exI [of _ "ts56_to_bytes (bk_timestamp_us b)"]
        exI [of _ "pack_markers (block_markers ?fs)"]) (use r u in \<open>simp add: block_serialize_layout\<close>)
qed

section \<open>Payloads\<close>

lemma read_blocks_iff:
  "list_all (\<lambda>n. n \<le> 4) ns \<Longrightarrow> read_blocks ns bs = Inr (blks, r) \<longleftrightarrow>
     map (length \<circ> bk_feeds) blks = ns \<and> list_all block_ok blks \<and> bs = concat (map block_serialize blks) @ r"
proof (induction ns arbitrary: bs blks)
  case (Cons n ns)
  then have n: "n \<le> 4" and ns: "list_all (\<lambda>n. n \<le> 4) ns" by simp_all
  have "read_blocks (n # ns) bs = Inr (blks, r) \<longleftrightarrow>
      (\<exists>b r1 bl. block_deserialize n bs = Inr (b, r1) \<and> read_blocks ns r1 = Inr (bl, r) \<and> blks = b # bl)"
    by auto
  also have "\<dots> \<longleftrightarrow> (\<exists>b bl. length (bk_feeds b) = n \<and> block_ok b \<and> map (length \<circ> bk_feeds) bl = ns \<and> list_all block_ok bl \<and>
      bs = block_serialize b @ concat (map block_serialize bl) @ r \<and> blks = b # bl)"
    unfolding block_deserialize_iff [OF n] Cons.IH [OF ns] by blast
  also have "\<dots> \<longleftrightarrow> map (length \<circ> bk_feeds) blks = n # ns \<and> list_all block_ok blks \<and> bs = concat (map block_serialize blks) @ r"
    by (cases blks) auto
  finally show ?case .
qed auto

lemma chunk_counts_le: "list_all (\<lambda>n. n \<le> k) (chunk_counts k n)"
  by (induction k n rule: chunk_counts.induct) (subst chunk_counts.simps, auto)

lemma concat_chunks: "0 < k \<Longrightarrow> concat (chunks k xs) = xs"
  by (induction k xs rule: chunks.induct) (subst chunks.simps, auto)

lemma length_chunks: "0 < k \<Longrightarrow> map length (chunks k xs) = chunk_counts k (length xs)"
  by (induction k xs rule: chunks.induct) (subst chunks.simps, subst chunk_counts.simps, auto simp: min.commute)

lemma chunks_concat:
  "0 < k \<Longrightarrow> map length xss = chunk_counts k n \<Longrightarrow> chunks k (concat xss) = xss \<and> length (concat xss) = n"
proof (induction k n arbitrary: xss rule: chunk_counts.induct)
  case (1 k n)
  show ?case
  proof (cases "n = 0")
    case True
    with 1(3) show ?thesis by (simp add: chunk_counts.simps chunks.simps)
  next
    case False
    with 1(2,3) obtain xs yss where xss: "xss = xs # yss" "length xs = min k n" "map length yss = chunk_counts k (n - k)"
      by (subst (asm) chunk_counts.simps) auto
    have ih: "chunks k (concat yss) = yss" "length (concat yss) = n - k"
      using 1(1) [OF _ 1(2) xss(3)] False 1(2) by auto
    have "take k (concat xss) = xs \<and> drop k (concat xss) = concat yss"
    proof (cases "k \<le> n")
      case True
      with xss show ?thesis by simp
    next
      case False
      with ih(2) have e: "concat yss = []" by (simp del: concat_eq_Nil_conv)
      have "length xs \<le> k" using False xss(2) by simp
      then show ?thesis by (simp only: xss(1) concat.simps e append_Nil2) simp
    qed
    moreover have "concat xss \<noteq> []" using False 1(2) xss by auto
    ultimately show ?thesis using ih 1(2) xss by (subst chunks.simps) auto
  qed
qed

definition packed_payload_ok :: "packed_evm_payload \<Rightarrow> bool" where
  "packed_payload_ok p \<longleftrightarrow> pp_feeds p \<noteq> [] \<and> length (pp_feeds p) < 2 ^ 8 \<and>
     list_all (\<lambda>f. lane_ok (pe_lane f)) (pp_feeds p) \<and> pp_timestamp_us p \<le> TS56_MAX"

definition packed_header :: "u8 \<Rightarrow> u8 \<Rightarrow> bytes" where
  "packed_header channel_id num_feeds = put_uint BE 4 PACKED_EVM_PAYLOAD_FORMAT_MAGIC @ [channel_id, num_feeds]"

lemma packed_deserialize_slice_Inr:
  "packed_deserialize_slice data = Inr p \<longleftrightarrow>
     (\<exists>n b blks. data = packed_header (pp_channel_id p) n @ concat (map block_serialize (b # blks)) \<and>
        map (length \<circ> bk_feeds) (b # blks) = chunk_counts 4 (unat n) \<and> list_all block_ok (b # blks) \<and>
        list_all (\<lambda>x. bk_timestamp_us x = bk_timestamp_us b) blks \<and>
        pp_timestamp_us p = bk_timestamp_us b \<and> pp_feeds p = concat (map bk_feeds (b # blks)))" (is "?l \<longleftrightarrow> ?r")
proof -
  have "?l \<longleftrightarrow> (\<exists>r1 r2 n r3 b blks. 6 \<le> length data \<and> read_u32 BE data = Inr (PACKED_EVM_PAYLOAD_FORMAT_MAGIC, r1) \<and>
      read_u8 r1 = Inr (pp_channel_id p, r2) \<and> read_u8 r2 = Inr (n, r3) \<and>
      read_blocks (chunk_counts 4 (unat n)) r3 = Inr (b # blks, []) \<and>
      list_all (\<lambda>x. bk_timestamp_us x = bk_timestamp_us b) blks \<and>
      pp_timestamp_us p = bk_timestamp_us b \<and> pp_feeds p = concat (map bk_feeds (b # blks)))" (is "_ \<longleftrightarrow> ?m")
  proof
    assume ?l
    then show ?m
      by (auto simp: packed_deserialize_slice_def PACKED_HEADER_SIZE_def NUM_FEEDS_def all_equal_def list_all_iff
          split: if_splits list.splits)
  next
    assume ?m
    then obtain r1 r2 n r3 b blks where m: "6 \<le> length data" "read_u32 BE data = Inr (PACKED_EVM_PAYLOAD_FORMAT_MAGIC, r1)"
      "read_u8 r1 = Inr (pp_channel_id p, r2)" "read_u8 r2 = Inr (n, r3)"
      "read_blocks (chunk_counts 4 (unat n)) r3 = Inr (b # blks, [])"
      "list_all (\<lambda>x. bk_timestamp_us x = bk_timestamp_us b) blks"
      "pp_timestamp_us p = bk_timestamp_us b" "pp_feeds p = concat (map bk_feeds (b # blks))" by blast
    have "\<lparr>pp_timestamp_us = bk_timestamp_us b, pp_channel_id = pp_channel_id p, pp_feeds = concat (map bk_feeds (b # blks))\<rparr> = p"
      using m(7,8) by simp
    with m(1-6) show ?l
      by (simp add: packed_deserialize_slice_def PACKED_HEADER_SIZE_def NUM_FEEDS_def all_equal_def list_all_iff)
  qed
  also have "?m \<longleftrightarrow> ?r"
  proof
    assume ?m
    then show ?r
      unfolding id_codec.dec_iff read_u8_Inr_iff read_blocks_iff [OF chunk_counts_le] by (auto simp: packed_header_def)
  next
    assume ?r
    then obtain n b blks where r: "data = packed_header (pp_channel_id p) n @ concat (map block_serialize (b # blks))"
      "map (length \<circ> bk_feeds) (b # blks) = chunk_counts 4 (unat n)" "list_all block_ok (b # blks)"
      "list_all (\<lambda>x. bk_timestamp_us x = bk_timestamp_us b) blks"
      "pp_timestamp_us p = bk_timestamp_us b" "pp_feeds p = concat (map bk_feeds (b # blks))" by blast
    then have "6 \<le> length data" by (simp add: packed_header_def)
    with r show ?m
      unfolding id_codec.dec_iff read_u8_Inr_iff read_blocks_iff [OF chunk_counts_le]
      by (intro exI [of _ n] exI [of _ b] exI [of _ blks] exI) (simp add: packed_header_def)
  qed
  finally show ?thesis .
qed

lemma packed_serialize_Inr:
  "packed_serialize p = Inr data \<longleftrightarrow> length (pp_feeds p) < 2 ^ 8 \<and>
     data = packed_header (pp_channel_id p) (word_of_nat (length (pp_feeds p))) @ concat (map block_serialize (payload_blocks p))"
  by (auto simp: packed_serialize_def len_u8_def packed_header_def)

lemma unat_len_u8: "n < 2 ^ 8 \<Longrightarrow> unat (word_of_nat n :: u8) = n"
  by (simp add: unat_of_nat take_bit_nat_eq_self)

lemma payload_blocks_unique:
  assumes "map (length \<circ> bk_feeds) blks = chunk_counts 4 n" and "pp_feeds p = concat (map bk_feeds blks)"
    and "list_all (\<lambda>x. bk_timestamp_us x = pp_timestamp_us p) blks"
  shows "payload_blocks p = blks" and "length (pp_feeds p) = n"
proof -
  have c: "chunks 4 (pp_feeds p) = map bk_feeds blks \<and> length (pp_feeds p) = n"
    unfolding assms(2) using assms(1) by (intro chunks_concat) simp_all
  then show "length (pp_feeds p) = n" ..
  have "map (\<lambda>x. \<lparr>bk_feeds = bk_feeds x, bk_timestamp_us = pp_timestamp_us p\<rparr>) blks = blks"
    using assms(3) by (intro map_idI) (auto simp: list_all_iff)
  then show "payload_blocks p = blks" using c by (simp add: payload_blocks_def NUM_FEEDS_def comp_def)
qed

lemma payload_blocks_props:
  assumes "packed_payload_ok p"
  shows "map (length \<circ> bk_feeds) (payload_blocks p) = chunk_counts 4 (length (pp_feeds p))"
    and "list_all block_ok (payload_blocks p)" and "pp_feeds p = concat (map bk_feeds (payload_blocks p))"
    and "list_all (\<lambda>x. bk_timestamp_us x = pp_timestamp_us p) (payload_blocks p)" and "payload_blocks p \<noteq> []"
proof -
  have len: "map length (chunks 4 (pp_feeds p)) = chunk_counts 4 (length (pp_feeds p))" by (rule length_chunks) simp
  have cat: "concat (chunks 4 (pp_feeds p)) = pp_feeds p" by (rule concat_chunks) simp
  show "map (length \<circ> bk_feeds) (payload_blocks p) = chunk_counts 4 (length (pp_feeds p))"
    using len by (simp add: payload_blocks_def NUM_FEEDS_def comp_def)
  show "pp_feeds p = concat (map bk_feeds (payload_blocks p))"
    using cat by (simp add: payload_blocks_def NUM_FEEDS_def comp_def)
  then show "payload_blocks p \<noteq> []" using assms by (auto simp: packed_payload_ok_def)
  show "list_all (\<lambda>x. bk_timestamp_us x = pp_timestamp_us p) (payload_blocks p)"
    by (simp add: payload_blocks_def list_all_iff)
  have "length c \<le> 4" if "c \<in> set (chunks 4 (pp_feeds p))" for c
    using chunk_counts_le [of 4 "length (pp_feeds p)"] that unfolding len [symmetric] by (auto simp: list_all_iff)
  moreover have "f \<in> set (pp_feeds p)" if "c \<in> set (chunks 4 (pp_feeds p))" "f \<in> set c" for c f
    using that by (metis UN_I cat set_concat)
  ultimately show "list_all block_ok (payload_blocks p)"
    using assms by (auto simp: payload_blocks_def NUM_FEEDS_def list_all_iff block_ok_def packed_payload_ok_def)
qed

lemma packed_payload_iff:
  "packed_deserialize_slice data = Inr p \<longleftrightarrow> packed_payload_ok p \<and> packed_serialize p = Inr data"
proof
  assume "packed_deserialize_slice data = Inr p"
  then obtain n b blks where d: "data = packed_header (pp_channel_id p) n @ concat (map block_serialize (b # blks))"
    "map (length \<circ> bk_feeds) (b # blks) = chunk_counts 4 (unat n)" "list_all block_ok (b # blks)"
    "list_all (\<lambda>x. bk_timestamp_us x = bk_timestamp_us b) blks"
    "pp_timestamp_us p = bk_timestamp_us b" "pp_feeds p = concat (map bk_feeds (b # blks))"
    unfolding packed_deserialize_slice_Inr by blast
  have "list_all (\<lambda>x. bk_timestamp_us x = pp_timestamp_us p) (b # blks)" using d(4,5) by (simp add: list_all_iff)
  note u = payload_blocks_unique [OF d(2,6) this]
  have "unat n \<noteq> 0" using d(2) by (cases "unat n = 0") (simp_all add: chunk_counts.simps)
  moreover have "list_all (\<lambda>f. lane_ok (pe_lane f)) (pp_feeds p)" "pp_timestamp_us p \<le> TS56_MAX"
    using d(3,5,6) by (auto simp: block_ok_def list_all_iff)
  ultimately show "packed_payload_ok p \<and> packed_serialize p = Inr data"
    unfolding packed_serialize_Inr u(1) using u(2) d(1) by (auto simp: packed_payload_ok_def)
next
  assume a: "packed_payload_ok p \<and> packed_serialize p = Inr data"
  then obtain b blks where b: "payload_blocks p = b # blks"
    using payload_blocks_props(5) by (meson neq_Nil_conv)
  note pr = payload_blocks_props [OF conjunct1 [OF a], unfolded b]
  have n: "length (pp_feeds p) < 2 ^ 8" using a by (simp add: packed_payload_ok_def)
  have d: "data = packed_header (pp_channel_id p) (word_of_nat (length (pp_feeds p))) @ concat (map block_serialize (b # blks))"
    using a unfolding packed_serialize_Inr b by blast
  show "packed_deserialize_slice data = Inr p"
    unfolding packed_deserialize_slice_Inr
  proof (rule exI [of _ "word_of_nat (length (pp_feeds p))"], rule exI [of _ b], rule exI [of _ blks], intro conjI)
    show "map (length \<circ> bk_feeds) (b # blks) = chunk_counts 4 (unat (word_of_nat (length (pp_feeds p)) :: u8))"
      unfolding unat_len_u8 [OF n] by (rule pr(1))
    show "list_all (\<lambda>x. bk_timestamp_us x = bk_timestamp_us b) blks" "pp_timestamp_us p = bk_timestamp_us b"
      using pr(4) by (simp_all add: list_all_iff)
  qed (fact d pr(2) pr(3))+
qed

section \<open>Building payloads\<close>

lemma lane_for_ok: "lane_ok (lane_for data)"
  by (auto simp: lane_ok_def lane_for_def LANE_UNAVAILABLE_def lane_encode_def pack_price_ok confidence_new_def Let_def
      split: option.splits)

lemma from_aggregated_ok:
  assumes "from_aggregated ts ch ids feeds = Inr p"
  shows "map pe_feed_id (pp_feeds p) = ids" and "length ids < 2 ^ 8 \<Longrightarrow> packed_payload_ok p"
proof -
  have p: "pp_timestamp_us p = ts" "ts \<le> TS56_MAX" "ids \<noteq> []"
    "pp_feeds p = map (\<lambda>i. let data = map_option snd (find (\<lambda>(j, _). j = i) feeds) in
       \<lparr>pe_feed_id = i, pe_lane = lane_for data, pe_staleness_marker = staleness_marker_for data ts\<rparr>) ids"
    using assms by (auto simp: from_aggregated_def ts56_new_def Let_def split: if_splits)
  show "map pe_feed_id (pp_feeds p) = ids" by (simp add: p(4) Let_def comp_def)
  show "length ids < 2 ^ 8 \<Longrightarrow> packed_payload_ok p"
    using p by (auto simp: packed_payload_ok_def Let_def list_all_iff lane_for_ok)
qed

lemma relative_hundredths_bps_Some:
  "relative_hundredths_bps (scast c) price = Some h \<longleftrightarrow>
     0 < sint price \<and> 0 \<le> sint c \<and> uint h = (sint c * 1000000 + sint price div 2) div sint price"
  for c :: i64
proof (cases "0 < sint price \<and> 0 \<le> sint c")
  case True
  then have pr: "0 < sint price" "sint price < 2 ^ 63" and c: "0 \<le> sint c" "sint c < 2 ^ 63"
    using sint_range_upper [of price] sint_range_upper [of c] by simp_all
  define X where "X = sint c * 1000000 + sint price div 2"
  have half: "0 \<le> sint price div 2" "sint price div 2 < 2 ^ 62" using pr by simp_all
  have xb: "0 \<le> X" "X < 2 ^ 127" using c half by (simp_all add: X_def)
  obtain x :: i128 where x: "to_signed (sint c * 1000000) = Some x" "sint x = sint c * 1000000"
    by (rule to_signed_in_range [of "sint c * 1000000", where 'a = 128]) (use c in simp_all)
  obtain y :: i128 where y: "to_signed (sint price div 2) = Some y" "sint y = sint price div 2"
    by (rule to_signed_in_range [of "sint price div 2", where 'a = 128]) (use half in simp_all)
  have yw: "(word_of_int (sint price div 2) :: i128) = y"
    using y(1) by (simp add: to_signed_def split: if_splits)
  obtain z :: i128 where z: "to_signed X = Some z" "sint z = X"
    by (rule to_signed_in_range [of X, where 'a = 128]) (use xb in simp_all)
  have "0 \<le> X div sint price" "X div sint price \<le> X"
    using pr xb zdiv_mono2 [of X 1 "sint price"] by (simp_all add: pos_imp_zdiv_nonneg_iff)
  then obtain q :: i128 where q: "to_signed (X div sint price) = Some q" "sint q = X div sint price"
    using xb to_signed_in_range [of "X div sint price", where 'a = 128] by force
  have nz: "(scast price :: i128) \<noteq> 0" using pr sint_widen [of price] by (metis signed_0 less_irrefl)
  have "relative_hundredths_bps (scast c) price = to_unsigned (sint q)"
    using True x y(2) z q nz pr xb
    by (simp add: relative_hundredths_bps_def HUNDREDTHS_BPS_PER_UNIT_def Let_def checked_mul_s_def checked_add_s_def
        checked_div_s_def yw sdiv_nonneg X_def [symmetric])
  with True show ?thesis by (simp add: to_unsigned_Some_iff q(2) X_def)
qed (auto simp: relative_hundredths_bps_def)

section \<open>Properties\<close>

text \<open>C24: The packed payload format is canonical.  The parser accepts exactly the bytes that the
  serializer writes for well-formed payloads (between 1 and 255 feeds, a timestamp of 56 bits, lanes that
  are not an ambiguous form of the reserved patterns), and returns the payload that was written; padding
  must be zero, all blocks must agree on the timestamp and nothing may follow.\<close>

theorem packed_payload_exact:
  "packed_deserialize_slice data = Inr p \<longleftrightarrow>
     pp_feeds p \<noteq> [] \<and> list_all (\<lambda>f. lane_ok (pe_lane f)) (pp_feeds p) \<and> pp_timestamp_us p \<le> TS56_MAX \<and>
     packed_serialize p = Inr data"
  using packed_payload_iff [of data p] packed_serialize_Inr [of p data] by (auto simp: packed_payload_ok_def)

text \<open>Aggregated data survives the packed format.  A payload built from aggregated data has one slot
  for each requested feed in the requested order; it can be written if and only if at most 255 feeds were
  requested, and what was written is read back unchanged.\<close>

theorem packed_aggregated_round_trip:
  assumes "from_aggregated timestamp_us channel_id feed_ids feeds = Inr p"
  shows "map pe_feed_id (pp_feeds p) = feed_ids \<and>
    (is_ok (packed_serialize p) \<longleftrightarrow> length feed_ids \<le> 255) \<and>
    (packed_serialize p = Inr data \<longrightarrow> packed_deserialize_slice data = Inr p)"
proof -
  note ids = from_aggregated_ok(1) [OF assms]
  have len: "length (pp_feeds p) = length feed_ids" using arg_cong [OF ids, of length] by simp
  have "is_ok (packed_serialize p) \<longleftrightarrow> length feed_ids < 2 ^ 8"
    unfolding is_ok_iff packed_serialize_Inr len by blast
  moreover have "packed_serialize p = Inr data \<Longrightarrow> packed_deserialize_slice data = Inr p"
    unfolding packed_payload_iff using from_aggregated_ok(2) [OF assms] packed_serialize_Inr [of p data] len by simp
  ultimately show ?thesis using ids by auto
qed

theorem packed_aggregated_round_trip_witness:
  "let data = (aggregated_empty (- 8) Regular 77)\<lparr>ag_price := Some 6713436287632, ag_confidence := Some 288677760\<rparr>
   in \<exists>p. from_aggregated 78 1 [5, 6] [(6, data)] = Inr p \<and> map pe_feed_id (pp_feeds p) = [5, 6] \<and>
        is_ok (packed_serialize p)"
proof -
  let ?data = "(aggregated_empty (- 8) Regular 77)\<lparr>ag_price := Some 6713436287632, ag_confidence := Some 288677760\<rparr>"
  obtain p where p: "from_aggregated 78 1 [5, 6] [(6, ?data)] = Inr p"
    by (simp add: from_aggregated_def ts56_new_def TS56_MAX_def Let_def)
  with packed_aggregated_round_trip [OF p, of "[]"] show ?thesis by (simp add: Let_def)
qed

text \<open>The confidence of a lane.  The confidence stored in a lane is the ratio of the confidence to the
  price in hundredths of a basis point, rounded to the nearest integer with halves up; it is unavailable
  exactly when the feed has no confidence, the price is not positive, the confidence is negative or the
  ratio does not fit below the reserved value 65535.\<close>

theorem lane_confidence_exact:
  "ln_confidence (lane_encode q) = Conf_Available h \<longleftrightarrow>
     (\<exists>c. qt_confidence q = Some c \<and> 0 < sint (qt_price q) \<and> 0 \<le> sint c \<and> uint h < 65535 \<and>
        uint h = (sint c * 1000000 + sint (qt_price q) div 2) div sint (qt_price q))"
proof -
  have h: "uint h < 65535 \<longleftrightarrow> h \<noteq> - 1" using uint_range_upper [of h]
    by (auto simp: word_uint_eq_iff unsigned_minus_1_eq_mask mask_eq_exp_minus_1)
  have "ln_confidence (lane_encode q) = Conf_Available h \<longleftrightarrow>
      (\<exists>c. qt_confidence q = Some c \<and> relative_hundredths_bps (scast c) (qt_price q) = Some h \<and> h \<noteq> - 1)"
    by (auto simp: lane_encode_def Let_def confidence_new_def bind_eq_Some_conv split: option.splits)
  then show ?thesis unfolding relative_hundredths_bps_Some h by blast
qed

text \<open>Staleness markers.  The marker of an age is the one with the smallest ceiling that the age does
  not exceed, the unbounded one exactly above five seconds, and four markers are recovered from the byte
  they are packed into.\<close>

theorem staleness_marker_exact:
  "(case max_age (from_age a) of Some x \<Rightarrow> a \<le> x | None \<Rightarrow> dur_from_secs_u32 5 < a) \<and>
   (max_age m = Some x \<and> a \<le> x \<longrightarrow> (\<exists>y. max_age (from_age a) = Some y \<and> y \<le> x)) \<and>
   unpack_markers (pack_markers [m1, m2, m3, m4]) = [m1, m2, m3, m4]"
proof -
  have s: "dur_from_secs_u32 1 = 1000000" "dur_from_secs_u32 5 = 5000000" by (simp_all add: dur_from_secs_u32_def)
  have "unpack_markers (pack_markers [m1, m2, m3, m4]) = [m1, m2, m3, m4]" by (rule unpack_pack) simp
  moreover have "max_age m = Some x \<and> a \<le> x \<longrightarrow> (\<exists>y. max_age (from_age a) = Some y \<and> y \<le> x)"
    by (cases m) (auto simp: from_age_def s)
  ultimately show ?thesis by (auto simp: from_age_def s)
qed

theorem staleness_marker_exact_witness:
  "from_age 4000000 = FiveSecondsOrLess \<and> (\<exists>y. max_age (from_age 4000000) = Some y \<and> y \<le> dur_from_secs_u32 5)"
  using staleness_marker_exact [of 4000000 FiveSecondsOrLess "dur_from_secs_u32 5" Zero Zero Zero Zero]
  by (simp add: from_age_def dur_from_secs_u32_def)

end
