(* ===== verification/Lazer_Api.thy ===== *)
theory Lazer_Api
  imports Lazer_Time Lazer_Payload
begin

text \<open>
  Requests of the HTTP and WebSocket APIs (\<^verbatim>\<open>sdk/rust/protocol/src/api.rs\<close>): the channels with
  their identifiers and names, the payload formats, the three kinds of price request with the validation
  they share, and the payload layout a request asks for.  The JSON forms are produced by
  \<^verbatim>\<open>serde\<close>; what the source itself writes of them, the names of channels and the visitor of the
  channel type, is modelled.
\<close>

section \<open>Decimal numbers\<close>

text \<open>
  \<open>dec\<close> is the \<^verbatim>\<open>Display\<close> of an unsigned integer, \<open>parse_uint\<close> the \<^verbatim>\<open>FromStr\<close> of the unsigned
  integer types: an optional plus sign, then at least one digit, accumulated with checked operations.
\<close>

definition digit_char :: "nat \<Rightarrow> char" where
  "digit_char d = char_of (48 + d)"

fun dec :: "nat \<Rightarrow> string" where
  "dec n = (if n < 10 then [digit_char n] else dec (n div 10) @ [digit_char (n mod 10)])"

declare dec.simps [simp del]

definition digit_value :: "char \<Rightarrow> nat option" where
  "digit_value c = (let k = of_char c :: nat in if 48 \<le> k \<and> k \<le> 57 then Some (k - 48) else None)"

fun parse_digits :: "'a::len word \<Rightarrow> string \<Rightarrow> 'a word option" where
  "parse_digits acc [] = Some acc"
| "parse_digits acc (c # cs) =
    Option.bind (digit_value c) (\<lambda>d.
    Option.bind (checked_mul_u acc 10) (\<lambda>m.
    Option.bind (checked_add_u m (of_nat d)) (\<lambda>a. parse_digits a cs)))"

definition parse_uint :: "string \<Rightarrow> 'a::len word option" where
  "parse_uint s =
    (if s = [] \<or> s = ''+'' then None
     else if hd s = CHR ''+'' then parse_digits 0 (tl s)
     else parse_digits 0 s)"

definition strip_prefix :: "string \<Rightarrow> string \<Rightarrow> string option" where
  "strip_prefix p s = (if take (length p) s = p then Some (drop (length p) s) else None)"

definition strip_suffix :: "string \<Rightarrow> string \<Rightarrow> string option" where
  "strip_suffix p s = map_option rev (strip_prefix (rev p) (rev s))"

section \<open>Channels\<close>

datatype delivery_format = DF_Json | DF_Binary

datatype api_format = F_Evm | F_Solana | F_LeEcdsa | F_LeUnsigned | F_PackedEvmEcdsa

fun requires_signing :: "api_format \<Rightarrow> bool" where
  "requires_signing F_LeUnsigned = False"
| "requires_signing _ = True"

datatype json_binary_encoding = Base64 | Hex

type_synonym channel_id = u8

definition REAL_TIME :: channel_id where "REAL_TIME = 1"
definition FIXED_RATE_50 :: channel_id where "FIXED_RATE_50 = 2"
definition FIXED_RATE_200 :: channel_id where "FIXED_RATE_200 = 3"
definition FIXED_RATE_1000 :: channel_id where "FIXED_RATE_1000 = 4"

text \<open>The field of a \<^verbatim>\<open>FixedRate\<close> is private; the values the crate can build are the list
  \<open>ALL_RATES\<close>, which is the well-formedness of a channel.\<close>

datatype api_channel = Ch_FixedRate duration_us | Ch_RealTime

fun channel_ok :: "api_channel \<Rightarrow> bool" where
  "channel_ok (Ch_FixedRate r) = (r \<in> set ALL_RATES)"
| "channel_ok Ch_RealTime = True"

definition MIN_RATE :: duration_us where "MIN_RATE = hd ALL_RATES"

fun channel_rate :: "api_channel \<Rightarrow> duration_us" where
  "channel_rate (Ch_FixedRate r) = r"
| "channel_rate Ch_RealTime = MIN_RATE"

datatype ordering = Less | Equal | Greater

definition cmp_u :: "'a::len word \<Rightarrow> 'a word \<Rightarrow> ordering" where
  "cmp_u a b = (if a < b then Less else if a = b then Equal else Greater)"

definition channel_partial_cmp :: "api_channel \<Rightarrow> api_channel \<Rightarrow> ordering option" where
  "channel_partial_cmp a b = Some (cmp_u (channel_rate a) (channel_rate b))"

fun channel_display :: "api_channel \<Rightarrow> string" where
  "channel_display (Ch_FixedRate r) = ''fixed_rate@'' @ dec (unat (dur_as_millis r)) @ ''ms''"
| "channel_display Ch_RealTime = ''real_time''"

text \<open>\<open>channel_identifier\<close> is \<^verbatim>\<open>Channel::id\<close>; \<open>None\<close> is its panic.\<close>

fun channel_identifier :: "api_channel \<Rightarrow> channel_id option" where
  "channel_identifier (Ch_FixedRate r) =
    (let ms = dur_as_millis r in
     if ms = 50 then Some FIXED_RATE_50
     else if ms = 200 then Some FIXED_RATE_200
     else if ms = 1000 then Some FIXED_RATE_1000
     else None)"
| "channel_identifier Ch_RealTime = Some REAL_TIME"

definition channel_try_from :: "channel_id \<Rightarrow> channel_id + api_channel" where
  "channel_try_from i =
    (if i = REAL_TIME then Inr Ch_RealTime
     else if i = FIXED_RATE_50 then Inr (Ch_FixedRate RATE_50_MS)
     else if i = FIXED_RATE_200 then Inr (Ch_FixedRate RATE_200_MS)
     else if i = FIXED_RATE_1000 then Inr (Ch_FixedRate RATE_1000_MS)
     else Inl i)"

definition ok_option :: "'e + 'a \<Rightarrow> 'a option" where
  "ok_option r = (case r of Inl _ \<Rightarrow> None | Inr x \<Rightarrow> Some x)"

definition parse_channel_name :: "string \<Rightarrow> api_channel option" where
  "parse_channel_name value =
    (if value = ''real_time'' then Some Ch_RealTime
     else case strip_prefix ''fixed_rate@'' value of
       Some rest \<Rightarrow>
         Option.bind (strip_suffix ''ms'' rest) (\<lambda>ms_value.
         Option.bind (parse_uint ms_value :: u32 option) (\<lambda>ms.
         map_option Ch_FixedRate (fixed_rate_from_millis ms)))
     | None \<Rightarrow>
         (case parse_uint value :: u8 option of
            Some i \<Rightarrow> ok_option (channel_try_from i)
          | None \<Rightarrow> None))"

text \<open>The visitor of the channel's deserializer, on JSON strings and on JSON numbers.\<close>

definition visit_str :: "string \<Rightarrow> string + api_channel" where
  "visit_str value = ok_or ''unknown channel'' (parse_channel_name value)"

definition visit_u64 :: "u64 \<Rightarrow> string + api_channel" where
  "visit_u64 value =
    and_then (ok_or ''channel ID out of range'' (to_unsigned (uint value) :: u8 option)) (\<lambda>i.
    map_err (\<lambda>_. ''unknown channel ID'') (channel_try_from i))"

section \<open>Requests\<close>

type_synonym feed_ids = "u32 list option"
type_synonym symbols = "string list option"

record latest_price_request =
  lp_price_feed_ids :: feed_ids
  lp_symbols :: symbols
  lp_properties :: "price_feed_property list"
  lp_formats :: "api_format list"
  lp_json_binary_encoding :: json_binary_encoding
  lp_parsed :: bool
  lp_channel :: api_channel

record price_request =
  rq_timestamp :: timestamp_us
  rq_price_feed_ids :: feed_ids
  rq_symbols :: symbols
  rq_properties :: "price_feed_property list"
  rq_formats :: "api_format list"
  rq_json_binary_encoding :: json_binary_encoding
  rq_parsed :: bool
  rq_channel :: api_channel

record subscription_params =
  sp_price_feed_ids :: feed_ids
  sp_symbols :: symbols
  sp_properties :: "price_feed_property list"
  sp_formats :: "api_format list"
  sp_delivery_format :: delivery_format
  sp_json_binary_encoding :: json_binary_encoding
  sp_parsed :: bool
  sp_channel :: api_channel
  sp_ignore_invalid_feeds :: bool

definition validate_price_feed_ids_or_symbols :: "feed_ids \<Rightarrow> symbols \<Rightarrow> string + unit" where
  "validate_price_feed_ids_or_symbols price_feed_ids syms =
    (if price_feed_ids = None \<and> syms = None
     then Inl ''either price feed ids or symbols must be specified''
     else if price_feed_ids \<noteq> None \<and> syms \<noteq> None
     then Inl ''either price feed ids or symbols must be specified, not both''
     else Inr ())"

definition validate_unique_elements :: "'a list option \<Rightarrow> string \<Rightarrow> string \<Rightarrow> string + unit" where
  "validate_unique_elements vec empty_msg duplicate_msg =
    (case vec of
       Some items \<Rightarrow>
         if items = [] then Inl empty_msg
         else if \<not> distinct items then Inl duplicate_msg
         else Inr ()
     | None \<Rightarrow> Inr ())"

definition validate_requested_payload :: "price_feed_property list \<Rightarrow> api_format list \<Rightarrow> string + unit" where
  "validate_requested_payload properties formats =
    (if \<not> distinct formats then Inl ''duplicate formats or chains specified''
     else if F_PackedEvmEcdsa \<in> set formats then
       (if length formats \<noteq> 1 then Inl ''packedEvmEcdsa cannot be combined with other formats''
        else if properties \<noteq> [] then Inl ''packedEvmEcdsa fixes the properties it carries; do not specify any''
        else Inr ())
     else if properties = [] then Inl ''no properties specified''
     else if \<not> distinct properties then Inl ''duplicate properties specified''
     else Inr ())"

definition validate_price_request ::
  "feed_ids \<Rightarrow> symbols \<Rightarrow> price_feed_property list \<Rightarrow> api_format list \<Rightarrow> string + unit" where
  "validate_price_request price_feed_ids syms properties formats =
    and_then (validate_price_feed_ids_or_symbols price_feed_ids syms) (\<lambda>_.
    and_then (validate_unique_elements price_feed_ids ''no price feed ids specified''
                ''duplicate price feed ids specified'') (\<lambda>_.
    and_then (validate_unique_elements syms ''no symbols specified'' ''duplicate symbols specified'') (\<lambda>_.
    validate_requested_payload properties formats)))"

definition latest_price_request_new :: "latest_price_request \<Rightarrow> string + latest_price_request" where
  "latest_price_request_new value =
    and_then (validate_price_request (lp_price_feed_ids value) (lp_symbols value)
                (lp_properties value) (lp_formats value)) (\<lambda>_. Inr value)"

definition price_request_new :: "price_request \<Rightarrow> string + price_request" where
  "price_request_new value =
    and_then (validate_price_request (rq_price_feed_ids value) (rq_symbols value)
                (rq_properties value) (rq_formats value)) (\<lambda>_. Inr value)"

definition subscription_params_new :: "subscription_params \<Rightarrow> string + subscription_params" where
  "subscription_params_new value =
    and_then (validate_price_request (sp_price_feed_ids value) (sp_symbols value)
                (sp_properties value) (sp_formats value)) (\<lambda>_. Inr value)"

section \<open>Payload layouts\<close>

datatype payload_layout =
    Layout_Standard "price_feed_property list" "api_format list"
  | Layout_PackedEvm

definition PACKED_EVM_PROPERTIES :: "price_feed_property list" where
  "PACKED_EVM_PROPERTIES = [P_Price, P_Confidence, P_Exponent, P_FeedUpdateTimestamp]"

fun layout_properties :: "payload_layout \<Rightarrow> price_feed_property list" where
  "layout_properties (Layout_Standard properties _) = properties"
| "layout_properties Layout_PackedEvm = PACKED_EVM_PROPERTIES"

fun layout_formats :: "payload_layout \<Rightarrow> api_format list" where
  "layout_formats (Layout_Standard _ formats) = formats"
| "layout_formats Layout_PackedEvm = [F_PackedEvmEcdsa]"

definition subscription_layout :: "subscription_params \<Rightarrow> payload_layout" where
  "subscription_layout r =
    (if F_PackedEvmEcdsa \<in> set (sp_formats r) then Layout_PackedEvm
     else Layout_Standard (sp_properties r) (sp_formats r))"

definition latest_price_layout :: "latest_price_request \<Rightarrow> payload_layout" where
  "latest_price_layout r =
    (if F_PackedEvmEcdsa \<in> set (lp_formats r) then Layout_PackedEvm
     else Layout_Standard (lp_properties r) (lp_formats r))"

definition price_request_layout :: "price_request \<Rightarrow> payload_layout" where
  "price_request_layout r =
    (if F_PackedEvmEcdsa \<in> set (rq_formats r) then Layout_PackedEvm
     else Layout_Standard (rq_properties r) (rq_formats r))"

section \<open>Facts about decimal numbers\<close>

lemma digit_value_char: "d < 10 \<Longrightarrow> digit_value (digit_char d) = Some d"
  by (simp add: digit_value_def digit_char_def)

lemma digit_char_not_plus: "d < 10 \<Longrightarrow> digit_char d \<noteq> CHR ''+''"
proof
  assume "d < 10" and "digit_char d = CHR ''+''"
  then have "of_char (digit_char d) = (43 :: nat)" by simp
  then show False using \<open>d < 10\<close> by (simp add: digit_char_def)
qed

lemma parse_digits_append:
  "parse_digits acc (cs @ ds) = Option.bind (parse_digits acc cs) (\<lambda>a. parse_digits a ds)"
  by (induction cs arbitrary: acc) (auto split: bind_splits)

lemma dec_digits: "set (dec n) \<subseteq> digit_char ` {..<10}"
  by (induction n rule: dec.induct) (subst dec.simps, auto)

lemma dec_not_Nil: "dec n \<noteq> []"
  by (subst dec.simps) simp

lemma parse_digits_dec:
  assumes "n < 2 ^ LENGTH('a)" and "4 \<le> LENGTH('a)"
  shows "parse_digits (0 :: 'a::len word) (dec n) = Some (of_nat n)"
  using assms(1)
proof (induction n rule: dec.induct)
  case (1 n)
  have ten: "(10 :: nat) < 2 ^ LENGTH('a)"
    using power_increasing [OF assms(2), of "2 :: nat"] by simp
  have small: "uint (of_nat k :: 'a word) = int k" if "k < 2 ^ LENGTH('a)" for k
    using uint_word_of_int_small [where 'a = 'a, of "int k"] that
    by (metis of_int_of_nat_eq of_nat_0_le_iff of_nat_less_numeral_power_cancel_iff)
  have ten': "uint (10 :: 'a word) = 10" using small [of 10] ten by simp
  have dig: "uint (of_nat (n mod 10) :: 'a word) = int (n mod 10)"
    by (rule small) (use ten mod_less_divisor [of 10 n] in linarith)
  show ?case
  proof (cases "n < 10")
    case True
    then have "checked_mul_u (0 :: 'a word) 10 = Some 0"
      by (intro checked_mul_u_Some_iff [THEN iffD2]) simp
    moreover have "checked_add_u (0 :: 'a word) (of_nat n) = Some (of_nat n)"
      by (intro checked_add_u_Some_iff [THEN iffD2]) simp
    ultimately show ?thesis
      using True by (subst dec.simps) (simp add: digit_value_char)
  next
    case False
    have q: "n div 10 < 2 ^ LENGTH('a)" using 1(2) by simp
    have ih: "parse_digits (0 :: 'a word) (dec (n div 10)) = Some (of_nat (n div 10))"
      using 1 False q by simp
    have split: "n = n div 10 * 10 + n mod 10" by simp
    have lt: "int (n div 10) * 10 + int (n mod 10) < 2 ^ LENGTH('a)"
      using 1(2) split by (metis of_nat_add of_nat_less_numeral_power_cancel_iff of_nat_mult of_nat_numeral)
    have m: "checked_mul_u (of_nat (n div 10) :: 'a word) 10 = Some (of_nat (n div 10) * 10)"
      by (rule checked_mul_u_ok) (use lt small [OF q] ten' in simp)
    then have um: "uint (of_nat (n div 10) * 10 :: 'a word) = int (n div 10) * 10"
      unfolding checked_mul_u_Some_iff using small [OF q] ten' by simp
    have a: "checked_add_u (of_nat (n div 10) * 10 :: 'a word) (of_nat (n mod 10)) =
        Some (of_nat (n div 10) * 10 + of_nat (n mod 10))"
      by (rule checked_add_u_ok) (use lt um dig in simp)
    have "(of_nat (n div 10) * 10 + of_nat (n mod 10) :: 'a word) = of_nat n"
      by (metis of_nat_add of_nat_mult of_nat_numeral split)
    then show ?thesis
      using False ih m a by (subst dec.simps) (simp add: parse_digits_append digit_value_char)
  qed
qed

lemma parse_uint_dec:
  assumes "n < 2 ^ LENGTH('a)" and "4 \<le> LENGTH('a)"
  shows "parse_uint (dec n) = Some (of_nat n :: 'a::len word)"
proof -
  have "hd (dec n) \<in> digit_char ` {..<10}" using dec_digits dec_not_Nil by (metis hd_in_set subsetD)
  then have "hd (dec n) \<noteq> CHR ''+''" using digit_char_not_plus by (metis imageE lessThan_iff)
  moreover from this have "dec n \<noteq> ''+''" by auto
  ultimately show ?thesis
    using parse_digits_dec [OF assms] dec_not_Nil [of n] by (simp add: parse_uint_def)
qed

lemma strip_prefix_append [simp]: "strip_prefix p (p @ s) = Some s"
  by (simp add: strip_prefix_def)

lemma strip_suffix_append [simp]: "strip_suffix p (s @ p) = Some s"
  by (simp add: strip_suffix_def)

lemma strip_prefix_Some_iff: "strip_prefix p s = Some r \<longleftrightarrow> s = p @ r"
  by (auto simp: strip_prefix_def) (metis append_take_drop_id)

lemma and_then_const: "and_then m (\<lambda>_. Inr v) = map_ok (\<lambda>_. v) m"
  by (cases m) simp_all

section \<open>Facts about channels\<close>

lemma rate_values: "RATE_50_MS = 50000" "RATE_200_MS = 200000" "RATE_1000_MS = 1000000"
  by (simp_all add: RATE_50_MS_def RATE_200_MS_def RATE_1000_MS_def dur_from_millis_u32_def)

lemmas channel_id_defs = REAL_TIME_def FIXED_RATE_50_def FIXED_RATE_200_def FIXED_RATE_1000_def

lemma channel_ok_cases:
  assumes "channel_ok c"
  obtains (RealTime) "c = Ch_RealTime"
    | (Rate50) "c = Ch_FixedRate RATE_50_MS"
    | (Rate200) "c = Ch_FixedRate RATE_200_MS"
    | (Rate1000) "c = Ch_FixedRate RATE_1000_MS"
  using assms by (cases c) (auto simp: ALL_RATES_def)

lemma channel_try_from_ok: "channel_try_from i = Inr c \<Longrightarrow> channel_ok c"
  by (auto simp: channel_try_from_def ALL_RATES_def split: if_splits)

lemma fixed_rate_from_millis_ok: "fixed_rate_from_millis ms = Some r \<Longrightarrow> r \<in> set ALL_RATES"
  by (auto simp: fixed_rate_from_millis_def find_Some_iff)

lemma ok_option_Some_iff [simp]: "ok_option r = Some x \<longleftrightarrow> r = Inr x"
  by (cases r) (simp_all add: ok_option_def)

lemma parse_channel_name_ok: "parse_channel_name s = Some c \<Longrightarrow> channel_ok c"
  by (auto simp: parse_channel_name_def bind_eq_Some_conv channel_try_from_ok fixed_rate_from_millis_ok
      split: if_splits option.splits)

lemma visit_u64_Inr_iff:
  "visit_u64 v = Inr c \<longleftrightarrow> uint v < 256 \<and> channel_try_from (ucast v) = Inr c"
  by (auto simp: visit_u64_def to_unsigned_def map_err_Inr_iff)

lemma fixed_rate_from_millis_values:
  "fixed_rate_from_millis 50 = Some RATE_50_MS"
  "fixed_rate_from_millis 200 = Some RATE_200_MS"
  "fixed_rate_from_millis 1000 = Some RATE_1000_MS"
  by (simp_all add: fixed_rate_from_millis_def ALL_RATES_def rate_values dur_as_millis_def)

lemma parse_fixed_rate_name:
  assumes "n < 2 ^ 32" and "fixed_rate_from_millis (of_nat n) = Some r"
  shows "parse_channel_name (''fixed_rate@'' @ dec n @ ''ms'') = Some (Ch_FixedRate r)"
proof -
  have "parse_uint (dec n) = Some (of_nat n :: u32)" by (rule parse_uint_dec) (use assms(1) in simp_all)
  moreover have "strip_prefix ''fixed_rate@'' (''fixed_rate@'' @ dec n @ ''ms'') = Some (dec n @ ''ms'')"
    by (rule strip_prefix_append)
  ultimately show ?thesis
    using assms(2) strip_suffix_append [of "''ms''" "dec n"] by (simp add: parse_channel_name_def)
qed

lemma parse_display:
  "parse_channel_name ''real_time'' = Some Ch_RealTime"
  "parse_channel_name (channel_display (Ch_FixedRate RATE_50_MS)) = Some (Ch_FixedRate RATE_50_MS)"
  "parse_channel_name (channel_display (Ch_FixedRate RATE_200_MS)) = Some (Ch_FixedRate RATE_200_MS)"
  "parse_channel_name (channel_display (Ch_FixedRate RATE_1000_MS)) = Some (Ch_FixedRate RATE_1000_MS)"
  using parse_fixed_rate_name [of 50 RATE_50_MS] parse_fixed_rate_name [of 200 RATE_200_MS]
    parse_fixed_rate_name [of 1000 RATE_1000_MS]
  by (simp_all add: fixed_rate_from_millis_values rate_values dur_as_millis_def)
     (simp add: parse_channel_name_def)

lemma visit_identifier: "visit_str (dec (unat i)) = ok_or ''unknown channel'' (ok_option (channel_try_from i))"
proof -
  have p: "parse_uint (dec (unat i)) = Some i" using parse_uint_dec [of "unat i", where 'a = 8] by simp
  have d: "hd (dec (unat i)) \<in> digit_char ` {..<10}" using dec_digits dec_not_Nil by (metis hd_in_set subsetD)
  have n: "digit_char k \<noteq> CHR ''r'' \<and> digit_char k \<noteq> CHR ''f''" if "k < 10" for k
    using that digit_value_char [of k] by (auto simp: digit_value_def)
  have h: "hd (dec (unat i)) \<noteq> CHR ''r''" "hd (dec (unat i)) \<noteq> CHR ''f''"
    using d n by (metis imageE lessThan_iff)+
  then have "dec (unat i) \<noteq> ''real_time''" by (metis list.sel(1))
  moreover have "strip_prefix ''fixed_rate@'' (dec (unat i)) = None"
  proof (cases "strip_prefix ''fixed_rate@'' (dec (unat i))")
    case (Some r)
    then have "dec (unat i) = ''fixed_rate@'' @ r" by (simp only: strip_prefix_Some_iff)
    with h show ?thesis by simp
  qed
  ultimately show ?thesis using p by (simp add: visit_str_def parse_channel_name_def)
qed

text \<open>C21: Channels are well typed and their two names are exact.  Every channel that the crate obtains from
  an identifier, a JSON number or a string is one of the supported ones; on those \<^verbatim>\<open>Channel::id\<close>
  does not panic, and the channel is recovered from its identifier, from its identifier as a JSON number
  and from its name.\<close>

theorem channel_names_round_trip:
  "(\<forall>i c. channel_try_from i = Inr c \<longrightarrow> channel_ok c \<and> channel_identifier c = Some i) \<and>
   (\<forall>v c. visit_u64 v = Inr c \<longrightarrow> channel_ok c) \<and> (\<forall>s c. visit_str s = Inr c \<longrightarrow> channel_ok c) \<and>
   (\<forall>c. channel_ok c \<longrightarrow>
      (\<exists>i. channel_identifier c = Some i \<and> channel_try_from i = Inr c \<and> visit_u64 (ucast i) = Inr c \<and>
           visit_str (dec (unat i)) = Inr c) \<and>
      visit_str (channel_display c) = Inr c)"
proof (intro conjI allI impI)
  fix i c assume "channel_try_from i = Inr c"
  then show "channel_ok c" by (rule channel_try_from_ok)
  from \<open>channel_try_from i = Inr c\<close> show "channel_identifier c = Some i"
    by (auto simp: channel_try_from_def channel_id_defs rate_values dur_as_millis_def split: if_splits)
next
  fix v c assume "visit_u64 v = Inr c"
  then show "channel_ok c" by (auto simp: visit_u64_Inr_iff dest: channel_try_from_ok)
next
  fix s c assume "visit_str s = Inr c"
  then show "channel_ok c" by (auto simp: visit_str_def dest: parse_channel_name_ok)
next
  fix c assume "channel_ok c"
  then show "\<exists>i. channel_identifier c = Some i \<and> channel_try_from i = Inr c \<and> visit_u64 (ucast i) = Inr c \<and>
      visit_str (dec (unat i)) = Inr c"
    by (cases rule: channel_ok_cases)
      (simp_all add: rate_values dur_as_millis_def channel_id_defs channel_try_from_def visit_u64_Inr_iff visit_identifier)
  from \<open>channel_ok c\<close> show "visit_str (channel_display c) = Inr c"
    by (cases rule: channel_ok_cases)
      (simp_all only: visit_str_def ok_or.simps parse_display channel_display.simps(2))
qed

theorem channel_names_round_trip_witness:
  "channel_ok (Ch_FixedRate RATE_200_MS) \<and> visit_str ''fixed_rate@200ms'' = Inr (Ch_FixedRate RATE_200_MS) \<and>
   visit_str ''3'' = Inr (Ch_FixedRate RATE_200_MS)"
proof -
  have ok: "channel_ok (Ch_FixedRate RATE_200_MS)" by (simp add: ALL_RATES_def)
  have name: "channel_display (Ch_FixedRate RATE_200_MS) = ''fixed_rate@200ms''" and three: "dec (unat (3 :: u8)) = ''3''"
    by (simp_all add: rate_values dur_as_millis_def dec.simps digit_char_def) (simp_all add: char_of_def bit_0)
  have i: "channel_identifier (Ch_FixedRate RATE_200_MS) = Some 3"
    by (simp add: rate_values dur_as_millis_def channel_id_defs)
  from channel_names_round_trip ok obtain j where j: "channel_identifier (Ch_FixedRate RATE_200_MS) = Some j"
      "visit_str (dec (unat j)) = Inr (Ch_FixedRate RATE_200_MS)"
    and d: "visit_str (channel_display (Ch_FixedRate RATE_200_MS)) = Inr (Ch_FixedRate RATE_200_MS)"
    by blast
  have "j = 3" using j(1) i by simp
  then have "visit_str ''3'' = Inr (Ch_FixedRate RATE_200_MS)" using j(2) by (simp only: three)
  with ok d name show ?thesis by simp
qed

section \<open>The contract of a request\<close>

text \<open>What an accepted request looks like, stated without the order of the checks.\<close>

definition selection_ok :: "feed_ids \<Rightarrow> symbols \<Rightarrow> bool" where
  "selection_ok ids syms \<longleftrightarrow>
     (case (ids, syms) of
        (Some is, None) \<Rightarrow> is \<noteq> [] \<and> distinct is
      | (None, Some ss) \<Rightarrow> ss \<noteq> [] \<and> distinct ss
      | _ \<Rightarrow> False)"

definition payload_choice_ok :: "price_feed_property list \<Rightarrow> api_format list \<Rightarrow> bool" where
  "payload_choice_ok props formats \<longleftrightarrow>
     formats = [F_PackedEvmEcdsa] \<and> props = [] \<or>
     F_PackedEvmEcdsa \<notin> set formats \<and> distinct formats \<and> props \<noteq> [] \<and> distinct props"

lemma validate_requested_payload_iff:
  "validate_requested_payload props formats = Inr () \<longleftrightarrow> payload_choice_ok props formats"
  by (auto simp: validate_requested_payload_def payload_choice_ok_def length_Suc_conv)

lemma validate_price_request_iff:
  "validate_price_request ids syms props formats = Inr () \<longleftrightarrow>
     selection_ok ids syms \<and> payload_choice_ok props formats"
  by (cases ids; cases syms)
    (auto simp: validate_price_request_def validate_price_feed_ids_or_symbols_def validate_unique_elements_def
      selection_ok_def validate_requested_payload_iff)

text \<open>
  The interface \<^verbatim>\<open>RequestWithPayloadLayout\<close> with the validated constructor of the request types: a
  request exposes its selection, properties and formats, is built only by the checked constructor, and
  answers with a layout.
\<close>

locale payload_request =
  fixes ids :: "'r \<Rightarrow> feed_ids" and syms :: "'r \<Rightarrow> symbols"
    and props :: "'r \<Rightarrow> price_feed_property list" and formats :: "'r \<Rightarrow> api_format list"
    and new :: "'r \<Rightarrow> string + 'r" and layout :: "'r \<Rightarrow> payload_layout"
  assumes new_checks: "new v = map_ok (\<lambda>_. v) (validate_price_request (ids v) (syms v) (props v) (formats v))"
    and layout_packed: "F_PackedEvmEcdsa \<in> set (formats v) \<Longrightarrow> layout v = Layout_PackedEvm"
    and layout_standard: "F_PackedEvmEcdsa \<notin> set (formats v) \<Longrightarrow> layout v = Layout_Standard (props v) (formats v)"
begin

lemma new_Inr_iff:
  "new v = Inr w \<longleftrightarrow> w = v \<and> selection_ok (ids v) (syms v) \<and> payload_choice_ok (props v) (formats v)"
  unfolding new_checks map_ok_Inr_iff using validate_price_request_iff by auto

lemma accepted_layout:
  assumes "new v = Inr w"
  shows "layout_formats (layout v) = formats v \<and>
     layout_properties (layout v) = (if formats v = [F_PackedEvmEcdsa] then PACKED_EVM_PROPERTIES else props v) \<and>
     layout_properties (layout v) \<noteq> [] \<and> distinct (layout_properties (layout v)) \<and> distinct (layout_formats (layout v))"
  using assms layout_packed [of v] layout_standard [of v]
  by (cases "F_PackedEvmEcdsa \<in> set (formats v)")
    (auto simp: new_Inr_iff payload_choice_ok_def PACKED_EVM_PROPERTIES_def)

end

interpretation latest: payload_request lp_price_feed_ids lp_symbols lp_properties lp_formats
  latest_price_request_new latest_price_layout
  by unfold_locales (simp_all add: latest_price_request_new_def latest_price_layout_def and_then_const)

interpretation priced: payload_request rq_price_feed_ids rq_symbols rq_properties rq_formats
  price_request_new price_request_layout
  by unfold_locales (simp_all add: price_request_new_def price_request_layout_def and_then_const)

interpretation subscr: payload_request sp_price_feed_ids sp_symbols sp_properties sp_formats
  subscription_params_new subscription_layout
  by unfold_locales (simp_all add: subscription_params_new_def subscription_layout_def and_then_const)

text \<open>C22: The request constructors accept exactly the well-formed requests, unchanged: exactly one of feed ids
  and symbols, non-empty and without duplicates, and either the packed EVM format alone with no properties
  or other formats without duplicates together with at least one property and no duplicates.\<close>

theorem request_validation_exact:
  "(latest_price_request_new l = Inr l' \<longleftrightarrow>
      l' = l \<and> selection_ok (lp_price_feed_ids l) (lp_symbols l) \<and> payload_choice_ok (lp_properties l) (lp_formats l)) \<and>
   (price_request_new p = Inr p' \<longleftrightarrow>
      p' = p \<and> selection_ok (rq_price_feed_ids p) (rq_symbols p) \<and> payload_choice_ok (rq_properties p) (rq_formats p)) \<and>
   (subscription_params_new s = Inr s' \<longleftrightarrow>
      s' = s \<and> selection_ok (sp_price_feed_ids s) (sp_symbols s) \<and> payload_choice_ok (sp_properties s) (sp_formats s))"
  by (simp only: latest.new_Inr_iff priced.new_Inr_iff subscr.new_Inr_iff)

text \<open>The layout of an accepted subscription names exactly the requested formats, and a non-empty list
  of distinct properties: the requested ones, or the fixed ones of the packed EVM format.\<close>

lemma subscription_layout_faithful:
  assumes "subscription_params_new s = Inr s'"
  shows "layout_formats (subscription_layout s') = sp_formats s \<and>
     layout_properties (subscription_layout s') =
       (if sp_formats s = [F_PackedEvmEcdsa] then PACKED_EVM_PROPERTIES else sp_properties s) \<and>
     layout_properties (subscription_layout s') \<noteq> [] \<and> distinct (layout_properties (subscription_layout s'))"
proof -
  have "s' = s" using assms by (simp add: subscr.new_Inr_iff)
  with subscr.accepted_layout [OF assms] show ?thesis by blast
qed

end
