(* ===== verification/Dynamic_Values.thy ===== *)
theory Dynamic_Values
  imports Lazer_Time "HOL-Library.List_Lexorder" "HOL-Library.Char_ord"
begin

text \<open>
  Dynamically typed values (\<^verbatim>\<open>sdk/rust/protocol/src/dynamic_value.rs\<close>) and their Protobuf form
  (\<^verbatim>\<open>publisher_sdk/rust/src/convert_dynamic_value.rs\<close>).  A \<^verbatim>\<open>BTreeMap\<close> is the list of its
  entries in ascending order of the keys (the byte order of strings); an \<^verbatim>\<open>f64\<close> is its 64 bits.
\<close>

section \<open>Values\<close>

datatype dynamic_value =
    DV_String string | DV_F64 u64 | DV_U64 u64 | DV_I64 i64 | DV_Bool bool
  | DV_Timestamp u64 | DV_Duration u64 | DV_Bytes bytes
  | DV_List "dynamic_value list" | DV_Map "(string \<times> dynamic_value) list"

text \<open>The messages \<^verbatim>\<open>DynamicValue\<close>, its \<^verbatim>\<open>List\<close> and \<^verbatim>\<open>Map\<close> and the \<^verbatim>\<open>MapItem\<close>.\<close>

datatype proto_dynamic_value = PDV "proto_value option"
  and proto_value =
    PV_String string | PV_Double u64 | PV_Uint u64 | PV_Int i64 | PV_Bool bool
  | PV_Timestamp proto_time | PV_Duration proto_time | PV_Bytes bytes
  | PV_List "proto_dynamic_value list" | PV_Map "map_item list"
  and map_item = MapItem "string option" "proto_dynamic_value option"

text \<open>\<open>debug\<close> is the derived \<^verbatim>\<open>Debug\<close> form of a value in the error message.\<close>

definition is_str :: "(dynamic_value \<Rightarrow> string) \<Rightarrow> string \<Rightarrow> dynamic_value \<Rightarrow> anyhow + unit" where
  "is_str debug field_name v =
    (case v of
       DV_String _ \<Rightarrow> Inr ()
     | _ \<Rightarrow> Inl (Message (''invalid value type for '' @ field_name @ '': expected String, got '' @ debug v)))"

section \<open>Conversions\<close>

fun to_proto :: "dynamic_value \<Rightarrow> proto_dynamic_value"
and list_to_proto :: "dynamic_value list \<Rightarrow> proto_dynamic_value list"
and map_to_proto :: "(string \<times> dynamic_value) list \<Rightarrow> map_item list" where
  "to_proto (DV_Bool value) = PDV (Some (PV_Bool value))"
| "to_proto (DV_U64 value) = PDV (Some (PV_Uint value))"
| "to_proto (DV_I64 value) = PDV (Some (PV_Int value))"
| "to_proto (DV_F64 value) = PDV (Some (PV_Double value))"
| "to_proto (DV_String value) = PDV (Some (PV_String value))"
| "to_proto (DV_Bytes value) = PDV (Some (PV_Bytes value))"
| "to_proto (DV_Timestamp value) = PDV (Some (PV_Timestamp (ts_to_proto value)))"
| "to_proto (DV_Duration value) = PDV (Some (PV_Duration (dur_to_proto value)))"
| "to_proto (DV_List values) = PDV (Some (PV_List (list_to_proto values)))"
| "to_proto (DV_Map values) = PDV (Some (PV_Map (map_to_proto values)))"
| "list_to_proto [] = []"
| "list_to_proto (value # values) = to_proto value # list_to_proto values"
| "map_to_proto [] = []"
| "map_to_proto (entry # values) =
    MapItem (Some (fst entry)) (Some (to_proto (snd entry))) # map_to_proto values"

text \<open>\<^verbatim>\<open>BTreeMap::insert\<close>: the new entries and the value that the key had before.\<close>

fun btree_insert :: "'k::linorder \<Rightarrow> 'v \<Rightarrow> ('k \<times> 'v) list \<Rightarrow> ('k \<times> 'v) list \<times> 'v option" where
  "btree_insert k v [] = ([(k, v)], None)"
| "btree_insert k v ((k', v') # m) =
    (if k < k' then ((k, v) # (k', v') # m, None)
     else if k = k' then ((k, v) # m, Some v')
     else let (m', old) = btree_insert k v m in ((k', v') # m', old))"

fun of_proto :: "proto_dynamic_value \<Rightarrow> anyhow + dynamic_value"
and list_of_proto :: "proto_dynamic_value list \<Rightarrow> dynamic_value list \<Rightarrow> anyhow + dynamic_value list"
and map_of_proto ::
  "map_item list \<Rightarrow> (string \<times> dynamic_value) list \<Rightarrow> anyhow + (string \<times> dynamic_value) list" where
  "of_proto (PDV None) = Inl (Message ''missing DynamicValue.value'')"
| "of_proto (PDV (Some (PV_String value))) = Inr (DV_String value)"
| "of_proto (PDV (Some (PV_Double value))) = Inr (DV_F64 value)"
| "of_proto (PDV (Some (PV_Uint value))) = Inr (DV_U64 value)"
| "of_proto (PDV (Some (PV_Int value))) = Inr (DV_I64 value)"
| "of_proto (PDV (Some (PV_Bool value))) = Inr (DV_Bool value)"
| "of_proto (PDV (Some (PV_Bytes value))) = Inr (DV_Bytes value)"
| "of_proto (PDV (Some (PV_Duration value))) = map_ok DV_Duration (dur_try_from_proto value)"
| "of_proto (PDV (Some (PV_Timestamp ts))) = map_ok DV_Timestamp (ts_try_from_proto ts)"
| "of_proto (PDV (Some (PV_List items))) = map_ok DV_List (list_of_proto items [])"
| "of_proto (PDV (Some (PV_Map items))) = map_ok DV_Map (map_of_proto items [])"
| "list_of_proto [] output = Inr output"
| "list_of_proto (item # items) output =
    and_then (of_proto item) (\<lambda>value. list_of_proto items (output @ [value]))"
| "map_of_proto [] output = Inr output"
| "map_of_proto (MapItem None _ # items) output = Inl (Message ''missing DynamicValue.MapItem.key'')"
| "map_of_proto (MapItem (Some _) None # items) output = Inl (Message ''missing DynamicValue.MapItem.value'')"
| "map_of_proto (MapItem (Some key) (Some item) # items) output =
    and_then (of_proto item) (\<lambda>value.
      case btree_insert key value output of
        (output', None) \<Rightarrow> map_of_proto items output'
      | (output', Some _) \<Rightarrow> Inl (Message ''duplicate DynamicValue.MapItem.key''))"

section \<open>Facts\<close>

text \<open>A value that a program can hold: the keys of every map ascend.  \<open>times_fit\<close> says that the whole
  seconds of every timestamp and duration are below \<open>2 ^ 63\<close> microseconds.\<close>

fun value_wf :: "dynamic_value \<Rightarrow> bool" where
  "value_wf (DV_List values) = list_all value_wf values"
| "value_wf (DV_Map values) = (sorted_wrt (<) (map fst values) \<and> list_all (\<lambda>e. value_wf (snd e)) values)"
| "value_wf _ = True"

fun times_fit :: "dynamic_value \<Rightarrow> bool" where
  "times_fit (DV_Timestamp t) = (uint t div 1000000 * 1000000 < 2 ^ 63)"
| "times_fit (DV_Duration d) = (uint d div 1000000 * 1000000 < 2 ^ 63)"
| "times_fit (DV_List values) = list_all times_fit values"
| "times_fit (DV_Map values) = list_all (\<lambda>e. times_fit (snd e)) values"
| "times_fit _ = True"

lemma btree_insert_last:
  assumes "\<forall>k' \<in> set (map fst m). k' < k"
  shows "btree_insert k v m = (m @ [(k, v)], None)"
  using assms by (induction m rule: btree_insert.induct) auto

lemma btree_insert_keys: "fst ` set (fst (btree_insert k v m)) = insert k (fst ` set m)"
proof (induction k v m rule: btree_insert.induct)
  case (2 k v k' v' m)
  then show ?case by (cases "btree_insert k v m") (simp add: insert_commute)
qed simp

lemma btree_insert_sorted:
  "sorted_wrt (<) (map fst m) \<Longrightarrow> sorted_wrt (<) (map fst (fst (btree_insert k v m)))"
proof (induction k v m rule: btree_insert.induct)
  case (2 k v k' v' m)
  have keys: "\<forall>x \<in> set m. k' < fst x" and m: "sorted_wrt (<) (map fst m)" using 2(2) by auto
  consider "k < k'" | "k = k'" | "k' < k" by (rule linorder_cases)
  then show ?case
  proof cases
    case 3
    then have "\<forall>x \<in> set (fst (btree_insert k v m)). k' < fst x"
      using btree_insert_keys [of k v m] keys by (metis image_iff insert_iff)
    moreover have "\<not> k < k'" "k \<noteq> k'" using 3 by auto
    ultimately show ?thesis using 2(1) m by (auto split: prod.splits)
  qed (use keys m in auto)
qed simp

lemma btree_insert_value: "(e \<in> set (fst (btree_insert k v m))) \<Longrightarrow> e = (k, v) \<or> e \<in> set m"
  by (induction k v m rule: btree_insert.induct) (auto split: if_splits prod.splits)

abbreviation mul_failed :: anyhow where
  "mul_failed \<equiv> Message ''checked_mul failed''"

lemma proto_back:
  "value_wf v \<Longrightarrow> of_proto (to_proto v) = (if times_fit v then Inr v else Inl mul_failed)"
  "list_all value_wf vs \<Longrightarrow>
     list_of_proto (list_to_proto vs) out = (if list_all times_fit vs then Inr (out @ vs) else Inl mul_failed)"
  "sorted_wrt (<) (map fst (mout @ es)) \<Longrightarrow> list_all (\<lambda>e. value_wf (snd e)) es \<Longrightarrow>
     map_of_proto (map_to_proto es) mout =
       (if list_all (\<lambda>e. times_fit (snd e)) es then Inr (mout @ es) else Inl mul_failed)"
proof (induction v and vs and es arbitrary: and out and mout rule: to_proto_list_to_proto_map_to_proto.induct)
  case (7 t) then show ?case by (simp add: ts_proto_back)
next
  case (8 t) then show ?case by (simp add: dur_proto_back)
next
  case (14 e es)
  have "\<forall>k \<in> set (map fst mout). k < fst e" using 14(3) by (auto simp: sorted_wrt_append)
  then have ins: "btree_insert (fst e) (snd e) mout = (mout @ [e], None)"
    using btree_insert_last [of mout "fst e" "snd e"] by simp
  have "map_of_proto (map_to_proto es) (mout @ [e]) =
      (if list_all (\<lambda>e. times_fit (snd e)) es then Inr ((mout @ [e]) @ es) else Inl mul_failed)"
    by (rule 14(2)) (use 14(3,4) in simp_all)
  with ins 14(1) 14(4) show ?case by simp
qed simp_all

lemma of_proto_wf:
  "of_proto p = Inr v \<Longrightarrow> value_wf v"
  "list_of_proto ps out = Inr vs \<Longrightarrow> list_all value_wf out \<Longrightarrow> list_all value_wf vs"
  "map_of_proto items mout = Inr es \<Longrightarrow> sorted_wrt (<) (map fst mout) \<Longrightarrow> list_all (\<lambda>e. value_wf (snd e)) mout \<Longrightarrow>
     sorted_wrt (<) (map fst es) \<and> list_all (\<lambda>e. value_wf (snd e)) es"
proof (induction p and ps out and items mout arbitrary: v and vs and es rule: of_proto_list_of_proto_map_of_proto.induct)
  case (17 key item items mout)
  obtain x where x: "of_proto item = Inr x" using 17(3) by auto
  obtain m where m: "btree_insert key x mout = (m, None)" "map_of_proto items m = Inr es"
    using 17(3) x by (cases "btree_insert key x mout") (auto split: option.splits)
  have "sorted_wrt (<) (map fst m)" using btree_insert_sorted [OF 17(4), of key x] m(1) by simp
  moreover have "list_all (\<lambda>e. value_wf (snd e)) m"
    unfolding list_all_iff
  proof
    fix e assume "e \<in> set m"
    then have "e = (key, x) \<or> e \<in> set mout" using btree_insert_value [of e key x mout] m(1) by simp
    then show "value_wf (snd e)" using 17(1) [OF x] 17(5) by (auto simp: list_all_iff)
  qed
  ultimately show ?case using 17(2) [OF x m(1) [symmetric]] m(2) by simp
qed auto

section \<open>Properties\<close>

text \<open>C25: Dynamic values survive the Protobuf form.  A value whose maps have ascending keys is recovered
  exactly, whatever its nesting, if every time in it fits, and refused with the overflow error otherwise;
  and whatever the wire form contains, a value that is read has maps with ascending keys.\<close>

theorem dynamic_value_round_trip:
  "(value_wf v \<longrightarrow> of_proto (to_proto v) = (if times_fit v then Inr v else Inl mul_failed)) \<and>
   (of_proto p = Inr w \<longrightarrow> value_wf w)"
  using proto_back(1) of_proto_wf(1) by blast

theorem dynamic_value_round_trip_witness:
  "of_proto (to_proto (DV_Map [(''a'', DV_List [DV_U64 7, DV_Timestamp 1500000]), (''b'', DV_Bool True)])) =
     Inr (DV_Map [(''a'', DV_List [DV_U64 7, DV_Timestamp 1500000]), (''b'', DV_Bool True)]) \<and>
   value_wf (DV_Map [(''a'', DV_List [DV_U64 7, DV_Timestamp 1500000]), (''b'', DV_Bool True)])"
proof -
  let ?v = "DV_Map [(''a'', DV_List [DV_U64 7, DV_Timestamp 1500000]), (''b'', DV_Bool True)]"
  have wf: "value_wf ?v" by (simp add: less_char_def)
  have fit: "times_fit ?v" by simp
  show ?thesis using dynamic_value_round_trip [of ?v "to_proto ?v" ?v] wf fit by simp
qed

end
