(* ===== verification/Publisher_Types.thy ===== *)
theory Publisher_Types
  imports Lazer_Api
begin

text \<open>
  What publishers send: the legacy binary records (\<^verbatim>\<open>sdk/rust/protocol/src/publisher.rs\<close>), the
  JSON-RPC calls of the agent (\<^verbatim>\<open>jrpc.rs\<close>), the enumerations of the protocol crate, the Protobuf
  messages of \<^verbatim>\<open>publisher_update.proto\<close> and \<^verbatim>\<open>types.proto\<close>, and the conversions between
  them in \<^verbatim>\<open>publisher_sdk/rust/src/lib.rs\<close>.  A Protobuf message is the record of its fields; the
  code builds every message with empty unknown fields.  An optional enumeration field holds a known value.
\<close>

section \<open>Enumerations\<close>


datatype symbol_state =
    SS_ComingSoon | SS_Stable | SS_Inactive | SS_Beta | SS_Expired
  | SS_Unknown

fun symbol_state_display :: "symbol_state \<Rightarrow> string" where
  "symbol_state_display SS_ComingSoon = ''coming_soon''"
| "symbol_state_display SS_Stable = ''stable''"
| "symbol_state_display SS_Inactive = ''inactive''"
| "symbol_state_display SS_Beta = ''beta''"
| "symbol_state_display SS_Expired = ''expired''"
| "symbol_state_display SS_Unknown = ''unknown''"

datatype feed_kind =
    FK_Price | FK_FundingRate

fun feed_kind_display :: "feed_kind \<Rightarrow> string" where
  "feed_kind_display FK_Price = ''price''"
| "feed_kind_display FK_FundingRate = ''fundingRate''"

datatype trading_status =
    TS_Open | TS_Closed | TS_Halted | TS_CorpAction

datatype exchange_asset_class =
    AC_Unspecified | AC_Equity | AC_Future | AC_Commodity

fun exchange_asset_class_display :: "exchange_asset_class \<Rightarrow> string" where
  "exchange_asset_class_display AC_Unspecified = ''unspecified''"
| "exchange_asset_class_display AC_Equity = ''equity''"
| "exchange_asset_class_display AC_Future = ''future''"
| "exchange_asset_class_display AC_Commodity = ''commodity''"

datatype exchange_asset_subclass =
    AS_Unspecified | AS_CommonStock | AS_Etf | AS_Energy | AS_Metals
  | AS_Equity | AS_FixedIncome | AS_Fx | AS_Agricultural | AS_Cocoa
  | AS_Coffee | AS_RawSugar | AS_PreciousMetals | AS_BaseMetals | AS_Volatility

fun exchange_asset_subclass_display :: "exchange_asset_subclass \<Rightarrow> string" where
  "exchange_asset_subclass_display AS_Unspecified = ''unspecified''"
| "exchange_asset_subclass_display AS_CommonStock = ''common_stock''"
| "exchange_asset_subclass_display AS_Etf = ''etf''"
| "exchange_asset_subclass_display AS_Energy = ''energy''"
| "exchange_asset_subclass_display AS_Metals = ''metals''"
| "exchange_asset_subclass_display AS_Equity = ''equity''"
| "exchange_asset_subclass_display AS_FixedIncome = ''fixed_income''"
| "exchange_asset_subclass_display AS_Fx = ''fx''"
| "exchange_asset_subclass_display AS_Agricultural = ''agricultural''"
| "exchange_asset_subclass_display AS_Cocoa = ''cocoa''"
| "exchange_asset_subclass_display AS_Coffee = ''coffee''"
| "exchange_asset_subclass_display AS_RawSugar = ''raw_sugar''"
| "exchange_asset_subclass_display AS_PreciousMetals = ''precious_metals''"
| "exchange_asset_subclass_display AS_BaseMetals = ''base_metals''"
| "exchange_asset_subclass_display AS_Volatility = ''volatility''"

datatype exchange_asset_sector =
    SEC_Unspecified | SEC_Technology | SEC_Financials | SEC_BroadMarket | SEC_Oil
  | SEC_Metals | SEC_Index | SEC_Rates | SEC_Fx | SEC_Agricultural
  | SEC_Energy | SEC_Materials | SEC_Agriculture

fun exchange_asset_sector_display :: "exchange_asset_sector \<Rightarrow> string" where
  "exchange_asset_sector_display SEC_Unspecified = ''unspecified''"
| "exchange_asset_sector_display SEC_Technology = ''technology''"
| "exchange_asset_sector_display SEC_Financials = ''financials''"
| "exchange_asset_sector_display SEC_BroadMarket = ''broad_market''"
| "exchange_asset_sector_display SEC_Oil = ''oil''"
| "exchange_asset_sector_display SEC_Metals = ''metals''"
| "exchange_asset_sector_display SEC_Index = ''index''"
| "exchange_asset_sector_display SEC_Rates = ''rates''"
| "exchange_asset_sector_display SEC_Fx = ''fx''"
| "exchange_asset_sector_display SEC_Agricultural = ''agricultural''"
| "exchange_asset_sector_display SEC_Energy = ''energy''"
| "exchange_asset_sector_display SEC_Materials = ''materials''"
| "exchange_asset_sector_display SEC_Agriculture = ''agriculture''"

text \<open>The enumerations of \<^verbatim>\<open>types.proto\<close>.\<close>

datatype proto_feed_state =
    FS_COMING_SOON | FS_STABLE | FS_INACTIVE | FS_BETA | FS_EXPIRED

datatype proto_feed_kind =
    PRICE | FUNDING_RATE

datatype proto_market_session =
    MS_REGULAR | MS_PRE_MARKET | MS_POST_MARKET | MS_OVER_NIGHT | MS_CLOSED

datatype proto_trading_status =
    TRADING_STATUS_OPEN | TRADING_STATUS_CLOSED | TRADING_STATUS_HALTED | TRADING_STATUS_CORP_ACTION

datatype proto_asset_class =
    ASSET_CLASS_UNSPECIFIED | ASSET_CLASS_EQUITY | ASSET_CLASS_FUTURE | ASSET_CLASS_COMMODITY

datatype proto_asset_subclass =
    ASSET_SUBCLASS_UNSPECIFIED | ASSET_SUBCLASS_COMMON_STOCK | ASSET_SUBCLASS_ETF | ASSET_SUBCLASS_ENERGY | ASSET_SUBCLASS_METALS
  | ASSET_SUBCLASS_EQUITY | ASSET_SUBCLASS_FIXED_INCOME | ASSET_SUBCLASS_FX | ASSET_SUBCLASS_AGRICULTURAL | ASSET_SUBCLASS_COCOA
  | ASSET_SUBCLASS_COFFEE | ASSET_SUBCLASS_RAW_SUGAR | ASSET_SUBCLASS_PRECIOUS_METALS | ASSET_SUBCLASS_BASE_METALS | ASSET_SUBCLASS_VOLATILITY

datatype proto_asset_sector =
    ASSET_SECTOR_UNSPECIFIED | ASSET_SECTOR_TECHNOLOGY | ASSET_SECTOR_FINANCIALS | ASSET_SECTOR_BROAD_MARKET | ASSET_SECTOR_OIL
  | ASSET_SECTOR_METALS | ASSET_SECTOR_INDEX | ASSET_SECTOR_RATES | ASSET_SECTOR_FX | ASSET_SECTOR_AGRICULTURAL
  | ASSET_SECTOR_ENERGY | ASSET_SECTOR_MATERIALS | ASSET_SECTOR_AGRICULTURE

datatype proto_channel_kind = Kind_Rate proto_time | Kind_RealTime

record proto_channel =
  pc_kind :: "proto_channel_kind option"

section \<open>Conversions of enumerations\<close>

fun symbol_state_of :: "proto_feed_state \<Rightarrow> symbol_state" where
  "symbol_state_of FS_COMING_SOON = SS_ComingSoon"
| "symbol_state_of FS_STABLE = SS_Stable"
| "symbol_state_of FS_INACTIVE = SS_Inactive"
| "symbol_state_of FS_BETA = SS_Beta"
| "symbol_state_of FS_EXPIRED = SS_Expired"

fun feed_state_try_from :: "symbol_state \<Rightarrow> anyhow + proto_feed_state" where
  "feed_state_try_from SS_ComingSoon = Inr FS_COMING_SOON"
| "feed_state_try_from SS_Stable = Inr FS_STABLE"
| "feed_state_try_from SS_Inactive = Inr FS_INACTIVE"
| "feed_state_try_from SS_Beta = Inr FS_BETA"
| "feed_state_try_from SS_Expired = Inr FS_EXPIRED"
| "feed_state_try_from SS_Unknown = Inl (Message ''unknown feed state has no wire representation'')"

fun proto_of_feed_kind :: "feed_kind \<Rightarrow> proto_feed_kind" where
  "proto_of_feed_kind FK_Price = PRICE"
| "proto_of_feed_kind FK_FundingRate = FUNDING_RATE"

fun feed_kind_of :: "proto_feed_kind \<Rightarrow> feed_kind" where
  "feed_kind_of PRICE = FK_Price"
| "feed_kind_of FUNDING_RATE = FK_FundingRate"

fun proto_of_market_session :: "market_session \<Rightarrow> proto_market_session" where
  "proto_of_market_session Regular = MS_REGULAR"
| "proto_of_market_session PreMarket = MS_PRE_MARKET"
| "proto_of_market_session PostMarket = MS_POST_MARKET"
| "proto_of_market_session OverNight = MS_OVER_NIGHT"
| "proto_of_market_session Closed = MS_CLOSED"

fun market_session_of :: "proto_market_session \<Rightarrow> market_session" where
  "market_session_of MS_REGULAR = Regular"
| "market_session_of MS_PRE_MARKET = PreMarket"
| "market_session_of MS_POST_MARKET = PostMarket"
| "market_session_of MS_OVER_NIGHT = OverNight"
| "market_session_of MS_CLOSED = Closed"

fun proto_of_trading_status :: "trading_status \<Rightarrow> proto_trading_status" where
  "proto_of_trading_status TS_Open = TRADING_STATUS_OPEN"
| "proto_of_trading_status TS_Closed = TRADING_STATUS_CLOSED"
| "proto_of_trading_status TS_Halted = TRADING_STATUS_HALTED"
| "proto_of_trading_status TS_CorpAction = TRADING_STATUS_CORP_ACTION"

fun trading_status_of :: "proto_trading_status \<Rightarrow> trading_status" where
  "trading_status_of TRADING_STATUS_OPEN = TS_Open"
| "trading_status_of TRADING_STATUS_CLOSED = TS_Closed"
| "trading_status_of TRADING_STATUS_HALTED = TS_Halted"
| "trading_status_of TRADING_STATUS_CORP_ACTION = TS_CorpAction"

fun asset_class_of :: "proto_asset_class \<Rightarrow> exchange_asset_class" where
  "asset_class_of ASSET_CLASS_UNSPECIFIED = AC_Unspecified"
| "asset_class_of ASSET_CLASS_EQUITY = AC_Equity"
| "asset_class_of ASSET_CLASS_FUTURE = AC_Future"
| "asset_class_of ASSET_CLASS_COMMODITY = AC_Commodity"

fun proto_of_asset_class :: "exchange_asset_class \<Rightarrow> proto_asset_class" where
  "proto_of_asset_class AC_Unspecified = ASSET_CLASS_UNSPECIFIED"
| "proto_of_asset_class AC_Equity = ASSET_CLASS_EQUITY"
| "proto_of_asset_class AC_Future = ASSET_CLASS_FUTURE"
| "proto_of_asset_class AC_Commodity = ASSET_CLASS_COMMODITY"

fun asset_subclass_of :: "proto_asset_subclass \<Rightarrow> exchange_asset_subclass" where
  "asset_subclass_of ASSET_SUBCLASS_UNSPECIFIED = AS_Unspecified"
| "asset_subclass_of ASSET_SUBCLASS_COMMON_STOCK = AS_CommonStock"
| "asset_subclass_of ASSET_SUBCLASS_ETF = AS_Etf"
| "asset_subclass_of ASSET_SUBCLASS_ENERGY = AS_Energy"
| "asset_subclass_of ASSET_SUBCLASS_METALS = AS_Metals"
| "asset_subclass_of ASSET_SUBCLASS_EQUITY = AS_Equity"
| "asset_subclass_of ASSET_SUBCLASS_FIXED_INCOME = AS_FixedIncome"
| "asset_subclass_of ASSET_SUBCLASS_FX = AS_Fx"
| "asset_subclass_of ASSET_SUBCLASS_AGRICULTURAL = AS_Agricultural"
| "asset_subclass_of ASSET_SUBCLASS_COCOA = AS_Cocoa"
| "asset_subclass_of ASSET_SUBCLASS_COFFEE = AS_Coffee"
| "asset_subclass_of ASSET_SUBCLASS_RAW_SUGAR = AS_RawSugar"
| "asset_subclass_of ASSET_SUBCLASS_PRECIOUS_METALS = AS_PreciousMetals"
| "asset_subclass_of ASSET_SUBCLASS_BASE_METALS = AS_BaseMetals"
| "asset_subclass_of ASSET_SUBCLASS_VOLATILITY = AS_Volatility"

fun proto_of_asset_subclass :: "exchange_asset_subclass \<Rightarrow> proto_asset_subclass" where
  "proto_of_asset_subclass AS_Unspecified = ASSET_SUBCLASS_UNSPECIFIED"
| "proto_of_asset_subclass AS_CommonStock = ASSET_SUBCLASS_COMMON_STOCK"
| "proto_of_asset_subclass AS_Etf = ASSET_SUBCLASS_ETF"
| "proto_of_asset_subclass AS_Energy = ASSET_SUBCLASS_ENERGY"
| "proto_of_asset_subclass AS_Metals = ASSET_SUBCLASS_METALS"
| "proto_of_asset_subclass AS_Equity = ASSET_SUBCLASS_EQUITY"
| "proto_of_asset_subclass AS_FixedIncome = ASSET_SUBCLASS_FIXED_INCOME"
| "proto_of_asset_subclass AS_Fx = ASSET_SUBCLASS_FX"
| "proto_of_asset_subclass AS_Agricultural = ASSET_SUBCLASS_AGRICULTURAL"
| "proto_of_asset_subclass AS_Cocoa = ASSET_SUBCLASS_COCOA"
| "proto_of_asset_subclass AS_Coffee = ASSET_SUBCLASS_COFFEE"
| "proto_of_asset_subclass AS_RawSugar = ASSET_SUBCLASS_RAW_SUGAR"
| "proto_of_asset_subclass AS_PreciousMetals = ASSET_SUBCLASS_PRECIOUS_METALS"
| "proto_of_asset_subclass AS_BaseMetals = ASSET_SUBCLASS_BASE_METALS"
| "proto_of_asset_subclass AS_Volatility = ASSET_SUBCLASS_VOLATILITY"

fun asset_sector_of :: "proto_asset_sector \<Rightarrow> exchange_asset_sector" where
  "asset_sector_of ASSET_SECTOR_UNSPECIFIED = SEC_Unspecified"
| "asset_sector_of ASSET_SECTOR_TECHNOLOGY = SEC_Technology"
| "asset_sector_of ASSET_SECTOR_FINANCIALS = SEC_Financials"
| "asset_sector_of ASSET_SECTOR_BROAD_MARKET = SEC_BroadMarket"
| "asset_sector_of ASSET_SECTOR_OIL = SEC_Oil"
| "asset_sector_of ASSET_SECTOR_METALS = SEC_Metals"
| "asset_sector_of ASSET_SECTOR_INDEX = SEC_Index"
| "asset_sector_of ASSET_SECTOR_RATES = SEC_Rates"
| "asset_sector_of ASSET_SECTOR_FX = SEC_Fx"
| "asset_sector_of ASSET_SECTOR_AGRICULTURAL = SEC_Agricultural"
| "asset_sector_of ASSET_SECTOR_ENERGY = SEC_Energy"
| "asset_sector_of ASSET_SECTOR_MATERIALS = SEC_Materials"
| "asset_sector_of ASSET_SECTOR_AGRICULTURE = SEC_Agriculture"

fun proto_of_asset_sector :: "exchange_asset_sector \<Rightarrow> proto_asset_sector" where
  "proto_of_asset_sector SEC_Unspecified = ASSET_SECTOR_UNSPECIFIED"
| "proto_of_asset_sector SEC_Technology = ASSET_SECTOR_TECHNOLOGY"
| "proto_of_asset_sector SEC_Financials = ASSET_SECTOR_FINANCIALS"
| "proto_of_asset_sector SEC_BroadMarket = ASSET_SECTOR_BROAD_MARKET"
| "proto_of_asset_sector SEC_Oil = ASSET_SECTOR_OIL"
| "proto_of_asset_sector SEC_Metals = ASSET_SECTOR_METALS"
| "proto_of_asset_sector SEC_Index = ASSET_SECTOR_INDEX"
| "proto_of_asset_sector SEC_Rates = ASSET_SECTOR_RATES"
| "proto_of_asset_sector SEC_Fx = ASSET_SECTOR_FX"
| "proto_of_asset_sector SEC_Agricultural = ASSET_SECTOR_AGRICULTURAL"
| "proto_of_asset_sector SEC_Energy = ASSET_SECTOR_ENERGY"
| "proto_of_asset_sector SEC_Materials = ASSET_SECTOR_MATERIALS"
| "proto_of_asset_sector SEC_Agriculture = ASSET_SECTOR_AGRICULTURE"

text \<open>\<^verbatim>\<open>FixedRate\<close> converts through its duration; a channel without a kind is the fastest fixed
  rate.\<close>

definition channel_of_proto :: "proto_channel \<Rightarrow> anyhow + api_channel" where
  "channel_of_proto value =
    (case pc_kind value of
       Some (Kind_Rate rate) \<Rightarrow> map_ok Ch_FixedRate (fixed_rate_try_from_proto rate)
     | Some Kind_RealTime \<Rightarrow> Inr Ch_RealTime
     | None \<Rightarrow> Inr (Ch_FixedRate MIN_RATE))"

fun proto_of_channel :: "api_channel \<Rightarrow> proto_channel" where
  "proto_of_channel (Ch_FixedRate rate) = \<lparr>pc_kind = Some (Kind_Rate (dur_to_proto rate))\<rparr>"
| "proto_of_channel Ch_RealTime = \<lparr>pc_kind = Some Kind_RealTime\<rparr>"

section \<open>Publisher records\<close>

record price_feed_data_v1 =
  v1_price_feed_id :: u32
  v1_source_timestamp_us :: timestamp_us
  v1_publisher_timestamp_us :: timestamp_us
  v1_price :: "price option"
  v1_best_bid_price :: "price option"
  v1_best_ask_price :: "price option"

record price_feed_data_v2 =
  v2_price_feed_id :: u32
  v2_source_timestamp_us :: timestamp_us
  v2_publisher_timestamp_us :: timestamp_us
  v2_price :: "price option"
  v2_best_bid_price :: "price option"
  v2_best_ask_price :: "price option"
  v2_funding_rate :: "rate option"

definition v2_of_v1 :: "price_feed_data_v1 \<Rightarrow> price_feed_data_v2" where
  "v2_of_v1 v0 =
    \<lparr>v2_price_feed_id = v1_price_feed_id v0, v2_source_timestamp_us = v1_source_timestamp_us v0,
     v2_publisher_timestamp_us = v1_publisher_timestamp_us v0, v2_price = v1_price v0,
     v2_best_bid_price = v1_best_bid_price v0, v2_best_ask_price = v1_best_ask_price v0, v2_funding_rate = None\<rparr>"

text \<open>Version 1 writes an absent price as a zero mantissa.\<close>

definition serialize_price_as_i64 :: "price option \<Rightarrow> i64" where
  "serialize_price_as_i64 value = (case value of None \<Rightarrow> 0 | Some p \<Rightarrow> p)"

definition deserialize_price_as_i64 :: "i64 \<Rightarrow> price option" where
  "deserialize_price_as_i64 value = (if value = 0 then None else Some value)"

section \<open>Protobuf updates\<close>

record price_update =
  pu_price :: "i64 option"
  pu_best_bid_price :: "i64 option"
  pu_best_ask_price :: "i64 option"
  pu_market_session :: "proto_market_session option"
  pu_trading_status :: "proto_trading_status option"

record funding_rate_update =
  fr_price :: "i64 option"
  fr_rate :: "i64 option"
  fr_funding_rate_interval :: "proto_time option"

datatype update_kind = PriceUpdate price_update | FundingRateUpdate funding_rate_update

record feed_update =
  fu_feed_id :: "u32 option"
  fu_source_timestamp :: "proto_time option"
  fu_update :: "update_kind option"

definition feed_update_of_v1 :: "price_feed_data_v1 \<Rightarrow> feed_update" where
  "feed_update_of_v1 data =
    \<lparr>fu_feed_id = Some (v1_price_feed_id data),
     fu_source_timestamp = Some (ts_to_proto (v1_source_timestamp_us data)),
     fu_update = Some (PriceUpdate
       \<lparr>pu_price = v1_price data, pu_best_bid_price = v1_best_bid_price data,
        pu_best_ask_price = v1_best_ask_price data, pu_market_session = None, pu_trading_status = None\<rparr>)\<rparr>"

definition feed_update_of_v2 :: "price_feed_data_v2 \<Rightarrow> feed_update" where
  "feed_update_of_v2 value =
    (let update =
       (if v2_funding_rate value \<noteq> None
        then FundingRateUpdate
          \<lparr>fr_price = v2_price value, fr_rate = v2_funding_rate value, fr_funding_rate_interval = None\<rparr>
        else PriceUpdate
          \<lparr>pu_price = v2_price value, pu_best_bid_price = v2_best_bid_price value,
           pu_best_ask_price = v2_best_ask_price value, pu_market_session = None, pu_trading_status = None\<rparr>)
     in \<lparr>fu_feed_id = Some (v2_price_feed_id value),
         fu_source_timestamp = Some (ts_to_proto (v2_source_timestamp_us value)),
         fu_update = Some update\<rparr>)"

section \<open>JSON-RPC calls\<close>

text \<open>
  \<^verbatim>\<open>std::time::Duration\<close> is its seconds and nanoseconds; its conversion to a Protobuf duration belongs
  to the Protobuf library and is the argument \<open>into_pb\<close>.
\<close>

record std_duration =
  sd_secs :: u64
  sd_nanos :: u32

datatype update_params =
    UP_PriceUpdate "price option" "price option" "price option" "trading_status option" "market_session option"
  | UP_FundingRateUpdate "price option" rate "std_duration option"

record feed_update_params =
  fp_feed_id :: u32
  fp_source_timestamp :: timestamp_us
  fp_update :: update_params

fun update_of_params :: "(std_duration \<Rightarrow> proto_time) \<Rightarrow> update_params \<Rightarrow> update_kind" where
  "update_of_params into_pb (UP_PriceUpdate price best_bid_price best_ask_price trading_status market_session) =
    PriceUpdate
      \<lparr>pu_price = price, pu_best_bid_price = best_bid_price, pu_best_ask_price = best_ask_price,
       pu_market_session = map_option proto_of_market_session market_session,
       pu_trading_status = map_option proto_of_trading_status trading_status\<rparr>"
| "update_of_params into_pb (UP_FundingRateUpdate price rate funding_rate_interval) =
    FundingRateUpdate
      \<lparr>fr_price = price, fr_rate = Some rate,
       fr_funding_rate_interval = map_option into_pb funding_rate_interval\<rparr>"

definition feed_update_of_params :: "(std_duration \<Rightarrow> proto_time) \<Rightarrow> feed_update_params \<Rightarrow> feed_update" where
  "feed_update_of_params into_pb value =
    \<lparr>fu_feed_id = Some (fp_feed_id value),
     fu_source_timestamp = Some (ts_to_proto (fp_source_timestamp value)),
     fu_update = Some (update_of_params into_pb (fp_update value))\<rparr>"

section \<open>Facts\<close>

text \<open>The contract of a pair of conversions between an enumeration and its wire form: mutually inverse, so
  that no two values share a wire form and every wire value is read.\<close>

locale wire_enum =
  fixes to_wire :: "'a \<Rightarrow> 'w" and of_wire :: "'w \<Rightarrow> 'a"
  assumes of_to [simp]: "of_wire (to_wire a) = a"
    and to_of [simp]: "to_wire (of_wire w) = w"
begin

lemma to_wire_bij: "bij to_wire"
  by (rule o_bij [of of_wire]) (auto simp: fun_eq_iff)

lemma to_wire_eq_iff: "to_wire a = w \<longleftrightarrow> a = of_wire w"
  by auto

end

interpretation kind_wire: wire_enum proto_of_feed_kind feed_kind_of
proof
  show "feed_kind_of (proto_of_feed_kind a) = a" for a by (cases a) simp_all
  show "proto_of_feed_kind (feed_kind_of w) = w" for w by (cases w) simp_all
qed

interpretation session_wire: wire_enum proto_of_market_session market_session_of
proof
  show "market_session_of (proto_of_market_session a) = a" for a by (cases a) simp_all
  show "proto_of_market_session (market_session_of w) = w" for w by (cases w) simp_all
qed

interpretation status_wire: wire_enum proto_of_trading_status trading_status_of
proof
  show "trading_status_of (proto_of_trading_status a) = a" for a by (cases a) simp_all
  show "proto_of_trading_status (trading_status_of w) = w" for w by (cases w) simp_all
qed

interpretation class_wire: wire_enum proto_of_asset_class asset_class_of
proof
  show "asset_class_of (proto_of_asset_class a) = a" for a by (cases a) simp_all
  show "proto_of_asset_class (asset_class_of w) = w" for w by (cases w) simp_all
qed

interpretation subclass_wire: wire_enum proto_of_asset_subclass asset_subclass_of
proof
  show "asset_subclass_of (proto_of_asset_subclass a) = a" for a by (cases a) simp_all
  show "proto_of_asset_subclass (asset_subclass_of w) = w" for w by (cases w) simp_all
qed

interpretation sector_wire: wire_enum proto_of_asset_sector asset_sector_of
proof
  show "asset_sector_of (proto_of_asset_sector a) = a" for a by (cases a) simp_all
  show "proto_of_asset_sector (asset_sector_of w) = w" for w by (cases w) simp_all
qed

lemma feed_state_try_from_iff: "feed_state_try_from s = Inr fs \<longleftrightarrow> s = symbol_state_of fs"
  by (cases s; cases fs) simp_all

lemma deserialize_serialize_price:
  "p \<noteq> Some 0 \<Longrightarrow> deserialize_price_as_i64 (serialize_price_as_i64 p) = p"
  by (auto simp: serialize_price_as_i64_def deserialize_price_as_i64_def split: option.splits)

lemma fixed_rate_wire: "r \<in> set ALL_RATES \<Longrightarrow> fixed_rate_try_from_proto (dur_to_proto r) = Inr r"
  by (auto simp: fixed_rate_try_from_proto_def dur_proto_back fixed_rate_try_from_def ALL_RATES_def rate_values)

lemma fixed_rate_try_from_ok: "fixed_rate_try_from d = Inr r \<Longrightarrow> r \<in> set ALL_RATES"
  by (auto simp: fixed_rate_try_from_def find_Some_iff)

lemma channel_wire: "channel_ok c \<Longrightarrow> channel_of_proto (proto_of_channel c) = Inr c"
  by (cases c) (simp_all add: channel_of_proto_def fixed_rate_wire)

lemma channel_of_proto_ok: "channel_of_proto p = Inr c \<Longrightarrow> channel_ok c"
  by (auto simp: channel_of_proto_def fixed_rate_try_from_proto_def MIN_RATE_def ALL_RATES_def
      dest!: fixed_rate_try_from_ok split: option.splits proto_channel_kind.splits)

text \<open>The two publisher handlers agree on version 1 records: converting one directly or through version 2
  gives the same update.\<close>

lemma feed_update_v1_v2: "feed_update_of_v2 (v2_of_v1 data) = feed_update_of_v1 data"
  by (simp add: feed_update_of_v2_def v2_of_v1_def feed_update_of_v1_def)

end
