(* ===== verification/Agent_Publisher.thy ===== *)
theory Agent_Publisher
  imports Publisher_Types "HOL-Library.AList" "HOL-Library.Option_ord" "HOL-Library.Product_Lexorder"
    "HOL-Library.Multiset"
begin

text \<open>
  The publishing task of the agent (\<^verbatim>\<open>agent/src/lazer_publisher.rs\<close>): updates from publishers are
  collected, and at every tick sorted by time, freed of repetitions, signed and broadcast to the relayers.
  The task is a state and two steps, the two arms of its \<^verbatim>\<open>select!\<close>.  Third-party code is an
  argument: the expiring cache, the Protobuf writer, the signing key, and the iteration order of a hash
  map, which Rust leaves open.
\<close>

section \<open>State\<close>

record publisher_config =
  enable_update_deduplication :: bool
  update_deduplication_ttl :: std_duration

record publisher_update =
  pb_updates :: "feed_update list"
  pb_publisher_timestamp :: "proto_time option"

datatype lazer_payload = Payload_PublisherUpdate publisher_update

record lazer_transaction =
  lt_payload :: "lazer_payload option"

text \<open>The encoded transaction is opaque; \<open>'b\<close> is the type of byte strings that the writer produces.\<close>

record 'b signed_transaction =
  sx_signature :: bytes
  sx_public_key :: bytes
  sx_payload :: 'b

record ('c, 'b) publisher_services =
  hash_order :: "(u32 option \<times> feed_update) list \<Rightarrow> (u32 option \<times> feed_update) list"
  cache_get :: "'c \<Rightarrow> u32 \<Rightarrow> feed_update option \<times> 'c"
  cache_insert :: "u32 \<Rightarrow> feed_update \<Rightarrow> std_duration \<Rightarrow> 'c \<Rightarrow> 'c"
  write_to_bytes :: "lazer_transaction \<Rightarrow> string + 'b"
  sign_bytes :: "'b \<Rightarrow> bytes"
  verifying_key :: bytes

text \<open>The broadcast channel is the number of its receivers, which \<^verbatim>\<open>LazerPublisher::new\<close> subscribes, one for each
  connection worker, and everything that was handed to it.  What becomes of a transaction in a connection,
  which may lag behind or fail to send, is the subject of \<^verbatim>\<open>Agent_Relayer\<close>.\<close>

record ('c, 'b) publisher_task =
  tk_config :: publisher_config
  tk_pending_updates :: "feed_update list"
  tk_ttl_cache :: 'c
  tk_receivers :: nat
  tk_broadcast :: "'b signed_transaction list"

section \<open>Removing repetitions\<close>

text \<open>\<open>resolve_num_connections\<close>: as many connections as relayers unless fewer are requested, at least one.\<close>

definition resolve_num_connections :: "nat option \<Rightarrow> nat \<Rightarrow> nat" where
  "resolve_num_connections requested num_relayers =
    (case requested of
       Some r \<Rightarrow> max (min r num_relayers) (if num_relayers > 0 then 1 else 0)
     | None \<Rightarrow> num_relayers)"

definition dedup_entry :: "feed_update \<Rightarrow> (u32 option \<times> feed_update) list \<Rightarrow> (u32 option \<times> feed_update) list" where
  "dedup_entry update m =
    (case map_of m (fu_feed_id update) of
       None \<Rightarrow> AList.update (fu_feed_id update) update m
     | Some entry \<Rightarrow>
         if fu_update entry \<noteq> fu_update update then AList.update (fu_feed_id update) update m else m)"

definition deduplicate_feed_updates_in_tx ::
  "((u32 option \<times> feed_update) list \<Rightarrow> (u32 option \<times> feed_update) list) \<Rightarrow> feed_update list \<Rightarrow> feed_update list" where
  "deduplicate_feed_updates_in_tx order sorted_feed_updates =
    map snd (order (fold dedup_entry sorted_feed_updates []))"

text \<open>The closure of \<^verbatim>\<open>retain\<close> as a loop that threads the cache.\<close>

fun deduplicate_feed_updates ::
  "('c, 'b) publisher_services \<Rightarrow> std_duration \<Rightarrow> feed_update list \<Rightarrow> 'c \<Rightarrow> feed_update list \<times> 'c" where
  "deduplicate_feed_updates sv ttl [] cache = ([], cache)"
| "deduplicate_feed_updates sv ttl (update # updates) cache =
    (case fu_feed_id update of
       None \<Rightarrow> deduplicate_feed_updates sv ttl updates cache
     | Some feed_id \<Rightarrow>
         (let (cached, cache) = cache_get sv cache feed_id in
          if map_option fu_update cached = Some (fu_update update)
          then deduplicate_feed_updates sv ttl updates cache
          else let (kept, cache) =
                 deduplicate_feed_updates sv ttl updates (cache_insert sv feed_id update ttl cache)
               in (update # kept, cache)))"

section \<open>The task\<close>

definition timestamp_key :: "feed_update \<Rightarrow> (int \<times> int) option" where
  "timestamp_key u = map_option (\<lambda>t. (sint (pb_seconds t), sint (pb_nanos t))) (fu_source_timestamp u)"

definition batch_updates ::
  "('c, 'b) publisher_services \<Rightarrow> ('c, 'b) publisher_task \<Rightarrow> feed_update list \<times> 'c" where
  "batch_updates sv s =
    (let updates = sort_key timestamp_key (tk_pending_updates s) in
     if enable_update_deduplication (tk_config s)
     then deduplicate_feed_updates sv (update_deduplication_ttl (tk_config s))
            (deduplicate_feed_updates_in_tx (hash_order sv) updates) (tk_ttl_cache s)
     else (updates, tk_ttl_cache s))"

definition publisher_transaction :: "feed_update list \<Rightarrow> proto_time \<Rightarrow> lazer_transaction" where
  "publisher_transaction updates now =
    \<lparr>lt_payload = Some (Payload_PublisherUpdate \<lparr>pb_updates = updates, pb_publisher_timestamp = Some now\<rparr>)\<rparr>"

text \<open>\<open>relayer_sender.send\<close> of the channel: it fails when nobody receives.\<close>

definition relayer_send :: "'b signed_transaction \<Rightarrow> ('c, 'b) publisher_task \<Rightarrow> (unit + unit) \<times> ('c, 'b) publisher_task" where
  "relayer_send tx s =
    (if tk_receivers s = 0 then (Inl (), s) else (Inr (), s\<lparr>tk_broadcast := tk_broadcast s @ [tx]\<rparr>))"

definition batch_transaction ::
  "('c, 'b) publisher_services \<Rightarrow> proto_time \<Rightarrow> ('c, 'b) publisher_task \<Rightarrow> (string + unit) \<times> ('c, 'b) publisher_task" where
  "batch_transaction sv now s =
    (if tk_pending_updates s = [] then (Inr (), s)
     else
       let (updates, cache) = batch_updates sv s;
           s = s\<lparr>tk_pending_updates := [], tk_ttl_cache := cache\<rparr>
       in if updates = [] then (Inr (), s)
          else (case write_to_bytes sv (publisher_transaction updates now) of
                  Inl e \<Rightarrow> (Inl ''Failed to encode Lazer transaction'', s)
                | Inr buf \<Rightarrow>
                    (case relayer_send
                       \<lparr>sx_signature = sign_bytes sv buf, sx_public_key = verifying_key sv, sx_payload = buf\<rparr> s of
                       (Inr _, s) \<Rightarrow> (Inr (), s)
                     | (Inl e, s) \<Rightarrow> (Inr (), s))))"

definition receive_update :: "feed_update \<Rightarrow> ('c, 'b) publisher_task \<Rightarrow> ('c, 'b) publisher_task" where
  "receive_update feed_update s = s\<lparr>tk_pending_updates := tk_pending_updates s @ [feed_update]\<rparr>"

definition initial_task :: "publisher_config \<Rightarrow> nat \<Rightarrow> 'c \<Rightarrow> ('c, 'b) publisher_task" where
  "initial_task config num_connections cache =
    \<lparr>tk_config = config, tk_pending_updates = [], tk_ttl_cache = cache, tk_receivers = num_connections,
     tk_broadcast = []\<rparr>"

text \<open>The loop of \<^verbatim>\<open>run\<close>: an update arrives, or the publish interval ticks; an error of a batch is
  logged and the loop goes on.\<close>

inductive task_run :: "('c, 'b) publisher_services \<Rightarrow> ('c, 'b) publisher_task \<Rightarrow> ('c, 'b) publisher_task \<Rightarrow> bool"
  for sv :: "('c, 'b) publisher_services" and s0 :: "('c, 'b) publisher_task" where
  task_start: "task_run sv s0 s0"
| task_recv: "task_run sv s0 s \<Longrightarrow> task_run sv s0 (receive_update u s)"
| task_tick: "task_run sv s0 s \<Longrightarrow> batch_transaction sv now s = (r, s') \<Longrightarrow> task_run sv s0 s'"

section \<open>Removing repetitions within a batch\<close>

abbreviation updates_of :: "u32 option \<Rightarrow> feed_update list \<Rightarrow> feed_update list" where
  "updates_of f us \<equiv> filter (\<lambda>u. fu_feed_id u = f) us"

text \<open>\<open>starts_last_run u us\<close>: the list ends with a run of updates that carry the same data, and \<open>u\<close> is the
  first of that run.\<close>

definition starts_last_run :: "feed_update \<Rightarrow> feed_update list \<Rightarrow> bool" where
  "starts_last_run u us \<longleftrightarrow>
     (\<exists>before same. us = before @ u # same \<and> (\<forall>v \<in> set same. fu_update v = fu_update u) \<and>
        (before = [] \<or> fu_update (last before) \<noteq> fu_update u))"

lemma starts_last_run_data: "starts_last_run u us \<Longrightarrow> us \<noteq> [] \<and> u \<in> set us \<and> fu_update (last us) = fu_update u"
  by (auto simp: starts_last_run_def)

lemma starts_last_run_same:
  "starts_last_run u us \<Longrightarrow> fu_update v = fu_update u \<Longrightarrow> starts_last_run u (us @ [v])"
proof -
  assume "starts_last_run u us" and v: "fu_update v = fu_update u"
  then obtain before same where "us = before @ u # same" "\<forall>v \<in> set same. fu_update v = fu_update u"
      "before = [] \<or> fu_update (last before) \<noteq> fu_update u"
    by (auto simp: starts_last_run_def)
  then show ?thesis unfolding starts_last_run_def using v
    by (intro exI [of _ before] exI [of _ "same @ [v]"]) simp
qed

lemma starts_last_run_other:
  "us = [] \<or> fu_update (last us) \<noteq> fu_update v \<Longrightarrow> starts_last_run v (us @ [v])"
  unfolding starts_last_run_def by (intro exI [of _ us] exI [of _ "[]"]) simp



lemma dedup_entry_lookup:
  "map_of (dedup_entry u m) =
     (case map_of m (fu_feed_id u) of
        None \<Rightarrow> (map_of m)(fu_feed_id u \<mapsto> u)
      | Some e \<Rightarrow> if fu_update e \<noteq> fu_update u then (map_of m)(fu_feed_id u \<mapsto> u) else map_of m)"
  by (auto simp: dedup_entry_def update_conv' split: option.split)

lemma dedup_entry_distinct: "distinct (map fst m) \<Longrightarrow> distinct (map fst (dedup_entry u m))"
  by (auto simp: dedup_entry_def distinct_update split: option.split)

lemma dedup_distinct: "distinct (map fst m) \<Longrightarrow> distinct (map fst (fold dedup_entry us m))"
  by (induction us arbitrary: m) (simp_all add: dedup_entry_distinct)

text \<open>The entry of a feed after the loop.\<close>

lemma dedup_lookup:
  "case map_of (fold dedup_entry us []) f of
     None \<Rightarrow> updates_of f us = []
   | Some u \<Rightarrow> fu_feed_id u = f \<and> starts_last_run u (updates_of f us)"
proof (induction us rule: rev_induct)
  case (snoc v us)
  let ?m = "fold dedup_entry us []"
  have m: "map_of (fold dedup_entry (us @ [v]) []) f = map_of (dedup_entry v ?m) f" by simp
  show ?case
  proof (cases "fu_feed_id v = f")
    case False
    then have "map_of (dedup_entry v ?m) f = map_of ?m f" by (simp add: dedup_entry_lookup split: option.split)
    with snoc False show ?thesis unfolding m by (simp split: option.splits)
  next
    case True
    show ?thesis
    proof (cases "map_of ?m f")
      case None
      then show ?thesis using snoc True unfolding m
        by (simp add: dedup_entry_lookup starts_last_run_other [of "[]", simplified])
    next
      case (Some e)
      then have e: "fu_feed_id e = f" "starts_last_run e (updates_of f us)" using snoc by simp_all
      then show ?thesis using Some True starts_last_run_data [OF e(2)] unfolding m
        by (cases "fu_update e = fu_update v")
          (simp_all add: dedup_entry_lookup starts_last_run_same starts_last_run_other)
    qed
  qed
qed simp

lemma dedup_entries:
  assumes "(f, u) \<in> set (fold dedup_entry us [])"
  shows "fu_feed_id u = f" and "starts_last_run u (updates_of f us)"
proof -
  have "map_of (fold dedup_entry us []) f = Some u"
    using assms dedup_distinct [of "[]" us] by simp
  then show "fu_feed_id u = f" "starts_last_run u (updates_of f us)"
    using dedup_lookup [of f us] by simp_all
qed

definition is_reordering :: "('a list \<Rightarrow> 'a list) \<Rightarrow> bool" where
  "is_reordering order \<longleftrightarrow> (\<forall>m. mset (order m) = mset m)"

lemma dedup_in_tx_feeds:
  assumes "is_reordering order"
  shows "distinct (map fu_feed_id (deduplicate_feed_updates_in_tx order us))"
    and "fu_feed_id ` set (deduplicate_feed_updates_in_tx order us) = fu_feed_id ` set us"
    and "u \<in> set (deduplicate_feed_updates_in_tx order us) \<Longrightarrow> starts_last_run u (updates_of (fu_feed_id u) us)"
proof -
  let ?m = "fold dedup_entry us []"
  have perm: "mset (order ?m) = mset ?m" using assms by (simp add: is_reordering_def)
  then have set: "set (order ?m) = set ?m" by (metis set_mset_mset)
  have fst: "map fu_feed_id (deduplicate_feed_updates_in_tx order us) = map fst (order ?m)"
    using dedup_entries(1) set by (auto simp: deduplicate_feed_updates_in_tx_def)
  have "mset (map fst (order ?m)) = mset (map fst ?m)" using perm by simp
  then have "distinct (map fst (order ?m))"
    using dedup_distinct [of "[]" us] by (metis distinct.simps(1) list.simps(8) mset_eq_imp_distinct_iff)
  then show "distinct (map fu_feed_id (deduplicate_feed_updates_in_tx order us))" by (simp only: fst)
  have "f \<in> fst ` set ?m \<longleftrightarrow> f \<in> fu_feed_id ` set us" for f
  proof -
    have "f \<in> fst ` set ?m \<longleftrightarrow> map_of ?m f \<noteq> None" by (simp add: map_of_eq_None_iff)
    also have "\<dots> \<longleftrightarrow> updates_of f us \<noteq> []"
      using dedup_lookup [of f us] starts_last_run_data by (auto split: option.splits)
    finally show ?thesis by (auto simp: filter_empty_conv)
  qed
  moreover have "fu_feed_id ` set (deduplicate_feed_updates_in_tx order us) = fst ` set ?m"
    using fst set by (metis image_set)
  ultimately show "fu_feed_id ` set (deduplicate_feed_updates_in_tx order us) = fu_feed_id ` set us" by auto
  assume "u \<in> set (deduplicate_feed_updates_in_tx order us)"
  then obtain f where "(f, u) \<in> set ?m" using set by (auto simp: deduplicate_feed_updates_in_tx_def)
  then show "starts_last_run u (updates_of (fu_feed_id u) us)" using dedup_entries by fastforce
qed

section \<open>Removing repetitions across batches\<close>

text \<open>
  What the task relies on.  \<open>cache_contract\<close>: the cache keeps at most the last value inserted for a key,
  which a lookup returns or, once it has expired or been evicted, does not (\<open>stored\<close> is the last value
  inserted).  \<open>writer_contract\<close>: a transaction can be encoded, and decoding gives it back.
\<close>

definition cache_contract :: "('c, 'b) publisher_services \<Rightarrow> ('c \<Rightarrow> u32 \<Rightarrow> feed_update option) \<Rightarrow> bool" where
  "cache_contract sv stored \<longleftrightarrow>
     (\<forall>c k. stored (snd (cache_get sv c k)) = stored c \<and>
            (fst (cache_get sv c k) = None \<or> fst (cache_get sv c k) = stored c k)) \<and>
     (\<forall>k u ttl c. stored (cache_insert sv k u ttl c) = (stored c)(k \<mapsto> u))"

definition writer_contract :: "('c, 'b) publisher_services \<Rightarrow> ('b \<Rightarrow> lazer_transaction option) \<Rightarrow> bool" where
  "writer_contract sv parse \<longleftrightarrow> (\<forall>tx. \<exists>buf. write_to_bytes sv tx = Inr buf \<and> parse buf = Some tx)"

text \<open>What a relayer reads from the broadcast transactions.\<close>

definition transaction_updates :: "lazer_transaction option \<Rightarrow> feed_update list" where
  "transaction_updates tx =
    (case Option.bind tx lt_payload of None \<Rightarrow> [] | Some (Payload_PublisherUpdate p) \<Rightarrow> pb_updates p)"

definition sent_updates :: "('b \<Rightarrow> lazer_transaction option) \<Rightarrow> ('c, 'b) publisher_task \<Rightarrow> feed_update list" where
  "sent_updates parse s = concat (map (\<lambda>x. transaction_updates (parse (sx_payload x))) (tk_broadcast s))"

definition last_of :: "u32 \<Rightarrow> feed_update list \<Rightarrow> feed_update option" where
  "last_of k us = (if updates_of (Some k) us = [] then None else Some (last (updates_of (Some k) us)))"

lemma last_of_append: "last_of k (us @ vs) = (if last_of k vs = None then last_of k us else last_of k vs)"
  by (simp add: last_of_def)

lemma last_of_Nil [simp]: "last_of k [] = None"
  by (simp add: last_of_def)

lemma last_of_Cons:
  "last_of k (u # us) = (if last_of k us = None \<and> fu_feed_id u = Some k then Some u else last_of k us)"
  by (simp add: last_of_def)

text \<open>The three ways an update passes the filter.\<close>

lemma dedup_cases:
  assumes "deduplicate_feed_updates sv ttl (u # us) c = (kept, c')"
  obtains (no_feed) "fu_feed_id u = None" "deduplicate_feed_updates sv ttl us c = (kept, c')"
  | (repeated) k e c1 where "fu_feed_id u = Some k" "cache_get sv c k = (Some e, c1)" "fu_update e = fu_update u"
      "deduplicate_feed_updates sv ttl us c1 = (kept, c')"
  | (fresh) k r c1 ks where "fu_feed_id u = Some k" "cache_get sv c k = (r, c1)"
      "map_option fu_update r \<noteq> Some (fu_update u)"
      "deduplicate_feed_updates sv ttl us (cache_insert sv k u ttl c1) = (ks, c')" "kept = u # ks"
proof (cases "fu_feed_id u")
  case None
  then show ?thesis using no_feed assms by simp
next
  case (Some k)
  obtain r c1 where g: "cache_get sv c k = (r, c1)" by (cases "cache_get sv c k")
  obtain ks d where d: "deduplicate_feed_updates sv ttl us (cache_insert sv k u ttl c1) = (ks, d)"
    by (cases "deduplicate_feed_updates sv ttl us (cache_insert sv k u ttl c1)")
  show ?thesis
  proof (cases "map_option fu_update r = Some (fu_update u)")
    case True
    then obtain e where "r = Some e" "fu_update e = fu_update u" by auto
    then show ?thesis using assms Some g True repeated [of k e c1] by simp
  next
    case False
    then have "kept = u # ks" "d = c'" using assms Some g d by (auto split: if_splits)
    then show ?thesis using Some g d False fresh [of k r c1 ks] by simp
  qed
qed

lemma cache_contractD:
  assumes "cache_contract sv stored" and "cache_get sv c k = (r, c1)"
  shows "stored c1 = stored c" and "r = None \<or> r = stored c k"
    and "stored (cache_insert sv k u ttl c1) = (stored c)(k \<mapsto> u)"
  using assms unfolding cache_contract_def by (metis fst_conv snd_conv)+

lemma dedup_kept_feeds:
  "deduplicate_feed_updates sv ttl us c = (kept, c') \<Longrightarrow> last_of k us = None \<Longrightarrow> last_of k kept = None"
proof (induction us arbitrary: c kept)
  case (Cons u us)
  have n: "last_of k us = None" "fu_feed_id u \<noteq> Some k"
    using Cons.prems(2) by (auto simp: last_of_Cons split: if_splits)
  from Cons.prems(1) show ?case
    by (cases rule: dedup_cases) (use n Cons.IH in \<open>auto simp: last_of_Cons\<close>)
qed simp

lemma dedup_stored:
  assumes "cache_contract sv stored" and "deduplicate_feed_updates sv ttl us c = (kept, c')"
  shows "stored c' k = (if last_of k kept = None then stored c k else last_of k kept)"
  using assms(2)
proof (induction us arbitrary: c kept)
  case (Cons u us)
  from Cons.prems show ?case
  proof (cases rule: dedup_cases)
    case no_feed then show ?thesis using Cons.IH by simp
  next
    case (repeated k e c1) then show ?thesis using Cons.IH cache_contractD(1) [OF assms(1)] by metis
  next
    case (fresh j r c1 ks)
    then show ?thesis using Cons.IH [OF fresh(4)] cache_contractD(3) [OF assms(1) fresh(2)]
      by (auto simp: last_of_Cons)
  qed
qed simp

text \<open>No data is lost: the last value stored for a feed carries the data of its last update.\<close>

lemma dedup_current:
  assumes "cache_contract sv stored" and "deduplicate_feed_updates sv ttl us c = (kept, c')"
    and "last_of k us = Some u"
  shows "map_option fu_update (stored c' k) = Some (fu_update u)"
  using assms(2,3)
proof (induction us arbitrary: c kept)
  case (Cons v us)
  have later: "map_option fu_update (stored c' k) = Some (fu_update u)"
    if "deduplicate_feed_updates sv ttl us d = (ks, c')" "last_of k us \<noteq> None" for d ks
    using Cons that by (auto simp: last_of_Cons)
  have here: "fu_feed_id v = Some k" "v = u" if "last_of k us = None"
    using Cons.prems(2) that by (auto simp: last_of_Cons split: if_splits)
  from Cons.prems(1) show ?case
  proof (cases rule: dedup_cases)
    case no_feed then show ?thesis using later here by fastforce
  next
    case (repeated j e c1)
    show ?thesis
    proof (cases "last_of k us = None")
      case True
      then have "last_of k kept = None" by (rule dedup_kept_feeds [OF repeated(4)])
      then have "stored c' k = stored c k"
        using dedup_stored [OF assms(1) repeated(4), of k] cache_contractD(1) [OF assms(1) repeated(2)] by simp
      moreover have "stored c k = Some e"
        using here [OF True] repeated(1,2) cache_contractD(2) [OF assms(1) repeated(2)] by auto
      ultimately show ?thesis using here [OF True] repeated(3) by simp
    next
      case False
      then show ?thesis using later [OF repeated(4)] by simp
    qed
  next
    case (fresh j r c1 ks)
    show ?thesis
    proof (cases "last_of k us = None")
      case True
      then have "last_of k ks = None" by (rule dedup_kept_feeds [OF fresh(4)])
      then show ?thesis
        using dedup_stored [OF assms(1) fresh(4), of k] cache_contractD(3) [OF assms(1) fresh(2)] here [OF True] fresh(1)
        by simp
    next
      case False
      then show ?thesis using later [OF fresh(4)] by simp
    qed
  qed
qed simp

section \<open>The run of the task\<close>

lemma sent_updates_broadcast:
  "sent_updates parse (s\<lparr>tk_broadcast := tk_broadcast s @ [x]\<rparr>) =
     sent_updates parse s @ transaction_updates (parse (sx_payload x))"
  by (simp add: sent_updates_def)

lemma publisher_transaction_updates [simp]: "transaction_updates (Some (publisher_transaction us now)) = us"
  by (simp add: transaction_updates_def publisher_transaction_def)

text \<open>A batch sends exactly the updates that pass the filters, in one transaction, and empties the queue.\<close>

lemma batch_transaction_effect:
  assumes "writer_contract sv parse" and "tk_pending_updates s \<noteq> []"
    and "batch_updates sv s = (us, c)" and "batch_transaction sv now s = (r, s')" and "tk_receivers s > 0"
  shows "r = Inr ()" and "tk_pending_updates s' = []" and "tk_ttl_cache s' = c" and "tk_config s' = tk_config s"
    and "sent_updates parse s' = sent_updates parse s @ us"
proof -
  obtain buf where buf: "write_to_bytes sv (publisher_transaction us now) = Inr buf"
      "parse buf = Some (publisher_transaction us now)"
    using assms(1) by (auto simp: writer_contract_def)
  show "r = Inr ()" "tk_pending_updates s' = []" "tk_ttl_cache s' = c" "tk_config s' = tk_config s"
    "sent_updates parse s' = sent_updates parse s @ us"
    using assms(2-5) buf
    by (auto simp: batch_transaction_def relayer_send_def Let_def sent_updates_def split: if_splits)
qed

lemma batch_transaction_idle: "tk_pending_updates s = [] \<Longrightarrow> batch_transaction sv now s = (Inr (), s)"
  by (simp add: batch_transaction_def)

text \<open>With de-duplication on, the cache and the broadcast agree on the last update of every feed.\<close>

definition synced :: "('c \<Rightarrow> u32 \<Rightarrow> feed_update option) \<Rightarrow> ('b \<Rightarrow> lazer_transaction option) \<Rightarrow> ('c, 'b) publisher_task \<Rightarrow> bool" where
  "synced stored parse s \<longleftrightarrow> (\<forall>k. stored (tk_ttl_cache s) k = last_of k (sent_updates parse s))"

lemma batch_synced:
  assumes "cache_contract sv stored" and "writer_contract sv parse" and "enable_update_deduplication (tk_config s)"
    and "synced stored parse s" and "batch_transaction sv now s = (r, s')" and "tk_receivers s > 0"
  shows "synced stored parse s'"
proof (cases "tk_pending_updates s = []")
  case True
  then show ?thesis using assms(4,5) by (simp add: batch_transaction_idle)
next
  case False
  obtain us c where b: "batch_updates sv s = (us, c)" by (cases "batch_updates sv s")
  note eff = batch_transaction_effect [OF assms(2) False b assms(5,6)]
  have "stored c k = (if last_of k us = None then stored (tk_ttl_cache s) k else last_of k us)" for k
    using b assms(3) by (intro dedup_stored [OF assms(1)]) (auto simp: batch_updates_def Let_def)
  then show ?thesis using eff(3,5) assms(4) by (simp add: synced_def last_of_append)
qed

lemma batch_config:
  "batch_transaction sv now s = (r, s') \<Longrightarrow> tk_config s' = tk_config s \<and> tk_receivers s' = tk_receivers s"
  by (auto simp: batch_transaction_def relayer_send_def Let_def split: if_splits prod.splits sum.splits)

lemma task_run_synced:
  assumes "task_run sv (initial_task cfg n c0) s" and "cache_contract sv stored" and "writer_contract sv parse"
    and "\<forall>k. stored c0 k = None" and "n > 0"
  shows "tk_config s = cfg \<and> tk_receivers s = n \<and> (enable_update_deduplication cfg \<longrightarrow> synced stored parse s)"
  using assms(1)
proof (induction rule: task_run.induct)
  case task_start
  then show ?case using assms(4) by (simp add: initial_task_def synced_def sent_updates_def)
next
  case (task_recv s u)
  then show ?case by (simp add: receive_update_def synced_def sent_updates_def)
next
  case (task_tick s now r s')
  then show ?case using batch_synced [OF assms(2,3)] batch_config assms(5) by metis
qed

lemma last_of_Some_iff: "last_of k us = Some u \<longleftrightarrow> updates_of (Some k) us \<noteq> [] \<and> u = last (updates_of (Some k) us)"
  by (auto simp: last_of_def)

lemma last_of_dedup_in_tx:
  assumes "is_reordering order" and "last_of k us = Some u"
  obtains v where "last_of k (deduplicate_feed_updates_in_tx order us) = Some v" and "fu_update v = fu_update u"
proof -
  let ?ds = "deduplicate_feed_updates_in_tx order us"
  have "Some k \<in> fu_feed_id ` set us" using assms(2) by (force simp: last_of_Some_iff filter_empty_conv)
  then have "Some k \<in> fu_feed_id ` set ?ds" by (simp only: dedup_in_tx_feeds(2) [OF assms(1)])
  then have ne: "updates_of (Some k) ?ds \<noteq> []" by (auto simp: filter_empty_conv)
  then have "last (updates_of (Some k) ?ds) \<in> set (updates_of (Some k) ?ds)" by (rule last_in_set)
  then have "starts_last_run (last (updates_of (Some k) ?ds)) (updates_of (Some k) us)"
    using dedup_in_tx_feeds(3) [OF assms(1)] by force
  then have "fu_update (last (updates_of (Some k) ?ds)) = fu_update u"
    using starts_last_run_data assms(2) by (simp add: last_of_Some_iff)
  moreover have "last_of k ?ds = Some (last (updates_of (Some k) ?ds))" using ne by (simp add: last_of_def)
  ultimately show ?thesis using that by blast
qed

text \<open>Concrete services: a cache that never forgets, and transactions that are sent as they are.\<close>

definition demo_update :: "u32 \<Rightarrow> i64 \<Rightarrow> feed_update" where
  "demo_update f p = \<lparr>fu_feed_id = Some f, fu_source_timestamp = None,
     fu_update = Some (FundingRateUpdate \<lparr>fr_price = Some p, fr_rate = None, fr_funding_rate_interval = None\<rparr>)\<rparr>"

definition demo_services :: "(u32 \<Rightarrow> feed_update option, lazer_transaction) publisher_services" where
  "demo_services = \<lparr>hash_order = rev, cache_get = (\<lambda>c k. (c k, c)), cache_insert = (\<lambda>k u ttl c. c(k \<mapsto> u)),
     write_to_bytes = Inr, sign_bytes = (\<lambda>_. []), verifying_key = []\<rparr>"

lemma demo_services_contracts:
  "cache_contract demo_services (\<lambda>c. c)" "writer_contract demo_services Some" "is_reordering (hash_order demo_services)"
  by (simp_all add: cache_contract_def writer_contract_def is_reordering_def demo_services_def)

lemma resolve_num_connections_pos: "resolve_num_connections requested n > 0 \<longleftrightarrow> n > 0"
  by (auto simp: resolve_num_connections_def split: option.split)

lemma batch_transaction_ok:
  assumes "writer_contract sv parse" and "batch_transaction sv now s = (r, s')"
  shows "r = Inr ()"
proof -
  obtain us c where b: "batch_updates sv s = (us, c)" by (cases "batch_updates sv s")
  obtain buf where "write_to_bytes sv (publisher_transaction us now) = Inr buf"
    using assms(1) by (auto simp: writer_contract_def)
  with b show ?thesis using assms(2)
    by (auto simp: batch_transaction_def relayer_send_def Let_def split: if_splits)
qed

text \<open>Without a receiver nothing is ever handed over.\<close>

lemma task_run_no_receivers:
  assumes "task_run sv (initial_task cfg 0 c0) s"
  shows "tk_receivers s = 0 \<and> tk_broadcast s = []"
  using assms
proof (induction rule: task_run.induct)
  case (task_tick s now r s')
  then show ?case
    by (auto simp: batch_transaction_def relayer_send_def Let_def split: if_splits prod.splits sum.splits)
qed (simp_all add: initial_task_def receive_update_def)

lemma batch_is_current:
  assumes "cache_contract sv stored" and "writer_contract sv parse" and "is_reordering (hash_order sv)"
    and "\<forall>k. stored c0 k = None"
    and "task_run sv (initial_task cfg n c0) s" and "batch_transaction sv now s = (r, s')"
    and "last_of k (sort_key timestamp_key (tk_pending_updates s)) = Some u"
    and "n > 0"
  shows "r = Inr () \<and> map_option fu_update (last_of k (sent_updates parse s')) = Some (fu_update u)"
proof -
  have ne: "tk_pending_updates s \<noteq> []" using assms(7) by (auto simp: last_of_Some_iff)
  obtain us c where b: "batch_updates sv s = (us, c)" by (cases "batch_updates sv s")
  note run = task_run_synced [OF assms(5,1,2,4,8)]
  then have recv: "tk_receivers s > 0" using assms(8) by simp
  note eff = batch_transaction_effect [OF assms(2) ne b assms(6) recv]
  show ?thesis
  proof (cases "enable_update_deduplication cfg")
    case True
    then have d: "deduplicate_feed_updates sv (update_deduplication_ttl cfg)
        (deduplicate_feed_updates_in_tx (hash_order sv) (sort_key timestamp_key (tk_pending_updates s)))
        (tk_ttl_cache s) = (us, c)"
      using b run by (simp add: batch_updates_def Let_def)
    obtain v where v: "last_of k (deduplicate_feed_updates_in_tx (hash_order sv)
        (sort_key timestamp_key (tk_pending_updates s))) = Some v" "fu_update v = fu_update u"
      by (rule last_of_dedup_in_tx [OF assms(3,7)])
    have "map_option fu_update (stored c k) = Some (fu_update u)"
      using dedup_current [OF assms(1) d v(1)] v(2) by simp
    moreover have "synced stored parse s'"
      using batch_synced [OF assms(1,2) _ _ assms(6) recv] run True by simp
    ultimately show ?thesis using eff(1,3) by (simp add: synced_def)
  next
    case False
    then have "us = sort_key timestamp_key (tk_pending_updates s)"
      using b run by (simp add: batch_updates_def Let_def)
    then show ?thesis using eff(1,5) assms(7) by (simp add: last_of_append)
  qed
qed

section \<open>Properties\<close>



text \<open>C26: The publishing task loses no data.  In every run of the task of an agent with at least one relayer, with or
  without de-duplication, when a batch is published the last update that the task has handed to the relayer
  connections for a feed, over the broadcast channel, carries the data of the latest pending update of that
  feed, provided the cache returns only what was inserted last and transactions can be encoded; and the
  batch succeeds.  With no relayer the channel has no receiver: the batch still succeeds and nothing is
  handed over.  A connection that lags behind or fails to send loses what it was handed; that is not a
  matter of this task.\<close>

theorem published_data_is_current:
  assumes "cache_contract sv stored" and "writer_contract sv parse" and "is_reordering (hash_order sv)"
    and "\<forall>k. stored c0 k = None"
    and "task_run sv (initial_task cfg (resolve_num_connections requested num_relayers) c0) s"
    and "batch_transaction sv now s = (r, s')"
    and "last_of k (sort_key timestamp_key (tk_pending_updates s)) = Some u"
  shows "r = Inr () \<and> (if num_relayers = 0 then sent_updates parse s' = []
    else map_option fu_update (last_of k (sent_updates parse s')) = Some (fu_update u))"
proof -
  have ok: "r = Inr ()" by (rule batch_transaction_ok [OF assms(2,6)])
  show ?thesis
  proof (cases "num_relayers = 0")
    case True
    then have none: "resolve_num_connections requested num_relayers = 0"
      using resolve_num_connections_pos [of requested num_relayers] by simp
    have "tk_broadcast s' = []" using task_run_no_receivers [OF task_tick [OF assms(5,6), unfolded none]] by simp
    then show ?thesis using ok True by (simp add: sent_updates_def)
  next
    case False
    then have "resolve_num_connections requested num_relayers > 0" by (simp add: resolve_num_connections_pos)
    from batch_is_current [OF assms this] show ?thesis using False by simp
  qed
qed

theorem published_data_is_current_witness:
  "let batch = (\<lambda>relayers. snd (batch_transaction demo_services \<lparr>pb_seconds = 1, pb_nanos = 0\<rparr>
     (receive_update (demo_update 7 5) (initial_task \<lparr>enable_update_deduplication = True,
        update_deduplication_ttl = \<lparr>sd_secs = 1, sd_nanos = 0\<rparr>\<rparr> (resolve_num_connections None relayers) (\<lambda>_. None)))))
   in map_option fu_update (last_of 7 (sent_updates Some (batch 1))) = Some (fu_update (demo_update 7 5)) \<and>
      sent_updates Some (batch 0) = []"
proof -
  let ?cfg = "\<lparr>enable_update_deduplication = True, update_deduplication_ttl = \<lparr>sd_secs = 1, sd_nanos = 0\<rparr>\<rparr>"
  let ?now = "\<lparr>pb_seconds = 1, pb_nanos = 0\<rparr> :: proto_time"
  let ?init = "\<lambda>relayers. initial_task ?cfg (resolve_num_connections None relayers) (\<lambda>_. None)"
  let ?s = "\<lambda>relayers. receive_update (demo_update 7 5) (?init relayers)"
  have run: "task_run demo_services (?init n) (?s n)" for n by (rule task_recv [OF task_start])
  have b: "batch_transaction demo_services ?now (?s n) =
      (fst (batch_transaction demo_services ?now (?s n)), snd (batch_transaction demo_services ?now (?s n)))" for n
    by simp
  have l: "last_of 7 (sort_key timestamp_key (tk_pending_updates (?s n))) = Some (demo_update 7 5)" for n
    by (simp add: receive_update_def initial_task_def last_of_Cons demo_update_def)
  note h = published_data_is_current [OF demo_services_contracts _ run b l]
  show ?thesis unfolding Let_def using h [of 1] h [of 0] by simp
qed

end
