(* ===== verification/Agent_Relayer.thy ===== *)
theory Agent_Relayer
  imports Agent_Publisher
begin

text \<open>
  The relayer connections of the agent (\<^verbatim>\<open>agent/src/relayer_session.rs\<close>): a fixed pool of relayer
  slots shared by worker tasks.  A worker scans the pool, claims a free slot, waits for its back-off
  deadline, connects, forwards transactions, records the outcome and releases the slot.  The workers run
  concurrently, so the model is a step relation in which every access to a slot is one step; instants and
  durations are nanoseconds.  The exponential back-off of the \<^verbatim>\<open>backoff\<close> crate is an argument.
\<close>

section \<open>Slots\<close>

definition INITIAL_BACKOFF :: nat where "INITIAL_BACKOFF = 100 * 1000000"
definition MAX_BACKOFF :: nat where "MAX_BACKOFF = 5 * 1000000000"
definition STABLE_CONNECTION :: nat where "STABLE_CONNECTION = 30 * 1000000000"

record 'b backoff_ops =
  bo_new :: 'b
  bo_reset :: "'b \<Rightarrow> 'b"
  bo_next :: "'b \<Rightarrow> nat option \<times> 'b"

datatype connection_outcome = ConnectFailed | Disconnected nat

record 'b slot =
  sl_url :: string
  sl_permits :: nat
  sl_backoff :: 'b
  sl_ready_at :: nat

definition slot_new :: "'b backoff_ops \<Rightarrow> nat \<Rightarrow> string \<Rightarrow> 'b slot" where
  "slot_new ops now url = \<lparr>sl_url = url, sl_permits = 1, sl_backoff = bo_new ops, sl_ready_at = now\<rparr>"

definition back_off :: "'b backoff_ops \<Rightarrow> nat \<Rightarrow> 'b slot \<Rightarrow> 'b slot" where
  "back_off ops now sl =
    (let (r, b) = bo_next ops (sl_backoff sl);
         next = (case r of Some d \<Rightarrow> d | None \<Rightarrow> MAX_BACKOFF)
     in sl\<lparr>sl_backoff := b, sl_ready_at := now + next\<rparr>)"

fun record_outcome :: "'b backoff_ops \<Rightarrow> nat \<Rightarrow> connection_outcome \<Rightarrow> 'b slot \<Rightarrow> 'b slot" where
  "record_outcome ops now (Disconnected uptime) sl =
    (if STABLE_CONNECTION \<le> uptime
     then sl\<lparr>sl_backoff := bo_reset ops (sl_backoff sl), sl_ready_at := now\<rparr>
     else back_off ops now sl)"
| "record_outcome ops now ConnectFailed sl = back_off ops now sl"

section \<open>Forwarding transactions\<close>

text \<open>
  What the \<^verbatim>\<open>select!\<close> of \<^verbatim>\<open>run_relayer_connection\<close> reports once connected: a transaction of the
  broadcast channel (with the success of sending it), the channel closed or lagging, or a message, an error
  or the end of the relayer's stream.  \<open>connection_loop\<close> consumes reports until the loop breaks; its result
  is the transactions sent, and whether the loop has ended.
\<close>

datatype 't connection_event =
    Recv_Transaction 't bool | Recv_Closed | Recv_Lagged nat | Relayer_Message | Relayer_Error | Relayer_Closed

fun connection_loop :: "'t connection_event list \<Rightarrow> 't list \<times> bool" where
  "connection_loop [] = ([], False)"
| "connection_loop (Recv_Transaction t sent_ok # es) =
    (if sent_ok then (let (ts, ended) = connection_loop es in (t # ts, ended)) else ([], True))"
| "connection_loop (Recv_Closed # es) = ([], True)"
| "connection_loop (Recv_Lagged skipped_count # es) = connection_loop es"
| "connection_loop (Relayer_Message # es) = connection_loop es"
| "connection_loop (Relayer_Error # es) = connection_loop es"
| "connection_loop (Relayer_Closed # es) = ([], True)"

section \<open>The pool and its workers\<close>

text \<open>
  The program counter of a worker: scanning at an index with the best candidate so far, between the reads of
  a slot's permit and of its deadline (other workers can step in between), asleep because every slot was held, holding a slot before its deadline, connecting, connected since an instant, and about to
  drop the permit.
\<close>

datatype worker =
    Scan nat "(nat \<times> nat) option" | Peek nat "(nat \<times> nat) option" | Asleep nat | Reserved nat | Connecting nat | Connected nat nat | Releasing nat

record 'b pool =
  pl_slots :: "'b slot list"
  pl_workers :: "worker list"
  pl_now :: nat
  pl_is_ready :: bool

definition better_candidate :: "nat \<Rightarrow> nat \<Rightarrow> (nat \<times> nat) option \<Rightarrow> (nat \<times> nat) option" where
  "better_candidate i ready_at best =
    (case best of
       None \<Rightarrow> Some (i, ready_at)
     | Some (_, best_ready) \<Rightarrow> if ready_at < best_ready then Some (i, ready_at) else best)"

definition set_worker :: "nat \<Rightarrow> worker \<Rightarrow> 'b pool \<Rightarrow> 'b pool" where
  "set_worker w pc s = s\<lparr>pl_workers := (pl_workers s)[w := pc]\<rparr>"

definition map_slot :: "nat \<Rightarrow> ('b slot \<Rightarrow> 'b slot) \<Rightarrow> 'b pool \<Rightarrow> 'b pool" where
  "map_slot j f s = s\<lparr>pl_slots := (pl_slots s)[j := f (pl_slots s ! j)]\<rparr>"

text \<open>One step of worker \<open>w\<close>.\<close>

inductive worker_step :: "'b backoff_ops \<Rightarrow> nat \<Rightarrow> 'b pool \<Rightarrow> 'b pool \<Rightarrow> bool"
  for ops :: "'b backoff_ops" and w :: nat where
  scan_held: "w < length (pl_workers s) \<Longrightarrow> pl_workers s ! w = Scan i best \<Longrightarrow> i < length (pl_slots s) \<Longrightarrow>
    sl_permits (pl_slots s ! i) = 0 \<Longrightarrow> worker_step ops w s (set_worker w (Scan (Suc i) best) s)"
| scan_free: "w < length (pl_workers s) \<Longrightarrow> pl_workers s ! w = Scan i best \<Longrightarrow> i < length (pl_slots s) \<Longrightarrow>
    sl_permits (pl_slots s ! i) \<noteq> 0 \<Longrightarrow> worker_step ops w s (set_worker w (Peek i best) s)"
| scan_peek: "w < length (pl_workers s) \<Longrightarrow> pl_workers s ! w = Peek i best \<Longrightarrow> i < length (pl_slots s) \<Longrightarrow>
    worker_step ops w s
      (set_worker w (Scan (Suc i) (better_candidate i (sl_ready_at (pl_slots s ! i)) best)) s)"
| scan_empty: "w < length (pl_workers s) \<Longrightarrow> pl_workers s ! w = Scan i None \<Longrightarrow> length (pl_slots s) \<le> i \<Longrightarrow>
    worker_step ops w s (set_worker w (Asleep (pl_now s + INITIAL_BACKOFF)) s)"
| wake_up: "w < length (pl_workers s) \<Longrightarrow> pl_workers s ! w = Asleep t \<Longrightarrow> t \<le> pl_now s \<Longrightarrow>
    worker_step ops w s (set_worker w (Scan 0 None) s)"
| claim: "w < length (pl_workers s) \<Longrightarrow> pl_workers s ! w = Scan i (Some (j, r)) \<Longrightarrow> length (pl_slots s) \<le> i \<Longrightarrow>
    j < length (pl_slots s) \<Longrightarrow> sl_permits (pl_slots s ! j) \<noteq> 0 \<Longrightarrow>
    worker_step ops w s
      (set_worker w (Reserved j) (map_slot j (\<lambda>sl. sl\<lparr>sl_permits := sl_permits sl - 1\<rparr>) s))"
| claim_lost: "w < length (pl_workers s) \<Longrightarrow> pl_workers s ! w = Scan i (Some (j, r)) \<Longrightarrow> length (pl_slots s) \<le> i \<Longrightarrow>
    j < length (pl_slots s) \<Longrightarrow> sl_permits (pl_slots s ! j) = 0 \<Longrightarrow>
    worker_step ops w s (set_worker w (Scan 0 None) s)"
| attempt: "w < length (pl_workers s) \<Longrightarrow> pl_workers s ! w = Reserved j \<Longrightarrow>
    sl_ready_at (pl_slots s ! j) \<le> pl_now s \<Longrightarrow> worker_step ops w s (set_worker w (Connecting j) s)"
| connect_failed: "w < length (pl_workers s) \<Longrightarrow> pl_workers s ! w = Connecting j \<Longrightarrow>
    worker_step ops w s
      (set_worker w (Releasing j) (map_slot j (record_outcome ops (pl_now s) ConnectFailed) s))"
| connect_ok: "w < length (pl_workers s) \<Longrightarrow> pl_workers s ! w = Connecting j \<Longrightarrow>
    worker_step ops w s (set_worker w (Connected j (pl_now s)) (s\<lparr>pl_is_ready := True\<rparr>))"
| disconnect: "w < length (pl_workers s) \<Longrightarrow> pl_workers s ! w = Connected j t \<Longrightarrow>
    worker_step ops w s
      (set_worker w (Releasing j) (map_slot j (record_outcome ops (pl_now s) (Disconnected (pl_now s - t))) s))"
| release: "w < length (pl_workers s) \<Longrightarrow> pl_workers s ! w = Releasing j \<Longrightarrow>
    worker_step ops w s
      (set_worker w (Scan 0 None) (map_slot j (\<lambda>sl. sl\<lparr>sl_permits := sl_permits sl + 1\<rparr>) s))"

inductive_cases worker_stepE: "worker_step ops w s s'"

definition advance :: "nat \<Rightarrow> 'b pool \<Rightarrow> 'b pool" where
  "advance d s = s\<lparr>pl_now := pl_now s + d\<rparr>"

definition initial_pool :: "'b backoff_ops \<Rightarrow> nat \<Rightarrow> string list \<Rightarrow> nat option \<Rightarrow> 'b pool" where
  "initial_pool ops now urls requested =
    \<lparr>pl_slots = map (slot_new ops now) urls,
     pl_workers = replicate (resolve_num_connections requested (length urls)) (Scan 0 None),
     pl_now = now, pl_is_ready = False\<rparr>"

text \<open>The pool over time, from the start of the agent: workers step in any order, and time passes.\<close>

inductive pool_run :: "'b backoff_ops \<Rightarrow> 'b pool \<Rightarrow> 'b pool \<Rightarrow> bool"
  for ops :: "'b backoff_ops" and s0 :: "'b pool" where
  pool_start: "pool_run ops s0 s0"
| pool_worker: "pool_run ops s0 s \<Longrightarrow> worker_step ops w s s' \<Longrightarrow> pool_run ops s0 s'"
| pool_time: "pool_run ops s0 s \<Longrightarrow> pool_run ops s0 (advance d s)"

text \<open>A run in which only worker \<open>w\<close> steps.\<close>

inductive solo_run :: "'b backoff_ops \<Rightarrow> nat \<Rightarrow> 'b pool \<Rightarrow> 'b pool \<Rightarrow> bool"
  for ops :: "'b backoff_ops" and w :: nat where
  solo_refl: "solo_run ops w s s"
| solo_worker: "worker_step ops w s s1 \<Longrightarrow> solo_run ops w s1 s2 \<Longrightarrow> solo_run ops w s s2"
| solo_time: "solo_run ops w (advance d s) s2 \<Longrightarrow> solo_run ops w s s2"

section \<open>The invariant\<close>

fun holds :: "worker \<Rightarrow> nat option" where
  "holds (Reserved j) = Some j"
| "holds (Connecting j) = Some j"
| "holds (Connected j t) = Some j"
| "holds (Releasing j) = Some j"
| "holds _ = None"

text \<open>The indices a worker may still use.\<close>

fun candidates :: "worker \<Rightarrow> nat set" where
  "candidates (Scan i best) = fst ` set_option best"
| "candidates (Peek i best) = insert i (fst ` set_option best)"
| "candidates _ = {}"

definition held :: "'b pool \<Rightarrow> nat \<Rightarrow> bool" where
  "held s j \<longleftrightarrow> (\<exists>w < length (pl_workers s). holds (pl_workers s ! w) = Some j)"

definition pool_inv :: "'b pool \<Rightarrow> bool" where
  "pool_inv s \<longleftrightarrow>
     (\<forall>j < length (pl_slots s). sl_permits (pl_slots s ! j) = (if held s j then 0 else 1)) \<and>
     (\<forall>w v j. w < length (pl_workers s) \<longrightarrow> v < length (pl_workers s) \<longrightarrow>
        holds (pl_workers s ! w) = Some j \<longrightarrow> holds (pl_workers s ! v) = Some j \<longrightarrow> w = v) \<and>
     (\<forall>w j. w < length (pl_workers s) \<longrightarrow> holds (pl_workers s ! w) = Some j \<longrightarrow> j < length (pl_slots s)) \<and>
     (\<forall>w j. w < length (pl_workers s) \<longrightarrow> j \<in> candidates (pl_workers s ! w) \<longrightarrow> j < length (pl_slots s))"

lemmas pool_ops = set_worker_def map_slot_def advance_def

lemma pool_fields [simp]:
  "length (pl_workers (set_worker w pc s)) = length (pl_workers s)"
  "pl_slots (set_worker w pc s) = pl_slots s" "pl_now (set_worker w pc s) = pl_now s"
  "length (pl_slots (map_slot j f s)) = length (pl_slots s)" "pl_workers (map_slot j f s) = pl_workers s"
  "pl_now (map_slot j f s) = pl_now s"
  "pl_workers (advance d s) = pl_workers s" "pl_slots (advance d s) = pl_slots s"
  by (simp_all add: pool_ops)

lemma worker_at: "v < length (pl_workers s) \<Longrightarrow>
    pl_workers (set_worker w pc s) ! v = (if v = w then pc else pl_workers s ! v)"
  by (simp add: set_worker_def nth_list_update)

lemma slot_at: "i < length (pl_slots s) \<Longrightarrow>
    pl_slots (map_slot j f s) ! i = (if i = j then f (pl_slots s ! j) else pl_slots s ! i)"
  by (simp add: map_slot_def nth_list_update)

lemma back_off_permits [simp]: "sl_permits (back_off ops now sl) = sl_permits sl"
  by (simp add: back_off_def split: prod.split)

lemma record_outcome_permits [simp]: "sl_permits (record_outcome ops now out sl) = sl_permits sl"
  by (cases out) simp_all

lemma held_set_worker:
  assumes "w < length (pl_workers s)"
  shows "held (set_worker w pc s) j \<longleftrightarrow>
     holds pc = Some j \<or> (\<exists>v < length (pl_workers s). v \<noteq> w \<and> holds (pl_workers s ! v) = Some j)"
  using assms by (auto simp: held_def worker_at split: if_splits)

lemma held_map_slot [simp]: "held (map_slot j f s) i = held s i"
  by (simp add: held_def)

lemma pool_invD:
  assumes "pool_inv s"
  shows "j < length (pl_slots s) \<Longrightarrow> sl_permits (pl_slots s ! j) = (if held s j then 0 else 1)"
    and "w < length (pl_workers s) \<Longrightarrow> v < length (pl_workers s) \<Longrightarrow> holds (pl_workers s ! w) = Some j \<Longrightarrow>
      holds (pl_workers s ! v) = Some j \<Longrightarrow> w = v"
    and "w < length (pl_workers s) \<Longrightarrow> holds (pl_workers s ! w) = Some j \<Longrightarrow> j < length (pl_slots s)"
    and "w < length (pl_workers s) \<Longrightarrow> j \<in> candidates (pl_workers s ! w) \<Longrightarrow> j < length (pl_slots s)"
  using assms unfolding pool_inv_def by blast+

text \<open>A step that keeps the slot a worker holds, a change of a slot that keeps its permit, and the two steps
  that move a permit.\<close>

lemma pool_inv_same_slot:
  assumes "pool_inv s" and "w < length (pl_workers s)" and "holds pc = holds (pl_workers s ! w)"
    and "\<And>j. j \<in> candidates pc \<Longrightarrow> j < length (pl_slots s)"
  shows "pool_inv (set_worker w pc s)"
proof -
  have h: "holds (pl_workers (set_worker w pc s) ! v) = holds (pl_workers s ! v)" if "v < length (pl_workers s)" for v
    using assms(3) that by (simp add: worker_at)
  then have "held (set_worker w pc s) j = held s j" for j by (auto simp: held_def)
  then show ?thesis
    unfolding pool_inv_def using pool_invD [OF assms(1)] assms(4) h
    by (auto simp: worker_at split: if_splits)
qed

lemma pool_inv_map_slot:
  assumes "pool_inv s" and "\<And>sl. sl_permits (f sl) = sl_permits sl"
  shows "pool_inv (map_slot j f s)"
  using assms(1) unfolding pool_inv_def by (auto simp: slot_at assms(2))

lemma pool_inv_claim:
  assumes "pool_inv s" and "w < length (pl_workers s)" and "holds (pl_workers s ! w) = None"
    and "j < length (pl_slots s)" and "sl_permits (pl_slots s ! j) \<noteq> 0"
  shows "pool_inv (set_worker w (Reserved j) (map_slot j (\<lambda>sl. sl\<lparr>sl_permits := sl_permits sl - 1\<rparr>) s))"
proof -
  have free: "\<not> held s j" using pool_invD(1) [OF assms(1,4)] assms(5) by auto
  let ?t = "map_slot j (\<lambda>sl. sl\<lparr>sl_permits := sl_permits sl - 1\<rparr>) s"
  have held: "held (set_worker w (Reserved j) ?t) i \<longleftrightarrow> i = j \<or> held s i" for i
    using assms(2,3) by (subst held_set_worker) (auto simp: held_def)
  have others: "holds (pl_workers s ! v) \<noteq> Some j" if "v < length (pl_workers s)" for v
    using free that by (auto simp: held_def)
  show ?thesis
    unfolding pool_inv_def held using pool_invD [OF assms(1)] assms(2,4) free others
    by (auto simp: worker_at slot_at)
qed

lemma pool_inv_release:
  assumes "pool_inv s" and "w < length (pl_workers s)" and "holds (pl_workers s ! w) = Some j"
  shows "pool_inv (set_worker w (Scan 0 None) (map_slot j (\<lambda>sl. sl\<lparr>sl_permits := sl_permits sl + 1\<rparr>) s))"
proof -
  have j: "j < length (pl_slots s)" by (rule pool_invD(3) [OF assms])
  have z: "sl_permits (pl_slots s ! j) = 0" using pool_invD(1) [OF assms(1) j] assms(2,3) by (auto simp: held_def)
  let ?t = "map_slot j (\<lambda>sl. sl\<lparr>sl_permits := sl_permits sl + 1\<rparr>) s"
  have held: "held (set_worker w (Scan 0 None) ?t) i \<longleftrightarrow> i \<noteq> j \<and> held s i" for i
    using assms(2,3) pool_invD(2) [OF assms(1)] by (subst held_set_worker) (auto simp: held_def)
  show ?thesis
    unfolding pool_inv_def held using pool_invD [OF assms(1)] assms(2) z
    by (auto simp: worker_at slot_at)
qed

lemma pool_inv_ready: "pool_inv (s\<lparr>pl_is_ready := b\<rparr>) = pool_inv s"
  by (simp add: pool_inv_def held_def)

lemma pool_inv_advance: "pool_inv (advance d s) = pool_inv s"
  by (simp add: pool_inv_def held_def)

lemma better_candidate_index:
  "fst ` set_option (better_candidate i r best) \<subseteq> insert i (fst ` set_option best)"
  by (auto simp: better_candidate_def split: option.splits)

lemma worker_step_inv:
  assumes "worker_step ops w s s'" and "pool_inv s"
  shows "pool_inv s'"
  using assms(1)
proof cases
  case (scan_peek i best)
  have "j < length (pl_slots s)" if "j \<in> insert i (fst ` set_option best)" for j
    using pool_invD(4) [OF assms(2) scan_peek(2)] that scan_peek by simp
  then have "j < length (pl_slots s)"
    if "j \<in> candidates (Scan (Suc i) (better_candidate i (sl_ready_at (pl_slots s ! i)) best))" for j
    using that better_candidate_index [of i _ best] unfolding candidates.simps by blast
  then show ?thesis unfolding scan_peek(1) by (intro pool_inv_same_slot [OF assms(2) scan_peek(2)]) (simp_all add: scan_peek)
next
  case (scan_held i best)
  have "candidates (Scan (Suc i) best) = candidates (pl_workers s ! w)" by (simp add: scan_held)
  then show ?thesis unfolding scan_held(1) using pool_invD(4) [OF assms(2) scan_held(2)]
    by (intro pool_inv_same_slot [OF assms(2) scan_held(2)]) (simp_all add: scan_held)
next
  case (scan_free i best)
  have "candidates (Peek i best) = insert i (candidates (pl_workers s ! w))" by (simp add: scan_free)
  then show ?thesis unfolding scan_free(1) using pool_invD(4) [OF assms(2) scan_free(2)] scan_free(4)
    by (intro pool_inv_same_slot [OF assms(2) scan_free(2)]) (auto simp: scan_free)
next
  case (claim i j r)
  then show ?thesis using pool_inv_claim [OF assms(2), of w j] by simp
next
  case (connect_failed j)
  then show ?thesis using assms(2) by (auto intro!: pool_inv_same_slot pool_inv_map_slot)
next
  case (connect_ok j)
  then show ?thesis using assms(2) by (auto intro!: pool_inv_same_slot simp: pool_inv_ready)
next
  case (disconnect j t)
  then show ?thesis using assms(2) by (auto intro!: pool_inv_same_slot pool_inv_map_slot)
next
  case (release j)
  then show ?thesis using pool_inv_release [OF assms(2), of w j] by simp
qed (use assms(2) in \<open>auto intro!: pool_inv_same_slot\<close>)

lemma initial_pool_inv: "pool_inv (initial_pool ops now urls requested)"
  by (auto simp: pool_inv_def held_def initial_pool_def slot_new_def)

lemma pool_run_inv: "pool_run ops (initial_pool ops now urls requested) s \<Longrightarrow> pool_inv s"
  by (induction rule: pool_run.induct) (auto simp: initial_pool_inv pool_inv_advance intro: worker_step_inv)

section \<open>Progress\<close>

lemma worker_step_lengths:
  "worker_step ops w s s' \<Longrightarrow>
     length (pl_workers s') = length (pl_workers s) \<and> length (pl_slots s') = length (pl_slots s)"
  by (erule worker_stepE) simp_all

lemma resolve_num_connections_bounds:
  "resolve_num_connections requested n \<le> n" and "0 < n \<Longrightarrow> requested \<noteq> None \<Longrightarrow> 1 \<le> resolve_num_connections requested n"
  by (auto simp: resolve_num_connections_def split: option.split)

lemma pool_run_lengths:
  "pool_run ops (initial_pool ops now urls requested) s \<Longrightarrow>
     length (pl_slots s) = length urls \<and> length (pl_workers s) = resolve_num_connections requested (length urls)"
  by (induction rule: pool_run.induct) (auto simp: initial_pool_def dest!: worker_step_lengths)

lemma free_slot_exists:
  assumes "length (pl_workers s) \<le> length (pl_slots s)" and "w < length (pl_workers s)"
    and "holds (pl_workers s ! w) = None"
  shows "\<exists>j < length (pl_slots s). \<not> held s j"
proof (rule ccontr)
  let ?W = "{..<length (pl_workers s)} - {w}"
  assume "\<not> ?thesis"
  then have all: "held s j" if "j < length (pl_slots s)" for j using that by blast
  have "{..<length (pl_slots s)} \<subseteq> (\<lambda>v. the (holds (pl_workers s ! v))) ` ?W"
  proof
    fix j assume "j \<in> {..<length (pl_slots s)}"
    then obtain v where "v < length (pl_workers s)" "holds (pl_workers s ! v) = Some j"
      using all by (auto simp: held_def)
    moreover from this assms(3) have "v \<noteq> w" by auto
    ultimately show "j \<in> (\<lambda>v. the (holds (pl_workers s ! v))) ` ?W" by (intro image_eqI [of _ _ v]) simp_all
  qed
  then have "length (pl_slots s) \<le> card ?W"
    using card_mono [of "(\<lambda>v. the (holds (pl_workers s ! v))) ` ?W" "{..<length (pl_slots s)}"]
      card_image_le [of ?W "\<lambda>v. the (holds (pl_workers s ! v))"] by fastforce
  then show False using assms(1,2) by simp
qed

text \<open>An undisturbed scan, and what it finds.\<close>

definition consider_slot :: "nat \<Rightarrow> 'b slot \<Rightarrow> (nat \<times> nat) option \<Rightarrow> (nat \<times> nat) option" where
  "consider_slot i sl best = (if sl_permits sl = 0 then best else better_candidate i (sl_ready_at sl) best)"

fun scan_slots :: "nat \<Rightarrow> 'b slot list \<Rightarrow> (nat \<times> nat) option \<Rightarrow> (nat \<times> nat) option" where
  "scan_slots i [] best = best"
| "scan_slots i (sl # sls) best = scan_slots (Suc i) sls (consider_slot i sl best)"

definition best_upto :: "'b slot list \<Rightarrow> nat \<Rightarrow> (nat \<times> nat) option \<Rightarrow> bool" where
  "best_upto sls i best \<longleftrightarrow>
     (case best of
        None \<Rightarrow> \<forall>k < i. sl_permits (sls ! k) = 0
      | Some (j, r) \<Rightarrow> j < i \<and> sl_permits (sls ! j) \<noteq> 0 \<and> r = sl_ready_at (sls ! j) \<and>
          (\<forall>k < i. sl_permits (sls ! k) \<noteq> 0 \<longrightarrow> r \<le> sl_ready_at (sls ! k)))"

lemma consider_slot_best: "best_upto sls i best \<Longrightarrow> best_upto sls (Suc i) (consider_slot i (sls ! i) best)"
  by (fastforce simp: best_upto_def consider_slot_def better_candidate_def less_Suc_eq split: option.splits prod.splits)

lemma scan_slots_best:
  "best_upto sls i best \<Longrightarrow> i \<le> length sls \<Longrightarrow> best_upto sls (length sls) (scan_slots i (drop i sls) best)"
proof (induction "length sls - i" arbitrary: i best)
  case (Suc n)
  then have "drop i sls = sls ! i # drop (Suc i) sls" by (simp add: Cons_nth_drop_Suc)
  moreover have "n = length sls - Suc i" "Suc i \<le> length sls" using Suc.hyps(2) by simp_all
  ultimately show ?case using Suc.hyps(1) [OF _ consider_slot_best [OF Suc.prems(1)]] by simp
qed simp

lemma set_worker_same: "pl_workers s ! w = pc \<Longrightarrow> set_worker w pc s = s"
  using list_update_id [of "pl_workers s" w] by (simp add: set_worker_def)

lemma set_worker_twice [simp]: "set_worker w a (set_worker w b s) = set_worker w a s"
  by (simp add: set_worker_def)

lemma solo_trans: "solo_run ops w s s1 \<Longrightarrow> solo_run ops w s1 s2 \<Longrightarrow> solo_run ops w s s2"
  by (induction rule: solo_run.induct) (auto intro: solo_run.intros)

lemma solo_step: "worker_step ops w s s1 \<Longrightarrow> solo_run ops w s s1"
  by (blast intro: solo_run.intros)

lemma solo_consider:
  assumes "w < length (pl_workers s)" and "pl_workers s ! w = Scan i best" and "i < length (pl_slots s)"
  shows "solo_run ops w s (set_worker w (Scan (Suc i) (consider_slot i (pl_slots s ! i) best)) s)"
proof (cases "sl_permits (pl_slots s ! i) = 0")
  case True
  then show ?thesis using scan_held [OF assms] by (simp add: consider_slot_def solo_step)
next
  case False
  let ?s1 = "set_worker w (Peek i best) s"
  have "worker_step ops w ?s1
      (set_worker w (Scan (Suc i) (better_candidate i (sl_ready_at (pl_slots ?s1 ! i)) best)) ?s1)"
    by (rule scan_peek) (use assms in \<open>simp_all add: worker_at\<close>)
  then have "solo_run ops w s (set_worker w (Scan (Suc i) (better_candidate i (sl_ready_at (pl_slots ?s1 ! i)) best)) ?s1)"
    by (rule solo_worker [OF scan_free [OF assms False] solo_step])
  then show ?thesis using False by (simp add: consider_slot_def)
qed

lemma solo_scan:
  "w < length (pl_workers s) \<Longrightarrow> pl_workers s ! w = Scan i best \<Longrightarrow> i \<le> length (pl_slots s) \<Longrightarrow>
     solo_run ops w s (set_worker w (Scan (length (pl_slots s)) (scan_slots i (drop i (pl_slots s)) best)) s)"
proof (induction "length (pl_slots s) - i" arbitrary: i best s)
  case 0
  then have "set_worker w (Scan (length (pl_slots s)) (scan_slots i (drop i (pl_slots s)) best)) s = s"
    by (intro set_worker_same) simp
  then show ?case by (simp add: solo_refl)
next
  case (Suc n)
  let ?s1 = "set_worker w (Scan (Suc i) (consider_slot i (pl_slots s ! i) best)) s"
  have i: "i < length (pl_slots s)" using Suc.hyps(2) by simp
  then have d: "drop i (pl_slots s) = pl_slots s ! i # drop (Suc i) (pl_slots s)" by (simp add: Cons_nth_drop_Suc)
  have "solo_run ops w ?s1 (set_worker w (Scan (length (pl_slots ?s1))
      (scan_slots (Suc i) (drop (Suc i) (pl_slots ?s1)) (consider_slot i (pl_slots s ! i) best))) ?s1)"
    using Suc i by (intro Suc.hyps(1)) (simp_all add: worker_at)
  then show ?case using solo_trans [OF solo_consider [OF Suc.prems(1,2) i]] by (simp add: d)
qed

lemma solo_run_inv:
  "solo_run ops w s s1 \<Longrightarrow> pool_inv s \<Longrightarrow> pool_inv s1 \<and>
     length (pl_workers s1) = length (pl_workers s) \<and> length (pl_slots s1) = length (pl_slots s)"
  by (induction rule: solo_run.induct) (auto simp: pool_inv_advance worker_step_lengths dest: worker_step_inv)

lemma fresh_scan_reserves:
  assumes "pool_inv s" and "w < length (pl_workers s)" and "pl_workers s ! w = Scan 0 None"
    and "\<exists>j < length (pl_slots s). \<not> held s j"
  obtains s' j where "solo_run ops w s s'" and "pl_workers s' ! w = Reserved j"
    and "j < length (pl_slots s)" and "\<not> held s j"
    and "\<forall>k < length (pl_slots s). \<not> held s k \<longrightarrow> sl_ready_at (pl_slots s ! j) \<le> sl_ready_at (pl_slots s ! k)"
proof -
  let ?n = "length (pl_slots s)" and ?best = "scan_slots 0 (pl_slots s) None"
  let ?s1 = "set_worker w (Scan ?n ?best) s"
  have run: "solo_run ops w s ?s1" using solo_scan [OF assms(2,3), of ops] by simp
  have best: "best_upto (pl_slots s) ?n ?best"
    using scan_slots_best [of "pl_slots s" 0 None] by (simp add: best_upto_def)
  have permits: "sl_permits (pl_slots s ! k) \<noteq> 0 \<longleftrightarrow> \<not> held s k" if "k < ?n" for k
    using pool_invD(1) [OF assms(1) that] by simp
  obtain j r where jr: "?best = Some (j, r)" using best assms(4) permits
    by (cases ?best) (auto simp: best_upto_def)
  then have j: "j < ?n" "sl_permits (pl_slots s ! j) \<noteq> 0"
      "\<And>k. k < ?n \<Longrightarrow> sl_permits (pl_slots s ! k) \<noteq> 0 \<Longrightarrow> sl_ready_at (pl_slots s ! j) \<le> sl_ready_at (pl_slots s ! k)"
    using best by (auto simp: best_upto_def)
  have "worker_step ops w ?s1
      (set_worker w (Reserved j) (map_slot j (\<lambda>sl. sl\<lparr>sl_permits := sl_permits sl - 1\<rparr>) ?s1))"
    by (rule claim [of w _ ?n j r]) (use assms(2) j(1,2) jr in \<open>simp_all add: worker_at\<close>)
  from that [OF solo_trans [OF run solo_step [OF this]]] show ?thesis
    using j permits assms(2) by (simp add: worker_at)
qed

text \<open>From any state in which it holds nothing, a worker comes to reserve a slot or to start a scan.\<close>

lemma reach_by_step:
  assumes "worker_step ops w s (set_worker w pc t)" and "w < length (pl_workers t)" and "P pc"
  shows "\<exists>s1. solo_run ops w s s1 \<and> P (pl_workers s1 ! w)"
  using solo_step [OF assms(1)] assms(2,3) by (intro exI [of _ "set_worker w pc t"]) (simp add: worker_at)

lemma asleep_restarts:
  assumes "w < length (pl_workers s)" and "pl_workers s ! w = Asleep t"
  shows "\<exists>s1. solo_run ops w s s1 \<and> pl_workers s1 ! w = Scan 0 None"
proof -
  let ?s1 = "advance (t - pl_now s) s"
  have "worker_step ops w ?s1 (set_worker w (Scan 0 None) ?s1)"
    by (rule wake_up [of w _ t]) (use assms in \<open>simp_all add: advance_def\<close>)
  from reach_by_step [OF this, of "\<lambda>pc. pc = Scan 0 None"] show ?thesis using assms(1) solo_time by fastforce
qed

lemma scan_end_restarts:
  assumes "pool_inv s" and "w < length (pl_workers s)" and "pl_workers s ! w = Scan i best" and "length (pl_slots s) \<le> i"
  shows "\<exists>s1. solo_run ops w s s1 \<and> (pl_workers s1 ! w = Scan 0 None \<or> (\<exists>j. pl_workers s1 ! w = Reserved j))"
proof (cases best)
  case None
  let ?s1 = "set_worker w (Asleep (pl_now s + INITIAL_BACKOFF)) s"
  have "worker_step ops w s ?s1" by (rule scan_empty) (use assms None in simp_all)
  moreover obtain s2 where "solo_run ops w ?s1 s2" "pl_workers s2 ! w = Scan 0 None"
    using asleep_restarts [of w ?s1] assms(2) by (auto simp: worker_at)
  ultimately show ?thesis by (blast intro: solo_worker)
next
  case (Some jr)
  obtain j r where jr: "jr = (j, r)" by (cases jr)
  have j: "j < length (pl_slots s)" by (rule pool_invD(4) [OF assms(1,2)]) (simp add: assms(3) Some jr)
  show ?thesis
  proof (cases "sl_permits (pl_slots s ! j) = 0")
    case True
    have "worker_step ops w s (set_worker w (Scan 0 None) s)"
      by (rule claim_lost) (use assms Some jr j True in simp_all)
    from reach_by_step [OF this, of "\<lambda>pc. pc = Scan 0 None \<or> (\<exists>j. pc = Reserved j)"] show ?thesis using assms(2) by simp
  next
    case False
    have "worker_step ops w s
        (set_worker w (Reserved j) (map_slot j (\<lambda>sl. sl\<lparr>sl_permits := sl_permits sl - 1\<rparr>) s))"
      by (rule claim) (use assms Some jr j False in simp_all)
    from reach_by_step [OF this, of "\<lambda>pc. pc = Scan 0 None \<or> (\<exists>j. pc = Reserved j)"] show ?thesis using assms(2) by simp
  qed
qed

lemma scan_restarts:
  assumes "pool_inv s" and "w < length (pl_workers s)" and "pl_workers s ! w = Scan i best"
  shows "\<exists>s1. solo_run ops w s s1 \<and> (pl_workers s1 ! w = Scan 0 None \<or> (\<exists>j. pl_workers s1 ! w = Reserved j))"
proof (cases "i \<le> length (pl_slots s)")
  case True
  let ?s1 = "set_worker w (Scan (length (pl_slots s)) (scan_slots i (drop i (pl_slots s)) best)) s"
  have run: "solo_run ops w s ?s1" by (rule solo_scan [OF assms(2,3) True])
  have "pool_inv ?s1" using solo_run_inv [OF run assms(1)] by simp
  from scan_end_restarts [OF this, of w] show ?thesis
    using assms(2) solo_trans [OF run] by (simp add: worker_at) blast
next
  case False
  then show ?thesis using scan_end_restarts [OF assms] by simp
qed

lemma worker_restarts:
  assumes "pool_inv s" and "w < length (pl_workers s)" and "holds (pl_workers s ! w) = None"
  shows "\<exists>s1. solo_run ops w s s1 \<and> (pl_workers s1 ! w = Scan 0 None \<or> (\<exists>j. pl_workers s1 ! w = Reserved j))"
proof (cases "pl_workers s ! w")
  case (Scan i best)
  then show ?thesis using scan_restarts [OF assms(1,2)] by blast
next
  case (Peek i best)
  let ?s1 = "set_worker w (Scan (Suc i) (better_candidate i (sl_ready_at (pl_slots s ! i)) best)) s"
  have i: "i < length (pl_slots s)" by (rule pool_invD(4) [OF assms(1,2)]) (simp add: Peek)
  have step: "worker_step ops w s ?s1" by (rule scan_peek [OF assms(2) Peek i])
  obtain s2 where "solo_run ops w ?s1 s2" "pl_workers s2 ! w = Scan 0 None \<or> (\<exists>j. pl_workers s2 ! w = Reserved j)"
    using scan_restarts [OF worker_step_inv [OF step assms(1)], of w "Suc i" _ ops] assms(2) by (auto simp: worker_at)
  then show ?thesis using solo_worker [OF step] by blast
next
  case (Asleep t)
  then show ?thesis using asleep_restarts [OF assms(2)] by blast
qed (use assms(3) in simp_all)

lemma solo_pool: "solo_run ops w s s1 \<Longrightarrow> pool_run ops s0 s \<Longrightarrow> pool_run ops s0 s1"
  by (induction rule: solo_run.induct) (auto intro: pool_run.intros)

text \<open>A back-off that has no opinion.\<close>

definition demo_backoff :: "unit backoff_ops" where
  "demo_backoff = \<lparr>bo_new = (), bo_reset = (\<lambda>b. b), bo_next = (\<lambda>b. (None, b))\<rparr>"

section \<open>Properties\<close>

text \<open>C28: One worker per relayer.  In every state that the agent can reach, whatever the interleaving of the
  workers, no two workers hold the same relayer, a relayer's permit is taken exactly when a worker holds it
  (its count never exceeds one), and a worker that connects to a relayer holds its permit.\<close>

theorem relayer_mutual_exclusion:
  assumes "pool_run ops (initial_pool ops now urls requested) s"
  shows "(\<forall>w v j. w < length (pl_workers s) \<longrightarrow> v < length (pl_workers s) \<longrightarrow> holds (pl_workers s ! w) = Some j \<longrightarrow>
      holds (pl_workers s ! v) = Some j \<longrightarrow> w = v \<and> j < length (pl_slots s)) \<and>
    (\<forall>i < length (pl_slots s). sl_permits (pl_slots s ! i) =
       (if \<exists>u < length (pl_workers s). holds (pl_workers s ! u) = Some i then 0 else 1))"
  using pool_invD [OF pool_run_inv [OF assms]] unfolding held_def by blast

theorem relayer_mutual_exclusion_witness:
  "\<exists>s. holds (pl_workers s ! 0) = Some 0 \<and> sl_permits (pl_slots s ! 0) = 0 \<and>
     pool_run demo_backoff (initial_pool demo_backoff 0 [''a''] None) s"
proof -
  let ?s0 = "initial_pool demo_backoff 0 [''a''] None"
  have len: "length (pl_workers ?s0) = 1" "length (pl_slots ?s0) = 1"
    by (simp_all add: initial_pool_def resolve_num_connections_def)
  have scan: "pl_workers ?s0 ! 0 = Scan 0 None" by (simp add: initial_pool_def resolve_num_connections_def)
  have free: "\<exists>j < length (pl_slots ?s0). \<not> held ?s0 j"
    by (rule free_slot_exists [of _ 0]) (simp_all add: len scan)
  obtain s j where s: "solo_run demo_backoff 0 ?s0 s" "pl_workers s ! 0 = Reserved j" "j < length (pl_slots ?s0)"
    by (rule fresh_scan_reserves [OF initial_pool_inv _ scan free, of demo_backoff]) (simp_all add: len)
  have run: "pool_run demo_backoff ?s0 s" by (rule solo_pool [OF s(1) pool_start])
  have n: "length (pl_workers s) = 1" "length (pl_slots s) = 1"
    using solo_run_inv [OF s(1) initial_pool_inv] len by simp_all
  have "j = 0" using s(3) len by simp
  with s(2) have "holds (pl_workers s ! 0) = Some 0" by simp
  then show ?thesis using relayer_mutual_exclusion [OF run] run n by (intro exI [of _ s]) auto
qed

text \<open>C29: Workers make progress.  In every reachable state a worker that holds no relayer can come to reserve
  one by its own steps and the passing of time, so the pool is never deadlocked: there are never more
  workers than relayers.  A scan that is not disturbed reserves a free relayer with the soonest
  deadline.\<close>

theorem relayer_worker_progress:
  assumes "pool_run ops (initial_pool ops now urls requested) s"
    and "w < length (pl_workers s)" and "holds (pl_workers s ! w) = None"
  shows "\<exists>s' j. solo_run ops w s s' \<and> pl_workers s' ! w = Reserved j \<and>
    (pl_workers s ! w = Scan 0 None \<longrightarrow>
      sl_permits (pl_slots s ! j) = 1 \<and>
      (\<forall>k < length (pl_slots s). sl_permits (pl_slots s ! k) \<noteq> 0 \<longrightarrow>
         sl_ready_at (pl_slots s ! j) \<le> sl_ready_at (pl_slots s ! k)))"
proof -
  note inv = pool_run_inv [OF assms(1)]
  have len: "length (pl_workers s) \<le> length (pl_slots s)"
    using pool_run_lengths [OF assms(1)] resolve_num_connections_bounds(1) by simp
  show ?thesis
  proof (cases "pl_workers s ! w = Scan 0 None")
    case True
    obtain s' j where r: "solo_run ops w s s'" "pl_workers s' ! w = Reserved j" "j < length (pl_slots s)"
        "\<not> held s j"
        "\<forall>k < length (pl_slots s). \<not> held s k \<longrightarrow> sl_ready_at (pl_slots s ! j) \<le> sl_ready_at (pl_slots s ! k)"
      by (rule fresh_scan_reserves [OF inv assms(2) True free_slot_exists [OF len assms(2,3)], of ops])
    then show ?thesis using pool_invD(1) [OF inv] by (intro exI [of _ s'] exI [of _ j]) (auto split: if_splits)
  next
    case False
    obtain s1 where s1: "solo_run ops w s s1" "pl_workers s1 ! w = Scan 0 None \<or> (\<exists>j. pl_workers s1 ! w = Reserved j)"
      using worker_restarts [OF inv assms(2,3)] by blast
    note inv1 = solo_run_inv [OF s1(1) inv]
    from s1(2) show ?thesis
    proof
      assume scan: "pl_workers s1 ! w = Scan 0 None"
      have "\<exists>j < length (pl_slots s1). \<not> held s1 j"
        using free_slot_exists [of s1 w] inv1 len assms(2) scan by simp
      then obtain s' j where "solo_run ops w s1 s'" "pl_workers s' ! w = Reserved j"
        using fresh_scan_reserves [of s1 w ops] inv1 assms(2) scan by metis
      then show ?thesis using solo_trans [OF s1(1)] False by blast
    qed (use s1(1) False in blast)
  qed
qed

theorem relayer_worker_progress_witness:
  "\<exists>s' j. solo_run demo_backoff 1 (initial_pool demo_backoff 0 [''a'', ''b''] (Some 2)) s' \<and> pl_workers s' ! 1 = Reserved j"
proof -
  let ?s0 = "initial_pool demo_backoff 0 [''a'', ''b''] (Some 2)"
  have w: "1 < length (pl_workers ?s0)" "holds (pl_workers ?s0 ! 1) = None"
    by (simp_all add: initial_pool_def resolve_num_connections_def)
  from relayer_worker_progress [OF pool_start w] show ?thesis by blast
qed

end
