(* ===== verification/Agent_Sessions.thy ===== *)
theory Agent_Sessions
  imports Publisher_Types
begin

text \<open>
  The connections of publishers to the agent: the binary protocol
  (\<^verbatim>\<open>agent/src/publisher_handle.rs\<close>) and the JSON-RPC protocol (\<^verbatim>\<open>jrpc_handle.rs\<close> with the
  types of \<^verbatim>\<open>sdk/rust/protocol/src/jrpc.rs\<close>).  A session holds the channel to the publishing task
  and the socket to the client; each is open or has failed, and records what went through it.  The decoders
  (\<^verbatim>\<open>bincode\<close>, \<^verbatim>\<open>serde_json\<close>) and the metadata service are arguments.
\<close>

section \<open>Channels and sockets\<close>

record 'm session =
  se_channel_open :: bool
  se_pushed :: "feed_update list"
  se_socket_open :: bool
  se_sent :: "'m list"

type_synonym 'm outcome = "(string + unit) \<times> 'm session"

definition push_feed_update :: "feed_update \<Rightarrow> 'm session \<Rightarrow> 'm outcome" where
  "push_feed_update u s =
    (if se_channel_open s then (Inr (), s\<lparr>se_pushed := se_pushed s @ [u]\<rparr>) else (Inl ''channel closed'', s))"

definition send_reply :: "'m \<Rightarrow> 'm session \<Rightarrow> 'm outcome" where
  "send_reply m s =
    (if se_socket_open s then (Inr (), s\<lparr>se_sent := se_sent s @ [m]\<rparr>) else (Inl ''connection closed'', s))"

section \<open>Binary publishers\<close>

datatype publisher_request = PublisherV1 | PublisherV2

datatype server_response = UpdateDeserializationError string

definition MAX_ERROR_DISCONNECT :: u32 where "MAX_ERROR_DISCONNECT = 100"

fun decode_update ::
  "(bytes \<Rightarrow> string + price_feed_data_v1) \<Rightarrow> (bytes \<Rightarrow> string + price_feed_data_v2) \<Rightarrow> publisher_request \<Rightarrow> bytes \<Rightarrow> string + feed_update" where
  "decode_update decode1 decode2 PublisherV1 buf = map_ok feed_update_of_v1 (decode1 buf)"
| "decode_update decode1 decode2 PublisherV2 buf = map_ok feed_update_of_v2 (decode2 buf)"

text \<open>One pass of the loop on a received buffer, then the loop: the error that ends the session, if any, the
  count of errors, and the state of the session.\<close>

definition handle_publisher_message ::
  "(bytes \<Rightarrow> string + feed_update) \<Rightarrow> bytes \<Rightarrow> u32 \<Rightarrow> server_response session \<Rightarrow> u32 \<times> server_response outcome" where
  "handle_publisher_message decode buf error_count s =
    (case decode buf of
      Inl err \<Rightarrow>
        let error_count = error_count + 1 in
        if MAX_ERROR_DISCONNECT \<le> error_count then (error_count, Inl ''Error threshold reached'', s)
        else (error_count, send_reply (UpdateDeserializationError (''failed to parse binary update: '' @ err)) s)
    | Inr feed_update \<Rightarrow> (error_count, push_feed_update feed_update s))"

fun publisher_loop ::
  "(bytes \<Rightarrow> string + feed_update) \<Rightarrow> bytes list \<Rightarrow> u32 \<Rightarrow> server_response session \<Rightarrow> u32 \<times> server_response outcome" where
  "publisher_loop decode [] error_count s = (error_count, Inr (), s)"
| "publisher_loop decode (buf # bufs) error_count s =
    (case handle_publisher_message decode buf error_count s of
       (error_count, Inl e, s) \<Rightarrow> (error_count, Inl e, s)
     | (error_count, Inr _, s) \<Rightarrow> publisher_loop decode bufs error_count s)"

section \<open>JSON-RPC\<close>

datatype jrpc_id = Id_String string | Id_Int i64 | Id_Null

record get_metadata_params =
  gm_names :: "string list option"
  gm_asset_types :: "string list option"

datatype jrpc_call =
    PushUpdate feed_update_params | PushUpdates "feed_update_params list" | GetMetadata get_metadata_params

record jrpc_request =
  jr_params :: jrpc_call
  jr_id :: jrpc_id

record symbol_metadata =
  sm_pyth_lazer_id :: u32
  sm_name :: string
  sm_symbol :: string
  sm_description :: string
  sm_asset_type :: string
  sm_exponent :: i16
  sm_cmc_id :: "u32 option"
  sm_funding_rate_interval :: "std_duration option"
  sm_min_publishers :: u16
  sm_min_channel :: api_channel
  sm_state :: symbol_state
  sm_hermes_id :: "string option"
  sm_quote_currency :: "string option"
  sm_nasdaq_symbol :: "string option"
  sm_cusip :: "string option"
  sm_auction_date :: "string option"
  sm_issue_date :: "string option"
  sm_maturity_date :: "string option"
  sm_coupon :: "string option"
  sm_next_auction_date :: "string option"

datatype jrpc_error = ParseError string | InternalError string | SendUpdateError feed_update_params

datatype error_data = Data_String string | Data_Params feed_update_params

record jrpc_error_object =
  eo_code :: int
  eo_message :: string
  eo_data :: "error_data option"

fun error_object :: "jrpc_error \<Rightarrow> jrpc_error_object" where
  "error_object (ParseError m) = \<lparr>eo_code = - 32700, eo_message = ''Parse error'', eo_data = Some (Data_String m)\<rparr>"
| "error_object (InternalError m) = \<lparr>eo_code = - 32603, eo_message = ''Internal error'', eo_data = Some (Data_String m)\<rparr>"
| "error_object (SendUpdateError p) = \<lparr>eo_code = - 32000, eo_message = ''Internal error'', eo_data = Some (Data_Params p)\<rparr>"

datatype jrpc_response =
    Success_Text string jrpc_id
  | Success_Symbols "symbol_metadata list" jrpc_id
  | Error_Response jrpc_error_object jrpc_id

definition filter_symbols :: "symbol_metadata list \<Rightarrow> get_metadata_params \<Rightarrow> symbol_metadata list" where
  "filter_symbols symbols params =
    filter (\<lambda>symbol.
      if (case gm_names params of Some names \<Rightarrow> sm_name symbol \<notin> set names | None \<Rightarrow> False) then False
      else if (case gm_asset_types params of Some types \<Rightarrow> sm_asset_type symbol \<notin> set types | None \<Rightarrow> False) then False
      else True) symbols"

fun send_update_success_response :: "jrpc_id \<Rightarrow> jrpc_response session \<Rightarrow> jrpc_response outcome" where
  "send_update_success_response Id_Null s = (Inr (), s)"
| "send_update_success_response i s = send_reply (Success_Text ''success'' i) s"

definition send_update_failure_response ::
  "feed_update_params \<Rightarrow> jrpc_id \<Rightarrow> jrpc_response session \<Rightarrow> jrpc_response outcome" where
  "send_update_failure_response params i s =
    send_reply (Error_Response (error_object (SendUpdateError params)) i) s"

definition handle_get_metadata ::
  "string + symbol_metadata list \<Rightarrow> get_metadata_params \<Rightarrow> jrpc_id \<Rightarrow> jrpc_response session \<Rightarrow> jrpc_response outcome" where
  "handle_get_metadata fetched params i s =
    (case fetched of
       Inr symbols \<Rightarrow> send_reply (Success_Symbols (filter_symbols symbols params) i) s
     | Inl err \<Rightarrow> send_reply (Error_Response (error_object (InternalError err)) i) s)"

text \<open>The loop over a batch of updates stops at the first that cannot be queued.\<close>

fun push_updates ::
  "(std_duration \<Rightarrow> proto_time) \<Rightarrow> jrpc_id \<Rightarrow> feed_update_params list \<Rightarrow> jrpc_response session \<Rightarrow> jrpc_response outcome" where
  "push_updates into_pb i [] s = send_update_success_response i s"
| "push_updates into_pb i (params # batch) s =
    (case push_feed_update (feed_update_of_params into_pb params) s of
       (Inr _, s) \<Rightarrow> push_updates into_pb i batch s
     | (Inl err, s) \<Rightarrow> send_update_failure_response params i s)"

definition quoted :: "string \<Rightarrow> string" where
  "quoted t = CHR 0x27 # t @ [CHR 0x27]"

definition handle_jrpc_inner ::
  "(bytes \<Rightarrow> string + jrpc_request) \<Rightarrow> (std_duration \<Rightarrow> proto_time) \<Rightarrow> string + symbol_metadata list \<Rightarrow> bytes \<Rightarrow>
     jrpc_response session \<Rightarrow> jrpc_response outcome" where
  "handle_jrpc_inner parse into_pb fetched buf s =
    (case parse buf of
       Inr request \<Rightarrow>
         (case jr_params request of
            PushUpdate params \<Rightarrow>
              (case push_feed_update (feed_update_of_params into_pb params) s of
                 (Inr _, s) \<Rightarrow> send_update_success_response (jr_id request) s
               | (Inl err, s) \<Rightarrow> send_update_failure_response params (jr_id request) s)
          | PushUpdates batch \<Rightarrow> push_updates into_pb (jr_id request) batch s
          | GetMetadata params \<Rightarrow>
              (case jr_id request of
                 Id_Null \<Rightarrow>
                   send_reply (Error_Response (error_object (ParseError
                     (''The request to method '' @ quoted ''get_metadata'' @ '' requires an '' @ quoted ''id''))) Id_Null) s
               | i \<Rightarrow> handle_get_metadata fetched params i s))
     | Inl err \<Rightarrow> send_reply (Error_Response (error_object (ParseError err)) Id_Null) s)"

definition handle_jrpc_message ::
  "(bytes \<Rightarrow> string + jrpc_request) \<Rightarrow> (std_duration \<Rightarrow> proto_time) \<Rightarrow> string + symbol_metadata list \<Rightarrow> bytes \<Rightarrow>
     jrpc_response session \<Rightarrow> jrpc_response outcome" where
  "handle_jrpc_message parse into_pb fetched buf s =
    (case handle_jrpc_inner parse into_pb fetched buf s of
       (Inr _, s) \<Rightarrow> (Inr (), s)
     | (Inl err, s) \<Rightarrow> send_reply (Error_Response (error_object (InternalError err)) Id_Null) s)"

section \<open>Facts\<close>

definition is_err :: "'e + 'a \<Rightarrow> bool" where
  "is_err r \<longleftrightarrow> \<not> is_ok r"

lemma is_err_simps [simp]: "is_err (Inl e)" "\<not> is_err (Inr x)"
  by (simp_all add: is_err_def)

definition decoded :: "(bytes \<Rightarrow> string + 'a) \<Rightarrow> bytes list \<Rightarrow> 'a list" where
  "decoded decode bufs = List.map_filter (\<lambda>b. case decode b of Inl _ \<Rightarrow> None | Inr x \<Rightarrow> Some x) bufs"

lemma decoded_simps [simp]:
  "decoded decode [] = []"
  "decode b = Inr u \<Longrightarrow> decoded decode (b # bufs) = u # decoded decode bufs"
  "decode b = Inl e \<Longrightarrow> decoded decode (b # bufs) = decoded decode bufs"
  by (simp_all add: decoded_def map_filter_simps)

definition bad_count :: "(bytes \<Rightarrow> string + 'a) \<Rightarrow> bytes list \<Rightarrow> nat" where
  "bad_count decode bufs = length (filter (\<lambda>b. is_err (decode b)) bufs)"

text \<open>With both ends open, the loop goes on while fewer than a hundred buffers in all were bad.\<close>

lemma publisher_loop_continues:
  assumes "unat n + bad_count decode bufs < 100" and "se_channel_open s" and "se_socket_open s"
  shows "\<exists>n' s'. publisher_loop decode bufs n s = (n', Inr (), s') \<and> unat n' = unat n + bad_count decode bufs \<and>
    se_pushed s' = se_pushed s @ decoded decode bufs \<and>
    length (se_sent s') = length (se_sent s) + bad_count decode bufs \<and> se_channel_open s' \<and> se_socket_open s'"
  using assms
proof (induction bufs arbitrary: n s)
  case (Cons b bufs)
  show ?case
  proof (cases "decode b")
    case (Inl e)
    have less: "unat n < 99" using Cons.prems(1) Inl by (simp add: bad_count_def)
    have u: "unat (n + 1) = Suc (unat n)" using less by (subst unat_plus_simple [THEN iffD1]) (simp_all add: word_le_nat_alt unat_word_ariths)
    have "\<not> MAX_ERROR_DISCONNECT \<le> n + 1" using u less by (simp add: MAX_ERROR_DISCONNECT_def word_le_nat_alt)
    then have h: "handle_publisher_message decode b n s =
        (n + 1, Inr (), s\<lparr>se_sent := se_sent s @ [UpdateDeserializationError (''failed to parse binary update: '' @ e)]\<rparr>)"
      using Inl Cons.prems by (simp add: handle_publisher_message_def send_reply_def)
    have "unat (n + 1) + bad_count decode bufs < 100" using Cons.prems(1) Inl u by (simp add: bad_count_def)
    from Cons.IH [OF this, of "s\<lparr>se_sent := se_sent s @ [UpdateDeserializationError (''failed to parse binary update: '' @ e)]\<rparr>"]
    show ?thesis using h u Inl Cons.prems by (auto simp: bad_count_def)
  next
    case (Inr x)
    then have h: "handle_publisher_message decode b n s = (n, Inr (), s\<lparr>se_pushed := se_pushed s @ [x]\<rparr>)"
      using Cons.prems by (simp add: handle_publisher_message_def push_feed_update_def)
    from Cons.IH [of n "s\<lparr>se_pushed := se_pushed s @ [x]\<rparr>"]
    show ?thesis using h Inr Cons.prems by (auto simp: bad_count_def)
  qed
qed (auto simp: bad_count_def)

lemma publisher_loop_append:
  assumes "publisher_loop decode xs n s = (n', Inr (), s')"
  shows "publisher_loop decode (xs @ ys) n s = publisher_loop decode ys n' s'"
  using assms by (induction xs arbitrary: n s) (auto split: prod.splits sum.splits)

text \<open>A JSON-RPC batch with both ends open: every update is queued in order, and the client gets one success
  reply unless it sent no identifier.  With the channel closed nothing is queued and the first update is
  reported.\<close>

definition success_replies :: "jrpc_id \<Rightarrow> jrpc_response list" where
  "success_replies i = (if i = Id_Null then [] else [Success_Text ''success'' i])"

lemma send_success_open:
  "se_socket_open s \<Longrightarrow>
     send_update_success_response i s = (Inr (), s\<lparr>se_sent := se_sent s @ success_replies i\<rparr>)"
  by (cases i) (simp_all add: success_replies_def send_reply_def)

lemma push_updates_open:
  "se_channel_open s \<Longrightarrow> se_socket_open s \<Longrightarrow>
     push_updates into_pb i batch s =
       (Inr (), s\<lparr>se_pushed := se_pushed s @ map (feed_update_of_params into_pb) batch,
                  se_sent := se_sent s @ success_replies i\<rparr>)"
  by (induction batch arbitrary: s) (simp_all add: send_success_open push_feed_update_def)

lemma push_updates_closed:
  "\<not> se_channel_open s \<Longrightarrow> se_socket_open s \<Longrightarrow>
     push_updates into_pb i (p # batch) s =
       (Inr (), s\<lparr>se_sent := se_sent s @ [Error_Response (error_object (SendUpdateError p)) i]\<rparr>)"
  by (simp add: push_feed_update_def send_update_failure_response_def send_reply_def)

text \<open>With the socket open the handler of a message always succeeds, queues updates only, and sends at most
  one reply.\<close>

lemma handle_jrpc_message_open:
  assumes "se_channel_open s" and "se_socket_open s"
  shows "\<exists>s'. handle_jrpc_message parse into_pb fetched buf s = (Inr (), s') \<and>
    (\<exists>us. se_pushed s' = se_pushed s @ us) \<and> (\<exists>rs. se_sent s' = se_sent s @ rs \<and> length rs \<le> 1)"
  using assms
  by (auto simp: handle_jrpc_message_def handle_jrpc_inner_def push_updates_open send_success_open push_feed_update_def
      send_reply_def handle_get_metadata_def success_replies_def split: sum.split jrpc_call.split jrpc_id.split)

lemma filter_symbols_member:
  "sm \<in> set (filter_symbols symbols params) \<longleftrightarrow>
     sm \<in> set symbols \<and> (\<forall>names. gm_names params = Some names \<longrightarrow> sm_name sm \<in> set names) \<and>
     (\<forall>types. gm_asset_types params = Some types \<longrightarrow> sm_asset_type sm \<in> set types)"
  by (auto simp: filter_symbols_def split: option.splits)

section \<open>Properties\<close>

text \<open>C30: Bad input from a publisher.  While fewer than a hundred buffers could not be decoded, the session goes
  on: exactly the decodable updates are queued, in order, and every other buffer is answered with one error.
  The hundredth bad buffer ends the session with the threshold error, and nothing after it is queued.\<close>

theorem publisher_session_exact:
  assumes "se_channel_open s" and "se_socket_open s"
  shows "(bad_count decode bufs < 100 \<longrightarrow>
      (\<exists>n s'. publisher_loop decode bufs 0 s = (n, Inr (), s') \<and> se_pushed s' = se_pushed s @ decoded decode bufs \<and>
        length (se_sent s') = length (se_sent s) + bad_count decode bufs)) \<and>
    (bad_count decode bufs = 99 \<longrightarrow> is_err (decode b) \<longrightarrow>
      (\<exists>s'. publisher_loop decode (bufs @ b # rest) 0 s = (100, Inl ''Error threshold reached'', s') \<and>
        se_pushed s' = se_pushed s @ decoded decode bufs))"
proof (intro conjI impI)
  assume "bad_count decode bufs < 100"
  then show "\<exists>n s'. publisher_loop decode bufs 0 s = (n, Inr (), s') \<and> se_pushed s' = se_pushed s @ decoded decode bufs \<and>
      length (se_sent s') = length (se_sent s) + bad_count decode bufs"
    using publisher_loop_continues [of 0 decode bufs s] assms by auto
next
  assume 99: "bad_count decode bufs = 99" and b: "is_err (decode b)"
  obtain n s' where run: "publisher_loop decode bufs 0 s = (n, Inr (), s')" "unat n = 99"
      "se_pushed s' = se_pushed s @ decoded decode bufs"
    using publisher_loop_continues [of 0 decode bufs s] assms 99 by auto
  have "unat n = unat (99 :: u32)" by (simp add: run(2))
  then have "n = 99" by (simp only: word_unat_eq_iff)
  moreover obtain e where "decode b = Inl e" using b by (cases "decode b") simp_all
  ultimately have "publisher_loop decode (b # rest) n s' = (100, Inl ''Error threshold reached'', s')"
    by (simp add: handle_publisher_message_def MAX_ERROR_DISCONNECT_def)
  then show "\<exists>s'. publisher_loop decode (bufs @ b # rest) 0 s = (100, Inl ''Error threshold reached'', s') \<and>
      se_pushed s' = se_pushed s @ decoded decode bufs"
    using publisher_loop_append [OF run(1), of "b # rest"] run(3) by auto
qed

theorem publisher_session_exact_witness:
  "\<exists>s'. publisher_loop (\<lambda>_. Inl ''bad'') (replicate 99 [] @ [1] # [[2]]) 0
       \<lparr>se_channel_open = True, se_pushed = [], se_socket_open = True, se_sent = []\<rparr> =
     (100, Inl ''Error threshold reached'', s')"
proof -
  let ?s = "\<lparr>se_channel_open = True, se_pushed = [], se_socket_open = True, se_sent = []\<rparr> :: server_response session"
  have "bad_count (\<lambda>_. Inl ''bad'' :: string + feed_update) (replicate 99 []) = 99" by (simp add: bad_count_def)
  then show ?thesis
    using publisher_session_exact [of ?s "\<lambda>_. Inl ''bad''" "replicate 99 []" "[1]" "[[2]]"] by auto
qed

end
