(* ===== verification/Agent_Legacy.thy ===== *)
theory Agent_Legacy
  imports Agent_Sessions "HOL-Library.AList" "HOL-Library.Multiset"
begin

text \<open>
  The adapter for publishers of the older protocol (\<^verbatim>\<open>agent/src/legacy_handle.rs\<close>): product queries,
  price updates and scheduled notifications over JSON-RPC.  The reader of JSON values, the metadata service
  and the clock are arguments; the timer tasks of the subscriptions are steps on the state of the
  \<^verbatim>\<open>SchedManager\<close>, where a \<^verbatim>\<open>Notify\<close> holds at most one permit.
\<close>

section \<open>Requests and responses\<close>

datatype legacy_price_status = PS_Unknown | PS_Trading | PS_Halted | PS_Auction | PS_Ignored

fun to_trading_status :: "legacy_price_status \<Rightarrow> proto_trading_status option" where
  "to_trading_status PS_Trading = Some TRADING_STATUS_OPEN"
| "to_trading_status PS_Halted = Some TRADING_STATUS_HALTED"
| "to_trading_status PS_Unknown = None"
| "to_trading_status PS_Auction = None"
| "to_trading_status PS_Ignored = None"

record update_price_params =
  up_account :: string
  up_price :: i64
  up_conf :: u64
  up_status :: legacy_price_status

datatype legacy_method =
    GetProductList | GetProduct string | GetAllProducts | SubscribePriceSched string | SubscribePrice string
  | UpdatePrice update_price_params

record legacy_request =
  lr_method :: legacy_method
  lr_id :: jrpc_id

record price_account_detail =
  pa_account :: string
  pa_price_exponent :: i16
  pa_price_type :: string

record product_account_detail =
  pd_account :: string
  pd_attr_dict :: "(string \<times> string) list"
  pd_price :: "price_account_detail list"

datatype legacy_result =
    R_Products "product_account_detail list" | R_Product product_account_detail | R_Subscription u64 | R_Zero

definition INTERNAL_ERROR_CODE :: int where "INTERNAL_ERROR_CODE = - 32603"

datatype legacy_response = L_Success legacy_result jrpc_id | L_Error int string jrpc_id

definition make_success_value :: "jrpc_id \<Rightarrow> legacy_result \<Rightarrow> legacy_response" where
  "make_success_value i result = L_Success result i"

definition make_error_value :: "jrpc_id \<Rightarrow> string \<Rightarrow> legacy_response" where
  "make_error_value i message = L_Error INTERNAL_ERROR_CODE message i"

definition optional_attributes :: "symbol_metadata \<Rightarrow> (string \<times> string option) list" where
  "optional_attributes meta =
    [(''quote_currency'', sm_quote_currency meta), (''cusip'', sm_cusip meta), (''auction_date'', sm_auction_date meta),
     (''issue_date'', sm_issue_date meta), (''maturity_date'', sm_maturity_date meta), (''coupon'', sm_coupon meta),
     (''next_auction_date'', sm_next_auction_date meta)]"

definition product_detail_from_metadata :: "symbol_metadata \<Rightarrow> product_account_detail" where
  "product_detail_from_metadata meta =
    (let feed_id_str = dec (unat (sm_pyth_lazer_id meta));
         attr_dict = AList.update ''description'' (sm_description meta)
           (AList.update ''asset_type'' (sm_asset_type meta) (AList.update ''symbol'' (sm_symbol meta) []));
         attr_dict = fold (\<lambda>(key, value) d. case value of Some v \<Rightarrow> AList.update key v d | None \<Rightarrow> d)
           (optional_attributes meta) attr_dict
     in \<lparr>pd_account = feed_id_str, pd_attr_dict = attr_dict,
         pd_price = [\<lparr>pa_account = feed_id_str, pa_price_exponent = sm_exponent meta, pa_price_type = ''price''\<rparr>]\<rparr>)"

section \<open>Scheduled notifications\<close>

record sched_sub =
  su_ready :: bool
  su_reset :: bool
  su_deadline :: nat

record sched_manager =
  sm_interval :: nat
  sm_wake :: bool
  sm_subs :: "(u64 \<times> sched_sub) list"
  sm_by_account :: "(string \<times> u64 list) list"

definition sched_new :: "nat \<Rightarrow> sched_manager" where
  "sched_new interval = \<lparr>sm_interval = interval, sm_wake = False, sm_subs = [], sm_by_account = []\<rparr>"

definition account_entries :: "sched_manager \<Rightarrow> string \<Rightarrow> u64 list" where
  "account_entries m account = (case map_of (sm_by_account m) account of Some ids \<Rightarrow> ids | None \<Rightarrow> [])"

definition sched_subscribe :: "nat \<Rightarrow> u64 \<Rightarrow> string \<Rightarrow> sched_manager \<Rightarrow> sched_manager" where
  "sched_subscribe now sub_id account m =
    m\<lparr>sm_subs := AList.update sub_id
        \<lparr>su_ready = False, su_reset = False, su_deadline = now + sm_interval m\<rparr> (sm_subs m),
      sm_by_account := AList.update account (account_entries m account @ [sub_id]) (sm_by_account m)\<rparr>"

definition reset_account :: "string \<Rightarrow> sched_manager \<Rightarrow> sched_manager" where
  "reset_account account m =
    m\<lparr>sm_subs := map (\<lambda>(i, sub). if i \<in> set (account_entries m account) then (i, sub\<lparr>su_reset := True\<rparr>) else (i, sub))
        (sm_subs m)\<rparr>"

text \<open>The flags are read and cleared in the iteration order of the hash map, \<open>order\<close>.\<close>

definition take_ready :: "((u64 \<times> sched_sub) list \<Rightarrow> (u64 \<times> sched_sub) list) \<Rightarrow> sched_manager \<Rightarrow> u64 list \<times> sched_manager" where
  "take_ready order m =
    (map fst (filter (\<lambda>(i, sub). su_ready sub) (order (sm_subs m))),
     m\<lparr>sm_subs := map (\<lambda>(i, sub). (i, sub\<lparr>su_ready := False\<rparr>)) (sm_subs m)\<rparr>)"

text \<open>The two arms of a timer task: the interval elapses, or a reset is pending.\<close>

definition timer_fires :: "nat \<Rightarrow> u64 \<Rightarrow> sched_manager \<Rightarrow> sched_manager option" where
  "timer_fires now i m =
    (case map_of (sm_subs m) i of
       Some sub \<Rightarrow>
         if su_deadline sub \<le> now
         then Some (m\<lparr>sm_wake := True,
                      sm_subs := AList.update i (sub\<lparr>su_ready := True, su_deadline := now + sm_interval m\<rparr>) (sm_subs m)\<rparr>)
         else None
     | None \<Rightarrow> None)"

definition timer_restarts :: "nat \<Rightarrow> u64 \<Rightarrow> sched_manager \<Rightarrow> sched_manager option" where
  "timer_restarts now i m =
    (case map_of (sm_subs m) i of
       Some sub \<Rightarrow>
         if su_reset sub
         then Some (m\<lparr>sm_subs := AList.update i (sub\<lparr>su_reset := False, su_deadline := now + sm_interval m\<rparr>) (sm_subs m)\<rparr>)
         else None
     | None \<Rightarrow> None)"

section \<open>Handlers\<close>

record 'm legacy_state =
  lg_next_subscription_id :: u64
  lg_sched :: sched_manager
  lg_session :: "'m session"

text \<open>What the adapter writes to the socket: the reply to one request or to a batch, or a notification.\<close>

datatype legacy_message = Reply_One legacy_response | Reply_Batch "legacy_response list" | Notify_PriceSched u64

type_synonym legacy = "legacy_message legacy_state"

definition clamp_s :: "int \<Rightarrow> 'a::len word" where
  "clamp_s x = word_of_int (max (- (2 ^ (LENGTH('a) - 1))) (min (2 ^ (LENGTH('a) - 1) - 1) x))"

definition saturating_add_s :: "'a::len word \<Rightarrow> 'a word \<Rightarrow> 'a word" where
  "saturating_add_s a b = clamp_s (sint a + sint b)"

definition saturating_sub_s :: "'a::len word \<Rightarrow> 'a word \<Rightarrow> 'a word" where
  "saturating_sub_s a b = clamp_s (sint a - sint b)"

definition conf_i64 :: "u64 \<Rightarrow> i64" where
  "conf_i64 conf = (case to_signed (uint conf) of Some c \<Rightarrow> c | None \<Rightarrow> 0x7FFFFFFFFFFFFFFF)"

definition handle_products :: "string + symbol_metadata list \<Rightarrow> jrpc_id \<Rightarrow> legacy_response" where
  "handle_products fetched i =
    (case fetched of
       Inr metadata \<Rightarrow> make_success_value i (R_Products (map product_detail_from_metadata metadata))
     | Inl err \<Rightarrow> make_error_value i err)"

definition handle_get_all_products :: "string + symbol_metadata list \<Rightarrow> jrpc_id \<Rightarrow> legacy_response" where
  "handle_get_all_products fetched i =
    (case fetched of
       Inr metadata \<Rightarrow>
         let products = map product_detail_from_metadata metadata in make_success_value i (R_Products products)
     | Inl err \<Rightarrow> make_error_value i err)"

definition handle_get_product :: "string + symbol_metadata list \<Rightarrow> string \<Rightarrow> jrpc_id \<Rightarrow> legacy_response" where
  "handle_get_product fetched account i =
    (case fetched of
       Inr metadata \<Rightarrow>
         (case find (\<lambda>d. pd_account d = account) (map product_detail_from_metadata metadata) of
            Some d \<Rightarrow> make_success_value i (R_Product d)
          | None \<Rightarrow> make_error_value i ''product account not found'')
     | Inl err \<Rightarrow> make_error_value i err)"

definition handle_subscribe_price_sched :: "nat \<Rightarrow> string \<Rightarrow> jrpc_id \<Rightarrow> legacy \<Rightarrow> legacy_response \<times> legacy" where
  "handle_subscribe_price_sched now account i st =
    (let sub_id = lg_next_subscription_id st in
     (make_success_value i (R_Subscription sub_id),
      st\<lparr>lg_next_subscription_id := sub_id + 1, lg_sched := sched_subscribe now sub_id account (lg_sched st)\<rparr>))"

definition handle_subscribe_price :: "jrpc_id \<Rightarrow> legacy_response" where
  "handle_subscribe_price i = make_error_value i ''this method is not supported in the legacy adapter''"

definition legacy_feed_update :: "u32 \<Rightarrow> proto_time \<Rightarrow> update_price_params \<Rightarrow> feed_update" where
  "legacy_feed_update feed_id timestamp params =
    \<lparr>fu_feed_id = Some feed_id, fu_source_timestamp = Some timestamp,
     fu_update = Some (PriceUpdate
       \<lparr>pu_price = Some (up_price params),
        pu_best_bid_price = Some (saturating_sub_s (up_price params) (conf_i64 (up_conf params))),
        pu_best_ask_price = Some (saturating_add_s (up_price params) (conf_i64 (up_conf params))),
        pu_market_session = None, pu_trading_status = to_trading_status (up_status params)\<rparr>)\<rparr>"

definition handle_update_price :: "proto_time \<Rightarrow> update_price_params \<Rightarrow> jrpc_id \<Rightarrow> legacy \<Rightarrow> legacy_response \<times> legacy" where
  "handle_update_price timestamp params i st =
    (case parse_uint (up_account params) of
       None \<Rightarrow> (make_error_value i ''invalid price account'', st)
     | Some feed_id \<Rightarrow>
         (case push_feed_update (legacy_feed_update feed_id timestamp params) (lg_session st) of
            (Inr _, s) \<Rightarrow>
              (make_success_value i R_Zero,
               st\<lparr>lg_session := s, lg_sched := reset_account (up_account params) (lg_sched st)\<rparr>)
          | (Inl err, s) \<Rightarrow> (make_error_value i err, st\<lparr>lg_session := s\<rparr>)))"

record 'j legacy_services =
  ls_request :: "'j \<Rightarrow> string + legacy_request"
  ls_metadata :: "string + symbol_metadata list"
  ls_timestamp :: proto_time
  ls_now :: nat

definition dispatch_request :: "'j legacy_services \<Rightarrow> 'j \<Rightarrow> legacy \<Rightarrow> legacy_response \<times> legacy" where
  "dispatch_request sv raw st =
    (case ls_request sv raw of
       Inl err \<Rightarrow> (make_error_value (Id_Int 0) err, st)
     | Inr request \<Rightarrow>
         (let i = lr_id request in
          case lr_method request of
            GetProductList \<Rightarrow> (handle_products (ls_metadata sv) i, st)
          | GetProduct account \<Rightarrow> (handle_get_product (ls_metadata sv) account i, st)
          | GetAllProducts \<Rightarrow> (handle_get_all_products (ls_metadata sv) i, st)
          | SubscribePriceSched account \<Rightarrow> handle_subscribe_price_sched (ls_now sv) account i st
          | SubscribePrice account \<Rightarrow> (handle_subscribe_price i, st)
          | UpdatePrice params \<Rightarrow> handle_update_price (ls_timestamp sv) params i st))"

fun dispatch_batch :: "'j legacy_services \<Rightarrow> 'j list \<Rightarrow> legacy \<Rightarrow> legacy_response list \<times> legacy" where
  "dispatch_batch sv [] st = ([], st)"
| "dispatch_batch sv (raw # items) st =
    (let (r, st) = dispatch_request sv raw st; (rs, st) = dispatch_batch sv items st in (r # rs, st))"

datatype 'j legacy_input = In_NotUtf8 | In_NotJson string | In_Array "'j list" | In_Object 'j | In_Other

text \<open>One message of the client: its reply, if any, is sent as one text message.\<close>

definition reply_legacy :: "legacy_message \<Rightarrow> legacy \<Rightarrow> (string + unit) \<times> legacy" where
  "reply_legacy m st = (let (r, s) = send_reply m (lg_session st) in (r, st\<lparr>lg_session := s\<rparr>))"

fun handle_legacy_message :: "'j legacy_services \<Rightarrow> 'j legacy_input \<Rightarrow> legacy \<Rightarrow> (string + unit) \<times> legacy" where
  "handle_legacy_message sv In_NotUtf8 st = (Inr (), st)"
| "handle_legacy_message sv (In_NotJson err) st = reply_legacy (Reply_One (make_error_value (Id_Int 0) err)) st"
| "handle_legacy_message sv (In_Array items) st =
    (let (rs, st) = dispatch_batch sv items st in reply_legacy (Reply_Batch rs) st)"
| "handle_legacy_message sv (In_Object raw) st =
    (let (r, st) = dispatch_request sv raw st in reply_legacy (Reply_One r) st)"
| "handle_legacy_message sv In_Other st =
    reply_legacy (Reply_One (make_error_value (Id_Int 0) ''expected JSON object or array'')) st"

text \<open>The other arm of the inner loop: a wake-up is consumed and every ready subscription is notified;
  a notification that cannot be sent is dropped.\<close>

definition send_sched_notification :: "u64 \<Rightarrow> legacy_message session \<Rightarrow> legacy_message session" where
  "send_sched_notification sub_id s = snd (send_reply (Notify_PriceSched sub_id) s)"

definition handle_wake_up :: "((u64 \<times> sched_sub) list \<Rightarrow> (u64 \<times> sched_sub) list) \<Rightarrow> legacy \<Rightarrow> legacy option" where
  "handle_wake_up order st =
    (if sm_wake (lg_sched st)
     then let (ids, m) = take_ready order ((lg_sched st)\<lparr>sm_wake := False\<rparr>)
          in Some (st\<lparr>lg_sched := m, lg_session := fold send_sched_notification ids (lg_session st)\<rparr>)
     else None)"

section \<open>Facts\<close>

lemma sint_clamp:
  "sint (clamp_s x :: 'a::len word) = max (- (2 ^ (LENGTH('a) - 1))) (min (2 ^ (LENGTH('a) - 1) - 1) x)"
proof -
  let ?y = "max (- (2 ^ (LENGTH('a) - 1))) (min (2 ^ (LENGTH('a) - 1) - 1) x)"
  have "(0 :: int) < 2 ^ (LENGTH('a) - 1)" by simp
  then have "- (2 ^ (LENGTH('a) - 1)) \<le> ?y" "?y < 2 ^ (LENGTH('a) - 1)" by (auto simp: min_def max_def)
  then have "to_signed ?y = Some (clamp_s x :: 'a word)" by (simp add: to_signed_def clamp_s_def)
  then show ?thesis by (simp add: to_signed_Some_iff)
qed

lemma sint_conf: "sint (conf_i64 c) = min (uint c) (2 ^ 63 - 1)"
proof (cases "to_signed (uint c) :: i64 option")
  case None
  then have "2 ^ 63 \<le> uint c" using uint_ge_0 [of c] by (auto simp: to_signed_None_iff simp del: uint_ge_0)
  with None show ?thesis by (simp add: conf_i64_def min_def)
next
  case (Some d)
  then have "sint d = uint c" by (simp add: to_signed_Some_iff)
  moreover have "sint d < 2 ^ 63" using sint_range_upper [of d] by simp
  ultimately show ?thesis using Some by (simp add: conf_i64_def)
qed

text \<open>Identifiers of subscriptions are fresh: every subscription is below the next identifier.\<close>

definition ids_below :: "u64 \<Rightarrow> sched_manager \<Rightarrow> bool" where
  "ids_below n m \<longleftrightarrow> distinct (map fst (sm_subs m)) \<and> (\<forall>i \<in> set (map fst (sm_subs m)). i < n) \<and>
     (\<forall>account. set (account_entries m account) \<subseteq> set (map fst (sm_subs m)))"

definition sub_ids_ok :: "legacy \<Rightarrow> bool" where
  "sub_ids_ok st \<longleftrightarrow> ids_below (lg_next_subscription_id st) (lg_sched st)"

lemma keys_update: "set (map fst (AList.update k v m)) = insert k (set (map fst m))"
  using dom_update [of k v m] by (simp add: dom_map_of_conv_image_fst)

lemma account_entries_subscribe:
  "account_entries (sched_subscribe now i account m) a =
     (if a = account then account_entries m account @ [i] else account_entries m a)"
  by (auto simp: account_entries_def sched_subscribe_def update_conv')

lemma reset_account_keys [simp]: "map fst (sm_subs (reset_account account m)) = map fst (sm_subs m)"
  by (auto simp: reset_account_def split: prod.split)

lemma reset_account_entries [simp]: "account_entries (reset_account account m) a = account_entries m a"
  by (simp add: account_entries_def reset_account_def)

lemma subscribe_ids_below:
  assumes "ids_below n m" and "n \<noteq> - 1"
  shows "ids_below (n + 1) (sched_subscribe now n account m)" and "n \<notin> set (map fst (sm_subs m))"
proof -
  have "unat n < unat (- 1 :: u64)" using assms(2) word_order.not_eq_extremum [of n] by (simp only: word_less_nat_alt)
  then have "unat n < 2 ^ 64 - 1" by (simp add: unsigned_minus_1_eq_mask mask_eq_exp_minus_1)
  then have less: "n < n + 1" by (simp add: word_less_nat_alt unat_word_ariths)
  show fresh: "n \<notin> set (map fst (sm_subs m))" using assms(1) by (auto simp: ids_below_def)
  have keys: "set (map fst (sm_subs (sched_subscribe now n account m))) = insert n (set (map fst (sm_subs m)))"
    using keys_update [of n _ "sm_subs m"] by (simp add: sched_subscribe_def)
  have "distinct (map fst (sm_subs (sched_subscribe now n account m)))"
    using assms(1) by (simp add: sched_subscribe_def distinct_update ids_below_def)
  moreover have "k < n + 1" if "k \<in> insert n (set (map fst (sm_subs m)))" for k
  proof -
    from that have "k = n \<or> k < n" using assms(1) unfolding ids_below_def by blast
    then show ?thesis using less by (auto intro: less_trans)
  qed
  moreover have "set (account_entries (sched_subscribe now n account m) a) \<subseteq> insert n (set (map fst (sm_subs m)))" for a
    using assms(1) by (auto simp: account_entries_subscribe ids_below_def split: if_splits)
  ultimately show "ids_below (n + 1) (sched_subscribe now n account m)"
    unfolding ids_below_def keys by simp
qed

lemma subscribe_ids_ok:
  assumes "sub_ids_ok st" and "lg_next_subscription_id st \<noteq> - 1"
  shows "sub_ids_ok (snd (handle_subscribe_price_sched now account i st))"
  using subscribe_ids_below(1) [of "lg_next_subscription_id st" "lg_sched st"] assms
  by (simp add: sub_ids_ok_def handle_subscribe_price_sched_def Let_def)

lemma reset_account_ids_below [simp]: "ids_below n (reset_account account m) = ids_below n m"
  unfolding ids_below_def reset_account_keys reset_account_entries ..

text \<open>Every other request keeps the subscriptions and the next identifier.\<close>

lemma update_price_ids_ok:
  assumes "sub_ids_ok st"
  shows "sub_ids_ok (snd (handle_update_price ts params i st))"
    and "lg_next_subscription_id (snd (handle_update_price ts params i st)) = lg_next_subscription_id st"
  using assms by (auto simp: handle_update_price_def sub_ids_ok_def push_feed_update_def split: option.split)

lemma dispatch_request_ids_ok:
  assumes "sub_ids_ok st" and "lg_next_subscription_id st \<noteq> - 1"
  shows "sub_ids_ok (snd (dispatch_request sv raw st))"
  using assms subscribe_ids_ok update_price_ids_ok(1)
  by (auto simp: dispatch_request_def Let_def split: sum.split legacy_method.split)

text \<open>Notifications coalesce: a ready subscription is reported once, and not again before its timer fires.\<close>

lemma take_ready_once:
  assumes "distinct (map fst (sm_subs m))" and "\<And>xs. mset (order xs) = mset xs" and "take_ready order m = (ids, m')"
    and "\<And>xs. mset (order' xs) = mset xs"
  shows "distinct ids" and "i \<in> set ids \<longleftrightarrow> (\<exists>sub. (i, sub) \<in> set (sm_subs m) \<and> su_ready sub)"
    and "fst (take_ready order' m') = []"
proof -
  have set: "set (order (sm_subs m)) = set (sm_subs m)" using assms(2) by (metis set_mset_mset)
  have "mset (map fst (order (sm_subs m))) = mset (map fst (sm_subs m))" using assms(2) by simp
  then have "distinct (map fst (order (sm_subs m)))" using assms(1) by (metis mset_eq_imp_distinct_iff)
  then show "distinct ids" using assms(3) by (auto simp: take_ready_def distinct_map_filter)
  show "i \<in> set ids \<longleftrightarrow> (\<exists>sub. (i, sub) \<in> set (sm_subs m) \<and> su_ready sub)"
    using assms(3) set by (force simp: take_ready_def)
  have "set (order' (sm_subs m')) = set (sm_subs m')" using assms(4) by (metis set_mset_mset)
  then have "\<forall>(i, sub) \<in> set (order' (sm_subs m')). \<not> su_ready sub" using assms(3) by (auto simp: take_ready_def)
  then show "fst (take_ready order' m') = []" by (auto simp: take_ready_def filter_empty_conv)
qed

section \<open>Properties\<close>

text \<open>C31: Price updates of the older protocol.  For an account that names a feed, the update queued has the
  given price, and as bid and ask the price minus and plus the confidence, clamped to the 64-bit range, so
  that bid and ask enclose the price; the client is told of success and every subscription of the account
  has its timer reset.  Any other account is refused and nothing is queued.\<close>

theorem legacy_update_exact:
  assumes "se_channel_open (lg_session st)" and "handle_update_price ts params i st = (r, st')"
  shows "case parse_uint (up_account params) :: u32 option of
      None \<Rightarrow> r = L_Error (- 32603) ''invalid price account'' i \<and> st' = st
    | Some feed \<Rightarrow> r = L_Success R_Zero i \<and>
        (\<exists>bid ask. se_pushed (lg_session st') = se_pushed (lg_session st) @
            [\<lparr>fu_feed_id = Some feed, fu_source_timestamp = Some ts, fu_update = Some (PriceUpdate
               \<lparr>pu_price = Some (up_price params), pu_best_bid_price = Some bid, pu_best_ask_price = Some ask,
                pu_market_session = None, pu_trading_status = to_trading_status (up_status params)\<rparr>)\<rparr>] \<and>
          sint bid = max (- (2 ^ 63)) (sint (up_price params) - min (uint (up_conf params)) (2 ^ 63 - 1)) \<and>
          sint ask = min (2 ^ 63 - 1) (sint (up_price params) + min (uint (up_conf params)) (2 ^ 63 - 1)) \<and>
          sint bid \<le> sint (up_price params) \<and> sint (up_price params) \<le> sint ask) \<and>
        (\<forall>(j, sub) \<in> set (sm_subs (lg_sched st')). j \<in> set (account_entries (lg_sched st) (up_account params)) \<longrightarrow> su_reset sub)"
proof (cases "parse_uint (up_account params) :: u32 option")
  case None
  then show ?thesis using assms(2)
    by (simp add: handle_update_price_def make_error_value_def INTERNAL_ERROR_CODE_def)
next
  case (Some feed)
  let ?p = "sint (up_price params)" and ?c = "min (uint (up_conf params)) (2 ^ 63 - 1)"
  have p: "- (2 ^ 63) \<le> ?p" "?p < 2 ^ 63" using sint_range [of "up_price params"] sint_range_upper [of "up_price params"] by simp_all
  have c: "0 \<le> ?c" by simp
  have bid: "sint (saturating_sub_s (up_price params) (conf_i64 (up_conf params))) = max (- (2 ^ 63)) (?p - ?c)"
  proof -
    have "sint (saturating_sub_s (up_price params) (conf_i64 (up_conf params))) = max (- (2 ^ 63)) (min (2 ^ 63 - 1) (?p - ?c))"
      by (simp add: saturating_sub_s_def sint_clamp sint_conf)
    also have "min (2 ^ 63 - 1) (?p - ?c) = ?p - ?c" by (rule min_absorb2) (use p c in linarith)
    finally show ?thesis .
  qed
  have ask: "sint (saturating_add_s (up_price params) (conf_i64 (up_conf params))) = min (2 ^ 63 - 1) (?p + ?c)"
  proof -
    have "sint (saturating_add_s (up_price params) (conf_i64 (up_conf params))) = max (- (2 ^ 63)) (min (2 ^ 63 - 1) (?p + ?c))"
      by (simp add: saturating_add_s_def sint_clamp sint_conf)
    also have "\<dots> = min (2 ^ 63 - 1) (?p + ?c)" by (rule max_absorb2) (use p c in linarith)
    finally show ?thesis .
  qed
  have e: "r = L_Success R_Zero i"
    "st' = st\<lparr>lg_session := (lg_session st)\<lparr>se_pushed := se_pushed (lg_session st) @ [legacy_feed_update feed ts params]\<rparr>,
       lg_sched := reset_account (up_account params) (lg_sched st)\<rparr>"
    using assms Some by (simp_all add: handle_update_price_def push_feed_update_def make_success_value_def)
  have enclose: "max (- (2 ^ 63)) (?p - ?c) \<le> ?p" "?p \<le> min (2 ^ 63 - 1) (?p + ?c)" using p c by linarith+
  have resets: "\<forall>(j, sub) \<in> set (sm_subs (lg_sched st')).
      j \<in> set (account_entries (lg_sched st) (up_account params)) \<longrightarrow> su_reset sub"
    unfolding e(2) by (auto simp: reset_account_def split: if_splits)
  show ?thesis unfolding Some option.case
    using e(1) resets bid ask enclose
    by (intro conjI exI [of _ "saturating_sub_s (up_price params) (conf_i64 (up_conf params))"]
        exI [of _ "saturating_add_s (up_price params) (conf_i64 (up_conf params))"])
      (simp_all add: e(2) legacy_feed_update_def)
qed

theorem legacy_update_exact_witness:
  "fst (handle_update_price \<lparr>pb_seconds = 1, pb_nanos = 0\<rparr>
     \<lparr>up_account = ''7'', up_price = 0x8000000000000002, up_conf = 5, up_status = PS_Trading\<rparr> (Id_Int 1)
     \<lparr>lg_next_subscription_id = 1, lg_sched = sched_new 200,
      lg_session = \<lparr>se_channel_open = True, se_pushed = [], se_socket_open = True, se_sent = []\<rparr>\<rparr>) = L_Success R_Zero (Id_Int 1)"
proof -
  let ?ts = "\<lparr>pb_seconds = 1, pb_nanos = 0\<rparr> :: proto_time"
  let ?params = "\<lparr>up_account = ''7'', up_price = 0x8000000000000002, up_conf = 5, up_status = PS_Trading\<rparr>"
  let ?st = "\<lparr>lg_next_subscription_id = 1, lg_sched = sched_new 200,
      lg_session = \<lparr>se_channel_open = True, se_pushed = [], se_socket_open = True, se_sent = []\<rparr>\<rparr> :: legacy"
  obtain r st' where h: "handle_update_price ?ts ?params (Id_Int 1) ?st = (r, st')"
    by (cases "handle_update_price ?ts ?params (Id_Int 1) ?st")
  have p: "parse_uint (up_account ?params) = Some (7 :: u32)"
    by (simp add: parse_uint_def digit_value_def checked_mul_u_def checked_add_u_def to_unsigned_def)
  have "se_channel_open (lg_session ?st)" by simp
  from legacy_update_exact [OF this h] show ?thesis unfolding p option.case h by simp
qed

end
