(* ===== verification/Agent_Runs.thy ===== *)
theory Agent_Runs
  imports Agent_Legacy
begin

text \<open>
  The receive loops of the agent's sessions (\<^verbatim>\<open>agent/src\<close>): of the binary and the JSON-RPC protocol
  (\<^verbatim>\<open>publisher_handle.rs\<close>, \<^verbatim>\<open>jrpc_handle.rs\<close>), which go on after a failed receive, and of the older
  protocol (\<^verbatim>\<open>legacy_handle.rs\<close>), whose loop also waits for timers; a session of the latter is a state with
  steps.
\<close>

section \<open>Receiving\<close>

text \<open>A receive ends with a message in the buffer, or with an error and what was in the buffer before it.\<close>

datatype received = Rc_Message bytes | Rc_Error string bytes

fun receive_buf :: "received \<Rightarrow> bytes" where
  "receive_buf (Rc_Message buf) = buf"
| "receive_buf (Rc_Error err buf) = buf"

text \<open>The result of a receive is not looked at: the buffer is handled in any case.\<close>

definition try_handle_publisher ::
  "(bytes \<Rightarrow> string + feed_update) \<Rightarrow> received list \<Rightarrow> server_response session \<Rightarrow> server_response outcome" where
  "try_handle_publisher decode rs s = snd (publisher_loop decode (map receive_buf rs) 0 s)"

fun try_handle_jrpc ::
  "(bytes \<Rightarrow> string + jrpc_request) \<Rightarrow> (std_duration \<Rightarrow> proto_time) \<Rightarrow> string + symbol_metadata list \<Rightarrow>
   received list \<Rightarrow> jrpc_response session \<Rightarrow> jrpc_response outcome" where
  "try_handle_jrpc parse into_pb fetched [] s = (Inr (), s)"
| "try_handle_jrpc parse into_pb fetched (r # rs) s =
    (case handle_jrpc_message parse into_pb fetched (receive_buf r) s of
       (Inl err, s) \<Rightarrow> (Inl err, s)
     | (Inr _, s) \<Rightarrow> try_handle_jrpc parse into_pb fetched rs s)"

text \<open>
  A client that stops sending but still reads: every receive fails at once with an empty buffer.  The binary
  session ends at the hundredth; the JSON-RPC session answers each one and never ends.
\<close>

lemma publisher_half_closed_ends:
  assumes "is_err (decode [])" and "se_channel_open s" and "se_socket_open s"
  shows "fst (try_handle_publisher decode (replicate 100 (Rc_Error err []) @ rs) s) = Inl ''Error threshold reached''"
proof -
  have bad: "bad_count decode (replicate 99 []) = 99"
    using assms(1) by (simp add: bad_count_def)
  obtain n s' where loop: "publisher_loop decode (replicate 99 []) 0 s = (n, Inr (), s')" "unat n = 99"
    using publisher_loop_continues [of 0 decode "replicate 99 []" s] assms bad by auto
  obtain e where e: "decode [] = Inl e" using assms(1) by (cases "decode []") simp_all
  have "unat (n + 1) = 100" using loop(2) by (simp add: unat_word_ariths)
  then have "MAX_ERROR_DISCONNECT \<le> n + 1" by (simp add: MAX_ERROR_DISCONNECT_def word_le_nat_alt)
  then have "handle_publisher_message decode [] n s' = (n + 1, Inl ''Error threshold reached'', s')"
    by (simp add: handle_publisher_message_def e)
  moreover have "map receive_buf (replicate 100 (Rc_Error err []) @ rs) =
      replicate 99 [] @ [] # map receive_buf rs"
    by (simp add: replicate_app_Cons_same flip: replicate_Suc)
  ultimately show ?thesis
    using publisher_loop_append [OF loop(1), of "[] # map receive_buf rs"]
    by (simp add: try_handle_publisher_def)
qed

lemma jrpc_half_closed_spins:
  assumes "parse [] = Inl err" and "se_socket_open s"
  shows "try_handle_jrpc parse into_pb fetched (replicate n (Rc_Error e [])) s =
    (Inr (), s\<lparr>se_sent := se_sent s @ replicate n (Error_Response (error_object (ParseError err)) Id_Null)\<rparr>)"
  using assms(2)
proof (induction n arbitrary: s)
  case (Suc n)
  have "handle_jrpc_message parse into_pb fetched [] s =
      (Inr (), s\<lparr>se_sent := se_sent s @ [Error_Response (error_object (ParseError err)) Id_Null]\<rparr>)"
    using Suc.prems assms(1) by (simp add: handle_jrpc_message_def handle_jrpc_inner_def send_reply_def)
  with Suc show ?case by simp
qed simp

lemma jrpc_closed_ends:
  assumes "parse [] = Inl err" and "\<not> se_socket_open s"
  shows "try_handle_jrpc parse into_pb fetched (Rc_Error e [] # rs) s = (Inl ''connection closed'', s)"
  using assms by (simp add: handle_jrpc_message_def handle_jrpc_inner_def send_reply_def)

section \<open>Sessions of the older protocol\<close>

definition legacy_start :: "nat \<Rightarrow> legacy_message session \<Rightarrow> legacy" where
  "legacy_start interval s = \<lparr>lg_next_subscription_id = 1, lg_sched = sched_new interval, lg_session = s\<rparr>"

text \<open>
  The steps of a session that goes on: a message was handled, the waiting loop was woken, a timer task made a
  step, or the environment closed one of its ends.  An error of a receive or of a reply ends it.
\<close>

inductive legacy_step :: "('j \<Rightarrow> string + legacy_request) \<Rightarrow> legacy \<Rightarrow> legacy \<Rightarrow> bool" where
  message: "ls_request sv = parse \<Longrightarrow> handle_legacy_message sv input st = (Inr (), st') \<Longrightarrow> legacy_step parse st st'"
| woken: "\<forall>xs. mset (order xs) = mset xs \<Longrightarrow> handle_wake_up order st = Some st' \<Longrightarrow> legacy_step parse st st'"
| fires: "timer_fires now i (lg_sched st) = Some m \<Longrightarrow> legacy_step parse st (st\<lparr>lg_sched := m\<rparr>)"
| restarts: "timer_restarts now i (lg_sched st) = Some m \<Longrightarrow> legacy_step parse st (st\<lparr>lg_sched := m\<rparr>)"
| channel_closes: "legacy_step parse st (st\<lparr>lg_session := (lg_session st)\<lparr>se_channel_open := False\<rparr>\<rparr>)"
| socket_closes: "legacy_step parse st (st\<lparr>lg_session := (lg_session st)\<lparr>se_socket_open := False\<rparr>\<rparr>)"

inductive legacy_reachable :: "('j \<Rightarrow> string + legacy_request) \<Rightarrow> legacy \<Rightarrow> bool" where
  start: "se_sent s = [] \<Longrightarrow> legacy_reachable parse (legacy_start interval s)"
| step: "legacy_reachable parse st \<Longrightarrow> legacy_step parse st st' \<Longrightarrow> legacy_reachable parse st'"

text \<open>The subscriptions that a message tells the client of.\<close>

fun response_subscription :: "legacy_response \<Rightarrow> u64 set" where
  "response_subscription (L_Success (R_Subscription i) _) = {i}"
| "response_subscription _ = {}"

fun told_by :: "legacy_message \<Rightarrow> u64 set" where
  "told_by (Reply_One r) = response_subscription r"
| "told_by (Reply_Batch rs) = \<Union> (response_subscription ` set rs)"
| "told_by (Notify_PriceSched i) = {}"

definition told :: "legacy_message list \<Rightarrow> u64 set" where
  "told ms = \<Union> (told_by ` set ms)"

lemma told_append [simp]: "told (xs @ ys) = told xs \<union> told ys" and told_Cons: "told (m # ms) = told_by m \<union> told ms"
  and told_Nil [simp]: "told [] = {}"
  by (auto simp: told_def)

definition sub_keys :: "legacy \<Rightarrow> u64 set" where
  "sub_keys st = fst ` set (sm_subs (lg_sched st))"

lemma fst_update: "fst ` set (AList.update k v m) = insert k (fst ` set m)"
  using keys_update [of k v m] by simp

lemma reset_account_subs: "fst ` set (sm_subs (reset_account account m)) = fst ` set (sm_subs m)"
  unfolding set_map [symmetric] reset_account_keys ..

lemma subscribe_sched_keys:
  "sub_keys (snd (handle_subscribe_price_sched now account i st)) = insert (lg_next_subscription_id st) (sub_keys st)"
  "lg_session (snd (handle_subscribe_price_sched now account i st)) = lg_session st"
  "fst (handle_subscribe_price_sched now account i st) = L_Success (R_Subscription (lg_next_subscription_id st)) i"
  by (simp_all add: sub_keys_def handle_subscribe_price_sched_def sched_subscribe_def fst_update
      make_success_value_def Let_def)

lemma update_price_keys:
  "sub_keys (snd (handle_update_price ts params i st)) = sub_keys st"
  "se_sent (lg_session (snd (handle_update_price ts params i st))) = se_sent (lg_session st)"
  by (simp_all add: sub_keys_def handle_update_price_def push_feed_update_def reset_account_subs split: option.split)

lemma dispatch_request_keys:
  "sub_keys (snd (dispatch_request sv raw st)) \<subseteq>
     sub_keys st \<union> response_subscription (fst (dispatch_request sv raw st))"
  "se_sent (lg_session (snd (dispatch_request sv raw st))) = se_sent (lg_session st)"
  by (auto simp: dispatch_request_def Let_def subscribe_sched_keys update_price_keys
      split: sum.split legacy_method.split)

lemma dispatch_batch_keys:
  "sub_keys (snd (dispatch_batch sv items st)) \<subseteq>
     sub_keys st \<union> \<Union> (response_subscription ` set (fst (dispatch_batch sv items st))) \<and>
   se_sent (lg_session (snd (dispatch_batch sv items st))) = se_sent (lg_session st)"
proof (induction items arbitrary: st)
  case (Cons raw items)
  from Cons [of "snd (dispatch_request sv raw st)"] dispatch_request_keys [of sv raw st] show ?case
    by (simp add: Let_def split_beta) blast
qed simp

lemma reply_legacy_ok:
  "reply_legacy m st = (Inr (), st') \<Longrightarrow>
     sub_keys st' = sub_keys st \<and> se_sent (lg_session st') = se_sent (lg_session st) @ [m]"
  by (auto simp: reply_legacy_def send_reply_def Let_def sub_keys_def split: if_splits)

text \<open>A handled message tells of every subscription it opened, and is no notification.\<close>

lemma handle_message_keys:
  assumes "handle_legacy_message sv input st = (Inr (), st')"
  obtains ms where "se_sent (lg_session st') = se_sent (lg_session st) @ ms"
    "sub_keys st' \<subseteq> sub_keys st \<union> told ms" "\<forall>i. Notify_PriceSched i \<notin> set ms"
proof (cases input)
  case In_NotUtf8
  with assms that [of "[]"] show thesis by simp
next
  case (In_NotJson err)
  with assms reply_legacy_ok that [of "[Reply_One (make_error_value (Id_Int 0) err)]"] show thesis
    by (fastforce simp: told_Cons)
next
  case (In_Array items)
  obtain rs st1 where b: "dispatch_batch sv items st = (rs, st1)" by fastforce
  with assms In_Array have "reply_legacy (Reply_Batch rs) st1 = (Inr (), st')" by simp
  from reply_legacy_ok [OF this] dispatch_batch_keys [of sv items st] b that [of "[Reply_Batch rs]"] show thesis
    by (simp add: told_Cons)
next
  case (In_Object raw)
  obtain r st1 where d: "dispatch_request sv raw st = (r, st1)" by fastforce
  with assms In_Object have "reply_legacy (Reply_One r) st1 = (Inr (), st')" by simp
  from reply_legacy_ok [OF this] dispatch_request_keys [of sv raw st] d that [of "[Reply_One r]"] show thesis
    by (simp add: told_Cons)
next
  case In_Other
  with assms reply_legacy_ok that [of "[Reply_One (make_error_value (Id_Int 0) ''expected JSON object or array'')]"]
  show thesis by (fastforce simp: told_Cons)
qed

lemma update_existing: "map_of m k = Some v \<Longrightarrow> fst ` set (AList.update k w m) = fst ` set m"
  using map_of_SomeD [of m k v] by (force simp: fst_update)

lemma timer_keys:
  "timer_fires now i m = Some m' \<Longrightarrow> fst ` set (sm_subs m') = fst ` set (sm_subs m)"
  "timer_restarts now i m = Some m' \<Longrightarrow> fst ` set (sm_subs m') = fst ` set (sm_subs m)"
  by (clarsimp simp: timer_fires_def timer_restarts_def update_existing split: option.splits if_splits)+

lemma send_notifications:
  "se_sent (fold send_sched_notification ids s) =
     se_sent s @ (if se_socket_open s then map Notify_PriceSched ids else [])"
  by (induction ids arbitrary: s) (simp_all add: send_sched_notification_def send_reply_def)

lemma wake_up_keys:
  assumes "handle_wake_up order st = Some st'" and "\<forall>xs. mset (order xs) = mset xs"
  obtains ids where "set ids \<subseteq> sub_keys st" "sub_keys st' = sub_keys st"
    "se_sent (lg_session st') = se_sent (lg_session st) @ map Notify_PriceSched ids"
proof -
  let ?ids = "map fst (filter (\<lambda>(i, sub). su_ready sub) (order (sm_subs (lg_sched st))))"
  have "set (order xs) = set xs" for xs
    using assms(2) by (metis set_mset_mset)
  then have "set ?ids \<subseteq> sub_keys st" by (auto simp: sub_keys_def)
  moreover have "sub_keys st' = sub_keys st"
    using assms(1) by (force simp: handle_wake_up_def take_ready_def sub_keys_def split: if_splits)
  moreover have "se_sent (lg_session st') = se_sent (lg_session st) @
      (if se_socket_open (lg_session st) then map Notify_PriceSched ?ids else [])"
    using assms(1) by (auto simp: handle_wake_up_def take_ready_def send_notifications split: if_splits)
  ultimately show thesis
    using that [of "if se_socket_open (lg_session st) then ?ids else []"] by (auto split: if_splits)
qed

text \<open>The invariant: the client knows of every subscription, and knew of it before each notification.\<close>

definition notified_after_told :: "legacy_message list \<Rightarrow> bool" where
  "notified_after_told ms \<longleftrightarrow> (\<forall>a i b. ms = a @ Notify_PriceSched i # b \<longrightarrow> i \<in> told a)"

lemma notified_append:
  assumes "notified_after_told ms" and "\<forall>i. Notify_PriceSched i \<in> set new \<longrightarrow> i \<in> told ms"
  shows "notified_after_told (ms @ new)"
proof -
  have "i \<in> told a" if eq: "ms @ new = a @ Notify_PriceSched i # b" for a i b
  proof (cases "length a < length ms")
    case True
    then have "\<exists>c. ms = a @ Notify_PriceSched i # c"
      using eq by (auto simp: append_eq_append_conv2 append_eq_Cons_conv)
    with assms(1) show ?thesis unfolding notified_after_told_def by blast
  next
    case False
    then obtain c where "a = ms @ c" "new = c @ Notify_PriceSched i # b"
      using eq by (auto simp: append_eq_append_conv2)
    with assms(2) show ?thesis by auto
  qed
  then show ?thesis unfolding notified_after_told_def by blast
qed

definition legacy_inv :: "legacy \<Rightarrow> bool" where
  "legacy_inv st \<longleftrightarrow> sub_keys st \<subseteq> told (se_sent (lg_session st)) \<and> notified_after_told (se_sent (lg_session st))"

lemma legacy_step_inv: "legacy_step parse st st' \<Longrightarrow> legacy_inv st \<Longrightarrow> legacy_inv st'"
proof (induction rule: legacy_step.induct)
  case (message sv parse input st st')
  from message(2) obtain ms where "se_sent (lg_session st') = se_sent (lg_session st) @ ms"
    "sub_keys st' \<subseteq> sub_keys st \<union> told ms" "\<forall>i. Notify_PriceSched i \<notin> set ms"
    by (rule handle_message_keys)
  with message(3) show ?case unfolding legacy_inv_def by (auto intro!: notified_append)
next
  case (woken order st st' parse)
  from woken(2,1) obtain ids where "set ids \<subseteq> sub_keys st" "sub_keys st' = sub_keys st"
    "se_sent (lg_session st') = se_sent (lg_session st) @ map Notify_PriceSched ids"
    by (rule wake_up_keys)
  with woken(3) show ?case unfolding legacy_inv_def by (auto intro!: notified_append)
qed (simp_all add: legacy_inv_def sub_keys_def timer_keys)

text \<open>
  In every run of a session, whatever its timers do and whenever the socket fails, a notification is sent only
  after the reply that told the client the identifier of its subscription.
\<close>

theorem legacy_notifications_follow_replies:
  assumes "legacy_reachable parse st" and "se_sent (lg_session st) = a @ Notify_PriceSched i # b"
  shows "i \<in> told a"
proof -
  from assms(1) have "legacy_inv st"
  proof induction
    case (start s interval)
    then show ?case by (simp add: legacy_inv_def legacy_start_def sched_new_def sub_keys_def notified_after_told_def)
  next
    case (step st st')
    then show ?case by (blast intro: legacy_step_inv)
  qed
  with assms(2) show ?thesis unfolding legacy_inv_def notified_after_told_def by blast
qed

end
