(* ===== verification/Agent_Connect.thy ===== *)
theory Agent_Connect
  imports Lazer_Api
begin

text \<open>
  How the agent meets the outside (\<^verbatim>\<open>agent/src\<close>): the rendering of secrets in its configuration
  (\<^verbatim>\<open>config.rs\<close>), the routes of its HTTP server (\<^verbatim>\<open>http_server.rs\<close>), the fetching of metadata
  (\<^verbatim>\<open>metadata.rs\<close>), and the connection to a relayer, directly or through a proxy
  (\<^verbatim>\<open>relayer_session.rs\<close>).  A parsed URL is the record of its parts.  Sockets, TLS, the Websocket
  handshake and base64 are arguments or outcomes chosen by the environment.
\<close>

section \<open>Configuration (config.rs)\<close>

record url_parts =
  u_scheme :: string
  u_username :: string
  u_password :: "string option"
  u_host :: "string option"
  u_port :: "u16 option"
  u_path :: string
  u_query :: "string option"

definition redact_url :: "url_parts \<Rightarrow> string" where
  "redact_url url =
     (case (u_host url, u_port url) of
        (Some host, Some port) \<Rightarrow> u_scheme url @ ''://'' @ host @ '':'' @ dec (unat port)
      | (Some host, None) \<Rightarrow> u_scheme url @ ''://'' @ host
      | (None, _) \<Rightarrow> u_scheme url)"

text \<open>
  \<^verbatim>\<open>Debug\<close> of an authorization token: the last four bytes of the token.  A slice that starts inside a
  multi-byte character panics (\<open>None\<close>).  The token is given by its UTF-8 bytes.
\<close>

definition to_ascii_lowercase :: "bytes \<Rightarrow> bytes" where
  "to_ascii_lowercase = map (\<lambda>b. if 65 \<le> b \<and> b \<le> 90 then b + 32 else b)"

definition is_char_boundary :: "bytes \<Rightarrow> nat \<Rightarrow> bool" where
  "is_char_boundary s i \<longleftrightarrow> i = 0 \<or> i = length s \<or> i < length s \<and> \<not> (0x80 \<le> s ! i \<and> s ! i < 0xC0)"

definition token_debug :: "bytes \<Rightarrow> bytes option" where
  "token_debug token =
     (let s = to_ascii_lowercase token;
          start = length s - min 4 (length s)
      in if is_char_boundary s start then Some ([34, 46, 46, 46] @ drop start s @ [34]) else None)"

text \<open>
  The secrets of the publisher (\<^verbatim>\<open>lazer_publisher.rs\<close>): the signing key from the key file, and the token,
  which is the public key unless one is configured.  A failure of \<^verbatim>\<open>LazerPublisher::new\<close> is a panic.
\<close>

definition load_signing_key :: "string + bytes \<Rightarrow> (bytes \<Rightarrow> 'k option) \<Rightarrow> string + 'k" where
  "load_signing_key keypair_file from_keypair_bytes =
     (case keypair_file of
        Inl e \<Rightarrow> Inl ''Reading publish keypair returned an error.''
      | Inr keypair \<Rightarrow> ok_or ''Failed to create signing key from keypair'' (from_keypair_bytes keypair))"

definition publisher_token :: "(bytes \<Rightarrow> string) \<Rightarrow> ('k \<Rightarrow> bytes) \<Rightarrow> string option \<Rightarrow> 'k \<Rightarrow> string" where
  "publisher_token base64 verifying_key authorization_token signing_key =
     (case authorization_token of
        Some token \<Rightarrow> token
      | None \<Rightarrow> base64 (verifying_key signing_key))"

section \<open>The HTTP server (http_server.rs)\<close>

datatype agent_request = Req_PublisherV1 | Req_PublisherV2 | Req_JrpcV1 | Req_LegacyV1

definition PUBLISHER_WS_URI_V1 :: string where "PUBLISHER_WS_URI_V1 = ''/v1/publisher''"
definition PUBLISHER_WS_URI_V2 :: string where "PUBLISHER_WS_URI_V2 = ''/v2/publisher''"
definition JRPC_WS_URI_V1 :: string where "JRPC_WS_URI_V1 = ''/v1/jrpc''"
definition LEGACY_WS_URI_V1 :: string where "LEGACY_WS_URI_V1 = ''/v1/legacy''"
definition READINESS_PROBE_PATH :: string where "READINESS_PROBE_PATH = ''/ready''"
definition LIVENESS_PROBE_PATH :: string where "LIVENESS_PROBE_PATH = ''/live''"

record http_response =
  hr_status :: nat
  hr_body :: string

text \<open>
  The answer to a request and the session that was started for it.  \<open>upgrade\<close> is whether the request asks for
  an upgrade, \<open>handshake\<close> the answer of \<^verbatim>\<open>receive_request\<close>.
\<close>

definition request_handler ::
  "string \<Rightarrow> bool \<Rightarrow> bool \<Rightarrow> string + nat \<Rightarrow> http_response \<times> agent_request option" where
  "request_handler path is_ready upgrade handshake =
     (let accept = (\<lambda>request_type.
        if \<not> upgrade then (\<lparr>hr_status = 400, hr_body = ''bad request''\<rparr>, None)
        else case handshake of
          Inr status \<Rightarrow> (\<lparr>hr_status = status, hr_body = ''''\<rparr>, Some request_type)
        | Inl e \<Rightarrow> (\<lparr>hr_status = 500, hr_body = ''internal server error''\<rparr>, None))
      in if path = PUBLISHER_WS_URI_V1 then accept Req_PublisherV1
      else if path = PUBLISHER_WS_URI_V2 then accept Req_PublisherV2
      else if path = JRPC_WS_URI_V1 then accept Req_JrpcV1
      else if path = LEGACY_WS_URI_V1 then accept Req_LegacyV1
      else if path = LIVENESS_PROBE_PATH then (\<lparr>hr_status = 200, hr_body = ''''\<rparr>, None)
      else if path = READINESS_PROBE_PATH
      then (\<lparr>hr_status = (if is_ready then 200 else 503), hr_body = ''''\<rparr>, None)
      else (\<lparr>hr_status = 404, hr_body = ''not found''\<rparr>, None))"

text \<open>
  Metadata without the cache of the \<^verbatim>\<open>cached\<close> macro.  Arguments: how a status code is shown, the answer
  with its text, and the JSON reader.
\<close>

definition fetch_symbol_metadata ::
  "(nat \<Rightarrow> string) \<Rightarrow> string + nat \<times> (string + string) \<Rightarrow> (string \<Rightarrow> string + 'm list) \<Rightarrow>
   string + 'm list" where
  "fetch_symbol_metadata show_status answer from_json =
     and_then answer (\<lambda>(status, body).
       if 200 \<le> status \<and> status < 300 then and_then body from_json
       else Inl (''Error getting metadata (status_code='' @ show_status status @ '', body='' @
              (case body of Inr text \<Rightarrow> text | Inl e \<Rightarrow> ''none'') @ '')''))"

section \<open>The CONNECT request (relayer_session.rs)\<close>

definition CRLF :: string where "CRLF = [char_of (13 :: nat), char_of (10 :: nat)]"

fun join_with :: "string \<Rightarrow> string list \<Rightarrow> string" where
  "join_with sep [] = ''''"
| "join_with sep [x] = x"
| "join_with sep (x # y # xs) = x @ sep @ join_with sep (y # xs)"

definition default_port :: "string \<Rightarrow> url_parts \<Rightarrow> u16" where
  "default_port secure url =
     (case u_port url of Some p \<Rightarrow> p | None \<Rightarrow> if u_scheme url = secure then 443 else 80)"

definition authority :: "string \<Rightarrow> u16 \<Rightarrow> string" where
  "authority host port = host @ '':'' @ dec (unat port)"

definition connect_request_parts :: "(string \<Rightarrow> string) \<Rightarrow> url_parts \<Rightarrow> string \<Rightarrow> string list" where
  "connect_request_parts base64 proxy target_authority =
     [''CONNECT '' @ target_authority @ '' HTTP/1.1'', ''Host: '' @ target_authority] @
     (if u_username proxy \<noteq> '''' then
        [''Proxy-Authorization: Basic '' @
           base64 (u_username proxy @ '':'' @ (case u_password proxy of Some p \<Rightarrow> p | None \<Rightarrow> ''''))]
      else []) @
     [''Proxy-Connection: Keep-Alive'', '''', '''']"

section \<open>The answer of the proxy\<close>

text \<open>A read from the socket yields bytes, none of them at the end of the stream, or an error.\<close>

datatype read_result = Read_Bytes bytes | Read_Error string

fun has_header_end :: "bytes \<Rightarrow> bool" where
  "has_header_end (a # b # c # d # s) \<longleftrightarrow> [a, b, c, d] = [13, 10, 13, 10] \<or> has_header_end (b # c # d # s)"
| "has_header_end s \<longleftrightarrow> False"

text \<open>The loop that reads the headers; \<open>None\<close> while it waits.\<close>

fun read_headers :: "read_result list \<Rightarrow> bytes \<Rightarrow> (anyhow + bytes) option" where
  "read_headers [] buffer = None"
| "read_headers (Read_Error e # rs) buffer = Some (Inl (Message e))"
| "read_headers (Read_Bytes bs # rs) buffer =
     (if bs = [] then Some (Inl (Message ''Proxy closed connection before sending complete response''))
      else let buffer = buffer @ bs in
        if has_header_end buffer then Some (Inr buffer) else read_headers rs buffer)"

text \<open>
  Text is a list of code points.  \<open>lossy\<close> is \<^verbatim>\<open>String::from_utf8_lossy\<close>.  The first of the
  \<^verbatim>\<open>lines\<close>: up to the first line feed, less a carriage return before it.
\<close>

type_synonym utext = "nat list"

definition first_line :: "utext \<Rightarrow> utext option" where
  "first_line t =
     (if t = [] then None
      else let l = takeWhile (\<lambda>c. c \<noteq> 10) t in
        Some (if l \<noteq> [] \<and> last l = 13 \<and> 10 \<in> set t then butlast l else l))"

definition is_whitespace :: "nat \<Rightarrow> bool" where
  "is_whitespace c \<longleftrightarrow>
     9 \<le> c \<and> c \<le> 13 \<or> c = 32 \<or> c = 0x85 \<or> c = 0xA0 \<or> c = 0x1680 \<or> 0x2000 \<le> c \<and> c \<le> 0x200A \<or>
     c = 0x2028 \<or> c = 0x2029 \<or> c = 0x202F \<or> c = 0x205F \<or> c = 0x3000"

function split_whitespace :: "utext \<Rightarrow> utext list" where
  "split_whitespace t =
     (let t = dropWhile is_whitespace t in
      if t = [] then []
      else takeWhile (\<lambda>c. \<not> is_whitespace c) t # split_whitespace (dropWhile (\<lambda>c. \<not> is_whitespace c) t))"
  by pat_completeness auto
termination
proof (relation "measure length", goal_cases)
  case (2 t u)
  then have "u \<noteq> []" "\<not> is_whitespace (hd u)" "length u \<le> length t"
    using hd_dropWhile [of is_whitespace t] length_dropWhile_le [of is_whitespace t] by auto
  then have "length (dropWhile (\<lambda>c. \<not> is_whitespace c) u) < length u"
    by (cases u) (auto simp: le_imp_less_Suc length_dropWhile_le)
  with \<open>length u \<le> length t\<close> show ?case by simp
qed simp

declare split_whitespace.simps [simp del]

definition parse_status :: "utext \<Rightarrow> u16 option" where
  "parse_status t = (if list_all (\<lambda>c. c < 128) t then parse_uint (map char_of t) else None)"

text \<open>Only the place of a failure is kept of its message.\<close>

definition proxy_status :: "(bytes \<Rightarrow> utext) \<Rightarrow> bytes \<Rightarrow> anyhow + unit" where
  "proxy_status lossy buffer =
     and_then (ok_or (Message ''Empty response from proxy'') (first_line (lossy buffer))) (\<lambda>status_line.
     let parts = split_whitespace status_line in
     if length parts < 2 then Inl (Message ''Invalid HTTP response from proxy'')
     else
       and_then (ok_or (Message ''Invalid status code in proxy response'') (parse_status (parts ! 1))) (\<lambda>code.
       if code \<noteq> 200 then Inl (Message ''Proxy CONNECT failed'') else Inr ()))"

section \<open>Connecting\<close>

text \<open>
  The outcomes of the operations on the network, and whether a string is a header value.  A success of
  \<^verbatim>\<open>TcpStream::connect\<close>, of the TLS handshake and of the Websocket handshake has no content here.
\<close>

record net_outcomes =
  no_tcp :: "string \<Rightarrow> string option"
  no_write :: "string option"
  no_reads :: "read_result list"
  no_request :: "string option"
  no_header_ok :: "string \<Rightarrow> bool"
  no_tls :: "string option"
  no_ws :: "string option"

definition ok_unless :: "string option \<Rightarrow> anyhow + unit" where
  "ok_unless r = (case r of None \<Rightarrow> Inr () | Some e \<Rightarrow> Inl (Message e))"

definition client_request :: "net_outcomes \<Rightarrow> string \<Rightarrow> anyhow + unit" where
  "client_request net token =
     and_then (ok_unless (no_request net)) (\<lambda>_.
       if no_header_ok net (''Bearer '' @ token) then Inr () else Inl (Message ''failed to parse header value''))"

text \<open>The result and the text that was sent to the proxy; \<open>None\<close> while the proxy does not answer.\<close>

definition connect_through_proxy ::
  "(string \<Rightarrow> string) \<Rightarrow> (bytes \<Rightarrow> utext) \<Rightarrow> net_outcomes \<Rightarrow> url_parts \<Rightarrow> url_parts \<Rightarrow> string \<Rightarrow>
   string \<times> (anyhow + unit) option" where
  "connect_through_proxy base64 lossy net proxy target token =
     (case u_host proxy of
        None \<Rightarrow> ('''', Some (Inl (Message ''Proxy URL must have a host'')))
      | Some proxy_host \<Rightarrow>
     (case no_tcp net (authority proxy_host (default_port ''https'' proxy)) of
        Some e \<Rightarrow> ('''', Some (Inl (Message e)))
      | None \<Rightarrow>
     (case u_host target of
        None \<Rightarrow> ('''', Some (Inl (Message ''Target URL must have a host'')))
      | Some target_host \<Rightarrow>
     let request = join_with CRLF
           (connect_request_parts base64 proxy (authority target_host (default_port ''wss'' target)))
     in case no_write net of
        Some e \<Rightarrow> (request, Some (Inl (Message e)))
      | None \<Rightarrow>
          (request,
           map_option (\<lambda>r.
             and_then r (\<lambda>buffer.
             and_then (proxy_status lossy buffer) (\<lambda>_.
             and_then (client_request net token) (\<lambda>_.
             and_then (if u_scheme target = ''wss'' then ok_unless (no_tls net) else Inr ()) (\<lambda>_.
             ok_unless (no_ws net))))))
             (read_headers (no_reads net) [])))))"

definition connect_to_relayer ::
  "(string \<Rightarrow> string) \<Rightarrow> (bytes \<Rightarrow> utext) \<Rightarrow> net_outcomes \<Rightarrow> url_parts \<Rightarrow> string \<Rightarrow> url_parts option \<Rightarrow>
   string \<times> (anyhow + unit) option" where
  "connect_to_relayer base64 lossy net url token proxy_url =
     (case proxy_url of
        Some proxy \<Rightarrow> connect_through_proxy base64 lossy net proxy url token
      | None \<Rightarrow> ('''', Some (and_then (client_request net token) (\<lambda>_. ok_unless (no_ws net)))))"

section \<open>Secrets stay out of the logs\<close>

lemma redact_url_hides:
  "redact_url (url\<lparr>u_username := name, u_password := password, u_path := path, u_query := query\<rparr>) =
   redact_url url"
  by (simp add: redact_url_def split: option.split)

lemma length_to_ascii_lowercase [simp]: "length (to_ascii_lowercase s) = length s"
  by (simp add: to_ascii_lowercase_def)

lemma continuation_lowercase:
  "i < length s \<Longrightarrow>
   0x80 \<le> to_ascii_lowercase s ! i \<and> to_ascii_lowercase s ! i < 0xC0 \<longleftrightarrow> 0x80 \<le> s ! i \<and> s ! i < 0xC0"
proof -
  have "(0x80 \<le> b + 32 \<and> b + 32 < 0xC0) = (0x80 \<le> b \<and> b < 0xC0)" if "65 \<le> b" "b \<le> 90" for b :: u8
  proof -
    have "unat (b + 32) = unat b + 32" "unat b \<le> 90"
      using that by (simp_all add: word_le_nat_alt unat_plus_if')
    then show ?thesis by (simp add: word_le_nat_alt word_less_nat_alt)
  qed
  then show "i < length s \<Longrightarrow> ?thesis" by (simp add: to_ascii_lowercase_def)
qed

text \<open>The token is shown up to its last four bytes, unless these begin inside a character.\<close>

lemma token_debug_None_iff:
  "token_debug token = None \<longleftrightarrow>
     4 < length token \<and> 0x80 \<le> token ! (length token - 4) \<and> token ! (length token - 4) < 0xC0"
  using continuation_lowercase [of "length token - 4" token]
  by (auto simp: token_debug_def is_char_boundary_def Let_def min_def)

lemma token_debug_short:
  "token_debug token = Some shown \<Longrightarrow> length shown \<le> 9"
  by (auto simp: token_debug_def Let_def split: if_splits)

lemma token_debug_panics: "token_debug [97, 0xC3, 0xA9, 97, 98, 99] = None"
  by (simp add: token_debug_None_iff)

section \<open>Routes\<close>

primrec route :: "agent_request \<Rightarrow> string" where
  "route Req_PublisherV1 = PUBLISHER_WS_URI_V1"
| "route Req_PublisherV2 = PUBLISHER_WS_URI_V2"
| "route Req_JrpcV1 = JRPC_WS_URI_V1"
| "route Req_LegacyV1 = LEGACY_WS_URI_V1"

lemmas uri_defs =
  PUBLISHER_WS_URI_V1_def PUBLISHER_WS_URI_V2_def JRPC_WS_URI_V1_def LEGACY_WS_URI_V1_def
  READINESS_PROBE_PATH_def LIVENESS_PROBE_PATH_def

text \<open>A session is started for one of the four paths, and then only after a complete handshake.\<close>

lemma request_handler_session_iff:
  "snd (request_handler path is_ready upgrade handshake) = Some r \<longleftrightarrow>
     path = route r \<and> upgrade \<and> (\<exists>status. handshake = Inr status)"
  by (cases r; cases handshake) (auto simp: request_handler_def uri_defs)

lemma request_handler_ready_iff:
  "hr_status (fst (request_handler READINESS_PROBE_PATH is_ready upgrade handshake)) = 200 \<longleftrightarrow> is_ready"
  by (simp add: request_handler_def uri_defs)

section \<open>The handshake with the proxy\<close>

text \<open>The request is its header lines and one empty line, each ended by CRLF.\<close>

lemma join_with_snoc_empty: "xs \<noteq> [] \<Longrightarrow> join_with sep (xs @ [[]]) = concat (map (\<lambda>x. x @ sep) xs)"
  by (induction sep xs rule: join_with.induct) simp_all

lemma connect_request_text:
  "join_with CRLF (connect_request_parts base64 proxy target) =
     concat (map (\<lambda>x. x @ CRLF) (butlast (connect_request_parts base64 proxy target)))"
proof -
  have "connect_request_parts base64 proxy target =
      butlast (connect_request_parts base64 proxy target) @ [[]]" (is "?p = ?b @ _")
    "butlast (connect_request_parts base64 proxy target) \<noteq> []"
    by (simp_all add: connect_request_parts_def)
  then show ?thesis using join_with_snoc_empty [of ?b CRLF] by metis
qed

text \<open>The authorization token of the relayer is not sent to the proxy.\<close>

lemma proxy_never_sees_token:
  "fst (connect_through_proxy base64 lossy net proxy target token) =
   fst (connect_through_proxy base64 lossy net proxy target token')"
  by (simp add: connect_through_proxy_def Let_def split: option.split)

lemma has_header_end_iff: "has_header_end s \<longleftrightarrow> (\<exists>a b. s = a @ [13, 10, 13, 10] @ b)"
proof (induction s rule: has_header_end.induct)
  case (1 a b c d s)
  have "(\<exists>x y. a # b # c # d # s = x @ [13, 10, 13, 10] @ y) \<longleftrightarrow>
      [a, b, c, d] = [13, 10, 13, 10] \<or> (\<exists>x y. b # c # d # s = x @ [13, 10, 13, 10] @ y)"
    by (subst Cons_eq_append_conv) auto
  with 1 show ?case by simp
qed (auto dest!: arg_cong [where f = length])

lemma has_header_end_append: "has_header_end a \<Longrightarrow> has_header_end (a @ b)"
  unfolding has_header_end_iff by (metis append.assoc)

lemma read_headers_chunks:
  assumes "\<forall>c\<in>set cs. c \<noteq> []" "has_header_end (buffer @ concat cs)" "cs \<noteq> []"
  obtains b rest where "read_headers (map Read_Bytes cs) buffer = Some (Inr b)" "has_header_end b"
    "buffer @ concat cs = b @ rest"
proof -
  have "\<exists>b rest. read_headers (map Read_Bytes cs) buffer = Some (Inr b) \<and> has_header_end b \<and>
      buffer @ concat cs = b @ rest"
    using assms
  proof (induction cs arbitrary: buffer)
    case (Cons c cs)
    show ?case
    proof (cases "has_header_end (buffer @ c)")
      case False
      then have "cs \<noteq> []" using Cons.prems by auto
      with False Cons.IH [of "buffer @ c"] Cons.prems show ?thesis by simp
    qed (use Cons.prems in auto)
  qed simp
  then show thesis using that by blast
qed

text \<open>What is decoded as text before a line feed does not depend on what follows it.\<close>

definition line_local :: "(bytes \<Rightarrow> utext) \<Rightarrow> bool" where
  "line_local lossy \<longleftrightarrow> (\<forall>a b. lossy (a @ 10 # b) = lossy a @ 10 # lossy b)"

lemma first_line_local: "first_line (t @ 10 # u) = first_line (t @ [10])"
  by (auto simp: first_line_def Let_def takeWhile_append)

lemma proxy_status_prefix:
  assumes "line_local lossy" "has_header_end b"
  shows "proxy_status lossy (b @ rest) = proxy_status lossy b"
proof -
  obtain x y where b: "b = x @ 10 # y"
    using assms(2) unfolding has_header_end_iff by (metis append_Cons append_Nil append.assoc)
  have "first_line (lossy (b @ rest)) = first_line (lossy b)"
    using assms(1) first_line_local [of "lossy x" "lossy y"] first_line_local [of "lossy x" "lossy (y @ rest)"]
    by (simp add: b line_local_def)
  then show ?thesis by (simp add: proxy_status_def)
qed

lemma read_headers_status:
  assumes "line_local lossy" "\<forall>c\<in>set cs. c \<noteq> []" "has_header_end (concat cs)"
  obtains b where "read_headers (map Read_Bytes cs) [] = Some (Inr b)"
    "proxy_status lossy b = proxy_status lossy (concat cs)"
proof -
  have "cs \<noteq> []" using assms(3) by auto
  with read_headers_chunks [of cs "[]"] assms proxy_status_prefix that show thesis
    by (metis append_Nil)
qed

text \<open>
  The proxy's answer is understood however the network cuts it: two deliveries of the same bytes, in
  non-empty reads and with the end of the headers among them, take the connection to the same result, and no
  delivery leaves it waiting.
\<close>

theorem proxy_handshake_chunking:
  assumes "line_local lossy"
    and "\<forall>c\<in>set cs. c \<noteq> []" "\<forall>c\<in>set cs'. c \<noteq> []"
    and "concat cs = concat cs'" "has_header_end (concat cs)"
  shows "\<exists>sent r.
    connect_to_relayer base64 lossy (net\<lparr>no_reads := map Read_Bytes cs\<rparr>) url token proxy_url =
      (sent, Some r) \<and>
    connect_to_relayer base64 lossy (net\<lparr>no_reads := map Read_Bytes cs'\<rparr>) url token proxy_url =
      (sent, Some r)"
proof -
  obtain b b' where
    "read_headers (map Read_Bytes cs) [] = Some (Inr b)"
    "read_headers (map Read_Bytes cs') [] = Some (Inr b')"
    "proxy_status lossy b = proxy_status lossy b'"
    using read_headers_status [OF assms(1,2,5)] read_headers_status [OF assms(1,3)] assms(4,5) by metis
  then show ?thesis
    by (auto simp: connect_to_relayer_def connect_through_proxy_def client_request_def Let_def
        split: option.split)
qed

definition sample_proxy :: url_parts where
  "sample_proxy = \<lparr>u_scheme = ''http'', u_username = ''bob'', u_password = Some ''pw'', u_host = Some ''proxy'',
     u_port = Some 3128, u_path = ''/'', u_query = None\<rparr>"

definition sample_relayer :: url_parts where
  "sample_relayer = \<lparr>u_scheme = ''wss'', u_username = '''', u_password = None, u_host = Some ''relayer'',
     u_port = None, u_path = ''/'', u_query = None\<rparr>"

definition sample_net :: net_outcomes where
  "sample_net = \<lparr>no_tcp = (\<lambda>_. None), no_write = None, no_reads = [], no_request = None,
     no_header_ok = (\<lambda>_. True), no_tls = None, no_ws = None\<rparr>"

text \<open>An answer cut inside its status code and inside the end of its headers, and the same answer in one read.\<close>

theorem proxy_handshake_chunking_witness:
  "line_local (map unat) \<and>
   has_header_end (concat [[72, 32, 50], [48, 48, 13, 10, 13], [10]]) \<and>
   (\<exists>sent r.
     connect_to_relayer id (map unat)
       (sample_net\<lparr>no_reads := map Read_Bytes [[72, 32, 50], [48, 48, 13, 10, 13], [10]]\<rparr>) sample_relayer ''t''
       (Some sample_proxy) = (sent, Some r) \<and>
     connect_to_relayer id (map unat)
       (sample_net\<lparr>no_reads := map Read_Bytes [[72, 32, 50, 48, 48, 13, 10, 13, 10]]\<rparr>) sample_relayer ''t''
       (Some sample_proxy) = (sent, Some r))"
proof -
  have a: "line_local (map unat)" by (simp add: line_local_def)
  have b: "has_header_end (concat [[72, 32, 50], [48, 48, 13, 10, 13], [10]])" by simp
  show ?thesis
    using a b proxy_handshake_chunking [OF a, of "[[72, 32, 50], [48, 48, 13, 10, 13], [10]]"
        "[[72, 32, 50, 48, 48, 13, 10, 13, 10]]" id sample_net sample_relayer "''t''" "Some sample_proxy"]
    by simp
qed

lemma sample_proxy_status: "proxy_status (map unat) [72, 32, 50, 48, 48, 13, 10, 13, 10] = Inr ()"
proof -
  have "split_whitespace [72, 32, 50, 48, 48] = [[72], [50, 48, 48]]"
    by (simp add: split_whitespace.simps is_whitespace_def)
  moreover have "parse_status [50, 48, 48] = Some 200"
    by (simp add: parse_status_def) code_simp
  ultimately show ?thesis
    by (simp add: proxy_status_def first_line_def)
qed

lemma sample_connects:
  "snd (connect_to_relayer id (map unat)
     (sample_net\<lparr>no_reads := map Read_Bytes [[72, 32, 50], [48, 48, 13, 10, 13], [10]]\<rparr>) sample_relayer ''t''
     (Some sample_proxy)) = Some (Inr ())"
  by (simp add: connect_to_relayer_def connect_through_proxy_def sample_net_def sample_proxy_def
      sample_relayer_def client_request_def ok_unless_def sample_proxy_status Let_def)

end
