(* ===== verification/Client_Common.thy ===== *)
theory Client_Common
  imports Lazer_Api Lazer_Message "HOL-Library.Sublist"
begin

text \<open>
  What the streaming clients share (\<^verbatim>\<open>sdk/rust/client/src\<close>): the configuration of the back-off
  (\<^verbatim>\<open>backoff.rs\<close>), the Websocket connection with its outgoing frames, the retry of a failed session,
  the de-duplication of what several connections receive, and what it takes to restore the subscriptions
  of a lost connection.  Durations are nanoseconds.  The \<^verbatim>\<open>backoff\<close> and \<^verbatim>\<open>ttl_cache\<close>
  crates, the socket and JSON are arguments.
\<close>

section \<open>Searching a list\<close>

lemma first_of_Cons:
  "(\<exists>pre e post. x # xs = pre @ e # post \<and> P e \<and> (\<forall>d\<in>set pre. Q d)) \<longleftrightarrow>
     P x \<or> Q x \<and> (\<exists>pre e post. xs = pre @ e # post \<and> P e \<and> (\<forall>d\<in>set pre. Q d))"
proof (intro iffI; elim exE conjE disjE)
  fix pre e post assume "x # xs = pre @ e # post" "P e" "\<forall>d\<in>set pre. Q d"
  then show "P x \<or> Q x \<and> (\<exists>pre e post. xs = pre @ e # post \<and> P e \<and> (\<forall>d\<in>set pre. Q d))"
    by (cases pre) auto
next
  assume "P x"
  then show "\<exists>pre e post. x # xs = pre @ e # post \<and> P e \<and> (\<forall>d\<in>set pre. Q d)"
    by (intro exI [of _ "[]"]) auto
next
  fix pre e post assume "Q x" "xs = pre @ e # post" "P e" "\<forall>d\<in>set pre. Q d"
  then show "\<exists>pre e post. x # xs = pre @ e # post \<and> P e \<and> (\<forall>d\<in>set pre. Q d)"
    by (intro exI [of _ "x # pre"]) auto
qed

section \<open>Durations and back-off\<close>

definition secs :: "nat \<Rightarrow> nat" where "secs n = n * 1000000000"

text \<open>\<^verbatim>\<open>Duration\<close> addition panics (\<open>None\<close>) when the seconds overflow 64 bits.\<close>

definition duration_add :: "nat \<Rightarrow> nat \<Rightarrow> nat option" where
  "duration_add a b = (if a + b < secs (2 ^ 64) then Some (a + b) else None)"

definition CHANNEL_CAPACITY :: nat where "CHANNEL_CAPACITY = 1000"
definition BACKOFF_RESET_DURATION :: nat where "BACKOFF_RESET_DURATION = secs 10"
definition DEDUP_CACHE_SIZE :: nat where "DEDUP_CACHE_SIZE = 100000"
definition DEDUP_TTL :: nat where "DEDUP_TTL = secs 10"
definition DEFAULT_TIMEOUT :: nat where "DEFAULT_TIMEOUT = secs 5"

text \<open>The four parameters of the back-off; the factors are \<^verbatim>\<open>f64\<close> values, given by their bits.\<close>

record backoff_params =
  bp_initial_interval :: nat
  bp_randomization_factor :: u64
  bp_multiplier :: u64
  bp_max_interval :: nat

text \<open>
  The \<^verbatim>\<open>backoff\<close> crate: its default parameters, the construction of a back-off from parameters and a
  limit of the elapsed time, \<^verbatim>\<open>reset\<close> and \<^verbatim>\<open>next_backoff\<close>.
\<close>

record 'b backoff_crate =
  bc_defaults :: backoff_params
  bc_build :: "backoff_params \<Rightarrow> nat option \<Rightarrow> 'b"
  bc_reset :: "'b \<Rightarrow> 'b"
  bc_next :: "'b \<Rightarrow> nat option \<times> 'b"

definition backoff_builder_default :: "'b backoff_crate \<Rightarrow> backoff_params" where
  "backoff_builder_default bc = bc_defaults bc"

definition with_initial_interval :: "nat \<Rightarrow> backoff_params \<Rightarrow> backoff_params" where
  "with_initial_interval d b = b\<lparr>bp_initial_interval := d\<rparr>"

definition with_randomization_factor :: "u64 \<Rightarrow> backoff_params \<Rightarrow> backoff_params" where
  "with_randomization_factor f b = b\<lparr>bp_randomization_factor := f\<rparr>"

definition with_multiplier :: "u64 \<Rightarrow> backoff_params \<Rightarrow> backoff_params" where
  "with_multiplier f b = b\<lparr>bp_multiplier := f\<rparr>"

definition with_max_interval :: "nat \<Rightarrow> backoff_params \<Rightarrow> backoff_params" where
  "with_max_interval d b = b\<lparr>bp_max_interval := d\<rparr>"

definition exponential_backoff :: "'b backoff_crate \<Rightarrow> backoff_params \<Rightarrow> 'b" where
  "exponential_backoff bc p = bc_build bc p None"

text \<open>
  The documented contract of the crate: a back-off built without a limit of the elapsed time always has a
  next delay.  \<open>fresh\<close> is the set of back-offs that come from such a one.
\<close>

definition unlimited_backoff :: "'b backoff_crate \<Rightarrow> ('b \<Rightarrow> bool) \<Rightarrow> bool" where
  "unlimited_backoff bc fresh \<longleftrightarrow>
     (\<forall>p. fresh (bc_build bc p None)) \<and> (\<forall>b. fresh b \<longrightarrow> fresh (bc_reset bc b)) \<and>
     (\<forall>b. fresh b \<longrightarrow> fst (bc_next bc b) \<noteq> None \<and> fresh (snd (bc_next bc b)))"

section \<open>Websocket connections\<close>

datatype ws_frame = Text_Frame string | Binary_Frame bytes | Close_Frame | Other_Frame

text \<open>
  \<open>wc_budget\<close> is how many more frames the socket takes before it fails, chosen when it is opened;
  \<open>wc_sent\<close> records the frames that went out and \<open>wc_url\<close> the URL it was opened with.  \<open>wc_started\<close> is
  whether \<^verbatim>\<open>ws_sender\<close> holds a sender.
\<close>

record 'u ws_conn =
  wc_endpoint :: 'u
  wc_access_token :: string
  wc_started :: bool
  wc_url :: "'u option"
  wc_budget :: nat
  wc_sent :: "ws_frame list"

definition ws_new :: "'u \<Rightarrow> string \<Rightarrow> 'u ws_conn" where
  "ws_new endpoint token =
     \<lparr>wc_endpoint = endpoint, wc_access_token = token, wc_started = False, wc_url = None, wc_budget = 0,
      wc_sent = []\<rparr>"

text \<open>How opening the socket ends: a bad request, a failed connection, or a socket.\<close>

datatype ws_attempt = At_BadRequest string | At_Failed string | At_Open nat

definition sink_send :: "ws_frame \<Rightarrow> ('u, 'z) ws_conn_scheme \<Rightarrow> anyhow + ('u, 'z) ws_conn_scheme" where
  "sink_send f c =
     (case wc_budget c of
        0 \<Rightarrow> Inl (Message ''socket error'')
      | Suc n \<Rightarrow> Inr (c\<lparr>wc_budget := n, wc_sent := wc_sent c @ [f]\<rparr>))"

definition ws_send_text :: "string \<Rightarrow> anyhow + string \<Rightarrow> ('u, 'z) ws_conn_scheme \<Rightarrow> anyhow + ('u, 'z) ws_conn_scheme" where
  "ws_send_text not_started text c =
     (if wc_started c then and_then text (\<lambda>msg. sink_send (Text_Frame msg) c)
      else Inl (Message not_started))"

fun send_all :: "('r \<Rightarrow> ('u, 'z) ws_conn_scheme \<Rightarrow> anyhow + ('u, 'z) ws_conn_scheme) \<Rightarrow> 'r list \<Rightarrow> ('u, 'z) ws_conn_scheme \<Rightarrow> anyhow + ('u, 'z) ws_conn_scheme" where
  "send_all send [] c = Inr c"
| "send_all send (r # rs) c = and_then (send r c) (send_all send rs)"

lemma sink_send_Inr:
  "sink_send f c = Inr c' \<Longrightarrow> wc_sent c' = wc_sent c @ [f] \<and> wc_started c' = wc_started c"
  by (auto simp: sink_send_def split: nat.splits)

lemma ws_send_text_Inr:
  assumes "ws_send_text msg text c = Inr c'"
  obtains t where "text = Inr t" "wc_sent c' = wc_sent c @ [Text_Frame t]" "wc_started c'"
  using assms by (auto simp: ws_send_text_def dest: sink_send_Inr split: if_splits)

text \<open>
  The frames that carry requests in an encoding \<open>enc\<close>, and what a server that reads frames with
  \<open>read\<close> sees on a connection.
\<close>

definition encodes :: "('r \<Rightarrow> anyhow + string) \<Rightarrow> 'r list \<Rightarrow> ws_frame list \<Rightarrow> bool" where
  "encodes enc = list_all2 (\<lambda>r f. \<exists>t. enc r = Inr t \<and> f = Text_Frame t)"

fun frame_request :: "(string \<Rightarrow> 'q option) \<Rightarrow> ws_frame \<Rightarrow> 'q option" where
  "frame_request read (Text_Frame t) = read t"
| "frame_request read _ = None"

definition sent_requests :: "(string \<Rightarrow> 'q option) \<Rightarrow> ('u, 'z) ws_conn_scheme \<Rightarrow> 'q list" where
  "sent_requests read c = List.map_filter (frame_request read) (wc_sent c)"

definition json_contract :: "('r \<Rightarrow> anyhow + string) \<Rightarrow> (string \<Rightarrow> 'r option) \<Rightarrow> bool" where
  "json_contract enc read \<longleftrightarrow> (\<forall>r t. enc r = Inr t \<longrightarrow> read t = Some r)"

lemma encodes_append: "encodes enc rs fs \<Longrightarrow> encodes enc rs' fs' \<Longrightarrow> encodes enc (rs @ rs') (fs @ fs')"
  by (simp add: encodes_def list_all2_appendI)

lemma encodes_single: "enc r = Inr t \<Longrightarrow> encodes enc [r] [Text_Frame t]"
  by (simp add: encodes_def)

lemma encodes_read:
  assumes "json_contract enc read"
  shows "encodes enc rs (wc_sent c) \<Longrightarrow> sent_requests read c = rs"
proof -
  have "list_all2 (\<lambda>r f. \<exists>t. enc r = Inr t \<and> f = Text_Frame t) rs fs \<Longrightarrow>
      List.map_filter (frame_request read) fs = rs" for fs
  proof (induction rs fs rule: list_all2_induct)
    case (Cons r rs f fs)
    with assms show ?case by (auto simp: json_contract_def map_filter_def)
  qed (simp add: map_filter_def)
  then show "encodes enc rs (wc_sent c) \<Longrightarrow> sent_requests read c = rs"
    unfolding encodes_def sent_requests_def by blast
qed

lemma send_all_encodes:
  assumes "\<forall>r c c'. send r c = Inr c' \<longrightarrow> (\<exists>t. enc r = Inr t \<and> wc_sent c' = wc_sent c @ [Text_Frame t])"
  shows "send_all send rs c = Inr c' \<Longrightarrow> \<exists>fs. wc_sent c' = wc_sent c @ fs \<and> encodes enc rs fs"
proof (induction rs arbitrary: c)
  case (Cons r rs)
  then obtain c1 where c1: "send r c = Inr c1" "send_all send rs c1 = Inr c'" by auto
  from Cons.IH [OF c1(2)] obtain fs where fs: "wc_sent c' = wc_sent c1 @ fs" "encodes enc rs fs" by blast
  from assms c1(1) obtain t where "enc r = Inr t" "wc_sent c1 = wc_sent c @ [Text_Frame t]" by blast
  with fs show ?case by (intro exI [of _ "Text_Frame t # fs"]) (auto simp: encodes_def)
qed (simp add: encodes_def)

section \<open>Retrying\<close>

text \<open>
  Where a connection task is: before a connection attempt, in a session, waiting for the next attempt, or
  ended with the result of \<^verbatim>\<open>run\<close> or by a panic.
\<close>

datatype 'conn task_phase =
    Ph_Top
  | Ph_Live 'conn
  | Ph_Sleeping nat
  | Ph_Finished "anyhow + unit"
  | Ph_Panicked

text \<open>
  The events of a task: a turn of the loop of \<^verbatim>\<open>run\<close> with a connection attempt, the arms of \<^verbatim>\<open>select!\<close>
  in a session (the consumer is gone, an item of the stream, its end, a timeout, a request), the end of a
  delay, and the consumer closing its channel.
\<close>

datatype 'q client_event =
    Ev_Connect ws_attempt
  | Ev_SeeClosed
  | Ev_StreamError string
  | Ev_Frame ws_frame
  | Ev_StreamEnd
  | Ev_Timeout
  | Ev_Request 'q
  | Ev_Wake
  | Ev_ConsumerGone

text \<open>
  The handling of a failed session: the back-off is reset after a session that lasted more than ten seconds
  and more than the timeout and one second, then the next delay is taken.  The elapsed time is read twice.
\<close>

definition backoff_after :: "'b backoff_crate \<Rightarrow> nat \<Rightarrow> nat \<times> nat \<Rightarrow> 'b \<Rightarrow> 'b option" where
  "backoff_after bc timeout elapsed b =
     (if BACKOFF_RESET_DURATION < fst elapsed then
        map_option (\<lambda>limit. if limit < snd elapsed then bc_reset bc b else b) (duration_add timeout (secs 1))
      else Some b)"

definition retry_phase :: "'b backoff_crate \<Rightarrow> string \<Rightarrow> nat \<Rightarrow> nat \<times> nat \<Rightarrow> 'b \<Rightarrow> 'conn task_phase \<times> 'b" where
  "retry_phase bc exhausted timeout elapsed b =
     (case backoff_after bc timeout elapsed b of
        None \<Rightarrow> (Ph_Panicked, b)
      | Some b \<Rightarrow>
          (case bc_next bc b of
             (Some d, b) \<Rightarrow> (Ph_Sleeping d, b)
           | (None, b) \<Rightarrow> (Ph_Finished (Inl (Message exhausted)), b)))"

lemma retry_phase_sleeps:
  assumes "unlimited_backoff bc fresh" and "fresh b" and "timeout + secs 1 < secs (2 ^ 64)"
  obtains d b' where "retry_phase bc msg timeout elapsed b = (Ph_Sleeping d, b')" "fresh b'"
proof -
  have "duration_add timeout (secs 1) = Some (timeout + secs 1)" using assms(3) by (simp add: duration_add_def)
  then have "backoff_after bc timeout elapsed b \<in> {Some b, Some (bc_reset bc b)}"
    by (simp add: backoff_after_def)
  then obtain b1 where b1: "backoff_after bc timeout elapsed b = Some b1" "b1 = b \<or> b1 = bc_reset bc b" by auto
  with assms(1,2) have "fresh b1" unfolding unlimited_backoff_def by blast
  obtain r b2 where r: "bc_next bc b1 = (r, b2)" by (cases "bc_next bc b1")
  with assms(1) \<open>fresh b1\<close> obtain d where "r = Some d" "fresh b2"
    unfolding unlimited_backoff_def by (metis fst_conv snd_conv option.exhaust)
  with b1(1) r that show ?thesis by (simp add: retry_phase_def)
qed

section \<open>Restoring subscriptions\<close>

text \<open>
  A connection task keeps a list of subscriptions, changed by every request (\<open>track\<close>), and after a reconnect
  sends each of them again (\<open>wire\<close>).  The server keeps a table that requests change (\<open>srv\<close>).  The law of
  one request, for requests that the caller may send (\<open>ok\<close>), is enough for whole histories.
\<close>

fun disciplined :: "('r \<Rightarrow> 's list \<Rightarrow> bool) \<Rightarrow> ('r \<Rightarrow> 's list \<Rightarrow> 's list) \<Rightarrow> 'r list \<Rightarrow> 's list \<Rightarrow> bool" where
  "disciplined ok track [] subs \<longleftrightarrow> True"
| "disciplined ok track (r # rs) subs \<longleftrightarrow> ok r subs \<and> disciplined ok track rs (track r subs)"

lemma disciplined_append:
  "disciplined ok track (xs @ ys) subs \<longleftrightarrow>
     disciplined ok track xs subs \<and> disciplined ok track ys (fold track xs subs)"
  by (induction xs arbitrary: subs) auto

locale resubscription =
  fixes srv :: "'r \<Rightarrow> 't \<Rightarrow> 't" and t0 :: 't
    and track :: "'r \<Rightarrow> 's list \<Rightarrow> 's list" and wire :: "'s \<Rightarrow> 'r"
    and ok :: "'r \<Rightarrow> 's list \<Rightarrow> bool" and inv :: "'s list \<Rightarrow> bool"
  assumes inv_Nil: "inv []"
    and inv_track: "inv subs \<Longrightarrow> ok r subs \<Longrightarrow> inv (track r subs)"
    and replay_track: "inv subs \<Longrightarrow> ok r subs \<Longrightarrow>
      fold srv (map wire (track r subs)) t0 = srv r (fold srv (map wire subs) t0)"
begin

lemma inv_fold: "inv subs \<Longrightarrow> disciplined ok track rs subs \<Longrightarrow> inv (fold track rs subs)"
  by (induction rs arbitrary: subs) (auto simp: inv_track)

lemma replay_fold:
  assumes "inv subs" and "disciplined ok track rs subs"
  shows "fold srv (map wire (fold track rs subs)) t0 = fold srv rs (fold srv (map wire subs) t0)"
  using assms by (induction rs arbitrary: subs) (auto simp: inv_track replay_track)

lemma reconnected_table:
  assumes "disciplined ok track (before @ since) []"
  shows "fold srv (map wire (fold track before []) @ since) t0 = fold srv (before @ since) t0"
  using assms replay_fold [OF inv_Nil, of before] by (simp add: disciplined_append)

end

text \<open>
  What the step of a connection task may do to its subscriptions, to the record of the requests it took
  and to the frames of its live connection: a step takes no request and keeps, drops or opens a connection,
  where an opened one starts with all subscriptions; or it takes a request, and the connection is lost or
  carries that request.  In every state, the frames are then the subscriptions as they were at some
  earlier point, followed by the requests taken since.
\<close>

fun live_frames :: "('u, 'z) ws_conn_scheme task_phase \<Rightarrow> ws_frame list option" where
  "live_frames (Ph_Live c) = Some (wc_sent c)"
| "live_frames _ = None"

lemma retry_phase_frames: "retry_phase bc msg timeout elapsed b = (phase, b') \<Longrightarrow> live_frames phase = None"
  by (auto simp: retry_phase_def split: option.splits prod.splits)

definition resub_ok ::
  "('r \<Rightarrow> anyhow + string) \<Rightarrow> ('r \<Rightarrow> 's list \<Rightarrow> 's list) \<Rightarrow> ('s \<Rightarrow> 'r) \<Rightarrow>
   's list \<Rightarrow> 'r list \<Rightarrow> ws_frame list option \<Rightarrow> bool" where
  "resub_ok enc track wire subs received frames \<longleftrightarrow>
     subs = fold track received [] \<and>
     (\<forall>fs. frames = Some fs \<longrightarrow>
        (\<exists>before since. received = before @ since \<and> encodes enc (map wire (fold track before []) @ since) fs))"

locale resubscribing_task =
  fixes step :: "'x \<Rightarrow> 'x \<Rightarrow> bool"
    and subs :: "'x \<Rightarrow> 's list" and received :: "'x \<Rightarrow> 'r list" and frames :: "'x \<Rightarrow> ws_frame list option"
    and track :: "'r \<Rightarrow> 's list \<Rightarrow> 's list" and wire :: "'s \<Rightarrow> 'r" and enc :: "'r \<Rightarrow> anyhow + string"
  assumes step_law: "step s s' \<Longrightarrow>
      subs s' = subs s \<and> received s' = received s \<and>
        (frames s' = None \<or> frames s' = frames s \<or> (\<exists>fs. frames s' = Some fs \<and> encodes enc (map wire (subs s)) fs)) \<or>
      (\<exists>q. subs s' = track q (subs s) \<and> received s' = received s @ [q] \<and>
        (frames s' = None \<or> (\<exists>fs t. frames s = Some fs \<and> enc q = Inr t \<and> frames s' = Some (fs @ [Text_Frame t]))))"
begin

abbreviation ok :: "'x \<Rightarrow> bool" where
  "ok s \<equiv> resub_ok enc track wire (subs s) (received s) (frames s)"

lemma ok_step:
  assumes "ok s" and "step s s'"
  shows "ok s'"
  using step_law [OF assms(2)]
proof (elim disjE exE conjE)
  fix fs assume "subs s' = subs s" "received s' = received s" "frames s' = Some fs" "encodes enc (map wire (subs s)) fs"
  with assms(1) show ?thesis unfolding resub_ok_def by (metis append_Nil2 option.inject)
next
  fix q fs t
  assume q: "subs s' = track q (subs s)" "received s' = received s @ [q]"
    and f: "frames s = Some fs" "enc q = Inr t" "frames s' = Some (fs @ [Text_Frame t])"
  from assms(1) f(1) obtain before since where "received s = before @ since"
    "encodes enc (map wire (fold track before []) @ since) fs" unfolding resub_ok_def by blast
  with encodes_append [OF this(2) encodes_single [of enc q t, OF f(2)]] q(2)
  have "\<exists>before since. received s' = before @ since \<and>
      encodes enc (map wire (fold track before []) @ since) (fs @ [Text_Frame t])"
    by (intro exI [of _ before] exI [of _ "since @ [q]"]) simp
  moreover have "subs s' = fold track (received s') []" using assms(1) q by (simp add: resub_ok_def)
  ultimately show ?thesis by (simp add: resub_ok_def f(3))
qed (use assms(1) in \<open>auto simp: resub_ok_def\<close>)

end

section \<open>De-duplication\<close>

text \<open>
  The expiring cache: \<open>tc_new\<close> with a capacity, \<open>tc_contains now key\<close> and \<open>tc_insert key ttl now\<close>.
  Its documented behaviour: an entry is found only until its time to live has passed, and it is found until
  then unless as many later insertions as the capacity allows have displaced it.
\<close>

record 'c ttl_cache =
  tc_new :: "nat \<Rightarrow> 'c"
  tc_contains :: "nat \<Rightarrow> u64 \<Rightarrow> 'c \<Rightarrow> bool"
  tc_insert :: "u64 \<Rightarrow> nat \<Rightarrow> nat \<Rightarrow> 'c \<Rightarrow> 'c"

definition tc_after :: "'c ttl_cache \<Rightarrow> nat \<Rightarrow> nat \<Rightarrow> (u64 \<times> nat) list \<Rightarrow> 'c" where
  "tc_after tc cap ttl hist = fold (\<lambda>(k, t). tc_insert tc k ttl t) hist (tc_new tc cap)"

definition ttl_contract :: "'c ttl_cache \<Rightarrow> bool" where
  "ttl_contract tc \<longleftrightarrow>
     (\<forall>cap ttl hist t k. tc_contains tc t k (tc_after tc cap ttl hist) \<longrightarrow>
        (\<exists>t0. (k, t0) \<in> set hist \<and> t \<le> t0 + ttl)) \<and>
     (\<forall>cap ttl h1 t0 h2 t k. length h2 < cap \<longrightarrow> t < t0 + ttl \<longrightarrow>
        tc_contains tc t k (tc_after tc cap ttl (h1 @ (k, t0) # h2)))"

text \<open>
  A message that reaches the forwarding task: when the cache is consulted and when the key is stored, and how
  the channel to the consumer takes it.
\<close>

datatype send_outcome = Sent | Delayed | Closed_While_Full | Closed

record 'm forward_event =
  fe_checked :: nat
  fe_stored :: nat
  fe_message :: 'm
  fe_outcome :: send_outcome

definition delivers :: "'m forward_event \<Rightarrow> bool" where
  "delivers e \<longleftrightarrow> fe_outcome e = Sent \<or> fe_outcome e = Delayed"

end
