(* ===== verification/Client_Stream.thy ===== *)
theory Client_Stream
  imports Client_Common
begin

text \<open>
  The streaming client (\<^verbatim>\<open>sdk/rust/client/src/stream_client.rs\<close>, \<^verbatim>\<open>ws_connection.rs\<close>,
  \<^verbatim>\<open>resilient_ws_connection.rs\<close>) with the messages of \<^verbatim>\<open>sdk/rust/protocol/src/api.rs\<close> it
  exchanges: several connection tasks, each of which reconnects and subscribes again, and one task that
  forwards what they receive without repetitions.  A connection task is a state with one step per event.
\<close>

section \<open>Messages (api.rs)\<close>

type_synonym subscription_id = u64

record subscribe_request =
  sr_subscription_id :: subscription_id
  sr_params :: subscription_params

record unsubscribe_request =
  ur_subscription_id :: subscription_id

datatype ws_request = Ws_Subscribe subscribe_request | Ws_Unsubscribe unsubscribe_request

record invalid_feed_subscription_details =
  unknown_ids :: "u32 list"
  unknown_symbols :: "string list"
  unsupported_channels :: "u32 list"
  unstable_ids :: "u32 list"
  not_entitled :: "u32 list"

datatype 'json ws_response =
    WR_Error string
  | WR_Subscribed subscription_id
  | WR_SubscribedWithInvalidFeedIdsIgnored subscription_id "u32 list" invalid_feed_subscription_details
  | WR_Unsubscribed subscription_id
  | WR_SubscriptionError subscription_id string
  | WR_StreamUpdated subscription_id 'json

datatype 'json any_response = Any_Json "'json ws_response" | Any_Binary "'json binary_ws_update"

section \<open>One connection (ws_connection.rs)\<close>

text \<open>JSON and header values are third-party code.\<close>

record 'json ws_codec =
  request_to_json :: "ws_request \<Rightarrow> anyhow + string"
  response_from_json :: "string \<Rightarrow> anyhow + 'json ws_response"
  update_from_json :: "bytes \<Rightarrow> anyhow + 'json"
  header_value_ok :: "string \<Rightarrow> bool"

text \<open>\<open>None\<close> is the panic of \<^verbatim>\<open>unwrap\<close> on a token that is no header value.\<close>

definition ws_start :: "'json ws_codec \<Rightarrow> ws_attempt \<Rightarrow> 'u ws_conn \<Rightarrow> (anyhow + 'u ws_conn) option" where
  "ws_start cd attempt c =
     (case attempt of
        At_BadRequest e \<Rightarrow> Some (Inl (Message e))
      | At_Failed e \<Rightarrow>
          if header_value_ok cd (''Bearer '' @ wc_access_token c) then Some (Inl (Message e)) else None
      | At_Open n \<Rightarrow>
          if header_value_ok cd (''Bearer '' @ wc_access_token c)
          then Some (Inr (c\<lparr>wc_started := True, wc_url := Some (wc_endpoint c), wc_budget := n\<rparr>)) else None)"

text \<open>The closure of \<^verbatim>\<open>try_filter_map\<close>: a frame is a response, an error, or skipped.\<close>

fun ws_response_of_frame :: "'json ws_codec \<Rightarrow> ws_frame \<Rightarrow> anyhow + 'json any_response option" where
  "ws_response_of_frame cd (Text_Frame text) = map_ok (\<lambda>r. Some (Any_Json r)) (response_from_json cd text)"
| "ws_response_of_frame cd (Binary_Frame data) =
     map_ok (\<lambda>u. Some (Any_Binary u)) (bwu_deserialize_slice (update_from_json cd) data)"
| "ws_response_of_frame cd Close_Frame = Inr (Some (Any_Json (WR_Error ''WebSocket connection closed'')))"
| "ws_response_of_frame cd Other_Frame = Inr None"

definition ws_send_request :: "'json ws_codec \<Rightarrow> ws_request \<Rightarrow> 'u ws_conn \<Rightarrow> anyhow + 'u ws_conn" where
  "ws_send_request cd r = ws_send_text ''WebSocket connection not started'' (request_to_json cd r)"

definition ws_subscribe :: "'json ws_codec \<Rightarrow> subscribe_request \<Rightarrow> 'u ws_conn \<Rightarrow> anyhow + 'u ws_conn" where
  "ws_subscribe cd r = ws_send_request cd (Ws_Subscribe r)"

definition ws_unsubscribe :: "'json ws_codec \<Rightarrow> unsubscribe_request \<Rightarrow> 'u ws_conn \<Rightarrow> anyhow + 'u ws_conn" where
  "ws_unsubscribe cd r = ws_send_request cd (Ws_Unsubscribe r)"

definition ws_close :: "'u ws_conn \<Rightarrow> anyhow + 'u ws_conn" where
  "ws_close c =
     (if wc_started c then map_ok (\<lambda>c. c\<lparr>wc_started := False\<rparr>) (sink_send Close_Frame c)
      else Inl (Message ''WebSocket connection not started''))"

section \<open>The connection task (resilient_ws_connection.rs)\<close>

text \<open>
  Next to the fields of the task: where it is, whether the consumer still listens, the responses it sent
  down the channel and the requests it took from its own channel.
\<close>

record ('u, 'b, 'json) ws_task =
  wt_endpoint :: 'u
  wt_access_token :: string
  wt_subscriptions :: "subscribe_request list"
  wt_backoff :: 'b
  wt_timeout :: nat
  wt_phase :: "'u ws_conn task_phase"
  wt_consumer :: bool
  wt_delivered :: "'json any_response list"
  wt_received :: "ws_request list"

definition ws_task_new :: "'u \<Rightarrow> string \<Rightarrow> 'b \<Rightarrow> nat \<Rightarrow> ('u, 'b, 'json) ws_task" where
  "ws_task_new endpoint token backoff timeout =
     \<lparr>wt_endpoint = endpoint, wt_access_token = token, wt_subscriptions = [], wt_backoff = backoff,
      wt_timeout = timeout, wt_phase = Ph_Top, wt_consumer = True, wt_delivered = [], wt_received = []\<rparr>"

text \<open>The bookkeeping of \<^verbatim>\<open>subscribe\<close> and \<^verbatim>\<open>unsubscribe\<close>, then the request goes out.\<close>

fun remove_first :: "('a \<Rightarrow> bool) \<Rightarrow> 'a list \<Rightarrow> 'a list" where
  "remove_first P [] = []"
| "remove_first P (x # xs) = (if P x then xs else x # remove_first P xs)"

fun ws_track :: "ws_request \<Rightarrow> subscribe_request list \<Rightarrow> subscribe_request list" where
  "ws_track (Ws_Subscribe r) subs = subs @ [r]"
| "ws_track (Ws_Unsubscribe r) subs =
     remove_first (\<lambda>s. sr_subscription_id s = ur_subscription_id r) subs"

fun ws_handle_request ::
  "'json ws_codec \<Rightarrow> ws_request \<Rightarrow> 'u ws_conn \<Rightarrow> subscribe_request list \<Rightarrow>
   subscribe_request list \<times> (anyhow + 'u ws_conn)" where
  "ws_handle_request cd (Ws_Subscribe r) c subs = (ws_track (Ws_Subscribe r) subs, ws_subscribe cd r c)"
| "ws_handle_request cd (Ws_Unsubscribe r) c subs = (ws_track (Ws_Unsubscribe r) subs, ws_unsubscribe cd r c)"

text \<open>
  \<^verbatim>\<open>run\<close> after a session that failed; the consumer may have gone in the meantime.
\<close>

definition ws_session_failed ::
  "'b backoff_crate \<Rightarrow> nat \<times> nat \<Rightarrow> ('u, 'b, 'json) ws_task \<Rightarrow> ('u, 'b, 'json) ws_task" where
  "ws_session_failed bc elapsed s =
     (if \<not> wt_consumer s then s\<lparr>wt_phase := Ph_Finished (Inr ())\<rparr>
      else let (phase, b) = retry_phase bc
                 ''Max retries reached for WebSocket connection'' (wt_timeout s) elapsed (wt_backoff s)
           in s\<lparr>wt_phase := phase, wt_backoff := b\<rparr>)"

definition ws_connect ::
  "'json ws_codec \<Rightarrow> 'b backoff_crate \<Rightarrow> nat \<times> nat \<Rightarrow> ws_attempt \<Rightarrow> ('u, 'b, 'json) ws_task \<Rightarrow>
   ('u, 'b, 'json) ws_task" where
  "ws_connect cd bc elapsed attempt s =
     (if \<not> wt_consumer s then s\<lparr>wt_phase := Ph_Finished (Inr ())\<rparr>
      else case ws_start cd attempt (ws_new (wt_endpoint s) (wt_access_token s)) of
        None \<Rightarrow> s\<lparr>wt_phase := Ph_Panicked\<rparr>
      | Some r \<Rightarrow>
          (case and_then r (send_all (ws_send_request cd) (map Ws_Subscribe (wt_subscriptions s))) of
             Inl e \<Rightarrow> ws_session_failed bc elapsed s
           | Inr c \<Rightarrow> s\<lparr>wt_phase := Ph_Live c\<rparr>))"

fun ws_session_step ::
  "'json ws_codec \<Rightarrow> 'b backoff_crate \<Rightarrow> nat \<times> nat \<Rightarrow> ws_request client_event \<Rightarrow> 'u ws_conn \<Rightarrow>
   ('u, 'b, 'json) ws_task \<Rightarrow> ('u, 'b, 'json) ws_task option" where
  "ws_session_step cd bc elapsed Ev_SeeClosed c s =
     (if wt_consumer s then None else Some (s\<lparr>wt_phase := Ph_Top\<rparr>))"
| "ws_session_step cd bc elapsed (Ev_StreamError e) c s = Some (ws_session_failed bc elapsed s)"
| "ws_session_step cd bc elapsed (Ev_Frame f) c s =
     (case ws_response_of_frame cd f of
        Inl e \<Rightarrow> Some (ws_session_failed bc elapsed s)
      | Inr None \<Rightarrow> Some s
      | Inr (Some r) \<Rightarrow>
          if wt_consumer s then Some (s\<lparr>wt_delivered := wt_delivered s @ [r]\<rparr>)
          else Some (ws_session_failed bc elapsed s))"
| "ws_session_step cd bc elapsed Ev_StreamEnd c s = Some (ws_session_failed bc elapsed s)"
| "ws_session_step cd bc elapsed Ev_Timeout c s = Some (ws_session_failed bc elapsed s)"
| "ws_session_step cd bc elapsed (Ev_Request q) c s =
     (let (subs, r) = ws_handle_request cd q c (wt_subscriptions s);
          s = s\<lparr>wt_subscriptions := subs, wt_received := wt_received s @ [q]\<rparr>
      in case r of
           Inl e \<Rightarrow> Some (ws_session_failed bc elapsed s)
         | Inr c \<Rightarrow> Some (s\<lparr>wt_phase := Ph_Live c\<rparr>))"
| "ws_session_step cd bc elapsed _ c s = None"

definition ws_task_step ::
  "'json ws_codec \<Rightarrow> 'b backoff_crate \<Rightarrow> nat \<times> nat \<Rightarrow> ws_request client_event \<Rightarrow>
   ('u, 'b, 'json) ws_task \<Rightarrow> ('u, 'b, 'json) ws_task option" where
  "ws_task_step cd bc elapsed ev s =
     (case (wt_phase s, ev) of
        (_, Ev_ConsumerGone) \<Rightarrow> Some (s\<lparr>wt_consumer := False\<rparr>)
      | (Ph_Top, Ev_Connect attempt) \<Rightarrow> Some (ws_connect cd bc elapsed attempt s)
      | (Ph_Live c, ev) \<Rightarrow> ws_session_step cd bc elapsed ev c s
      | (Ph_Sleeping d, Ev_Wake) \<Rightarrow> Some (s\<lparr>wt_phase := Ph_Top\<rparr>)
      | (Ph_Sleeping d, Ev_SeeClosed) \<Rightarrow>
          if wt_consumer s then None else Some (s\<lparr>wt_phase := Ph_Finished (Inr ())\<rparr>)
      | _ \<Rightarrow> None)"

inductive ws_task_run ::
  "'json ws_codec \<Rightarrow> 'b backoff_crate \<Rightarrow> ('u, 'b, 'json) ws_task \<Rightarrow> ('u, 'b, 'json) ws_task \<Rightarrow> bool"
  for cd :: "'json ws_codec" and bc :: "'b backoff_crate" and s0 :: "('u, 'b, 'json) ws_task" where
  ws_run_start: "ws_task_run cd bc s0 s0"
| ws_run_step: "ws_task_run cd bc s0 s \<Longrightarrow> ws_task_step cd bc elapsed ev s = Some s' \<Longrightarrow> ws_task_run cd bc s0 s'"

section \<open>The client (stream_client.rs)\<close>

definition STREAM_DEFAULT_ENDPOINTS :: "string list" where
  "STREAM_DEFAULT_ENDPOINTS =
     [''wss://pyth-lazer-0.dourolabs.app/v1/stream'', ''wss://pyth-lazer-1.dourolabs.app/v1/stream'']"

definition STREAM_DEFAULT_NUM_CONNECTIONS :: nat where "STREAM_DEFAULT_NUM_CONNECTIONS = 4"

text \<open>
  The handle of a connection (\<^verbatim>\<open>PythLazerResilientWSConnection\<close>): the endpoint its task was started
  with, whether the task still takes requests, and the requests it was sent.  Memory for the list of
  connections is taken to be available.
\<close>

record ('u, 'q) conn_handle =
  ch_endpoint :: 'u
  ch_open :: bool
  ch_queue :: "'q list"

definition conn_handle_new :: "'u \<Rightarrow> ('u, 'q) conn_handle" where
  "conn_handle_new endpoint = \<lparr>ch_endpoint = endpoint, ch_open = True, ch_queue = []\<rparr>"

definition handle_send :: "string \<Rightarrow> 'q \<Rightarrow> ('u, 'q) conn_handle \<Rightarrow> anyhow + ('u, 'q) conn_handle" where
  "handle_send msg q h = (if ch_open h then Inr (h\<lparr>ch_queue := ch_queue h @ [q]\<rparr>) else Inl (Message msg))"

record ('u, 'b) stream_client =
  sc_endpoints :: "'u list"
  sc_access_token :: string
  sc_num_connections :: nat
  sc_ws_connections :: "('u, ws_request) conn_handle list"
  sc_backoff :: 'b
  sc_timeout :: nat
  sc_channel_capacity :: nat

definition stream_client_new ::
  "'b backoff_crate \<Rightarrow> 'u list \<Rightarrow> string \<Rightarrow> nat \<Rightarrow> backoff_params \<Rightarrow> nat \<Rightarrow> nat \<Rightarrow>
   anyhow + ('u, 'b) stream_client" where
  "stream_client_new bc endpoints token num backoff timeout capacity =
     (if endpoints = [] then Inl (Message ''At least one endpoint must be provided'')
      else Inr \<lparr>sc_endpoints = endpoints, sc_access_token = token, sc_num_connections = num,
                sc_ws_connections = [], sc_backoff = exponential_backoff bc backoff,
                sc_timeout = timeout, sc_channel_capacity = capacity\<rparr>)"

text \<open>
  \<^verbatim>\<open>start\<close>: the tasks and their handles; \<open>None\<close> is a panic, of an empty endpoint list or of a channel
  of capacity zero (the documented panic of \<^verbatim>\<open>mpsc::channel\<close>).
\<close>

fun start_connections :: "'u list \<Rightarrow> nat list \<Rightarrow> 'u list option" where
  "start_connections endpoints [] = Some []"
| "start_connections endpoints (i # is) =
     (if endpoints = [] then None
      else map_option (Cons (endpoints ! (i mod length endpoints))) (start_connections endpoints is))"

definition stream_client_start ::
  "('u, 'b) stream_client \<Rightarrow> (('u, 'b) stream_client \<times> ('u, 'b, 'json) ws_task list) option" where
  "stream_client_start sc =
     (if sc_channel_capacity sc = 0 then None
      else map_option (\<lambda>us.
        (sc\<lparr>sc_ws_connections := sc_ws_connections sc @ map conn_handle_new us\<rparr>,
         map (\<lambda>u. ws_task_new u (sc_access_token sc) (sc_backoff sc) (sc_timeout sc)) us))
        (start_connections (sc_endpoints sc) [0..<sc_num_connections sc]))"

text \<open>
  The forwarding task of \<^verbatim>\<open>start\<close>; the result is the messages the consumer gets, in order.  The list of
  events ends where the consumer closes its channel or all connection tasks have ended.
\<close>

fun stream_forward ::
  "'c ttl_cache \<Rightarrow> ('m \<Rightarrow> u64) \<Rightarrow> 'm forward_event list \<Rightarrow> 'c \<Rightarrow> 'm forward_event list" where
  "stream_forward tc cache_key [] seen = []"
| "stream_forward tc cache_key (e # es) seen =
     (let k = cache_key (fe_message e) in
      if tc_contains tc (fe_checked e) k seen then stream_forward tc cache_key es seen
      else let seen = tc_insert tc k DEDUP_TTL (fe_stored e) seen in
        (case fe_outcome e of
           Sent \<Rightarrow> e # stream_forward tc cache_key es seen
         | Delayed \<Rightarrow> e # stream_forward tc cache_key es seen
         | Closed_While_Full \<Rightarrow> []
         | Closed \<Rightarrow> []))"

text \<open>Requests go to every connection in turn, up to the first one whose task has ended.\<close>

fun send_to_connections ::
  "string \<Rightarrow> 'q \<Rightarrow> ('u, 'q) conn_handle list \<Rightarrow> ('u, 'q) conn_handle list \<times> (anyhow + unit)" where
  "send_to_connections msg q [] = ([], Inr ())"
| "send_to_connections msg q (h # hs) =
     (case handle_send msg q h of
        Inl e \<Rightarrow> (h # hs, Inl e)
      | Inr h \<Rightarrow> (let (hs, r) = send_to_connections msg q hs in (h # hs, r)))"

definition stream_client_subscribe ::
  "subscribe_request \<Rightarrow> ('u, 'b) stream_client \<Rightarrow> ('u, 'b) stream_client \<times> (anyhow + unit)" where
  "stream_client_subscribe r sc =
     (let (hs, res) = send_to_connections ''Failed to send subscribe request'' (Ws_Subscribe r) (sc_ws_connections sc)
      in (sc\<lparr>sc_ws_connections := hs\<rparr>, res))"

definition stream_client_unsubscribe ::
  "subscription_id \<Rightarrow> ('u, 'b) stream_client \<Rightarrow> ('u, 'b) stream_client \<times> (anyhow + unit)" where
  "stream_client_unsubscribe i sc =
     (let (hs, res) = send_to_connections ''Failed to send unsubscribe request''
            (Ws_Unsubscribe \<lparr>ur_subscription_id = i\<rparr>) (sc_ws_connections sc)
      in (sc\<lparr>sc_ws_connections := hs\<rparr>, res))"

text \<open>The builder; the default endpoints are parsed by the \<^verbatim>\<open>url\<close> crate, \<open>None\<close> is the panic of
  \<^verbatim>\<open>unwrap\<close>.\<close>

record 'u stream_builder =
  sb_endpoints :: "'u list"
  sb_access_token :: string
  sb_num_connections :: nat
  sb_backoff :: backoff_params
  sb_timeout :: nat
  sb_channel_capacity :: nat

definition stream_builder_new :: "(string \<Rightarrow> 'u option) \<Rightarrow> 'b backoff_crate \<Rightarrow> string \<Rightarrow> 'u stream_builder option" where
  "stream_builder_new parse_url bc token =
     map_option (\<lambda>endpoints.
       \<lparr>sb_endpoints = endpoints, sb_access_token = token,
        sb_num_connections = STREAM_DEFAULT_NUM_CONNECTIONS, sb_backoff = backoff_builder_default bc,
        sb_timeout = DEFAULT_TIMEOUT, sb_channel_capacity = CHANNEL_CAPACITY\<rparr>)
     (those (map parse_url STREAM_DEFAULT_ENDPOINTS))"

definition with_endpoints :: "'u list \<Rightarrow> 'u stream_builder \<Rightarrow> 'u stream_builder" where
  "with_endpoints es b = b\<lparr>sb_endpoints := es\<rparr>"

definition with_num_connections :: "nat \<Rightarrow> 'u stream_builder \<Rightarrow> 'u stream_builder" where
  "with_num_connections n b = b\<lparr>sb_num_connections := n\<rparr>"

definition with_backoff :: "backoff_params \<Rightarrow> 'u stream_builder \<Rightarrow> 'u stream_builder" where
  "with_backoff p b = b\<lparr>sb_backoff := p\<rparr>"

definition with_timeout :: "nat \<Rightarrow> 'u stream_builder \<Rightarrow> 'u stream_builder" where
  "with_timeout d b = b\<lparr>sb_timeout := d\<rparr>"

definition with_channel_capacity :: "nat \<Rightarrow> 'u stream_builder \<Rightarrow> 'u stream_builder" where
  "with_channel_capacity n b = b\<lparr>sb_channel_capacity := n\<rparr>"

definition stream_builder_build :: "'b backoff_crate \<Rightarrow> 'u stream_builder \<Rightarrow> anyhow + ('u, 'b) stream_client" where
  "stream_builder_build bc b =
     stream_client_new bc (sb_endpoints b) (sb_access_token b) (sb_num_connections b) (sb_backoff b)
       (sb_timeout b) (sb_channel_capacity b)"

section \<open>Restoring subscriptions\<close>

text \<open>
  The table of a server, which is no code of this repository but the specification of what the requests mean:
  a subscription is entered under its identifier and removed by it.  A client may subscribe only under an
  identifier that is not in use.
\<close>

fun ws_server :: "ws_request \<Rightarrow> (subscription_id \<rightharpoonup> subscription_params) \<Rightarrow> (subscription_id \<rightharpoonup> subscription_params)" where
  "ws_server (Ws_Subscribe r) table = table(sr_subscription_id r \<mapsto> sr_params r)"
| "ws_server (Ws_Unsubscribe r) table = table(ur_subscription_id r := None)"

fun ws_fresh_id :: "ws_request \<Rightarrow> subscribe_request list \<Rightarrow> bool" where
  "ws_fresh_id (Ws_Subscribe r) subs \<longleftrightarrow> sr_subscription_id r \<notin> sr_subscription_id ` set subs"
| "ws_fresh_id (Ws_Unsubscribe r) subs \<longleftrightarrow> True"

abbreviation distinct_ids :: "subscribe_request list \<Rightarrow> bool" where
  "distinct_ids subs \<equiv> distinct (map sr_subscription_id subs)"

abbreviation subs_table :: "subscribe_request list \<Rightarrow> (subscription_id \<rightharpoonup> subscription_params)" where
  "subs_table subs \<equiv> map_of (map (\<lambda>s. (sr_subscription_id s, sr_params s)) subs)"

lemma set_remove_first: "set (remove_first P xs) \<subseteq> set xs"
  by (induction xs) auto

lemma distinct_ids_remove_first: "distinct_ids subs \<Longrightarrow> distinct_ids (remove_first P subs)"
  using set_remove_first by (induction subs) fastforce+

lemma subs_table_remove_first:
  "distinct_ids subs \<Longrightarrow>
     subs_table (remove_first (\<lambda>s. sr_subscription_id s = i) subs) = (subs_table subs)(i := None)"
proof (induction subs)
  case (Cons s subs)
  show ?case
  proof (cases "sr_subscription_id s = i")
    case True
    with Cons.prems have "subs_table subs i = None" by (auto simp: map_of_eq_None_iff)
    with True show ?thesis by (auto simp: fun_eq_iff)
  qed (use Cons in \<open>auto simp: fun_eq_iff\<close>)
qed simp

lemma ws_server_subscribes:
  "distinct_ids subs \<Longrightarrow> fold ws_server (map Ws_Subscribe subs) t = t ++ subs_table subs"
proof (induction subs arbitrary: t)
  case (Cons s subs)
  then have "subs_table subs (sr_subscription_id s) = None" by (auto simp: map_of_eq_None_iff)
  then have "t(sr_subscription_id s \<mapsto> sr_params s) ++ subs_table subs = t ++ subs_table (s # subs)"
    by (auto simp: fun_eq_iff map_add_def split: option.split)
  moreover have "fold ws_server (map Ws_Subscribe (s # subs)) t = t(sr_subscription_id s \<mapsto> sr_params s) ++ subs_table subs"
    using Cons by simp
  ultimately show ?case by (rule trans [rotated])
qed simp

lemma ws_track_distinct: "distinct_ids subs \<Longrightarrow> ws_fresh_id r subs \<Longrightarrow> distinct_ids (ws_track r subs)"
  by (cases r) (auto simp: distinct_ids_remove_first)

interpretation ws_replay: resubscription ws_server Map.empty ws_track Ws_Subscribe ws_fresh_id distinct_ids
proof (unfold_locales, goal_cases)
  case 1 show ?case by simp
next
  case (2 subs r) then show ?case by (rule ws_track_distinct)
next
  case (3 subs r)
  note d = ws_track_distinct [OF 3]
  show ?case
  proof (cases r)
    case (Ws_Subscribe q)
    then show ?thesis by simp
  next
    case (Ws_Unsubscribe q)
    with 3 d show ?thesis by (simp add: ws_server_subscribes subs_table_remove_first)
  qed
qed

text \<open>The table of a server that reads the JSON of requests, from the frames of a connection.\<close>

definition ws_server_table ::
  "(string \<Rightarrow> ws_request option) \<Rightarrow> 'u ws_conn \<Rightarrow> (subscription_id \<rightharpoonup> subscription_params)" where
  "ws_server_table read c = fold ws_server (sent_requests read c) Map.empty"

lemma ws_send_request_Inr:
  assumes "ws_send_request cd r c = Inr c'"
  shows "\<exists>t. request_to_json cd r = Inr t \<and> wc_sent c' = wc_sent c @ [Text_Frame t]"
  using assms unfolding ws_send_request_def by (rule ws_send_text_Inr) blast

lemma ws_session_failed_fields [simp]:
  "wt_subscriptions (ws_session_failed bc elapsed s) = wt_subscriptions s"
  "wt_received (ws_session_failed bc elapsed s) = wt_received s"
  "wt_delivered (ws_session_failed bc elapsed s) = wt_delivered s"
  "wt_consumer (ws_session_failed bc elapsed s) = wt_consumer s"
  "wt_timeout (ws_session_failed bc elapsed s) = wt_timeout s"
  "wt_access_token (ws_session_failed bc elapsed s) = wt_access_token s"
  by (simp_all add: ws_session_failed_def split: prod.split)

lemma ws_session_failed_frames [simp]: "live_frames (wt_phase (ws_session_failed bc elapsed s)) = None"
  by (auto simp: ws_session_failed_def dest: retry_phase_frames split: prod.split)

lemma ws_connect_frames:
  "wt_subscriptions (ws_connect cd bc elapsed attempt s) = wt_subscriptions s \<and>
   wt_received (ws_connect cd bc elapsed attempt s) = wt_received s \<and>
   (live_frames (wt_phase (ws_connect cd bc elapsed attempt s)) = None \<or>
    (\<exists>fs. live_frames (wt_phase (ws_connect cd bc elapsed attempt s)) = Some fs \<and>
       encodes (request_to_json cd) (map Ws_Subscribe (wt_subscriptions s)) fs))"
proof -
  have "\<exists>fs. wc_sent c = fs \<and> encodes (request_to_json cd) (map Ws_Subscribe (wt_subscriptions s)) fs"
    if start: "ws_start cd attempt (ws_new (wt_endpoint s) (wt_access_token s)) = Some (Inr c0)"
      and send: "send_all (ws_send_request cd) (map Ws_Subscribe (wt_subscriptions s)) c0 = Inr c" for c0 c
  proof -
    have "wc_sent c0 = []"
      using start by (auto simp: ws_start_def ws_new_def split: ws_attempt.splits if_splits)
    with send_all_encodes [OF _ send] ws_send_request_Inr [of cd] show ?thesis by auto
  qed
  then show ?thesis
    by (auto simp: ws_connect_def and_then_Inl_iff split: option.split sum.split)
qed

lemma ws_handle_request_eq:
  "ws_handle_request cd q c subs = (ws_track q subs, ws_send_request cd q c)"
  by (cases q) (simp_all add: ws_subscribe_def ws_unsubscribe_def)

lemma ws_session_request:
  "ws_session_step cd bc elapsed (Ev_Request q) c s =
     (let s = s\<lparr>wt_subscriptions := ws_track q (wt_subscriptions s), wt_received := wt_received s @ [q]\<rparr>
      in case ws_send_request cd q c of
           Inl e \<Rightarrow> Some (ws_session_failed bc elapsed s)
         | Inr c \<Rightarrow> Some (s\<lparr>wt_phase := Ph_Live c\<rparr>))"
  by (simp add: ws_handle_request_eq Let_def)

lemma ws_session_quiet:
  assumes "ws_session_step cd bc elapsed ev c s = Some s'" and "\<forall>q. ev \<noteq> Ev_Request q"
  shows "wt_subscriptions s' = wt_subscriptions s \<and> wt_received s' = wt_received s \<and>
    (live_frames (wt_phase s') = None \<or> live_frames (wt_phase s') = live_frames (wt_phase s))"
  using assms by (cases ev) (auto split: sum.splits option.splits if_splits)

lemma ws_task_step_cases:
  assumes "ws_task_step cd bc elapsed ev s = Some s'"
  obtains (gone) "ev = Ev_ConsumerGone" "s' = s\<lparr>wt_consumer := False\<rparr>"
  | (connect) attempt where "ev = Ev_Connect attempt" "wt_phase s = Ph_Top" "s' = ws_connect cd bc elapsed attempt s"
  | (session) c where "wt_phase s = Ph_Live c" "ws_session_step cd bc elapsed ev c s = Some s'"
  | (wake) d where "wt_phase s = Ph_Sleeping d" "s' = s\<lparr>wt_phase := Ph_Top\<rparr>"
  | (closed) d where "wt_phase s = Ph_Sleeping d" "\<not> wt_consumer s" "s' = s\<lparr>wt_phase := Ph_Finished (Inr ())\<rparr>"
proof (cases "ev = Ev_ConsumerGone")
  case True
  with assms have "s' = s\<lparr>wt_consumer := False\<rparr>" by (cases "wt_phase s") (simp_all add: ws_task_step_def)
  with True gone show thesis by blast
next
  case False
  show thesis
  proof (cases "wt_phase s")
    case Ph_Top
    with False assms obtain attempt where "ev = Ev_Connect attempt" "s' = ws_connect cd bc elapsed attempt s"
      by (cases ev) (simp_all add: ws_task_step_def)
    with Ph_Top connect show thesis by blast
  next
    case (Ph_Live c)
    with False assms have "ws_session_step cd bc elapsed ev c s = Some s'"
      by (cases ev) (simp_all add: ws_task_step_def)
    with Ph_Live session show thesis by blast
  next
    case (Ph_Sleeping d)
    with False assms have "s' = s\<lparr>wt_phase := Ph_Top\<rparr> \<or> \<not> wt_consumer s \<and> s' = s\<lparr>wt_phase := Ph_Finished (Inr ())\<rparr>"
      by (cases ev) (simp_all add: ws_task_step_def split: if_splits)
    with Ph_Sleeping wake closed show thesis by blast
  qed (use False assms in \<open>cases ev; simp add: ws_task_step_def\<close>)+
qed

interpretation ws_resub: resubscribing_task "\<lambda>s s'. \<exists>elapsed ev. ws_task_step cd bc elapsed ev s = Some s'"
  wt_subscriptions wt_received "\<lambda>s. live_frames (wt_phase s)" ws_track Ws_Subscribe "request_to_json cd"
  for cd :: "'json ws_codec" and bc :: "'b backoff_crate"
proof (unfold_locales, elim exE)
  fix s s' :: "('u, 'b, 'json) ws_task" and elapsed ev
  assume "ws_task_step cd bc elapsed ev s = Some s'"
  then show "wt_subscriptions s' = wt_subscriptions s \<and> wt_received s' = wt_received s \<and>
      (live_frames (wt_phase s') = None \<or> live_frames (wt_phase s') = live_frames (wt_phase s) \<or>
       (\<exists>fs. live_frames (wt_phase s') = Some fs \<and>
          encodes (request_to_json cd) (map Ws_Subscribe (wt_subscriptions s)) fs)) \<or>
    (\<exists>q. wt_subscriptions s' = ws_track q (wt_subscriptions s) \<and> wt_received s' = wt_received s @ [q] \<and>
      (live_frames (wt_phase s') = None \<or>
       (\<exists>fs t. live_frames (wt_phase s) = Some fs \<and> request_to_json cd q = Inr t \<and>
          live_frames (wt_phase s') = Some (fs @ [Text_Frame t]))))"
  proof (cases rule: ws_task_step_cases)
    case (connect attempt)
    with ws_connect_frames [of cd bc elapsed attempt s] show ?thesis by blast
  next
    case (session c)
    show ?thesis
    proof (cases "\<exists>q. ev = Ev_Request q")
      case True
      then obtain q where q: "ev = Ev_Request q" by blast
      show ?thesis
      proof (cases "ws_send_request cd q c")
        case (Inl e)
        with session(2) q show ?thesis by (auto simp: ws_session_request simp del: ws_session_step.simps)
      next
        case (Inr c')
        with session q ws_send_request_Inr [OF Inr] show ?thesis
          by (auto simp: ws_session_request simp del: ws_session_step.simps)
      qed
    next
      case False
      with ws_session_quiet [OF session(2)] show ?thesis by blast
    qed
  qed simp_all
qed

lemma ws_task_run_ok:
  assumes "ws_task_run cd bc (ws_task_new u token b timeout) s"
  shows "resub_ok (request_to_json cd) ws_track Ws_Subscribe (wt_subscriptions s) (wt_received s)
    (live_frames (wt_phase s))"
  using assms
proof induction
  case ws_run_start
  show ?case by (simp add: resub_ok_def ws_task_new_def)
next
  case (ws_run_step s elapsed ev s')
  then show ?case by (intro ws_resub.ok_step [OF ws_run_step.IH]) blast
qed

text \<open>Why an identifier in use must not be subscribed again: only the first of its two entries is removed by
  \<^verbatim>\<open>unsubscribe\<close>, and the other one is sent again after a reconnection, when the server has none.\<close>

lemma duplicate_id_resubscribed:
  fixes r :: subscribe_request
  defines "qs \<equiv> [Ws_Subscribe r, Ws_Subscribe r, Ws_Unsubscribe \<lparr>ur_subscription_id = sr_subscription_id r\<rparr>]"
  shows "fold ws_track qs [] = [r]" and "fold ws_server qs Map.empty = Map.empty"
  by (simp_all add: qs_def)

text \<open>C32: Whatever connections were lost before, in a live session the server's table of subscriptions is the
  one that the requests of the caller describe, as if all of them had been sent over one connection.  The
  caller must not subscribe under an identifier that is in use, and the server reads the JSON of a request
  as that request.\<close>

theorem client_resubscribes:
  assumes "json_contract (request_to_json cd) read"
    and "ws_task_run cd bc (ws_task_new u token b timeout) s" and "wt_phase s = Ph_Live c"
    and "disciplined ws_fresh_id ws_track (wt_received s) []"
  shows "ws_server_table read c = fold ws_server (wt_received s) Map.empty \<and>
    ws_server_table read c = subs_table (wt_subscriptions s)"
proof -
  from ws_task_run_ok [OF assms(2)] assms(3) obtain before since where
    r: "wt_received s = before @ since"
    and sent: "encodes (request_to_json cd) (map Ws_Subscribe (fold ws_track before []) @ since) (wc_sent c)"
    and subs: "wt_subscriptions s = fold ws_track (wt_received s) []"
    unfolding resub_ok_def by auto
  note split = r encodes_read [OF assms(1) sent]
  have "ws_server_table read c = fold ws_server (wt_received s) Map.empty"
    using ws_replay.reconnected_table [of before since] assms(4) unfolding ws_server_table_def split by simp
  moreover have "distinct_ids (wt_subscriptions s)"
    unfolding subs using ws_replay.inv_fold [OF _ assms(4)] by simp
  moreover have "fold ws_server (map Ws_Subscribe (wt_subscriptions s)) Map.empty = fold ws_server (wt_received s) Map.empty"
    unfolding subs using ws_replay.replay_fold [OF _ assms(4)] by simp
  ultimately show ?thesis by (simp add: ws_server_subscribes)
qed


text \<open>Runs given by their events.\<close>

fun ws_task_exec ::
  "'json ws_codec \<Rightarrow> 'b backoff_crate \<Rightarrow> ((nat \<times> nat) \<times> ws_request client_event) list \<Rightarrow>
   ('u, 'b, 'json) ws_task \<Rightarrow> ('u, 'b, 'json) ws_task option" where
  "ws_task_exec cd bc [] s = Some s"
| "ws_task_exec cd bc ((elapsed, ev) # evs) s = Option.bind (ws_task_step cd bc elapsed ev s) (ws_task_exec cd bc evs)"

lemma ws_task_exec_run:
  "ws_task_run cd bc s0 s \<Longrightarrow> ws_task_exec cd bc evs s = Some s' \<Longrightarrow> ws_task_run cd bc s0 s'"
proof (induction evs arbitrary: s)
  case (Cons e evs)
  obtain elapsed ev where e: "e = (elapsed, ev)" by (cases e)
  with Cons.prems(2) obtain s1 where "ws_task_step cd bc elapsed ev s = Some s1" "ws_task_exec cd bc evs s1 = Some s'"
    by (auto simp: bind_eq_Some_conv)
  with Cons.IH [OF ws_run_step [OF Cons.prems(1)]] show ?case by blast
qed simp

definition demo_subscription :: subscribe_request where
  "demo_subscription =
     \<lparr>sr_subscription_id = 7, sr_params =
        \<lparr>sp_price_feed_ids = Some [1], sp_symbols = None, sp_properties = [P_Price], sp_formats = [F_Evm],
         sp_delivery_format = DF_Json, sp_json_binary_encoding = Hex, sp_parsed = True,
         sp_channel = Ch_RealTime, sp_ignore_invalid_feeds = False\<rparr>\<rparr>"

definition demo_codec :: "unit ws_codec" where
  "demo_codec =
     \<lparr>request_to_json = (\<lambda>r. if r = Ws_Subscribe demo_subscription then Inr ''s7'' else Inl (Message ''e'')),
      response_from_json = (\<lambda>_. Inl (Message ''e'')), update_from_json = (\<lambda>_. Inr ()),
      header_value_ok = (\<lambda>_. True)\<rparr>"

definition demo_read :: "string \<Rightarrow> ws_request option" where
  "demo_read t = (if t = ''s7'' then Some (Ws_Subscribe demo_subscription) else None)"

definition demo_crate :: "unit backoff_crate" where
  "demo_crate =
     \<lparr>bc_defaults = \<lparr>bp_initial_interval = 1, bp_randomization_factor = 0, bp_multiplier = 0, bp_max_interval = 2\<rparr>,
      bc_build = (\<lambda>_ _. ()), bc_reset = (\<lambda>b. b), bc_next = (\<lambda>b. (Some 1, b))\<rparr>"

definition demo_events :: "((nat \<times> nat) \<times> ws_request client_event) list" where
  "demo_events = map (Pair (0, 0))
     [Ev_Connect (At_Open 5), Ev_Request (Ws_Subscribe demo_subscription), Ev_Timeout, Ev_Wake, Ev_Connect (At_Open 1)]"

abbreviation demo_task :: "(unit, unit, unit) ws_task" where
  "demo_task \<equiv> ws_task_new () ''t'' () 5"

lemma demo_task_runs:
  "\<exists>s. ws_task_run demo_codec demo_crate demo_task s \<and>
     wt_phase s = Ph_Live \<lparr>wc_endpoint = (), wc_access_token = ''t'', wc_started = True, wc_url = Some (), wc_budget = 0,
       wc_sent = [Text_Frame ''s7'']\<rparr> \<and>
     wt_received s = [Ws_Subscribe demo_subscription] \<and> wt_consumer s"
proof -
  have "\<exists>s. ws_task_exec demo_codec demo_crate demo_events demo_task = Some s \<and>
     wt_phase s = Ph_Live \<lparr>wc_endpoint = (), wc_access_token = ''t'', wc_started = True, wc_url = Some (), wc_budget = 0,
       wc_sent = [Text_Frame ''s7'']\<rparr> \<and>
     wt_received s = [Ws_Subscribe demo_subscription] \<and> wt_consumer s"
    by (simp add: demo_events_def ws_task_step_def ws_task_new_def ws_connect_def ws_start_def ws_new_def
        ws_send_request_def ws_send_text_def ws_subscribe_def sink_send_def demo_codec_def demo_crate_def
        ws_session_failed_def retry_phase_def backoff_after_def numeral_eq_Suc)
  with ws_task_exec_run [OF ws_run_start] show ?thesis by metis
qed

lemma demo_codec_contract: "json_contract (request_to_json demo_codec) demo_read"
  by (simp add: json_contract_def demo_codec_def demo_read_def)

theorem client_resubscribes_witness:
  "\<exists>c :: unit ws_conn. wc_sent c = [Text_Frame ''s7''] \<and> ws_server_table demo_read c = [7 \<mapsto> sr_params demo_subscription]"
proof -
  obtain s where s: "ws_task_run demo_codec demo_crate demo_task s"
    "wt_phase s = Ph_Live \<lparr>wc_endpoint = (), wc_access_token = ''t'', wc_started = True, wc_url = Some (), wc_budget = 0,
       wc_sent = [Text_Frame ''s7'']\<rparr>"
    and r: "wt_received s = [Ws_Subscribe demo_subscription]" using demo_task_runs by blast
  have "disciplined ws_fresh_id ws_track (wt_received s) []" by (simp add: r)
  from client_resubscribes [OF demo_codec_contract s this] show ?thesis
    by (intro exI [of _ "\<lparr>wc_endpoint = (), wc_access_token = ''t'', wc_started = True, wc_url = Some (), wc_budget = 0,
       wc_sent = [Text_Frame ''s7'']\<rparr>"]) (simp add: r demo_subscription_def)
qed

section \<open>A task ends only with its consumer\<close>

text \<open>What holds of every state when the token is a header value and the back-off has no limit.\<close>

definition ws_alive :: "'json ws_codec \<Rightarrow> ('b \<Rightarrow> bool) \<Rightarrow> ('u, 'b, 'json) ws_task \<Rightarrow> bool" where
  "ws_alive cd fresh s \<longleftrightarrow>
     fresh (wt_backoff s) \<and> wt_timeout s + secs 1 < secs (2 ^ 64) \<and>
     header_value_ok cd (''Bearer '' @ wt_access_token s) \<and>
     (case wt_phase s of
        Ph_Finished r \<Rightarrow> r = Inr () \<and> \<not> wt_consumer s
      | Ph_Panicked \<Rightarrow> False
      | _ \<Rightarrow> True)"

lemma ws_session_failed_alive:
  assumes "unlimited_backoff bc fresh" and "ws_alive cd fresh s"
  shows "ws_alive cd fresh (ws_session_failed bc elapsed s)"
proof -
  obtain d b' where "retry_phase bc ''Max retries reached for WebSocket connection'' (wt_timeout s) elapsed (wt_backoff s)
      = (Ph_Sleeping d :: 'c ws_conn task_phase, b')" "fresh b'"
    by (rule retry_phase_sleeps [OF assms(1)]) (use assms(2) in \<open>auto simp: ws_alive_def\<close>)
  with assms(2) show ?thesis by (simp add: ws_session_failed_def ws_alive_def)
qed


lemma ws_connect_alive:
  assumes "unlimited_backoff bc fresh" and "ws_alive cd fresh s" and "wt_phase s = Ph_Top"
  shows "ws_alive cd fresh (ws_connect cd bc elapsed attempt s)"
proof (cases "wt_consumer s")
  case True
  have ok: "header_value_ok cd (''Bearer '' @ wt_access_token s)" using assms(2) by (simp add: ws_alive_def)
  then obtain r where "ws_start cd attempt (ws_new (wt_endpoint s) (wt_access_token s)) = Some r"
    by (cases attempt) (simp_all add: ws_start_def ws_new_def)
  with True ws_session_failed_alive [OF assms(1,2)] assms(2) show ?thesis
    by (auto simp: ws_connect_def ws_alive_def split: sum.split)
qed (use assms(2) in \<open>simp add: ws_connect_def ws_alive_def\<close>)

lemma ws_session_step_alive:
  assumes "unlimited_backoff bc fresh" and "ws_alive cd fresh s" and "wt_phase s = Ph_Live c"
    and "ws_session_step cd bc elapsed ev c s = Some s'"
  shows "ws_alive cd fresh s'"
proof (cases ev)
  case (Ev_Request q)
  let ?s = "s\<lparr>wt_subscriptions := ws_track q (wt_subscriptions s), wt_received := wt_received s @ [q]\<rparr>"
  have "ws_alive cd fresh ?s" using assms(2,3) by (simp add: ws_alive_def)
  note failed = ws_session_failed_alive [OF assms(1) this, of elapsed]
  show ?thesis
  proof (cases "ws_send_request cd q c")
    case (Inl e)
    with assms(4) Ev_Request failed show ?thesis by (auto simp: ws_handle_request_eq)
  next
    case (Inr c')
    with assms(2,4) Ev_Request show ?thesis by (auto simp: ws_handle_request_eq ws_alive_def)
  qed
next
  case (Ev_Frame f)
  with assms(2-4) ws_session_failed_alive [OF assms(1,2), of elapsed] show ?thesis
    by (auto simp: ws_alive_def split: sum.splits option.splits if_splits)
qed (use assms(2-4) ws_session_failed_alive [OF assms(1,2), of elapsed] in \<open>auto simp: ws_alive_def split: if_splits\<close>)

lemma ws_task_run_alive:
  assumes "unlimited_backoff bc fresh" and "ws_task_run cd bc s0 s" and "ws_alive cd fresh s0"
  shows "ws_alive cd fresh s"
  using assms(2)
proof induction
  case (ws_run_step s elapsed ev s')
  from ws_run_step.hyps(2) show ?case
  proof (cases rule: ws_task_step_cases)
    case gone with ws_run_step.IH show ?thesis by (auto simp: ws_alive_def split: task_phase.splits)
  next
    case (connect attempt) with ws_connect_alive [OF assms(1) ws_run_step.IH] show ?thesis by simp
  next
    case (session c) with ws_session_step_alive [OF assms(1) ws_run_step.IH] show ?thesis by blast
  qed (use ws_run_step.IH in \<open>auto simp: ws_alive_def\<close>)
qed (rule assms(3))

text \<open>Steps that lead on: to the end once the consumer is gone, and to a session while it listens.\<close>

text \<open>How many steps a task without a consumer can still take, requests and skipped frames of a live session apart.\<close>

fun closing_steps :: "'conn task_phase \<Rightarrow> nat" where
  "closing_steps Ph_Top = 1"
| "closing_steps (Ph_Live c) = 2"
| "closing_steps (Ph_Sleeping d) = 2"
| "closing_steps _ = 0"

definition closing_step_ready :: "'json ws_codec \<Rightarrow> 'b backoff_crate \<Rightarrow> ('u, 'b, 'json) ws_task \<Rightarrow> bool" where
  "closing_step_ready cd bc s \<longleftrightarrow>
     (\<forall>elapsed. case wt_phase s of
        Ph_Live c \<Rightarrow> ws_task_step cd bc elapsed Ev_SeeClosed s = Some (s\<lparr>wt_phase := Ph_Top\<rparr>)
      | Ph_Sleeping d \<Rightarrow> ws_task_step cd bc elapsed Ev_SeeClosed s = Some (s\<lparr>wt_phase := Ph_Finished (Inr ())\<rparr>)
      | Ph_Top \<Rightarrow> (\<forall>attempt. ws_task_step cd bc elapsed (Ev_Connect attempt) s = Some (s\<lparr>wt_phase := Ph_Finished (Inr ())\<rparr>))
      | Ph_Finished r \<Rightarrow> r = Inr ()
      | Ph_Panicked \<Rightarrow> False)"

lemma ws_closing_ready:
  assumes "ws_alive cd fresh s" and "\<not> wt_consumer s"
  shows "closing_step_ready cd bc s"
  using assms
  by (cases "wt_phase s") (simp_all add: closing_step_ready_def ws_alive_def ws_task_step_def ws_connect_def)

lemma ws_closing_session:
  assumes "\<not> wt_consumer s" and "wt_phase s = Ph_Live c" and "ws_session_step cd bc elapsed ev c s = Some s'"
  shows "\<not> wt_consumer s' \<and> (closing_steps (wt_phase s') < 2 \<or>
    closing_steps (wt_phase s') = 2 \<and> (\<exists>c'. wt_phase s' = Ph_Live c') \<and> (\<exists>x. ev = Ev_Request x \<or> ev = Ev_Frame Other_Frame))"
proof (cases ev)
  case (Ev_Frame f)
  with assms show ?thesis
    by (cases f) (auto simp: ws_session_failed_def split: sum.splits if_splits)
qed (use assms in \<open>auto simp: ws_handle_request_eq ws_session_failed_def Let_def split: sum.splits\<close>)

lemma ws_closing_step:
  assumes "\<not> wt_consumer s" and "ws_task_step cd bc elapsed ev s = Some s'"
  shows "\<not> wt_consumer s' \<and> (closing_steps (wt_phase s') < closing_steps (wt_phase s) \<or>
    s' = s \<and> ev = Ev_ConsumerGone \<or>
    (\<exists>c c'. wt_phase s = Ph_Live c \<and> wt_phase s' = Ph_Live c') \<and> (\<exists>x. ev = Ev_Request x \<or> ev = Ev_Frame Other_Frame))"
  using assms(2)
proof (cases rule: ws_task_step_cases)
  case (session c)
  with ws_closing_session [OF assms(1) session] show ?thesis by auto
qed (use assms(1) in \<open>auto simp: ws_connect_def\<close>)

lemma send_all_succeeds:
  assumes "\<forall>r\<in>set rs. \<exists>t. request_to_json cd r = Inr t"
  shows "wc_started c \<Longrightarrow> length rs \<le> wc_budget c \<Longrightarrow> \<exists>c'. send_all (ws_send_request cd) rs c = Inr c'"
  using assms
proof (induction rs arbitrary: c)
  case (Cons r rs)
  then obtain t where t: "request_to_json cd r = Inr t" by auto
  from Cons.prems obtain n where n: "wc_budget c = Suc n" by (cases "wc_budget c") auto
  let ?c = "c\<lparr>wc_budget := n, wc_sent := wc_sent c @ [Text_Frame t]\<rparr>"
  have "ws_send_request cd r c = Inr ?c"
    using t n Cons.prems(1) by (simp add: ws_send_request_def ws_send_text_def sink_send_def)
  moreover have "\<exists>c'. send_all (ws_send_request cd) rs ?c = Inr c'" using Cons.IH [of ?c] Cons.prems n by simp
  ultimately show ?case by simp
qed simp

lemma ws_reconnects:
  assumes "ws_alive cd fresh s" and "wt_consumer s"
    and "\<forall>r\<in>set (wt_subscriptions s). \<exists>t. request_to_json cd (Ws_Subscribe r) = Inr t"
  shows "\<exists>evs s' c. length evs \<le> 2 \<and> ws_task_exec cd bc evs s = Some s' \<and> wt_phase s' = Ph_Live c \<and>
    wt_received s' = wt_received s"
proof -
  have connect: "\<exists>s' c. ws_task_step cd bc (0, 0) (Ev_Connect (At_Open (length (wt_subscriptions s)))) s1 = Some s' \<and>
      wt_phase s' = Ph_Live c \<and> wt_received s' = wt_received s"
    if s1: "s1 = s\<lparr>wt_phase := Ph_Top\<rparr>" for s1
  proof -
    let ?c = "(ws_new (wt_endpoint s) (wt_access_token s))
      \<lparr>wc_started := True, wc_url := Some (wt_endpoint s), wc_budget := length (wt_subscriptions s)\<rparr>"
    obtain c where "send_all (ws_send_request cd) (map Ws_Subscribe (wt_subscriptions s)) ?c = Inr c"
      using send_all_succeeds [of "map Ws_Subscribe (wt_subscriptions s)" cd ?c] assms(3) by auto
    moreover have "header_value_ok cd (''Bearer '' @ wt_access_token s)" using assms(1) by (simp add: ws_alive_def)
    ultimately show ?thesis using assms(2) s1
      by (simp add: ws_task_step_def ws_connect_def ws_start_def ws_new_def)
  qed
  show ?thesis
  proof (cases "wt_phase s")
    case Ph_Top
    then have "s = s\<lparr>wt_phase := Ph_Top\<rparr>" by simp
    from connect [OF this] show ?thesis
      by (intro exI [of _ "[((0, 0), Ev_Connect (At_Open (length (wt_subscriptions s))))]"]) auto
  next
    case (Ph_Live c)
    then show ?thesis by (intro exI [of _ "[]"] exI [of _ s] exI [of _ c]) simp
  next
    case (Ph_Sleeping d)
    then have "ws_task_step cd bc (0, 0) Ev_Wake s = Some (s\<lparr>wt_phase := Ph_Top\<rparr>)" by (simp add: ws_task_step_def)
    with connect [OF refl] show ?thesis
      by (intro exI [of _ "[((0, 0), Ev_Wake), ((0, 0), Ev_Connect (At_Open (length (wt_subscriptions s))))]"]) auto
  qed (use assms(1,2) in \<open>auto simp: ws_alive_def\<close>)
qed

text \<open>C33: A connection task with a token that is a header value, an unlimited back-off and a timeout that does
  not overflow neither panics nor gives up: it ends only after its consumer has gone.  Once the consumer has
  gone, the step that notices it is possible in every state, and every step of the task brings it closer to
  its regular end, which is at most two steps away; the only exceptions are the requests and the control
  frames that a live session may still take before it notices.  While the consumer listens, at most two
  steps lead from any state to a live session, once the network accepts the connection and its
  subscriptions serialise.\<close>

theorem client_task_survives:
  assumes "unlimited_backoff bc fresh" and "header_value_ok cd (''Bearer '' @ token)"
    and "timeout + secs 1 < secs (2 ^ 64)"
    and "ws_task_run cd bc (ws_task_new u token (exponential_backoff bc p) timeout) s"
  shows "(wt_phase s = Ph_Finished r \<longrightarrow> r = Inr () \<and> \<not> wt_consumer s) \<and> wt_phase s \<noteq> Ph_Panicked \<and>
    (\<not> wt_consumer s \<longrightarrow> closing_steps (wt_phase s) \<le> 2 \<and> closing_step_ready cd bc s \<and>
       (\<forall>elapsed ev s'. ws_task_step cd bc elapsed ev s = Some s' \<longrightarrow>
          \<not> wt_consumer s' \<and> (closing_steps (wt_phase s') < closing_steps (wt_phase s) \<or>
            s' = s \<and> ev = Ev_ConsumerGone \<or>
            (\<exists>c c'. wt_phase s = Ph_Live c \<and> wt_phase s' = Ph_Live c') \<and>
              (\<exists>x. ev = Ev_Request x \<or> ev = Ev_Frame Other_Frame)))) \<and>
    (wt_consumer s \<and> (\<forall>q\<in>set (wt_subscriptions s). \<exists>t. request_to_json cd (Ws_Subscribe q) = Inr t) \<longrightarrow>
       (\<exists>evs s' c. length evs \<le> 2 \<and> ws_task_exec cd bc evs s = Some s' \<and> wt_phase s' = Ph_Live c \<and>
          wt_received s' = wt_received s))"
proof -
  have "ws_alive cd fresh (ws_task_new u token (exponential_backoff bc p) timeout)"
    using assms(1-3) by (simp add: ws_alive_def ws_task_new_def exponential_backoff_def unlimited_backoff_def)
  from ws_task_run_alive [OF assms(1,4) this] have alive: "ws_alive cd fresh s" .
  then have "(wt_phase s = Ph_Finished r \<longrightarrow> r = Inr () \<and> \<not> wt_consumer s) \<and> wt_phase s \<noteq> Ph_Panicked"
    by (auto simp: ws_alive_def)
  moreover have "closing_steps (wt_phase s) \<le> 2" by (cases "wt_phase s") simp_all
  moreover have "\<not> wt_consumer s \<longrightarrow> closing_step_ready cd bc s" using ws_closing_ready [OF alive] by blast
  ultimately show ?thesis using ws_closing_step [of s cd bc] ws_reconnects [OF alive] by (intro conjI impI allI) blast+
qed

lemma demo_unlimited: "unlimited_backoff demo_crate (\<lambda>_. True)"
  by (simp add: unlimited_backoff_def demo_crate_def)

theorem client_task_survives_witness:
  "(\<exists>evs s' c. ws_task_exec demo_codec demo_crate evs demo_task = Some s' \<and>
     wt_phase s' = Ph_Live c \<and> wt_received s' = wt_received demo_task) \<and>
   ws_task_step demo_codec demo_crate (0, 0) (Ev_Connect (At_Open 0)) (demo_task\<lparr>wt_consumer := False\<rparr>) =
     Some (demo_task\<lparr>wt_consumer := False, wt_phase := Ph_Finished (Inr ())\<rparr>)"
proof -
  have new: "demo_task = ws_task_new () ''t'' (exponential_backoff demo_crate p) 5" for p by simp
  have ok: "header_value_ok demo_codec (''Bearer '' @ ''t'')" by (simp add: demo_codec_def)
  have t: "5 + secs 1 < secs (2 ^ 64)" by (simp add: secs_def)
  have run: "ws_task_run demo_codec demo_crate demo_task demo_task" by (rule ws_run_start)
  note run' = run [unfolded new [of "bc_defaults demo_crate"]]
  from client_task_survives [OF demo_unlimited ok t run']
  have "\<exists>evs s' c. ws_task_exec demo_codec demo_crate evs demo_task = Some s' \<and> wt_phase s' = Ph_Live c \<and>
          wt_received s' = wt_received demo_task"
    by (auto simp: ws_task_new_def)
  moreover have "ws_task_run demo_codec demo_crate demo_task (demo_task\<lparr>wt_consumer := False\<rparr>)"
    by (rule ws_run_step [OF run, where ev = Ev_ConsumerGone]) (simp add: ws_task_step_def ws_task_new_def)
  from client_task_survives [OF demo_unlimited ok t this [unfolded new [of "bc_defaults demo_crate"]]]
  have "closing_step_ready demo_codec demo_crate (demo_task\<lparr>wt_consumer := False\<rparr>)" by simp
  then have "ws_task_step demo_codec demo_crate (0, 0) (Ev_Connect (At_Open 0)) (demo_task\<lparr>wt_consumer := False\<rparr>) =
     Some (demo_task\<lparr>wt_consumer := False, wt_phase := Ph_Finished (Inr ())\<rparr>)"
    by (simp add: closing_step_ready_def ws_task_new_def)
  ultimately show ?thesis by blast
qed


section \<open>De-duplication\<close>

abbreviation stamp :: "('m \<Rightarrow> u64) \<Rightarrow> 'm forward_event \<Rightarrow> u64 \<times> nat" where
  "stamp cache_key e \<equiv> (cache_key (fe_message e), fe_stored e)"

abbreviation insert_all :: "'c ttl_cache \<Rightarrow> ('m \<Rightarrow> u64) \<Rightarrow> 'm forward_event list \<Rightarrow> 'c \<Rightarrow> 'c" where
  "insert_all tc cache_key ds \<equiv> fold (\<lambda>d. tc_insert tc (cache_key (fe_message d)) DEDUP_TTL (fe_stored d)) ds"

lemma stream_forward_snoc:
  assumes "\<forall>x\<in>set xs. delivers x" and "delivers e"
  shows "stream_forward tc cache_key (xs @ [e]) seen =
    (let ds = stream_forward tc cache_key xs seen in
     if tc_contains tc (fe_checked e) (cache_key (fe_message e)) (insert_all tc cache_key ds seen) then ds else ds @ [e])"
  using assms
proof (induction xs arbitrary: seen)
  case Nil
  then show ?case by (auto simp: delivers_def)
next
  case (Cons x xs)
  have x: "fe_outcome x = Sent \<or> fe_outcome x = Delayed" using Cons.prems by (simp add: delivers_def)
  show ?case
  proof (cases "tc_contains tc (fe_checked x) (cache_key (fe_message x)) seen")
    case True
    with Cons show ?thesis by simp
  next
    case False
    with Cons.IH [of "tc_insert tc (cache_key (fe_message x)) DEDUP_TTL (fe_stored x) seen"] Cons.prems x
    show ?thesis by (auto simp: Let_def)
  qed
qed

lemma insert_all_after:
  "insert_all tc cache_key ds (tc_new tc cap) = tc_after tc cap DEDUP_TTL (map (stamp cache_key) ds)"
  by (simp add: tc_after_def fold_map o_def)

lemma ttl_contract_recent:
  assumes "ttl_contract tc" and "length h2 < cap" and "t < t0 + ttl"
  shows "tc_contains tc t k (tc_after tc cap ttl (h1 @ (k, t0) # h2))"
  using assms unfolding ttl_contract_def by blast

text \<open>C34: Each further message is forwarded after the ones before it, or dropped; it is dropped only if a message
  with the same hash was forwarded and stored at most ten seconds before the cache was asked, and it is
  dropped whenever such a one, stored less than ten seconds before, is among the last 100000 forwarded.
  The consumer's channel stays open and the cache behaves as documented.\<close>

theorem stream_dedup_exact:
  fixes tc :: "'c ttl_cache" and cache_key :: "'m \<Rightarrow> u64"
  defines "forwarded \<equiv> \<lambda>es. stream_forward tc cache_key es (tc_new tc DEDUP_CACHE_SIZE)"
  assumes "ttl_contract tc" and "\<forall>x\<in>set xs. delivers x" and "delivers e"
  shows "(forwarded (xs @ [e]) = forwarded xs @ [e] \<or>
      forwarded (xs @ [e]) = forwarded xs \<and>
      (\<exists>d\<in>set (forwarded xs). cache_key (fe_message d) = cache_key (fe_message e) \<and>
         fe_checked e \<le> fe_stored d + DEDUP_TTL)) \<and>
    ((\<exists>d\<in>set (drop (length (forwarded xs) - DEDUP_CACHE_SIZE) (forwarded xs)).
         cache_key (fe_message d) = cache_key (fe_message e) \<and> fe_checked e < fe_stored d + DEDUP_TTL) \<longrightarrow>
      forwarded (xs @ [e]) = forwarded xs)"
proof -
  let ?ds = "forwarded xs" and ?k = "cache_key (fe_message e)"
  let ?seen = "tc_after tc DEDUP_CACHE_SIZE DEDUP_TTL (map (stamp cache_key) ?ds)"
  have step: "forwarded (xs @ [e]) = (if tc_contains tc (fe_checked e) ?k ?seen then ?ds else ?ds @ [e])"
    unfolding forwarded_def insert_all_after [symmetric]
    using stream_forward_snoc [OF assms(3,4), of tc cache_key "tc_new tc DEDUP_CACHE_SIZE"] by (simp only: Let_def)
  have old: "\<exists>d\<in>set ?ds. cache_key (fe_message d) = ?k \<and> fe_checked e \<le> fe_stored d + DEDUP_TTL"
    if "tc_contains tc (fe_checked e) ?k ?seen"
  proof -
    from assms(2) that obtain t0 where "(?k, t0) \<in> set (map (stamp cache_key) ?ds)" "fe_checked e \<le> t0 + DEDUP_TTL"
      unfolding ttl_contract_def by blast
    then show ?thesis by force
  qed
  have recent: "tc_contains tc (fe_checked e) ?k ?seen"
    if d: "d \<in> set (drop (length ?ds - DEDUP_CACHE_SIZE) ?ds)"
      and same: "cache_key (fe_message d) = ?k" "fe_checked e < fe_stored d + DEDUP_TTL" for d
  proof -
    obtain ys zs where drop: "drop (length ?ds - DEDUP_CACHE_SIZE) ?ds = ys @ d # zs" using split_list [OF d] by blast
    have "length (drop (length ?ds - DEDUP_CACHE_SIZE) ?ds) \<le> DEDUP_CACHE_SIZE" by simp
    then have "length (ys @ d # zs) \<le> DEDUP_CACHE_SIZE" unfolding drop .
    then have short: "length (map (stamp cache_key) zs) < DEDUP_CACHE_SIZE" by simp
    obtain pre where pre: "?ds = pre @ d # zs"
      using append_take_drop_id [of "length ?ds - DEDUP_CACHE_SIZE" ?ds] unfolding drop
      by (metis append.assoc)
    have "map (stamp cache_key) ?ds = map (stamp cache_key) pre @ (?k, fe_stored d) # map (stamp cache_key) zs"
      using arg_cong [OF pre, of "map (stamp cache_key)"] same(1) by simp
    with ttl_contract_recent [OF assms(2) _ same(2)] show ?thesis by (simp only: short)
  qed
  show ?thesis using step old recent by (auto split: if_splits)
qed

text \<open>A cache that keeps the latest insertions behaves as documented.\<close>

definition list_cache :: "(nat \<times> (u64 \<times> nat) list) ttl_cache" where
  "list_cache =
     \<lparr>tc_new = (\<lambda>cap. (cap, [])),
      tc_contains = (\<lambda>now k (cap, es). \<exists>e\<in>set es. fst e = k \<and> now < snd e),
      tc_insert = (\<lambda>k ttl now (cap, es). (cap, take cap ((k, now + ttl) # es)))\<rparr>"

lemma list_cache_after:
  "tc_after list_cache cap ttl hist = (cap, take cap (rev (map (\<lambda>(k, t). (k, t + ttl)) hist)))"
proof (induction hist rule: rev_induct)
  case (snoc x hist)
  then show ?case by (cases x; cases cap) (simp_all add: tc_after_def list_cache_def take_Cons')
qed (simp add: tc_after_def list_cache_def)

lemma list_cache_contains: "tc_contains list_cache t k (cap, es) \<longleftrightarrow> (\<exists>e\<in>set es. fst e = k \<and> t < snd e)"
  by (simp add: list_cache_def)

lemma list_cache_contract: "ttl_contract list_cache"
proof -
  have "\<exists>t0. (k, t0) \<in> set hist \<and> t \<le> t0 + ttl"
    if c: "tc_contains list_cache t k (tc_after list_cache cap ttl hist)" for cap ttl hist t k
  proof -
    from c obtain e where "e \<in> set (take cap (rev (map (\<lambda>(k, t). (k, t + ttl)) hist)))" "fst e = k" "t < snd e"
      by (auto simp: list_cache_after list_cache_contains)
    then show ?thesis using set_take_subset [of cap "rev (map (\<lambda>(k, t). (k, t + ttl)) hist)"]
      by (force simp: less_imp_le)
  qed
  moreover have "tc_contains list_cache t k (tc_after list_cache cap ttl (h1 @ (k, t0) # h2))"
    if "length h2 < cap" and "t < t0 + ttl" for cap ttl h1 t0 h2 t k
    using that by (auto simp: list_cache_after list_cache_contains take_Cons' intro!: bexI [of _ "(k, t0 + ttl)"])
  ultimately show ?thesis unfolding ttl_contract_def by blast
qed

theorem stream_dedup_exact_witness:
  "stream_forward list_cache (\<lambda>m. m)
     [\<lparr>fe_checked = 1, fe_stored = 2, fe_message = 5, fe_outcome = Sent\<rparr>,
      \<lparr>fe_checked = 3, fe_stored = 4, fe_message = 5, fe_outcome = Delayed\<rparr>] (tc_new list_cache DEDUP_CACHE_SIZE) =
   [\<lparr>fe_checked = 1, fe_stored = 2, fe_message = 5, fe_outcome = Sent\<rparr>]"
proof -
  let ?d = "\<lparr>fe_checked = 1, fe_stored = 2, fe_message = 5 :: u64, fe_outcome = Sent\<rparr>"
  let ?e = "\<lparr>fe_checked = 3, fe_stored = 4, fe_message = 5 :: u64, fe_outcome = Delayed\<rparr>"
  have d: "stream_forward list_cache (\<lambda>m. m) [?d] (tc_new list_cache DEDUP_CACHE_SIZE) = [?d]"
    by (simp add: list_cache_def Let_def)
  have size: "Suc 0 - DEDUP_CACHE_SIZE = 0" by (simp add: DEDUP_CACHE_SIZE_def)
  have ttl: "3 < 2 + DEDUP_TTL" by (simp add: DEDUP_TTL_def secs_def)
  have all: "\<forall>x\<in>set [?d]. delivers x" and e: "delivers ?e" by (simp_all add: delivers_def)
  from stream_dedup_exact [OF list_cache_contract all e, of "\<lambda>m. m", THEN conjunct2, unfolded d]
  have "stream_forward list_cache (\<lambda>m. m) ([?d] @ [?e]) (tc_new list_cache DEDUP_CACHE_SIZE) = [?d]"
    by (rule mp) (use ttl in \<open>simp add: size\<close>)
  then show ?thesis by (simp only: append.simps)
qed

section \<open>Starting a client\<close>

lemma start_connections_eq:
  "endpoints \<noteq> [] \<Longrightarrow> start_connections endpoints is = Some (map (\<lambda>i. endpoints ! (i mod length endpoints)) is)"
  by (induction "is") auto

text \<open>A client that could be built starts its connections without a panic if its channel has a capacity;
  consecutive connections use the endpoints in turn.\<close>

lemma stream_client_starts:
  assumes "stream_client_new bc endpoints token num p timeout capacity = Inr sc" and "0 < capacity"
  obtains sc' and tasks :: "('u, 'b, 'json) ws_task list" where "stream_client_start sc = Some (sc', tasks)"
    "length tasks = num" "length (sc_ws_connections sc') = num"
    "\<forall>i<num. wt_endpoint (tasks ! i) = endpoints ! (i mod length endpoints) \<and>
       ch_endpoint (sc_ws_connections sc' ! i) = endpoints ! (i mod length endpoints)"
proof -
  from assms(1) have ne: "endpoints \<noteq> []"
    and sc: "sc_endpoints sc = endpoints" "sc_num_connections sc = num" "sc_ws_connections sc = []"
      "sc_channel_capacity sc = capacity"
    by (auto simp: stream_client_new_def split: if_splits)
  show ?thesis
    by (rule that) (use assms(2) ne sc in \<open>auto simp: stream_client_start_def start_connections_eq ws_task_new_def conn_handle_new_def\<close>)
qed

text \<open>The constructor rejects an empty list of endpoints and nothing else; a client without connections is built.\<close>

lemma stream_builder_checks:
  "(stream_builder_build bc b = Inl e \<longrightarrow> sb_endpoints b = []) \<and>
   (sb_endpoints b \<noteq> [] \<longrightarrow> is_ok (stream_builder_build bc (with_num_connections 0 b)))"
  by (auto simp: stream_builder_build_def stream_client_new_def with_num_connections_def split: if_splits)

text \<open>A request reaches every connection, or the ones before the first whose task has ended.\<close>

lemma send_to_connections_prefix:
  "send_to_connections msg q hs = (hs', r) \<Longrightarrow>
     (\<exists>n\<le>length hs. hs' = map (\<lambda>h. h\<lparr>ch_queue := ch_queue h @ [q]\<rparr>) (take n hs) @ drop n hs \<and>
        (\<forall>h\<in>set (take n hs). ch_open h) \<and>
        (r = Inr () \<and> n = length hs \<or> r = Inl (Message msg) \<and> n < length hs \<and> \<not> ch_open (hs ! n)))"
proof (induction hs arbitrary: hs')
  case (Cons h hs)
  show ?case
  proof (cases "ch_open h")
    case True
    with Cons.prems obtain hs1 where "send_to_connections msg q hs = (hs1, r)"
      "hs' = h\<lparr>ch_queue := ch_queue h @ [q]\<rparr> # hs1"
      by (auto simp: handle_send_def split: prod.splits)
    with Cons.IH [of hs1] True obtain n where "n \<le> length hs"
      "hs1 = map (\<lambda>h. h\<lparr>ch_queue := ch_queue h @ [q]\<rparr>) (take n hs) @ drop n hs"
      "\<forall>h\<in>set (take n hs). ch_open h"
      "r = Inr () \<and> n = length hs \<or> r = Inl (Message msg) \<and> n < length hs \<and> \<not> ch_open (hs ! n)" by blast
    with True \<open>hs' = _\<close> show ?thesis by (intro exI [of _ "Suc n"]) auto
  next
    case False
    with Cons.prems show ?thesis by (intro exI [of _ 0]) (auto simp: handle_send_def)
  qed
qed simp

end
