(* ===== verification/Hermes_Client.thy ===== *)
theory Hermes_Client
  imports Client_Stream
begin

text \<open>
  The Hermes-compatible interface: the types of \<^verbatim>\<open>sdk/rust/protocol/src/hermes.rs\<close> and the client in
  \<^verbatim>\<open>sdk/rust/client/src/hermes_ws_connection.rs\<close>, \<^verbatim>\<open>resilient_hermes_ws_connection.rs\<close> and
  \<^verbatim>\<open>hermes_client.rs\<close>.  A price id is the string that the caller wrote; JSON, the \<^verbatim>\<open>hex\<close> and
  \<^verbatim>\<open>url\<close> crates and the HTTP client are arguments.
\<close>

section \<open>Price ids (hermes.rs)\<close>

type_synonym price_id_input = string

definition is_ascii_hexdigit :: "char \<Rightarrow> bool" where
  "is_ascii_hexdigit c \<longleftrightarrow>
     (let n = of_char c :: nat in 48 \<le> n \<and> n \<le> 57 \<or> 65 \<le> n \<and> n \<le> 70 \<or> 97 \<le> n \<and> n \<le> 102)"

definition price_id_normalize :: "price_id_input \<Rightarrow> price_id_input" where
  "price_id_normalize s =
     (case strip_prefix ''0x'' s of
        Some r \<Rightarrow> r
      | None \<Rightarrow> (case strip_prefix ''0X'' s of Some r \<Rightarrow> r | None \<Rightarrow> s))"

definition price_id_is_valid :: "price_id_input \<Rightarrow> bool" where
  "price_id_is_valid s \<longleftrightarrow>
     (let n = price_id_normalize s in length n = 64 \<and> list_all is_ascii_hexdigit n)"

text \<open>The argument is \<^verbatim>\<open>hex::decode\<close>.\<close>

definition price_id_parse :: "(string \<Rightarrow> string + bytes) \<Rightarrow> price_id_input \<Rightarrow> anyhow + bytes" where
  "price_id_parse hex_decode s =
     (if \<not> price_id_is_valid s then Inl (Message (''Invalid price id: '' @ s))
      else and_then (map_err (\<lambda>e. Message (''Failed to decode price id: '' @ s @ '', error: '' @ e))
             (hex_decode (price_id_normalize s))) (\<lambda>bs.
           if length bs = 32 then Inr bs else Inl (Message (''Invalid price length: '' @ s))))"

section \<open>Messages (hermes.rs)\<close>

datatype asset_type =
    AT_Crypto | AT_Fx | AT_Equity | AT_Metal | AT_Rates | AT_CryptoRedemptionRate | AT_Commodities
  | AT_CryptoIndex | AT_CryptoNav | AT_Eco | AT_Kalshi

fun asset_type_display :: "asset_type \<Rightarrow> string" where
  "asset_type_display AT_Crypto = ''crypto''"
| "asset_type_display AT_Fx = ''fx''"
| "asset_type_display AT_Equity = ''equity''"
| "asset_type_display AT_Metal = ''metal''"
| "asset_type_display AT_Rates = ''rates''"
| "asset_type_display AT_CryptoRedemptionRate = ''crypto_redemption_rate''"
| "asset_type_display AT_Commodities = ''commodities''"
| "asset_type_display AT_CryptoIndex = ''crypto_index''"
| "asset_type_display AT_CryptoNav = ''crypto_nav''"
| "asset_type_display AT_Eco = ''eco''"
| "asset_type_display AT_Kalshi = ''kalshi''"

record rpc_price =
  rpc_conf :: u64
  rpc_expo :: i32
  rpc_price_value :: i64
  rpc_publish_time :: i64

record ws_price_feed_metadata =
  wpm_slot :: u64
  wpm_emitter_chain :: u16
  wpm_price_service_receive_time :: i64
  wpm_prev_publish_time :: i64

record ws_price_feed =
  wpf_id :: string
  wpf_price :: rpc_price
  wpf_ema_price :: rpc_price
  wpf_metadata :: "ws_price_feed_metadata option"
  wpf_vaa :: "string option"

datatype hermes_server_response = HR_Success | HR_Err string

datatype hermes_server_message = HM_Response hermes_server_response | HM_PriceUpdate ws_price_feed

record price_feed_attributes =
  pfa_asset_type :: string
  pfa_base :: "string option"
  pfa_cms_symbol :: "string option"
  pfa_country :: "string option"
  pfa_cqs_symbol :: "string option"
  pfa_description :: string
  pfa_display_symbol :: string
  pfa_generic_symbol :: "string option"
  pfa_nasdaq_symbol :: "string option"
  pfa_publish_interval :: "string option"
  pfa_quote_currency :: "string option"
  pfa_schedule :: "string option"
  pfa_symbol :: string
  pfa_min_channel :: api_channel

record market_hours =
  mh_is_open :: bool
  mh_next_open :: "i64 option"
  mh_next_close :: "i64 option"

record price_feed_metadata =
  pfm_id :: string
  pfm_market_hours :: "market_hours option"
  pfm_attributes :: price_feed_attributes

record subscribe_options =
  so_verbose :: bool
  so_binary :: bool
  so_allow_out_of_order :: bool
  so_ignore_invalid_price_ids :: bool

datatype hermes_client_message =
    Hermes_Subscribe "price_id_input list" subscribe_options
  | Hermes_Unsubscribe "price_id_input list"

section \<open>One connection (hermes_ws_connection.rs)\<close>

record 'u hermes_conn = "'u ws_conn" +
  hc_channel :: api_channel

text \<open>Third-party code: JSON, header values, and the query of a URL.\<close>

record 'u hermes_codec =
  message_to_json :: "hermes_client_message \<Rightarrow> anyhow + string"
  message_from_json :: "string \<Rightarrow> anyhow + hermes_server_message"
  hermes_header_ok :: "string \<Rightarrow> bool"
  append_query_pair :: "string \<Rightarrow> string \<Rightarrow> 'u \<Rightarrow> 'u"

definition hermes_ws_new :: "'u \<Rightarrow> string \<Rightarrow> api_channel \<Rightarrow> 'u hermes_conn" where
  "hermes_ws_new endpoint token channel =
     \<lparr>wc_endpoint = endpoint, wc_access_token = token, wc_started = False, wc_url = None, wc_budget = 0,
      wc_sent = [], hc_channel = channel\<rparr>"

definition hermes_ws_start :: "'u hermes_codec \<Rightarrow> ws_attempt \<Rightarrow> 'u hermes_conn \<Rightarrow> anyhow + 'u hermes_conn" where
  "hermes_ws_start cd attempt c =
     (let url = append_query_pair cd ''channel'' (channel_display (hc_channel c)) (wc_endpoint c);
          header_ok = hermes_header_ok cd (''Bearer '' @ wc_access_token c)
      in case attempt of
           At_BadRequest e \<Rightarrow> Inl (Message e)
         | At_Failed e \<Rightarrow>
             if header_ok then Inl (Message e) else Inl (Message ''Invalid access token header value'')
         | At_Open n \<Rightarrow>
             if header_ok then Inr (c\<lparr>wc_started := True, wc_url := Some url, wc_budget := n\<rparr>)
             else Inl (Message ''Invalid access token header value''))"

fun hermes_message_of_frame :: "'u hermes_codec \<Rightarrow> ws_frame \<Rightarrow> anyhow + hermes_server_message option" where
  "hermes_message_of_frame cd (Text_Frame text) = map_ok Some (message_from_json cd text)"
| "hermes_message_of_frame cd _ = Inr None"

definition hermes_send_message ::
  "'u hermes_codec \<Rightarrow> hermes_client_message \<Rightarrow> 'u hermes_conn \<Rightarrow> anyhow + 'u hermes_conn" where
  "hermes_send_message cd m = ws_send_text ''Hermes WebSocket connection not started'' (message_to_json cd m)"

section \<open>The connection task (resilient_hermes_ws_connection.rs)\<close>

fun remove_ids_from_subscription :: "price_id_input list \<Rightarrow> hermes_client_message \<Rightarrow> hermes_client_message" where
  "remove_ids_from_subscription ids_to_remove (Hermes_Subscribe ids opts) =
     Hermes_Subscribe (filter (\<lambda>i. i \<notin> set ids_to_remove) ids) opts"
| "remove_ids_from_subscription ids_to_remove (Hermes_Unsubscribe ids) = Hermes_Unsubscribe ids"

fun subscription_ids :: "hermes_client_message \<Rightarrow> price_id_input list" where
  "subscription_ids (Hermes_Subscribe ids opts) = ids"
| "subscription_ids (Hermes_Unsubscribe ids) = ids"

fun is_subscription_empty :: "hermes_client_message \<Rightarrow> bool" where
  "is_subscription_empty (Hermes_Subscribe ids opts) \<longleftrightarrow> ids = []"
| "is_subscription_empty (Hermes_Unsubscribe ids) \<longleftrightarrow> ids = []"

fun is_subscribe :: "hermes_client_message \<Rightarrow> bool" where
  "is_subscribe (Hermes_Subscribe ids opts) \<longleftrightarrow> True"
| "is_subscribe (Hermes_Unsubscribe ids) \<longleftrightarrow> False"

text \<open>The bookkeeping of \<^verbatim>\<open>handle_request\<close>, then the request goes out.\<close>

definition hermes_track :: "hermes_client_message \<Rightarrow> hermes_client_message list \<Rightarrow> hermes_client_message list" where
  "hermes_track request subs =
     (let ids = subscription_ids request;
          subs = map (remove_ids_from_subscription ids) subs;
          subs = filter (\<lambda>sub. \<not> is_subscription_empty sub) subs
      in if is_subscribe request then subs @ [request] else subs)"

definition hermes_handle_request ::
  "'u hermes_codec \<Rightarrow> hermes_client_message \<Rightarrow> 'u hermes_conn \<Rightarrow> hermes_client_message list \<Rightarrow>
   hermes_client_message list \<times> (anyhow + 'u hermes_conn)" where
  "hermes_handle_request cd request c subs = (hermes_track request subs, hermes_send_message cd request c)"

record ('u, 'b) hermes_task =
  ht_endpoint :: 'u
  ht_access_token :: string
  ht_channel :: api_channel
  ht_subscriptions :: "hermes_client_message list"
  ht_backoff :: 'b
  ht_timeout :: nat
  ht_phase :: "'u hermes_conn task_phase"
  ht_consumer :: bool
  ht_delivered :: "hermes_server_message list"
  ht_received :: "hermes_client_message list"

definition hermes_task_new :: "'u \<Rightarrow> string \<Rightarrow> api_channel \<Rightarrow> 'b \<Rightarrow> nat \<Rightarrow> ('u, 'b) hermes_task" where
  "hermes_task_new endpoint token channel backoff timeout =
     \<lparr>ht_endpoint = endpoint, ht_access_token = token, ht_channel = channel, ht_subscriptions = [],
      ht_backoff = backoff, ht_timeout = timeout, ht_phase = Ph_Top, ht_consumer = True,
      ht_delivered = [], ht_received = []\<rparr>"

definition hermes_session_failed ::
  "'b backoff_crate \<Rightarrow> nat \<times> nat \<Rightarrow> ('u, 'b) hermes_task \<Rightarrow> ('u, 'b) hermes_task" where
  "hermes_session_failed bc elapsed s =
     (let (phase, b) = retry_phase bc
            ''Max retries reached for Hermes WebSocket connection'' (ht_timeout s) elapsed (ht_backoff s)
      in s\<lparr>ht_phase := phase, ht_backoff := b\<rparr>)"

definition hermes_connect ::
  "'u hermes_codec \<Rightarrow> 'b backoff_crate \<Rightarrow> nat \<times> nat \<Rightarrow> ws_attempt \<Rightarrow> ('u, 'b) hermes_task \<Rightarrow>
   ('u, 'b) hermes_task" where
  "hermes_connect cd bc elapsed attempt s =
     (case and_then (hermes_ws_start cd attempt (hermes_ws_new (ht_endpoint s) (ht_access_token s) (ht_channel s)))
             (send_all (hermes_send_message cd) (ht_subscriptions s)) of
        Inl e \<Rightarrow> hermes_session_failed bc elapsed s
      | Inr c \<Rightarrow> s\<lparr>ht_phase := Ph_Live c\<rparr>)"

text \<open>The arms of \<^verbatim>\<open>select!\<close>; there is none for a consumer that has gone.\<close>

fun hermes_session_step ::
  "'u hermes_codec \<Rightarrow> 'b backoff_crate \<Rightarrow> nat \<times> nat \<Rightarrow> hermes_client_message client_event \<Rightarrow> 'u hermes_conn \<Rightarrow>
   ('u, 'b) hermes_task \<Rightarrow> ('u, 'b) hermes_task option" where
  "hermes_session_step cd bc elapsed (Ev_StreamError e) c s = Some (hermes_session_failed bc elapsed s)"
| "hermes_session_step cd bc elapsed (Ev_Frame f) c s =
     (case hermes_message_of_frame cd f of
        Inl e \<Rightarrow> Some (hermes_session_failed bc elapsed s)
      | Inr None \<Rightarrow> Some s
      | Inr (Some m) \<Rightarrow>
          if ht_consumer s then Some (s\<lparr>ht_delivered := ht_delivered s @ [m]\<rparr>)
          else Some (hermes_session_failed bc elapsed s))"
| "hermes_session_step cd bc elapsed Ev_StreamEnd c s = Some (hermes_session_failed bc elapsed s)"
| "hermes_session_step cd bc elapsed Ev_Timeout c s = Some (hermes_session_failed bc elapsed s)"
| "hermes_session_step cd bc elapsed (Ev_Request q) c s =
     (let (subs, r) = hermes_handle_request cd q c (ht_subscriptions s);
          s = s\<lparr>ht_subscriptions := subs, ht_received := ht_received s @ [q]\<rparr>
      in case r of
           Inl e \<Rightarrow> Some (hermes_session_failed bc elapsed s)
         | Inr c \<Rightarrow> Some (s\<lparr>ht_phase := Ph_Live c\<rparr>))"
| "hermes_session_step cd bc elapsed _ c s = None"

definition hermes_task_step ::
  "'u hermes_codec \<Rightarrow> 'b backoff_crate \<Rightarrow> nat \<times> nat \<Rightarrow> hermes_client_message client_event \<Rightarrow>
   ('u, 'b) hermes_task \<Rightarrow> ('u, 'b) hermes_task option" where
  "hermes_task_step cd bc elapsed ev s =
     (case (ht_phase s, ev) of
        (_, Ev_ConsumerGone) \<Rightarrow> Some (s\<lparr>ht_consumer := False\<rparr>)
      | (Ph_Top, Ev_Connect attempt) \<Rightarrow> Some (hermes_connect cd bc elapsed attempt s)
      | (Ph_Live c, ev) \<Rightarrow> hermes_session_step cd bc elapsed ev c s
      | (Ph_Sleeping d, Ev_Wake) \<Rightarrow> Some (s\<lparr>ht_phase := Ph_Top\<rparr>)
      | _ \<Rightarrow> None)"

inductive hermes_task_run ::
  "'u hermes_codec \<Rightarrow> 'b backoff_crate \<Rightarrow> ('u, 'b) hermes_task \<Rightarrow> ('u, 'b) hermes_task \<Rightarrow> bool"
  for cd :: "'u hermes_codec" and bc :: "'b backoff_crate" and s0 :: "('u, 'b) hermes_task" where
  hermes_run_start: "hermes_task_run cd bc s0 s0"
| hermes_run_step: "hermes_task_run cd bc s0 s \<Longrightarrow> hermes_task_step cd bc elapsed ev s = Some s' \<Longrightarrow>
    hermes_task_run cd bc s0 s'"

section \<open>The client (hermes_client.rs)\<close>

definition WS_URL :: string where "WS_URL = ''/hermes/ws''"
definition METADATA_URL :: string where "METADATA_URL = ''/hermes/v2/price_feeds''"

definition HERMES_DEFAULT_ENDPOINTS :: "string list" where
  "HERMES_DEFAULT_ENDPOINTS =
     [''wss://pyth-0.dourolabs.app'', ''wss://pyth-1.dourolabs.app'', ''wss://pyth-2.dourolabs.app'']"

definition HERMES_DEFAULT_NUM_CONNECTIONS :: nat where "HERMES_DEFAULT_NUM_CONNECTIONS = 6"

text \<open>The \<^verbatim>\<open>url\<close> crate: the parser, the path, and the scheme (\<^verbatim>\<open>set_scheme\<close> may refuse).\<close>

record 'u url_ops =
  url_parse :: "string \<Rightarrow> 'u option"
  url_set_path :: "string \<Rightarrow> 'u \<Rightarrow> 'u"
  url_scheme :: "'u \<Rightarrow> string"
  url_set_scheme :: "string \<Rightarrow> 'u \<Rightarrow> 'u option"

record ('u, 'b) hermes_client =
  hcl_endpoints :: "'u list"
  hcl_access_token :: string
  hcl_channel :: api_channel
  hcl_num_connections :: nat
  hcl_connections :: "('u, hermes_client_message) conn_handle list"
  hcl_backoff :: 'b
  hcl_timeout :: nat
  hcl_channel_capacity :: nat

definition hermes_client_new ::
  "'b backoff_crate \<Rightarrow> 'u list \<Rightarrow> string \<Rightarrow> api_channel \<Rightarrow> nat \<Rightarrow> backoff_params \<Rightarrow> nat \<Rightarrow> nat \<Rightarrow>
   anyhow + ('u, 'b) hermes_client" where
  "hermes_client_new bc endpoints token channel num backoff timeout capacity =
     (if endpoints = [] then Inl (Message ''At least one endpoint must be provided'')
      else Inr \<lparr>hcl_endpoints = endpoints, hcl_access_token = token, hcl_channel = channel,
                hcl_num_connections = num, hcl_connections = [], hcl_backoff = exponential_backoff bc backoff,
                hcl_timeout = timeout, hcl_channel_capacity = capacity\<rparr>)"

definition hermes_client_start ::
  "'u url_ops \<Rightarrow> ('u, 'b) hermes_client \<Rightarrow> (('u, 'b) hermes_client \<times> ('u, 'b) hermes_task list) option" where
  "hermes_client_start uo hc =
     (if hcl_channel_capacity hc = 0 then None
      else map_option (\<lambda>us.
        (hc\<lparr>hcl_connections := hcl_connections hc @ map (\<lambda>u. conn_handle_new (url_set_path uo WS_URL u)) us\<rparr>,
         map (\<lambda>u. hermes_task_new (url_set_path uo WS_URL u) (hcl_access_token hc) (hcl_channel hc)
                    (hcl_backoff hc) (hcl_timeout hc)) us))
        (start_connections (hcl_endpoints hc) [0..<hcl_num_connections hc]))"

text \<open>The forwarding task; a consumer that closes its channel while it is full does not end the loop.\<close>

fun hermes_forward ::
  "'c ttl_cache \<Rightarrow> ('m \<Rightarrow> u64) \<Rightarrow> 'm forward_event list \<Rightarrow> 'c \<Rightarrow> 'm forward_event list" where
  "hermes_forward tc cache_key [] seen = []"
| "hermes_forward tc cache_key (e # es) seen =
     (let k = cache_key (fe_message e) in
      if tc_contains tc (fe_checked e) k seen then hermes_forward tc cache_key es seen
      else let seen = tc_insert tc k DEDUP_TTL (fe_stored e) seen in
        (case fe_outcome e of
           Sent \<Rightarrow> e # hermes_forward tc cache_key es seen
         | Delayed \<Rightarrow> e # hermes_forward tc cache_key es seen
         | Closed_While_Full \<Rightarrow> hermes_forward tc cache_key es seen
         | Closed \<Rightarrow> []))"

definition hermes_client_send ::
  "hermes_client_message \<Rightarrow> ('u, 'b) hermes_client \<Rightarrow> ('u, 'b) hermes_client \<times> (anyhow + unit)" where
  "hermes_client_send m hc =
     (let (hs, res) = send_to_connections ''Failed to send Hermes client message'' m (hcl_connections hc)
      in (hc\<lparr>hcl_connections := hs\<rparr>, res))"

text \<open>
  \<^verbatim>\<open>fetch_metadata\<close>: the endpoints in turn; a failed request or an unreadable answer goes on to the next
  one, a URL whose scheme cannot be changed ends the call.
\<close>

definition metadata_url :: "'u url_ops \<Rightarrow> 'u \<Rightarrow> anyhow + 'u" where
  "metadata_url uo endpoint =
     (let url = url_set_path uo METADATA_URL endpoint in
      if url_scheme uo url = ''ws''
      then ok_or (Message ''Unable to set metadata URL scheme to http'') (url_set_scheme uo ''http'' url)
      else if url_scheme uo url = ''wss''
      then ok_or (Message ''Unable to set metadata URL scheme to https'') (url_set_scheme uo ''https'' url)
      else Inr url)"

fun fetch_metadata ::
  "'u url_ops \<Rightarrow> ('u \<Rightarrow> string + string + price_feed_metadata list) \<Rightarrow> 'u list \<Rightarrow> anyhow + price_feed_metadata list" where
  "fetch_metadata uo get [] = Inl (Message ''Failed to fetch metadata from any endpoint'')"
| "fetch_metadata uo get (endpoint # endpoints) =
     and_then (metadata_url uo endpoint) (\<lambda>url.
       case get url of
         Inl e \<Rightarrow> fetch_metadata uo get endpoints
       | Inr (Inl e) \<Rightarrow> fetch_metadata uo get endpoints
       | Inr (Inr feeds) \<Rightarrow> Inr feeds)"

record 'u hermes_builder =
  hb_endpoints :: "'u list"
  hb_access_token :: string
  hb_channel :: api_channel
  hb_num_connections :: nat
  hb_backoff :: backoff_params
  hb_timeout :: nat
  hb_channel_capacity :: nat

definition hermes_builder_new :: "'u url_ops \<Rightarrow> 'b backoff_crate \<Rightarrow> string \<Rightarrow> 'u hermes_builder option" where
  "hermes_builder_new uo bc token =
     map_option (\<lambda>endpoints.
       \<lparr>hb_endpoints = endpoints, hb_access_token = token, hb_channel = Ch_FixedRate RATE_1000_MS,
        hb_num_connections = HERMES_DEFAULT_NUM_CONNECTIONS, hb_backoff = backoff_builder_default bc,
        hb_timeout = DEFAULT_TIMEOUT, hb_channel_capacity = CHANNEL_CAPACITY\<rparr>)
     (those (map (url_parse uo) HERMES_DEFAULT_ENDPOINTS))"

definition hermes_with_endpoints :: "'u list \<Rightarrow> 'u hermes_builder \<Rightarrow> 'u hermes_builder" where
  "hermes_with_endpoints es b = b\<lparr>hb_endpoints := es\<rparr>"

definition hermes_with_channel :: "api_channel \<Rightarrow> 'u hermes_builder \<Rightarrow> 'u hermes_builder" where
  "hermes_with_channel c b = b\<lparr>hb_channel := c\<rparr>"

definition hermes_with_num_connections :: "nat \<Rightarrow> 'u hermes_builder \<Rightarrow> 'u hermes_builder" where
  "hermes_with_num_connections n b = b\<lparr>hb_num_connections := n\<rparr>"

definition hermes_with_backoff :: "backoff_params \<Rightarrow> 'u hermes_builder \<Rightarrow> 'u hermes_builder" where
  "hermes_with_backoff p b = b\<lparr>hb_backoff := p\<rparr>"

definition hermes_with_timeout :: "nat \<Rightarrow> 'u hermes_builder \<Rightarrow> 'u hermes_builder" where
  "hermes_with_timeout d b = b\<lparr>hb_timeout := d\<rparr>"

definition hermes_with_channel_capacity :: "nat \<Rightarrow> 'u hermes_builder \<Rightarrow> 'u hermes_builder" where
  "hermes_with_channel_capacity n b = b\<lparr>hb_channel_capacity := n\<rparr>"

definition hermes_builder_build :: "'b backoff_crate \<Rightarrow> 'u hermes_builder \<Rightarrow> anyhow + ('u, 'b) hermes_client" where
  "hermes_builder_build bc b =
     hermes_client_new bc (hb_endpoints b) (hb_access_token b) (hb_channel b) (hb_num_connections b)
       (hb_backoff b) (hb_timeout b) (hb_channel_capacity b)"

section \<open>Price ids are read without regard to spelling\<close>

text \<open>The value of a hexadecimal digit, and of a string of digit pairs.\<close>

definition hex_value :: "char \<Rightarrow> nat" where
  "hex_value c = (let n = of_char c in if n \<le> 57 then n - 48 else if n \<le> 70 then n - 55 else n - 87)"

fun hex_bytes :: "string \<Rightarrow> bytes" where
  "hex_bytes (a # b # s) = word_of_nat (16 * hex_value a + hex_value b) # hex_bytes s"
| "hex_bytes s = []"

text \<open>The contract of \<^verbatim>\<open>hex::decode\<close>: pairs of digits of either case are decoded.\<close>

definition hex_contract :: "(string \<Rightarrow> string + bytes) \<Rightarrow> bool" where
  "hex_contract hex_decode \<longleftrightarrow>
     (\<forall>s. even (length s) \<and> list_all is_ascii_hexdigit s \<longrightarrow> hex_decode s = Inr (hex_bytes s))"

definition ascii_lower :: "char \<Rightarrow> char" where
  "ascii_lower c = (let n = of_char c :: nat in if 65 \<le> n \<and> n \<le> 90 then char_of (n + 32) else c)"

lemma length_hex_bytes: "length (hex_bytes s) = length s div 2"
  by (induction s rule: hex_bytes.induct) auto

lemma of_char_ascii_lower:
  "(of_char (ascii_lower c) :: nat) = (let n = of_char c in if 65 \<le> n \<and> n \<le> 90 then n + 32 else n)"
  by (simp add: ascii_lower_def Let_def of_char_of)

lemma hexdigit_lower: "is_ascii_hexdigit (ascii_lower c) \<longleftrightarrow> is_ascii_hexdigit c"
  by (auto simp: is_ascii_hexdigit_def of_char_ascii_lower Let_def)

lemma hex_value_lower: "is_ascii_hexdigit c \<Longrightarrow> hex_value (ascii_lower c) = hex_value c"
  by (auto simp: is_ascii_hexdigit_def hex_value_def of_char_ascii_lower Let_def)

lemma hex_bytes_lower: "list_all is_ascii_hexdigit s \<Longrightarrow> hex_bytes (map ascii_lower s) = hex_bytes s"
  by (induction s rule: hex_bytes.induct) (auto simp: hex_value_lower)

lemma price_id_parse_Inr:
  assumes "hex_contract hex_decode"
  shows "price_id_parse hex_decode s = Inr bs \<longleftrightarrow>
    price_id_is_valid s \<and> bs = hex_bytes (price_id_normalize s)"
proof (cases "price_id_is_valid s")
  case True
  then have "length (price_id_normalize s) = 64" "list_all is_ascii_hexdigit (price_id_normalize s)"
    by (simp_all add: price_id_is_valid_def Let_def)
  with assms have "hex_decode (price_id_normalize s) = Inr (hex_bytes (price_id_normalize s))"
    by (simp add: hex_contract_def)
  with True \<open>length _ = 64\<close> show ?thesis by (auto simp: price_id_parse_def length_hex_bytes)
qed (simp add: price_id_parse_def)

lemma not_prefixed:
  assumes "list_all is_ascii_hexdigit n"
  shows "price_id_normalize n = n"
proof -
  have "\<not> is_ascii_hexdigit CHR ''x''" "\<not> is_ascii_hexdigit CHR ''X''" by (simp_all add: is_ascii_hexdigit_def)
  with assms show ?thesis
    by (cases n rule: hex_bytes.cases) (auto simp: price_id_normalize_def strip_prefix_def)
qed

lemma price_id_prefixed:
  "price_id_normalize (''0x'' @ n) = n" "price_id_normalize (''0X'' @ n) = n"
  by (simp_all add: price_id_normalize_def strip_prefix_def)

lemma price_id_parse_spelling:
  assumes "hex_contract hex_decode" and "length n = 64" and "list_all is_ascii_hexdigit n"
  shows "price_id_parse hex_decode n = Inr (hex_bytes n) \<and> length (hex_bytes n) = 32 \<and>
    price_id_parse hex_decode (''0x'' @ n) = Inr (hex_bytes n) \<and>
    price_id_parse hex_decode (''0X'' @ n) = Inr (hex_bytes n) \<and>
    price_id_parse hex_decode (map ascii_lower n) = Inr (hex_bytes n)"
proof -
  have lower: "list_all is_ascii_hexdigit (map ascii_lower n)"
    using assms(3) by (induction n) (auto simp: hexdigit_lower)
  show ?thesis
    unfolding price_id_parse_Inr [OF assms(1)]
    using assms(2,3) lower
    by (simp add: price_id_is_valid_def Let_def price_id_prefixed [simplified] not_prefixed length_hex_bytes hex_bytes_lower)
qed

section \<open>Restoring subscriptions\<close>

text \<open>
  The table of a server that identifies price ids by a key: the options of each subscribed id.
\<close>

fun hermes_server ::
  "(price_id_input \<Rightarrow> 'k) \<Rightarrow> hermes_client_message \<Rightarrow> ('k \<rightharpoonup> subscribe_options) \<Rightarrow> ('k \<rightharpoonup> subscribe_options)" where
  "hermes_server key (Hermes_Subscribe ids opts) table = (\<lambda>k. if k \<in> key ` set ids then Some opts else table k)"
| "hermes_server key (Hermes_Unsubscribe ids) table = (\<lambda>k. if k \<in> key ` set ids then None else table k)"

definition ids_within :: "price_id_input set \<Rightarrow> hermes_client_message \<Rightarrow> 's \<Rightarrow> bool" where
  "ids_within U m subs \<longleftrightarrow> set (subscription_ids m) \<subseteq> U"

definition subscribes_within :: "price_id_input set \<Rightarrow> hermes_client_message list \<Rightarrow> bool" where
  "subscribes_within U subs \<longleftrightarrow> (\<forall>m\<in>set subs. is_subscribe m \<and> set (subscription_ids m) \<subseteq> U)"

lemma hermes_server_removed:
  assumes "inj_on key U" and "subscribes_within U subs" and "set ids \<subseteq> U"
  shows "fold (hermes_server key) (map (remove_ids_from_subscription ids) subs) t =
    (\<lambda>k. if k \<in> key ` set ids then t k else fold (hermes_server key) subs t k)"
  using assms(2)
proof (induction subs rule: rev_induct)
  case (snoc m subs)
  obtain js opts where m: "m = Hermes_Subscribe js opts" "set js \<subseteq> U"
    using snoc.prems by (cases m) (auto simp: subscribes_within_def)
  have "k \<in> key ` set (filter (\<lambda>i. i \<notin> set ids) js) \<longleftrightarrow> k \<in> key ` set js \<and> k \<notin> key ` set ids" for k
    using assms(1,3) m(2) by (auto simp: inj_on_def image_iff subset_iff)
  with snoc m(1) show ?case by (auto simp: subscribes_within_def fun_eq_iff)
qed auto

lemma hermes_server_nonempty:
  "list_all is_subscribe subs \<Longrightarrow>
     fold (hermes_server key) (filter (\<lambda>m. \<not> is_subscription_empty m) subs) t = fold (hermes_server key) subs t"
proof (induction subs arbitrary: t)
  case (Cons m subs)
  then show ?case by (cases m) (auto simp: fun_eq_iff)
qed simp

lemma is_subscribe_removed [simp]: "is_subscribe (remove_ids_from_subscription ids m) = is_subscribe m"
  by (cases m) auto

lemma hermes_track_within:
  assumes "subscribes_within U subs" and "ids_within U m subs"
  shows "subscribes_within U (hermes_track m subs)"
proof -
  have "set (subscription_ids (remove_ids_from_subscription ids x)) \<subseteq> set (subscription_ids x)" for ids x
    by (cases x) auto
  with assms show ?thesis
    by (fastforce simp: subscribes_within_def ids_within_def hermes_track_def Let_def)
qed

lemma hermes_resubscription:
  assumes "inj_on key U"
  shows "resubscription (hermes_server key) Map.empty hermes_track (\<lambda>m. m) (ids_within U) (subscribes_within U)"
proof (unfold_locales, goal_cases)
  case 1 show ?case by (simp add: subscribes_within_def)
next
  case (2 subs r) then show ?case by (rule hermes_track_within)
next
  case (3 subs r)
  let ?ids = "subscription_ids r"
  have sub: "list_all is_subscribe (map (remove_ids_from_subscription ?ids) subs)"
    using 3(1) by (auto simp: subscribes_within_def list_all_iff)
  have ids: "set ?ids \<subseteq> U" using 3(2) by (simp add: ids_within_def)
  have kept: "fold (hermes_server key)
      (filter (\<lambda>m. \<not> is_subscription_empty m) (map (remove_ids_from_subscription ?ids) subs)) Map.empty =
    (\<lambda>k. if k \<in> key ` set ?ids then None else fold (hermes_server key) subs Map.empty k)"
    by (rule trans [OF hermes_server_nonempty [OF sub] hermes_server_removed [OF assms 3(1) ids]])
  show ?case
  proof (cases r)
    case (Hermes_Subscribe js opts)
    with kept show ?thesis by (simp add: hermes_track_def fun_eq_iff)
  next
    case (Hermes_Unsubscribe js)
    with kept show ?thesis by (simp add: hermes_track_def)
  qed
qed

text \<open>In particular for the ids as they are spelled.\<close>

interpretation hermes_replay: resubscription "hermes_server (\<lambda>i. i)" Map.empty hermes_track "\<lambda>m. m"
  "ids_within UNIV" "subscribes_within UNIV"
  by (rule hermes_resubscription) simp

lemma hermes_send_message_Inr:
  assumes "hermes_send_message cd m c = Inr c'"
  shows "\<exists>t. message_to_json cd m = Inr t \<and> wc_sent c' = wc_sent c @ [Text_Frame t]"
  using assms unfolding hermes_send_message_def by (rule ws_send_text_Inr) blast

lemma hermes_session_failed_fields [simp]:
  "ht_subscriptions (hermes_session_failed bc elapsed s) = ht_subscriptions s"
  "ht_received (hermes_session_failed bc elapsed s) = ht_received s"
  "ht_timeout (hermes_session_failed bc elapsed s) = ht_timeout s"
  "live_frames (ht_phase (hermes_session_failed bc elapsed s)) = None"
  by (auto simp: hermes_session_failed_def dest: retry_phase_frames split: prod.split)

lemma hermes_connect_frames:
  "ht_subscriptions (hermes_connect cd bc elapsed attempt s) = ht_subscriptions s \<and>
   ht_received (hermes_connect cd bc elapsed attempt s) = ht_received s \<and>
   (live_frames (ht_phase (hermes_connect cd bc elapsed attempt s)) = None \<or>
    (\<exists>fs. live_frames (ht_phase (hermes_connect cd bc elapsed attempt s)) = Some fs \<and>
       encodes (message_to_json cd) (map (\<lambda>m. m) (ht_subscriptions s)) fs))"
proof -
  have "encodes (message_to_json cd) (ht_subscriptions s) (wc_sent c)"
    if start: "hermes_ws_start cd attempt (hermes_ws_new (ht_endpoint s) (ht_access_token s) (ht_channel s)) = Inr c0"
      and send: "send_all (hermes_send_message cd) (ht_subscriptions s) c0 = Inr c" for c0 c
  proof -
    have "wc_sent c0 = []"
      using start by (auto simp: hermes_ws_start_def hermes_ws_new_def Let_def split: ws_attempt.splits if_splits)
    with send_all_encodes [OF _ send] hermes_send_message_Inr [of cd] show ?thesis by auto
  qed
  then show ?thesis by (auto simp: hermes_connect_def split: sum.split)
qed

lemma hermes_session_quiet:
  assumes "hermes_session_step cd bc elapsed ev c s = Some s'" and "\<forall>q. ev \<noteq> Ev_Request q"
  shows "ht_subscriptions s' = ht_subscriptions s \<and> ht_received s' = ht_received s \<and>
    (live_frames (ht_phase s') = None \<or> live_frames (ht_phase s') = live_frames (ht_phase s))"
  using assms by (cases ev) (auto split: sum.splits option.splits if_splits)

lemma hermes_task_step_cases:
  assumes "hermes_task_step cd bc elapsed ev s = Some s'"
  obtains (gone) "ev = Ev_ConsumerGone" "s' = s\<lparr>ht_consumer := False\<rparr>"
  | (connect) attempt where "ev = Ev_Connect attempt" "ht_phase s = Ph_Top" "s' = hermes_connect cd bc elapsed attempt s"
  | (session) c where "ht_phase s = Ph_Live c" "hermes_session_step cd bc elapsed ev c s = Some s'"
  | (wake) d where "ht_phase s = Ph_Sleeping d" "s' = s\<lparr>ht_phase := Ph_Top\<rparr>"
proof (cases "ev = Ev_ConsumerGone")
  case True
  with assms have "s' = s\<lparr>ht_consumer := False\<rparr>" by (cases "ht_phase s") (simp_all add: hermes_task_step_def)
  with True gone show thesis by blast
next
  case False
  show thesis
  proof (cases "ht_phase s")
    case Ph_Top
    with False assms obtain attempt where "ev = Ev_Connect attempt" "s' = hermes_connect cd bc elapsed attempt s"
      by (cases ev) (simp_all add: hermes_task_step_def)
    with Ph_Top connect show thesis by blast
  next
    case (Ph_Live c)
    with False assms have "hermes_session_step cd bc elapsed ev c s = Some s'"
      by (cases ev) (simp_all add: hermes_task_step_def)
    with Ph_Live session show thesis by blast
  next
    case (Ph_Sleeping d)
    with False assms have "s' = s\<lparr>ht_phase := Ph_Top\<rparr>" by (cases ev) (simp_all add: hermes_task_step_def)
    with Ph_Sleeping wake show thesis by blast
  qed (use False assms in \<open>cases ev; simp add: hermes_task_step_def\<close>)+
qed

interpretation hermes_resub: resubscribing_task "\<lambda>s s'. \<exists>elapsed ev. hermes_task_step cd bc elapsed ev s = Some s'"
  ht_subscriptions ht_received "\<lambda>s. live_frames (ht_phase s)" hermes_track "\<lambda>m. m" "message_to_json cd"
  for cd :: "'u hermes_codec" and bc :: "'b backoff_crate"
proof (unfold_locales, elim exE)
  fix s s' :: "('u, 'b) hermes_task" and elapsed ev
  assume "hermes_task_step cd bc elapsed ev s = Some s'"
  then show "ht_subscriptions s' = ht_subscriptions s \<and> ht_received s' = ht_received s \<and>
      (live_frames (ht_phase s') = None \<or> live_frames (ht_phase s') = live_frames (ht_phase s) \<or>
       (\<exists>fs. live_frames (ht_phase s') = Some fs \<and>
          encodes (message_to_json cd) (map (\<lambda>m. m) (ht_subscriptions s)) fs)) \<or>
    (\<exists>q. ht_subscriptions s' = hermes_track q (ht_subscriptions s) \<and> ht_received s' = ht_received s @ [q] \<and>
      (live_frames (ht_phase s') = None \<or>
       (\<exists>fs t. live_frames (ht_phase s) = Some fs \<and> message_to_json cd q = Inr t \<and>
          live_frames (ht_phase s') = Some (fs @ [Text_Frame t]))))"
  proof (cases rule: hermes_task_step_cases)
    case (connect attempt)
    with hermes_connect_frames [of cd bc elapsed attempt s] show ?thesis by blast
  next
    case (session c)
    show ?thesis
    proof (cases "\<exists>q. ev = Ev_Request q")
      case True
      then obtain q where q: "ev = Ev_Request q" by blast
      show ?thesis
      proof (cases "hermes_send_message cd q c")
        case (Inl e)
        with session(2) q show ?thesis by (auto simp: hermes_handle_request_def)
      next
        case (Inr c')
        with session q hermes_send_message_Inr [OF Inr] show ?thesis by (auto simp: hermes_handle_request_def)
      qed
    next
      case False
      with hermes_session_quiet [OF session(2)] show ?thesis by blast
    qed
  qed simp_all
qed

lemma hermes_task_run_ok:
  assumes "hermes_task_run cd bc (hermes_task_new u token channel b timeout) s"
  shows "resub_ok (message_to_json cd) hermes_track (\<lambda>m. m) (ht_subscriptions s) (ht_received s)
    (live_frames (ht_phase s))"
  using assms
proof induction
  case hermes_run_start
  show ?case by (simp add: resub_ok_def hermes_task_new_def)
next
  case (hermes_run_step s elapsed ev s')
  then show ?case by (intro hermes_resub.ok_step [OF hermes_run_step.IH]) blast
qed

lemma ids_disciplined:
  "disciplined (ids_within U) track rs subs \<longleftrightarrow> (\<forall>m\<in>set rs. set (subscription_ids m) \<subseteq> U)"
  by (induction rs arbitrary: subs) (auto simp: ids_within_def)

text \<open>C35: Whatever connections were lost before, in a live session a server that identifies price ids by a key
  has the options of every id that all requests of the caller together describe, if the caller never spells
  one price id in two ways.\<close>

theorem hermes_resubscribes:
  assumes "json_contract (message_to_json cd) read"
    and "hermes_task_run cd bc (hermes_task_new u token channel b timeout) s" and "ht_phase s = Ph_Live c"
    and "inj_on key (\<Union>m\<in>set (ht_received s). set (subscription_ids m))"
  shows "fold (hermes_server key) (sent_requests read c) Map.empty =
    fold (hermes_server key) (ht_received s) Map.empty"
proof -
  let ?U = "\<Union>m\<in>set (ht_received s). set (subscription_ids m)"
  from hermes_task_run_ok [OF assms(2)] assms(3) obtain before since where
    r: "ht_received s = before @ since"
    and sent: "encodes (message_to_json cd) (map (\<lambda>m. m) (fold hermes_track before []) @ since) (wc_sent c)"
    unfolding resub_ok_def by auto
  have "disciplined (ids_within ?U) hermes_track (before @ since) []"
    unfolding ids_disciplined r by blast
  from resubscription.reconnected_table [OF hermes_resubscription [OF assms(4)] this] r
  show ?thesis unfolding encodes_read [OF assms(1) sent] by simp
qed

text \<open>Runs given by their events.\<close>

fun hermes_task_exec ::
  "'u hermes_codec \<Rightarrow> 'b backoff_crate \<Rightarrow> ((nat \<times> nat) \<times> hermes_client_message client_event) list \<Rightarrow>
   ('u, 'b) hermes_task \<Rightarrow> ('u, 'b) hermes_task option" where
  "hermes_task_exec cd bc [] s = Some s"
| "hermes_task_exec cd bc ((elapsed, ev) # evs) s =
     Option.bind (hermes_task_step cd bc elapsed ev s) (hermes_task_exec cd bc evs)"

lemma hermes_task_exec_run:
  "hermes_task_run cd bc s0 s \<Longrightarrow> hermes_task_exec cd bc evs s = Some s' \<Longrightarrow> hermes_task_run cd bc s0 s'"
proof (induction evs arbitrary: s)
  case (Cons e evs)
  obtain elapsed ev where e: "e = (elapsed, ev)" by (cases e)
  with Cons.prems(2) obtain s1 where "hermes_task_step cd bc elapsed ev s = Some s1" "hermes_task_exec cd bc evs s1 = Some s'"
    by (auto simp: bind_eq_Some_conv)
  with Cons.IH [OF hermes_run_step [OF Cons.prems(1)]] show ?case by blast
qed simp

definition demo_options :: subscribe_options where
  "demo_options = \<lparr>so_verbose = False, so_binary = False, so_allow_out_of_order = False, so_ignore_invalid_price_ids = False\<rparr>"

definition demo_message :: hermes_client_message where
  "demo_message = Hermes_Subscribe [''a'', ''b''] demo_options"

definition demo_hermes_codec :: "unit hermes_codec" where
  "demo_hermes_codec =
     \<lparr>message_to_json = (\<lambda>m. if m = demo_message then Inr ''s'' else
        if m = Hermes_Subscribe [''b''] demo_options then Inr ''b'' else
        if m = Hermes_Unsubscribe [''a''] then Inr ''u'' else Inl (Message ''e'')),
      message_from_json = (\<lambda>_. Inl (Message ''e'')), hermes_header_ok = (\<lambda>_. True),
      append_query_pair = (\<lambda>_ _ u. u)\<rparr>"

definition demo_hermes_read :: "string \<Rightarrow> hermes_client_message option" where
  "demo_hermes_read t =
     (if t = ''s'' then Some demo_message else
      if t = ''b'' then Some (Hermes_Subscribe [''b''] demo_options) else
      if t = ''u'' then Some (Hermes_Unsubscribe [''a'']) else None)"

abbreviation demo_hermes_task :: "(unit, unit) hermes_task" where
  "demo_hermes_task \<equiv> hermes_task_new () ''t'' Ch_RealTime () 5"

definition demo_hermes_events :: "((nat \<times> nat) \<times> hermes_client_message client_event) list" where
  "demo_hermes_events = map (Pair (0, 0))
     [Ev_Connect (At_Open 5), Ev_Request demo_message, Ev_Request (Hermes_Unsubscribe [''a'']), Ev_StreamEnd, Ev_Wake,
      Ev_Connect (At_Open 1)]"

lemma demo_hermes_runs:
  "\<exists>s c. hermes_task_run demo_hermes_codec demo_crate demo_hermes_task s \<and> ht_phase s = Ph_Live c \<and>
     wc_sent c = [Text_Frame ''b''] \<and> ht_received s = [demo_message, Hermes_Unsubscribe [''a'']]"
proof -
  have "\<exists>s c. hermes_task_exec demo_hermes_codec demo_crate demo_hermes_events demo_hermes_task = Some s \<and>
     ht_phase s = Ph_Live c \<and> wc_sent c = [Text_Frame ''b''] \<and> ht_received s = [demo_message, Hermes_Unsubscribe [''a'']]"
    by (simp add: demo_hermes_events_def hermes_task_step_def hermes_task_new_def hermes_connect_def hermes_ws_start_def
        hermes_ws_new_def hermes_send_message_def ws_send_text_def sink_send_def demo_hermes_codec_def demo_crate_def
        hermes_session_failed_def retry_phase_def backoff_after_def hermes_handle_request_def hermes_track_def
        demo_message_def numeral_eq_Suc)
  with hermes_task_exec_run [OF hermes_run_start] show ?thesis by metis
qed

theorem hermes_resubscribes_witness:
  "fold (hermes_server (\<lambda>i. i)) [demo_message, Hermes_Unsubscribe [''a'']] Map.empty = [''b'' \<mapsto> demo_options]"
proof -
  obtain s c where s: "hermes_task_run demo_hermes_codec demo_crate demo_hermes_task s" "ht_phase s = Ph_Live c"
    and sent: "wc_sent c = [Text_Frame ''b'']" and r: "ht_received s = [demo_message, Hermes_Unsubscribe [''a'']]"
    using demo_hermes_runs by blast
  have json: "json_contract (message_to_json demo_hermes_codec) demo_hermes_read"
    by (simp add: json_contract_def demo_hermes_codec_def demo_hermes_read_def)
  have "sent_requests demo_hermes_read c = [Hermes_Subscribe [''b''] demo_options]"
    by (simp add: sent_requests_def sent map_filter_def demo_hermes_read_def)
  with hermes_resubscribes [OF json s, of "\<lambda>i. i"] r show ?thesis by (simp add: fun_eq_iff)
qed

text \<open>
  The condition on the spelling is needed: the bookkeeping compares the strings, so an id that is subscribed
  with the prefix \<^verbatim>\<open>0x\<close> and unsubscribed without it is subscribed again after a reconnect, although
  both spellings denote the same feed.
\<close>

lemma hermes_unsubscribe_spelling:
  assumes "hex_contract hex_decode"
  shows "\<exists>i j bs. price_id_parse hex_decode i = Inr bs \<and> price_id_parse hex_decode j = Inr bs \<and>
    fold (hermes_server (price_id_parse hex_decode))
      [Hermes_Subscribe [i] opts, Hermes_Unsubscribe [j]] Map.empty = Map.empty \<and>
    fold hermes_track [Hermes_Subscribe [i] opts, Hermes_Unsubscribe [j]] [] = [Hermes_Subscribe [i] opts]"
proof -
  let ?n = "replicate 64 CHR ''a''"
  let ?i = "''0x'' @ ?n"
  have "list_all is_ascii_hexdigit ?n" by (simp add: list_all_iff is_ascii_hexdigit_def)
  then have same: "price_id_parse hex_decode ?n = Inr (hex_bytes ?n)" "price_id_parse hex_decode ?i = Inr (hex_bytes ?n)"
    using price_id_parse_spelling [OF assms, of ?n] by simp_all
  have "?i \<noteq> ?n" by (metis append_self_conv2 list.distinct(1))
  then have "fold hermes_track [Hermes_Subscribe [?i] opts, Hermes_Unsubscribe [?n]] [] = [Hermes_Subscribe [?i] opts]"
    by (simp add: hermes_track_def del: append.simps)
  moreover have "fold (hermes_server (price_id_parse hex_decode))
      [Hermes_Subscribe [?i] opts, Hermes_Unsubscribe [?n]] Map.empty = Map.empty"
    using same by (simp add: fun_eq_iff del: append.simps)
  ultimately show ?thesis using same by blast
qed

section \<open>A task does not end with its consumer\<close>

definition hermes_alive :: "('b \<Rightarrow> bool) \<Rightarrow> ('u, 'b) hermes_task \<Rightarrow> bool" where
  "hermes_alive fresh s \<longleftrightarrow>
     fresh (ht_backoff s) \<and> ht_timeout s + secs 1 < secs (2 ^ 64) \<and>
     (case ht_phase s of Ph_Finished r \<Rightarrow> False | Ph_Panicked \<Rightarrow> False | _ \<Rightarrow> True)"

lemma hermes_session_failed_alive:
  fixes s :: "('u, 'b) hermes_task"
  assumes "unlimited_backoff bc fresh" and "fresh (ht_backoff s)" and "ht_timeout s + secs 1 < secs (2 ^ 64)"
  shows "hermes_alive fresh (hermes_session_failed bc elapsed s)"
proof -
  obtain d b' where "retry_phase bc ''Max retries reached for Hermes WebSocket connection'' (ht_timeout s) elapsed
      (ht_backoff s) = (Ph_Sleeping d :: 'u hermes_conn task_phase, b')" "fresh b'"
    by (rule retry_phase_sleeps [OF assms])
  with assms(3) show ?thesis by (simp add: hermes_session_failed_def hermes_alive_def)
qed

lemma hermes_session_step_alive:
  assumes "unlimited_backoff bc fresh" and "hermes_alive fresh s" and "ht_phase s = Ph_Live c"
    and "hermes_session_step cd bc elapsed ev c s = Some s'"
  shows "hermes_alive fresh s'"
proof -
  have b: "fresh (ht_backoff s)" "ht_timeout s + secs 1 < secs (2 ^ 64)" using assms(2) by (simp_all add: hermes_alive_def)
  note failed = hermes_session_failed_alive [OF assms(1), of _ elapsed]
  show ?thesis
  proof (cases ev)
    case (Ev_Request q)
    let ?s = "s\<lparr>ht_subscriptions := hermes_track q (ht_subscriptions s), ht_received := ht_received s @ [q]\<rparr>"
    show ?thesis
    proof (cases "hermes_send_message cd q c")
      case (Inl e)
      with assms(4) Ev_Request have "s' = hermes_session_failed bc elapsed ?s" by (simp add: hermes_handle_request_def)
      with failed [of ?s] b show ?thesis by simp
    next
      case (Inr c')
      with assms(4) Ev_Request have "s' = ?s\<lparr>ht_phase := Ph_Live c'\<rparr>" by (simp add: hermes_handle_request_def)
      with b show ?thesis by (simp add: hermes_alive_def)
    qed
  next
    case (Ev_Frame f)
    from assms(4) Ev_Frame consider "s' = s" | m where "s' = s\<lparr>ht_delivered := ht_delivered s @ [m]\<rparr>"
      | "s' = hermes_session_failed bc elapsed s"
      by (auto split: sum.splits option.splits if_splits)
    then show ?thesis
      by cases (use assms(2,3) failed [OF b] in \<open>simp_all add: hermes_alive_def\<close>)
  qed (use assms(4) b failed in auto)
qed

text \<open>
  With an unlimited back-off the task never returns from \<^verbatim>\<open>run\<close>, whether the consumer listens or not.
\<close>

lemma hermes_task_never_ends:
  assumes "unlimited_backoff bc fresh" and "timeout + secs 1 < secs (2 ^ 64)"
    and "hermes_task_run cd bc (hermes_task_new u token channel (exponential_backoff bc p) timeout) s"
  shows "ht_phase s \<noteq> Ph_Finished r \<and> ht_phase s \<noteq> Ph_Panicked"
proof -
  have "hermes_alive fresh s"
    using assms(3)
  proof induction
    case hermes_run_start
    show ?case using assms(1,2)
      by (simp add: hermes_alive_def hermes_task_new_def exponential_backoff_def unlimited_backoff_def)
  next
    case (hermes_run_step s elapsed ev s')
    have b: "fresh (ht_backoff s)" "ht_timeout s + secs 1 < secs (2 ^ 64)"
      using hermes_run_step.IH by (simp_all add: hermes_alive_def)
    from hermes_run_step.hyps(2) show ?case
    proof (cases rule: hermes_task_step_cases)
      case gone with hermes_run_step.IH show ?thesis by (auto simp: hermes_alive_def split: task_phase.splits)
    next
      case (connect attempt)
      with hermes_session_failed_alive [OF assms(1) b, of elapsed] b show ?thesis
        by (auto simp: hermes_connect_def hermes_alive_def split: sum.split)
    next
      case (session c) with hermes_session_step_alive [OF assms(1) hermes_run_step.IH] show ?thesis by blast
    qed (use b in \<open>simp add: hermes_alive_def\<close>)
  qed
  then show ?thesis by (auto simp: hermes_alive_def)
qed

section \<open>Forwarding and metadata\<close>

text \<open>
  Once the consumer has closed its channel no message gets through: then the loop that does not stop forwards
  the same messages as the loop of the streaming client.
\<close>

lemma hermes_forward_closed:
  "\<forall>e\<in>set es. \<not> delivers e \<Longrightarrow> hermes_forward tc cache_key es seen = []"
proof (induction es arbitrary: seen)
  case (Cons e es)
  then have "fe_outcome e = Closed_While_Full \<or> fe_outcome e = Closed" by (cases "fe_outcome e") (auto simp: delivers_def)
  with Cons show ?case by (auto simp: Let_def)
qed simp

lemma hermes_forward_eq:
  assumes "sorted_wrt (\<lambda>d e. delivers e \<longrightarrow> delivers d) es"
  shows "hermes_forward tc cache_key es seen = stream_forward tc cache_key es seen"
  using assms
proof (induction es arbitrary: seen)
  case (Cons e es)
  show ?case
  proof (cases "delivers e")
    case True
    then have "fe_outcome e = Sent \<or> fe_outcome e = Delayed" by (simp add: delivers_def)
    with Cons show ?thesis by (auto simp: Let_def)
  next
    case False
    then have o: "fe_outcome e = Closed_While_Full \<or> fe_outcome e = Closed" by (cases "fe_outcome e") (auto simp: delivers_def)
    from False Cons.prems have "\<forall>d\<in>set es. \<not> delivers d" by auto
    with o Cons show ?thesis by (auto simp: Let_def hermes_forward_closed)
  qed
qed simp

text \<open>The metadata come from the first endpoint that answers, provided that every URL before it could be built.\<close>

lemma fetch_metadata_Inr:
  "fetch_metadata uo get endpoints = Inr feeds \<longleftrightarrow>
     (\<exists>pre e post. endpoints = pre @ e # post \<and> (\<exists>url. metadata_url uo e = Inr url \<and> get url = Inr (Inr feeds)) \<and>
        (\<forall>d\<in>set pre. \<exists>url. metadata_url uo d = Inr url \<and> (\<forall>fs. get url \<noteq> Inr (Inr fs))))"
proof (induction endpoints)
  case (Cons d endpoints)
  show ?case unfolding first_of_Cons Cons [symmetric]
    by (cases "metadata_url uo d") (auto split: sum.splits)
qed simp

end
