(* ===== verification/Client_Http.thy ===== *)
theory Client_Http
  imports Client_Common
begin

text \<open>
  The HTTP clients (\<^verbatim>\<open>sdk/rust/client/src/resilient_http_client.rs\<close>, \<^verbatim>\<open>api_client.rs\<close>,
  \<^verbatim>\<open>state_client.rs\<close>, \<^verbatim>\<open>router_client.rs\<close>, \<^verbatim>\<open>arc_swap.rs\<close>): requests to several
  URLs, the file that caches the last answer, and the stream of changes.  The HTTP library, the retry loop of
  the \<^verbatim>\<open>backoff\<close> crate, URLs and JSON are arguments.  A path is the list of its components, and the
  file system a map from paths to contents.
\<close>

section \<open>Files\<close>

type_synonym path = "string list"
type_synonym files = "path \<rightharpoonup> string"

text \<open>\<^verbatim>\<open>Path::file_stem\<close> of an ordinary file name, and \<^verbatim>\<open>with_extension\<close>.\<close>

definition file_stem :: "string \<Rightarrow> string" where
  "file_stem n =
     (let before = rev (drop 1 (dropWhile (\<lambda>c. c \<noteq> CHR ''.'') (rev n)))
      in if CHR ''.'' \<notin> set n \<or> before = [] then n else before)"

definition with_extension :: "string \<Rightarrow> path \<Rightarrow> path" where
  "with_extension ext p = (if p = [] then [] else butlast p @ [file_stem (last p) @ ''.'' @ ext])"

definition path_parent :: "path \<Rightarrow> path option" where
  "path_parent p = (if p = [] then None else Some (butlast p))"

text \<open>
  The outcomes of the operations on the file system: \<open>None\<close> is success, a message is a failure.  A failed
  write may leave a part of the data, \<open>io_partial\<close> characters.
\<close>

record io_outcomes =
  io_create_dir :: "string option"
  io_create :: "string option"
  io_write :: "string option"
  io_partial :: nat
  io_flush :: "string option"
  io_sync :: "string option"
  io_replace :: "string option"
  io_exists :: "string option"
  io_read :: "string option"

definition io_ok :: "string option \<Rightarrow> 'a \<Rightarrow> anyhow + 'a" where
  "io_ok r x = (case r of None \<Rightarrow> Inr x | Some e \<Rightarrow> Inl (Message e))"

definition atomic_save_file ::
  "('r \<Rightarrow> anyhow + string) \<Rightarrow> io_outcomes \<Rightarrow> path \<Rightarrow> 'r \<Rightarrow> files \<Rightarrow> files \<times> (anyhow + unit)" where
  "atomic_save_file to_json io p data fs =
     (case path_parent p of
        None \<Rightarrow> (fs, Inl (Message ''invalid file path: no parent''))
      | Some d \<Rightarrow>
     (case io_create_dir io of Some e \<Rightarrow> (fs, Inl (Message e)) | None \<Rightarrow>
     (case to_json data of Inl e \<Rightarrow> (fs, Inl e) | Inr json \<Rightarrow>
      let tmp = with_extension ''tmp'' p in
     (case io_create io of Some e \<Rightarrow> (fs, Inl (Message e)) | None \<Rightarrow>
      let fs = fs(tmp \<mapsto> '''') in
     (case io_write io of Some e \<Rightarrow> (fs(tmp \<mapsto> take (io_partial io) json), Inl (Message e)) | None \<Rightarrow>
      let fs = fs(tmp \<mapsto> json) in
     (case io_flush io of Some e \<Rightarrow> (fs, Inl (Message e)) | None \<Rightarrow>
     (case io_sync io of Some e \<Rightarrow> (fs, Inl (Message e)) | None \<Rightarrow>
     (case io_replace io of Some e \<Rightarrow> (fs, Inl (Message e)) | None \<Rightarrow>
       ((fs(p := fs tmp))(tmp := None), Inr ())))))))))"

definition load_file ::
  "(string \<Rightarrow> anyhow + 'r) \<Rightarrow> io_outcomes \<Rightarrow> path \<Rightarrow> files \<Rightarrow> anyhow + 'r option" where
  "load_file from_json io p fs =
     and_then (ok_or (Message ''invalid file path: no parent'') (path_parent p)) (\<lambda>d.
     and_then (io_ok (io_create_dir io) ()) (\<lambda>_.
     and_then (io_ok (io_exists io) ()) (\<lambda>_.
       case fs p of
         None \<Rightarrow> Inr None
       | Some text \<Rightarrow>
           and_then (io_ok (io_read io) text) (\<lambda>json_data. map_ok Some (from_json json_data)))))"

section \<open>Requests to several URLs\<close>

record 'u http_client =
  rh_urls :: "'u list"
  rh_update_interval :: nat
  rh_channel_capacity :: nat
  rh_cache_dir :: "path option"

definition cache_file_path :: "'u http_client \<Rightarrow> string \<Rightarrow> path option" where
  "cache_file_path http name = map_option (\<lambda>d. d @ [name]) (rh_cache_dir http)"

datatype backoff_error = Transient anyhow | Permanent anyhow

text \<open>The limit of the elapsed time for the retries of one URL; the argument is the default of the crate.\<close>

definition single_url_limit :: "nat option \<Rightarrow> 'u http_client \<Rightarrow> bool \<Rightarrow> nat option" where
  "single_url_limit default_limit http limit_by_update_interval =
     (if limit_by_update_interval then Some (rh_update_interval http) else default_limit)"

text \<open>
  \<^verbatim>\<open>retry_notify\<close> maps the limit and the answers of successive attempts to a result, or to \<open>None\<close> while it
  goes on.
\<close>

type_synonym 'r retry = "nat option \<Rightarrow> (nat \<Rightarrow> backoff_error + 'r) \<Rightarrow> (anyhow + 'r) option"

definition fetch_from_single_url_with_retry ::
  "'r retry \<Rightarrow> nat option \<Rightarrow> 'u http_client \<Rightarrow> bool \<Rightarrow> (nat \<Rightarrow> backoff_error + 'r) \<Rightarrow> (anyhow + 'r) option" where
  "fetch_from_single_url_with_retry retry default_limit http limited f =
     retry (single_url_limit default_limit http limited) f"

text \<open>
  The requests to all URLs run at once; \<open>order\<close> is the order in which those that end do so, each with the
  position of its URL.  The result is \<open>None\<close> while none has succeeded and some go on.
\<close>

fun first_success :: "(anyhow + 'r) option list \<Rightarrow> 'r option" where
  "first_success [] = None"
| "first_success (Some (Inr r) # rs) = Some r"
| "first_success (_ # rs) = first_success rs"

definition fetch_from_all_urls ::
  "'r retry \<Rightarrow> nat option \<Rightarrow> 'u http_client \<Rightarrow> bool \<Rightarrow> ('u \<Rightarrow> nat \<Rightarrow> backoff_error + 'r) \<Rightarrow> nat list \<Rightarrow>
   (anyhow + 'r) option" where
  "fetch_from_all_urls retry default_limit http limited f order =
     (if rh_urls http = [] then Some (Inl (Message ''no urls provided''))
      else
        let results = map (\<lambda>url. fetch_from_single_url_with_retry retry default_limit http limited (f url)) (rh_urls http)
        in case first_success (map ((!) results) order) of
             Some r \<Rightarrow> Some (Inr r)
           | None \<Rightarrow>
               if None \<in> set results then None
               else Some (Inl (Message ''failed to fetch data from any urls'')))"

text \<open>A failure to write or read the cache is logged and ignored.\<close>

definition save_cache ::
  "('r \<Rightarrow> anyhow + string) \<Rightarrow> io_outcomes \<Rightarrow> path option \<Rightarrow> 'r \<Rightarrow> files \<Rightarrow> files" where
  "save_cache to_json io cache data fs =
     (case cache of None \<Rightarrow> fs | Some p \<Rightarrow> fst (atomic_save_file to_json io p data fs))"

definition fetch_or_cache ::
  "('r \<Rightarrow> anyhow + string) \<Rightarrow> (string \<Rightarrow> anyhow + 'r) \<Rightarrow> io_outcomes \<Rightarrow> path option \<Rightarrow>
   (bool \<Rightarrow> (anyhow + 'r) option) \<Rightarrow> files \<Rightarrow> files \<times> (anyhow + 'r) option" where
  "fetch_or_cache to_json from_json io cache fetch fs =
     (case fetch True of
        None \<Rightarrow> (fs, None)
      | Some (Inr data) \<Rightarrow> (save_cache to_json io cache data fs, Some (Inr data))
      | Some (Inl e) \<Rightarrow>
          (case cache of
             None \<Rightarrow> (fs, fetch False)
           | Some p \<Rightarrow>
               (case load_file from_json io p fs of
                  Inr (Some data) \<Rightarrow> (fs, Some (Inr data))
                | Inr None \<Rightarrow> (fs, fetch False)
                | Inl e \<Rightarrow> (fs, fetch False))))"

section \<open>The stream of changes\<close>

text \<open>One turn of the polling loop: whether the handle was dropped, what was fetched, and the channel.\<close>

record 'r poll_round =
  pr_closed :: bool
  pr_fetched :: "anyhow + 'r"
  pr_io :: io_outcomes
  pr_send_ok :: bool

text \<open>The result: the values that were sent, the files, and whether the task has ended.\<close>

fun keep_stream_updated ::
  "('r \<Rightarrow> anyhow + string) \<Rightarrow> path option \<Rightarrow> 'r poll_round list \<Rightarrow> 'r \<Rightarrow> files \<Rightarrow> 'r list \<times> files \<times> bool" where
  "keep_stream_updated to_json cache [] previous fs = ([], fs, False)"
| "keep_stream_updated to_json cache (r # rs) previous fs =
     (if pr_closed r then ([], fs, True)
      else case pr_fetched r of
        Inl e \<Rightarrow> keep_stream_updated to_json cache rs previous fs
      | Inr new \<Rightarrow>
          if previous \<noteq> new then
            let fs = save_cache to_json (pr_io r) cache new fs in
            if pr_send_ok r then
              let (sent, fs, ended) = keep_stream_updated to_json cache rs new fs in (new # sent, fs, ended)
            else ([], fs, True)
          else keep_stream_updated to_json cache rs previous fs)"

definition http_stream ::
  "('r \<Rightarrow> anyhow + string) \<Rightarrow> (string \<Rightarrow> anyhow + 'r) \<Rightarrow> io_outcomes \<Rightarrow> 'u http_client \<Rightarrow> path option \<Rightarrow>
   (bool \<Rightarrow> (anyhow + 'r) option) \<Rightarrow> 'r poll_round list \<Rightarrow> files \<Rightarrow> files \<times> (anyhow + 'r list) option" where
  "http_stream to_json from_json io http cache fetch rounds fs =
     (if rh_channel_capacity http = 0 then (fs, Some (Inl (Message ''channel_capacity cannot be 0'')))
      else case fetch_or_cache to_json from_json io cache fetch fs of
        (fs, None) \<Rightarrow> (fs, None)
      | (fs, Some (Inl e)) \<Rightarrow> (fs, Some (Inl e))
      | (fs, Some (Inr value)) \<Rightarrow>
          (let (sent, fs, ended) = keep_stream_updated to_json cache rounds value fs
           in (fs, Some (Inr (value # sent)))))"

text \<open>\<^verbatim>\<open>into_auto_updated_handle\<close> (\<^verbatim>\<open>arc_swap.rs\<close>): the values the handle has held.\<close>

fun auto_updated_handle :: "'r list \<Rightarrow> anyhow + 'r" where
  "auto_updated_handle [] = Inl (Message ''cannot create auto updated handle from empty stream'')"
| "auto_updated_handle (first # rest) = Inr (fold (\<lambda>v h. v) rest first)"

section \<open>Answers of a server\<close>

text \<open>An answer has a status and a body; statuses 400 to 599 are errors, those from 500 on can pass.\<close>

definition error_for_status :: "nat \<times> 'body \<Rightarrow> anyhow + nat \<times> 'body" where
  "error_for_status response =
     (if 400 \<le> fst response \<and> fst response < 600 then Inl (Message ''HTTP status error'') else Inr response)"

definition backoff_error_for_status :: "nat \<times> 'body \<Rightarrow> backoff_error + nat \<times> 'body" where
  "backoff_error_for_status response =
     map_err (\<lambda>err. if 500 \<le> fst response \<and> fst response < 600 then Transient err else Permanent err)
       (error_for_status response)"

text \<open>The parts of the HTTP library: joining a URL, adding a query to it, sending, and reading a body.\<close>

record ('u, 'body) http_lib =
  hl_join :: "string \<Rightarrow> 'u \<Rightarrow> anyhow + 'u"
  hl_query :: "(string \<times> bool) list \<Rightarrow> 'u \<Rightarrow> 'u"
  hl_get :: "string option \<Rightarrow> 'u \<Rightarrow> anyhow + nat \<times> 'body"
  hl_bytes :: "'body \<Rightarrow> anyhow + bytes"
  hl_utf8 :: "bytes \<Rightarrow> anyhow + string"

definition request_symbols ::
  "('u, 'body) http_lib \<Rightarrow> ('body \<Rightarrow> anyhow + 'r) \<Rightarrow> 'u \<Rightarrow> backoff_error + 'r" where
  "request_symbols hl json url =
     and_then (map_err Permanent (hl_join hl ''v1/symbols'' url)) (\<lambda>url.
     and_then (map_err Transient (hl_get hl None url)) (\<lambda>response.
     and_then (backoff_error_for_status response) (\<lambda>response.
     map_err Transient (json (snd response)))))"

definition request_symbol_info ::
  "('u, 'body) http_lib \<Rightarrow> ('body \<Rightarrow> anyhow + 'r) \<Rightarrow> 'u \<Rightarrow> backoff_error + 'r" where
  "request_symbol_info hl json url =
     and_then (map_err Permanent (hl_join hl ''v1/symbols'' url)) (\<lambda>url.
     and_then (map_err Transient (hl_get hl None url)) (\<lambda>response.
     and_then (backoff_error_for_status response) (\<lambda>response.
     map_err Transient (json (snd response)))))"

record get_state_params =
  gs_all :: bool
  gs_publishers :: bool
  gs_feeds :: bool
  gs_governance_sources :: bool
  gs_feature_flags :: bool
  gs_exchanges :: bool

text \<open>The parameters in the query of a request, under the names of their fields.\<close>

definition state_query :: "get_state_params \<Rightarrow> (string \<times> bool) list" where
  "state_query params =
     [(''all'', gs_all params), (''publishers'', gs_publishers params), (''feeds'', gs_feeds params),
      (''governance_sources'', gs_governance_sources params), (''feature_flags'', gs_feature_flags params),
      (''exchanges'', gs_exchanges params)]"

definition request_state ::
  "('u, 'body) http_lib \<Rightarrow> (string \<Rightarrow> anyhow + 'r) \<Rightarrow> get_state_params \<Rightarrow> string option \<Rightarrow> 'u \<Rightarrow> backoff_error + 'r" where
  "request_state hl parse_proto_json params access_token url =
     and_then (map_err Permanent (hl_join hl ''v1/state'' url)) (\<lambda>url.
     and_then (ok_or (Permanent (Message ''missing access_token in config'')) access_token) (\<lambda>token.
     and_then (map_err Transient (hl_get hl (Some token) (hl_query hl (state_query params) url))) (\<lambda>response.
     and_then (backoff_error_for_status response) (\<lambda>response.
     and_then (map_err Transient (hl_bytes hl (snd response))) (\<lambda>bs.
     and_then (map_err Permanent (hl_utf8 hl bs)) (\<lambda>json.
     map_err Permanent (parse_proto_json json)))))))"

section \<open>The clients\<close>

record 'u api_client_config =
  ac_urls :: "'u list"
  ac_update_interval :: nat
  ac_request_timeout :: nat
  ac_cache_dir :: "path option"
  ac_channel_capacity :: nat
  ac_access_token :: "string option"

definition api_default_config :: "(string \<Rightarrow> 'u option) \<Rightarrow> 'u api_client_config option" where
  "api_default_config parse_url =
     map_option (\<lambda>u. \<lparr>ac_urls = [u], ac_update_interval = secs 30, ac_request_timeout = secs 15,
        ac_cache_dir = None, ac_channel_capacity = 1000, ac_access_token = None\<rparr>)
       (parse_url ''https://pyth.dourolabs.app/'')"

definition state_default_config :: "(string \<Rightarrow> 'u option) \<Rightarrow> 'u api_client_config option" where
  "state_default_config parse_url =
     map_option (\<lambda>u. \<lparr>ac_urls = [u], ac_update_interval = secs 30, ac_request_timeout = secs 15,
        ac_cache_dir = None, ac_channel_capacity = 1000, ac_access_token = None\<rparr>)
       (parse_url ''https://history.pyth-lazer.dourolabs.app/'')"

text \<open>
  \<^verbatim>\<open>PythLazerApiClient::new\<close>: the client and the authorization header of all its requests; a token that
  is no header value is left out.
\<close>

definition api_client_new :: "(string \<Rightarrow> bool) \<Rightarrow> 'u api_client_config \<Rightarrow> 'u http_client \<times> string option" where
  "api_client_new header_ok config =
     (\<lparr>rh_urls = ac_urls config, rh_update_interval = ac_update_interval config,
       rh_channel_capacity = ac_channel_capacity config, rh_cache_dir = ac_cache_dir config\<rparr>,
      case ac_access_token config of
        None \<Rightarrow> None
      | Some token \<Rightarrow> if header_ok (''Bearer '' @ token) then Some (''Bearer '' @ token) else None)"

definition state_client_new :: "'u api_client_config \<Rightarrow> 'u http_client \<times> string option" where
  "state_client_new config =
     (\<lparr>rh_urls = ac_urls config, rh_update_interval = ac_update_interval config,
       rh_channel_capacity = ac_channel_capacity config, rh_cache_dir = ac_cache_dir config\<rparr>,
      ac_access_token config)"

definition flag :: "bool \<Rightarrow> string" where
  "flag b = (if b then ''1'' else ''0'')"

definition state_cache_name :: "get_state_params \<Rightarrow> string" where
  "state_cache_name p =
     ''state_'' @ flag (gs_all p) @ flag (gs_publishers p) @ flag (gs_feeds p) @ flag (gs_governance_sources p) @
     flag (gs_feature_flags p) @ flag (gs_exchanges p) @ ''_v1.json''"

definition state_cache_file_path :: "'u http_client \<Rightarrow> get_state_params \<Rightarrow> path option" where
  "state_cache_file_path http p = cache_file_path http (state_cache_name p)"

text \<open>
  The calls.  \<open>hl limited n\<close> is how the library behaves in the \<open>n\<close>-th attempt of the first fetch, which is
  limited by the update interval, or of the second; \<open>order\<close> is the order in which the requests end.
\<close>

record ('u, 'body, 'r) fetch_env =
  fe_lib :: "bool \<Rightarrow> nat \<Rightarrow> ('u, 'body) http_lib"
  fe_retry :: "'r retry"
  fe_default_limit :: "nat option"
  fe_order :: "bool \<Rightarrow> nat list"
  fe_io :: io_outcomes
  fe_to_json :: "'r \<Rightarrow> anyhow + string"
  fe_from_json :: "string \<Rightarrow> anyhow + 'r"

definition fetch_urls ::
  "('u, 'body, 'r) fetch_env \<Rightarrow> 'u http_client \<Rightarrow> (('u, 'body) http_lib \<Rightarrow> 'u \<Rightarrow> backoff_error + 'r) \<Rightarrow> bool \<Rightarrow>
   (anyhow + 'r) option" where
  "fetch_urls fe http request limited =
     fetch_from_all_urls (fe_retry fe) (fe_default_limit fe) http limited
       (\<lambda>url n. request (fe_lib fe limited n) url) (fe_order fe limited)"

definition all_symbols_metadata ::
  "('u, 'body, 'r) fetch_env \<Rightarrow> ('body \<Rightarrow> anyhow + 'r) \<Rightarrow> 'u http_client \<Rightarrow> files \<Rightarrow> files \<times> (anyhow + 'r) option" where
  "all_symbols_metadata fe json http =
     fetch_or_cache (fe_to_json fe) (fe_from_json fe) (fe_io fe) (cache_file_path http ''symbols_v1.json'')
       (fetch_urls fe http (\<lambda>hl. request_symbols hl json))"

definition all_symbol_info ::
  "('u, 'body, 'r) fetch_env \<Rightarrow> ('body \<Rightarrow> anyhow + 'r) \<Rightarrow> 'u http_client \<Rightarrow> files \<Rightarrow> files \<times> (anyhow + 'r) option" where
  "all_symbol_info fe json http =
     fetch_or_cache (fe_to_json fe) (fe_from_json fe) (fe_io fe) (cache_file_path http ''symbol_info_v1.json'')
       (fetch_urls fe http (\<lambda>hl. request_symbol_info hl json))"

definition all_symbols_metadata_stream ::
  "('u, 'body, 'r) fetch_env \<Rightarrow> ('body \<Rightarrow> anyhow + 'r) \<Rightarrow> 'u http_client \<Rightarrow> 'r poll_round list \<Rightarrow> files \<Rightarrow>
   files \<times> (anyhow + 'r list) option" where
  "all_symbols_metadata_stream fe json http =
     http_stream (fe_to_json fe) (fe_from_json fe) (fe_io fe) http (cache_file_path http ''symbols_v1.json'')
       (fetch_urls fe http (\<lambda>hl. request_symbols hl json))"

definition client_state ::
  "('u, 'body, 'r) fetch_env \<Rightarrow> (string \<Rightarrow> anyhow + 'r) \<Rightarrow> 'u http_client \<Rightarrow> string option \<Rightarrow> get_state_params \<Rightarrow> files \<Rightarrow>
   files \<times> (anyhow + 'r) option" where
  "client_state fe parse_proto_json http access_token params =
     fetch_or_cache (fe_to_json fe) (fe_from_json fe) (fe_io fe) (state_cache_file_path http params)
       (fetch_urls fe http (\<lambda>hl. request_state hl parse_proto_json params access_token))"

definition state_stream ::
  "('u, 'body, 'r) fetch_env \<Rightarrow> (string \<Rightarrow> anyhow + 'r) \<Rightarrow> 'u http_client \<Rightarrow> string option \<Rightarrow> get_state_params \<Rightarrow>
   'r poll_round list \<Rightarrow> files \<Rightarrow> files \<times> (anyhow + 'r list) option" where
  "state_stream fe parse_proto_json http access_token params =
     http_stream (fe_to_json fe) (fe_from_json fe) (fe_io fe) http (state_cache_file_path http params)
       (fetch_urls fe http (\<lambda>hl. request_state hl parse_proto_json params access_token))"

text \<open>The JSON form of a state goes through the Protobuf mapping: \<open>print\<close> and \<open>parse_proto_json\<close>, with the JSON
  values in between.\<close>

definition state_to_json :: "('r \<Rightarrow> anyhow + string) \<Rightarrow> (string \<Rightarrow> anyhow + 'j) \<Rightarrow> 'r \<Rightarrow> anyhow + 'j" where
  "state_to_json print parse_value state = and_then (print state) parse_value"

definition state_of_json :: "('j \<Rightarrow> anyhow + string) \<Rightarrow> (string \<Rightarrow> anyhow + 'r) \<Rightarrow> 'j \<Rightarrow> anyhow + 'r" where
  "state_of_json value_to_string parse_proto_json value = and_then (value_to_string value) parse_proto_json"

text \<open>The router client: the URLs in turn.\<close>

record 'u router_config =
  rc_urls :: "'u list"
  rc_request_timeout :: nat
  rc_access_token :: string

definition router_client_new :: "'u router_config \<Rightarrow> anyhow + 'u router_config" where
  "router_client_new config =
     (if rc_urls config = [] then Inl (Message ''no router urls provided'') else Inr config)"

record 'u router_url_ops =
  ru_scheme :: "'u \<Rightarrow> string"
  ru_set_scheme :: "string \<Rightarrow> 'u \<Rightarrow> 'u option"
  ru_set_path :: "string \<Rightarrow> 'u \<Rightarrow> 'u"
  ru_clear_query :: "'u \<Rightarrow> 'u"
  ru_clear_fragment :: "'u \<Rightarrow> 'u"

definition http_endpoint :: "'u router_url_ops \<Rightarrow> 'u \<Rightarrow> string \<Rightarrow> anyhow + 'u" where
  "http_endpoint uo url p =
     (let scheme = (if ru_scheme uo url = ''ws'' \<or> ru_scheme uo url = ''http'' then ''http'' else ''https'') in
      and_then (ok_or (Message (''failed to set url scheme to '' @ scheme)) (ru_set_scheme uo scheme url)) (\<lambda>url.
      Inr (ru_clear_fragment uo (ru_clear_query uo (ru_set_path uo p url)))))"

text \<open>\<open>send\<close> builds the request for a URL and performs it with the bearer token.\<close>

definition router_request ::
  "'u router_url_ops \<Rightarrow> (string \<Rightarrow> 'u \<Rightarrow> anyhow + nat \<times> 'body) \<Rightarrow> ('body \<Rightarrow> anyhow + 'r) \<Rightarrow> string \<Rightarrow> 'u \<Rightarrow> string \<Rightarrow>
   anyhow + 'r" where
  "router_request uo send json token url p =
     and_then (http_endpoint uo url p) (\<lambda>u.
     and_then (send token u) (\<lambda>response.
     and_then (error_for_status response) (\<lambda>response.
     json (snd response))))"

fun try_each_url :: "('u \<Rightarrow> anyhow + 'r) \<Rightarrow> 'u list \<Rightarrow> anyhow + 'r" where
  "try_each_url request [] = Inl (Message ''failed to fetch data from any router urls'')"
| "try_each_url request (url # urls) =
     (case request url of
        Inr output \<Rightarrow> Inr output
      | Inl err \<Rightarrow> try_each_url request urls)"

definition router_get ::
  "'u router_url_ops \<Rightarrow> (string \<Rightarrow> 'u \<Rightarrow> anyhow + nat \<times> 'body) \<Rightarrow> ('body \<Rightarrow> anyhow + 'r) \<Rightarrow> 'u router_config \<Rightarrow> string \<Rightarrow>
   anyhow + 'r" where
  "router_get uo send json config p =
     try_each_url (\<lambda>url. router_request uo send json (rc_access_token config) url p) (rc_urls config)"

text \<open>\<open>send_json\<close> posts a body as JSON.\<close>

definition router_post ::
  "'u router_url_ops \<Rightarrow> ('b \<Rightarrow> string \<Rightarrow> 'u \<Rightarrow> anyhow + nat \<times> 'body) \<Rightarrow> ('body \<Rightarrow> anyhow + 'r) \<Rightarrow> 'u router_config \<Rightarrow> string \<Rightarrow>
   'b \<Rightarrow> anyhow + 'r" where
  "router_post uo send_json json config p body =
     try_each_url (\<lambda>url. router_request uo (send_json body) json (rc_access_token config) url p) (rc_urls config)"

definition guardian_set_upgrade ::
  "'u router_url_ops \<Rightarrow> (string \<Rightarrow> 'u \<Rightarrow> anyhow + nat \<times> 'body) \<Rightarrow> ('body \<Rightarrow> anyhow + 'r option) \<Rightarrow> 'u router_config \<Rightarrow>
   anyhow + 'r option" where
  "guardian_set_upgrade uo send json config = router_get uo send json config ''/v1/guardian_set_upgrade''"

definition publisher_stake_caps ::
  "'u router_url_ops \<Rightarrow> (string \<Rightarrow> 'u \<Rightarrow> anyhow + nat \<times> 'body) \<Rightarrow> ('body \<Rightarrow> anyhow + 'r) \<Rightarrow> 'u router_config \<Rightarrow>
   anyhow + 'r" where
  "publisher_stake_caps uo send json config = router_get uo send json config ''/v1/publisher_stake_caps''"

section \<open>The cache file\<close>

lemma file_stem_json: "file_stem (n @ ''.json'') = (if n = [] then ''.json'' else n)"
  by (simp add: file_stem_def)

lemma tmp_differs:
  assumes "n \<noteq> []"
  shows "with_extension ''tmp'' (d @ [n @ ''.json'']) = d @ [n @ ''.tmp''] \<and> n @ ''.tmp'' \<noteq> n @ ''.json''"
  using assms file_stem_json [of n] by (simp add: with_extension_def)

text \<open>The names of the cache files.\<close>

definition cache_names :: "string set" where
  "cache_names = {''symbols_v1.json'', ''symbol_info_v1.json''} \<union> range state_cache_name"

lemma cache_names_json: "name \<in> cache_names \<Longrightarrow> \<exists>n. n \<noteq> [] \<and> name = n @ ''.json''"
proof (unfold cache_names_def, elim UnE insertE emptyE imageE)
  assume "name = ''symbols_v1.json''"
  then show ?thesis by (intro exI [of _ "''symbols_v1''"]) simp
next
  assume "name = ''symbol_info_v1.json''"
  then show ?thesis by (intro exI [of _ "''symbol_info_v1''"]) simp
next
  fix q assume q: "name = state_cache_name q"
  let ?n = "''state_'' @ flag (gs_all q) @ flag (gs_publishers q) @ flag (gs_feeds q) @
    flag (gs_governance_sources q) @ flag (gs_feature_flags q) @ flag (gs_exchanges q) @ ''_v1''"
  show ?thesis unfolding q state_cache_name_def by (rule exI [of _ ?n]) simp
qed

text \<open>Different requests never share a cache file.\<close>

lemma state_cache_name_inj: "state_cache_name p = state_cache_name q \<longleftrightarrow> p = q"
  by (auto simp: state_cache_name_def flag_def get_state_params.equality split: if_splits)

lemma state_cache_separate: "state_cache_name p \<notin> {''symbols_v1.json'', ''symbol_info_v1.json''}"
  by (simp add: state_cache_name_def)

lemma atomic_save_file_cases:
  assumes "with_extension ''tmp'' p \<noteq> p" and "atomic_save_file to_json io p data fs = (fs', r)"
  shows "(\<forall>q. q \<noteq> p \<and> q \<noteq> with_extension ''tmp'' p \<longrightarrow> fs' q = fs q) \<and>
    (fs' p = fs p \<and> r \<noteq> Inr () \<or> (\<exists>json. to_json data = Inr json \<and> fs' p = Some json \<and> r = Inr ()))"
  using assms by (auto simp: atomic_save_file_def Let_def split: option.splits sum.splits)

lemma load_file_saved:
  assumes "p \<noteq> []" and "io_create_dir io = None" "io_exists io = None" "io_read io = None"
    and "fs p = Some json" and "from_json json = Inr data"
  shows "load_file from_json io p fs = Inr (Some data)"
  using assms by (simp add: load_file_def path_parent_def io_ok_def)

text \<open>C36: Saving to a cache file is atomic: whatever step fails, the file holds its old content or the whole new
  JSON, no other file but the temporary one changes, and a reported success means that the file can be
  read back as the saved data.\<close>

theorem http_cache_atomic:
  assumes "cache_file_path http name = Some p" and "name \<in> cache_names"
    and "\<forall>d json. to_json d = Inr json \<longrightarrow> from_json json = Inr d"
    and "atomic_save_file to_json io p data fs = (fs', r)"
  shows "(\<forall>q. q \<noteq> p \<and> q \<noteq> with_extension ''tmp'' p \<longrightarrow> fs' q = fs q) \<and>
    (fs' p = fs p \<and> r \<noteq> Inr () \<or> (\<exists>json. to_json data = Inr json \<and> fs' p = Some json \<and> r = Inr ())) \<and>
    (r = Inr () \<longrightarrow> io_create_dir io' = None \<longrightarrow> io_exists io' = None \<longrightarrow> io_read io' = None \<longrightarrow>
       load_file from_json io' p fs' = Inr (Some data))"
proof -
  from cache_names_json [OF assms(2)] assms(1) obtain d n where p: "p = d @ [n @ ''.json'']" "n \<noteq> []"
    by (auto simp: cache_file_path_def)
  then have tmp: "with_extension ''tmp'' p \<noteq> p" using tmp_differs [of n d] by auto
  from p have "p \<noteq> []" by simp
  show ?thesis
    using atomic_save_file_cases [OF tmp assms(4)] load_file_saved [OF \<open>p \<noteq> []\<close>, of io' fs' _ from_json data] assms(3)
    by blast
qed

definition all_fine :: io_outcomes where
  "all_fine = \<lparr>io_create_dir = None, io_create = None, io_write = None, io_partial = 0, io_flush = None,
     io_sync = None, io_replace = None, io_exists = None, io_read = None\<rparr>"

theorem http_cache_atomic_witness:
  "load_file Inr all_fine [''cache'', ''symbols_v1.json'']
     (fst (atomic_save_file Inr all_fine [''cache'', ''symbols_v1.json''] ''[]'' Map.empty)) = Inr (Some ''[]'')"
proof -
  let ?http = "\<lparr>rh_urls = [()], rh_update_interval = 1, rh_channel_capacity = 1, rh_cache_dir = Some [''cache'']\<rparr>"
  let ?p = "[''cache'', ''symbols_v1.json'']"
  have p: "cache_file_path ?http ''symbols_v1.json'' = Some ?p" by (simp add: cache_file_path_def)
  have name: "''symbols_v1.json'' \<in> cache_names" by (simp add: cache_names_def)
  have json: "\<forall>d json. (Inr d :: anyhow + string) = Inr json \<longrightarrow> (Inr json :: anyhow + string) = Inr d" by simp
  obtain fs r where save: "atomic_save_file Inr all_fine ?p ''[]'' Map.empty = (fs, r)" by fastforce
  have "r = Inr ()" using save by (simp add: atomic_save_file_def path_parent_def all_fine_def Let_def)
  with http_cache_atomic [OF p name json save, of all_fine] save show ?thesis by (simp add: all_fine_def)
qed

section \<open>Fetching\<close>

lemma first_success_Some: "first_success rs = Some r \<Longrightarrow> Some (Inr r) \<in> set rs"
  by (induction rs rule: first_success.induct) auto

lemma first_success_None: "first_success rs = None \<longleftrightarrow> (\<forall>r. Some (Inr r) \<notin> set rs)"
  by (induction rs rule: first_success.induct) auto

lemma set_nth_all: "(!) xs ` {..<length xs} = set xs"
  by (auto simp: set_conv_nth)

text \<open>
  Requests to all URLs succeed if one of them does, whatever the order in which they end, with the answer
  of one of them; they fail only if there is no URL or all have failed.
\<close>

lemma fetch_from_all_urls_exact:
  fixes f :: "'u \<Rightarrow> nat \<Rightarrow> backoff_error + 'r" and http :: "'u http_client"
    and retry :: "'r retry" and dl :: "nat option" and limited :: bool
  defines "result \<equiv> \<lambda>url. fetch_from_single_url_with_retry retry dl http limited (f url)"
  assumes "rh_urls http \<noteq> []" and "set order = {..<length (rh_urls http)}"
  shows "case fetch_from_all_urls retry dl http limited f order of
      None \<Rightarrow> (\<forall>url\<in>set (rh_urls http). \<forall>r. result url \<noteq> Some (Inr r)) \<and>
              (\<exists>url\<in>set (rh_urls http). result url = None)
    | Some (Inr r) \<Rightarrow> \<exists>url\<in>set (rh_urls http). result url = Some (Inr r)
    | Some (Inl e) \<Rightarrow> \<forall>url\<in>set (rh_urls http). \<exists>e. result url = Some (Inl e)"
proof -
  let ?rs = "map result (rh_urls http)"
  have set: "set (map ((!) ?rs) order) = set ?rs"
    using assms(3) set_nth_all [of ?rs] by (simp only: set_map length_map)
  have eq: "fetch_from_all_urls retry dl http limited f order =
      (case first_success (map ((!) ?rs) order) of
         Some r \<Rightarrow> Some (Inr r)
       | None \<Rightarrow> if None \<in> set ?rs then None else Some (Inl (Message ''failed to fetch data from any urls'')))"
    using assms(2) by (simp add: fetch_from_all_urls_def result_def Let_def)
  show ?thesis
  proof (cases "first_success (map ((!) ?rs) order)")
    case (Some r)
    with first_success_Some [OF Some] set eq show ?thesis by auto
  next
    case None
    then have no: "Some (Inr r) \<notin> set ?rs" for r using first_success_None set by metis
    show ?thesis
    proof (cases "None \<in> set ?rs")
      case True
      with None eq have none: "fetch_from_all_urls retry dl http limited f order = None" by simp
      from True no show ?thesis unfolding none option.case by (metis (no_types, lifting) imageE image_eqI list.set_map)
    next
      case False
      with None eq have err: "fetch_from_all_urls retry dl http limited f order =
          Some (Inl (Message ''failed to fetch data from any urls''))" by simp
      have "\<exists>e. result url = Some (Inl e)" if "url \<in> set (rh_urls http)" for url
      proof -
        from that have "result url \<in> set ?rs" by simp
        with False no obtain x where "result url = Some x" "\<forall>r. x \<noteq> Inr r" by (metis option.exhaust)
        then show ?thesis by (cases x) auto
      qed
      then show ?thesis unfolding err by simp
    qed
  qed
qed

text \<open>The retries without the limit of the update interval still end with an error when every server refuses.\<close>

lemma unlimited_fetch_fails:
  assumes "\<forall>limit f e. f 0 = Inl (Permanent e) \<longrightarrow> retry limit f = Some (Inl e)"
    and "rh_urls http \<noteq> []" and "\<forall>url\<in>set (rh_urls http). \<exists>e. f url 0 = Inl (Permanent e)"
  shows "fetch_from_all_urls retry dl http False f [0..<length (rh_urls http)] =
    Some (Inl (Message ''failed to fetch data from any urls''))"
proof -
  let ?r = "\<lambda>url. fetch_from_single_url_with_retry retry dl http False (f url)"
  have "\<forall>url\<in>set (rh_urls http). \<exists>e. ?r url = Some (Inl e)"
    using assms(1,3) unfolding fetch_from_single_url_with_retry_def by metis
  then have none: "None \<notin> set (map ?r (rh_urls http))" and no: "Some (Inr r) \<notin> set (map ?r (rh_urls http))" for r
    by force+
  have "first_success (map ((!) (map ?r (rh_urls http))) [0..<length (rh_urls http)]) = None"
    using no map_nth [of "map ?r (rh_urls http)"] by (simp only: first_success_None length_map) blast
  with none assms(2) show ?thesis by (auto simp: fetch_from_all_urls_def Let_def)
qed


text \<open>
  What \<^verbatim>\<open>state\<close> returns was answered by a server to a request with the same parameters, or was in the cache
  file of these parameters.  Without a token no server is asked: the answer comes from the cache, if at all.
\<close>

lemma fetch_or_cache_origin:
  assumes "fetch_or_cache to_json from_json io cache fetch fs = (fs', Some (Inr v))"
  shows "(\<exists>limited. fetch limited = Some (Inr v)) \<or> (\<exists>p. cache = Some p \<and> load_file from_json io p fs = Inr (Some v))"
  using assms by (auto simp: fetch_or_cache_def split: option.splits sum.splits)

lemma fetch_urls_origin:
  assumes "fetch_urls fe http request limited = Some (Inr v)"
  shows "\<exists>url\<in>set (rh_urls http).
    fe_retry fe (single_url_limit (fe_default_limit fe) http limited) (\<lambda>n. request (fe_lib fe limited n) url) =
      Some (Inr v) \<or> (\<exists>n. n \<in> set (fe_order fe limited) \<and> length (rh_urls http) \<le> n)"
proof -
  let ?rs = "map (\<lambda>url. fetch_from_single_url_with_retry (fe_retry fe) (fe_default_limit fe) http limited
      (\<lambda>n. request (fe_lib fe limited n) url)) (rh_urls http)"
  from assms have ne: "rh_urls http \<noteq> []" and f: "first_success (map ((!) ?rs) (fe_order fe limited)) = Some v"
    by (auto simp: fetch_urls_def fetch_from_all_urls_def Let_def split: if_splits option.splits)
  from first_success_Some [OF f] obtain n where n: "n \<in> set (fe_order fe limited)" "?rs ! n = Some (Inr v)" by auto
  show ?thesis
  proof (cases "n < length (rh_urls http)")
    case True
    with n(2) show ?thesis
      by (intro bexI [of _ "rh_urls http ! n"]) (simp_all add: fetch_from_single_url_with_retry_def)
  next
    case False
    with n(1) ne show ?thesis by (intro bexI [of _ "hd (rh_urls http)"]) auto
  qed
qed

lemma request_state_no_token: "\<exists>e. request_state hl parse params None url = Inl (Permanent e)"
  by (cases "hl_join hl ''v1/state'' url") (auto simp: request_state_def)

lemma state_without_token:
  assumes "\<forall>limit f e. f 0 = Inl (Permanent e) \<longrightarrow> fe_retry fe limit f = Some (Inl e)"
    and "\<forall>limited. set (fe_order fe limited) \<subseteq> {..<length (rh_urls http)}"
    and "client_state fe parse http None params fs = (fs', Some (Inr v))"
  shows "\<exists>p. state_cache_file_path http params = Some p \<and> load_file (fe_from_json fe) (fe_io fe) p fs = Inr (Some v)"
proof -
  have "fetch_urls fe http (\<lambda>hl. request_state hl parse params None) limited \<noteq> Some (Inr v)" for limited
  proof
    assume "fetch_urls fe http (\<lambda>hl. request_state hl parse params None) limited = Some (Inr v)"
    from fetch_urls_origin [OF this] obtain url where "fe_retry fe (single_url_limit (fe_default_limit fe) http limited)
        (\<lambda>n. request_state (fe_lib fe limited n) parse params None url) = Some (Inr v)"
      using assms(2) by (meson lessThan_iff not_le subsetD)
    moreover obtain e where "request_state (fe_lib fe limited 0) parse params None url = Inl (Permanent e)"
      using request_state_no_token [of "fe_lib fe limited 0" parse params url] by auto
    ultimately show False using assms(1) by fastforce
  qed
  with fetch_or_cache_origin [OF assms(3) [unfolded client_state_def]] show ?thesis by blast
qed

section \<open>The stream\<close>

definition fetched_values :: "'r poll_round list \<Rightarrow> 'r list" where
  "fetched_values rs = List.map_filter (\<lambda>r. case pr_fetched r of Inr v \<Rightarrow> Some v | Inl e \<Rightarrow> None) rs"

lemma fetched_values_simps [simp]:
  "fetched_values [] = []"
  "fetched_values (r # rs) = (case pr_fetched r of Inr v \<Rightarrow> v # fetched_values rs | Inl e \<Rightarrow> fetched_values rs)"
  by (simp_all add: fetched_values_def map_filter_def split: sum.split)

lemma keep_stream_changes:
  assumes "\<forall>r\<in>set rs. \<not> pr_closed r \<and> pr_send_ok r"
    and "keep_stream_updated to_json cache rs v fs = (sent, fs', ended)"
  shows "v # sent = remdups_adj (v # fetched_values rs) \<and> \<not> ended"
  using assms
proof (induction rs arbitrary: v fs sent)
  case (Cons r rs)
  show ?case
  proof (cases "pr_fetched r")
    case (Inl e)
    with Cons.prems have "keep_stream_updated to_json cache rs v fs = (sent, fs', ended)" by simp
    from Cons.IH [OF _ this] Cons.prems(1) Inl show ?thesis by simp
  next
    case (Inr w)
    show ?thesis
    proof (cases "v = w")
      case True
      with Cons.prems Inr have "keep_stream_updated to_json cache rs v fs = (sent, fs', ended)" by simp
      from Cons.IH [OF _ this] Cons.prems(1) Inr True show ?thesis by simp
    next
      case False
      with Cons.prems Inr obtain sent1 fs1 where rec:
        "keep_stream_updated to_json cache rs w (save_cache to_json (pr_io r) cache w fs) = (sent1, fs', ended)"
        "sent = w # sent1"
        by (auto simp: Let_def split: prod.splits)
      with Cons.IH [OF _ rec(1)] Cons.prems(1) False Inr show ?thesis by simp
    qed
  qed
qed simp

lemma keep_stream_closed:
  assumes "pr_closed r"
  shows "keep_stream_updated to_json cache (pre @ r # post) v fs = keep_stream_updated to_json cache (pre @ [r]) v fs \<and>
    snd (snd (keep_stream_updated to_json cache (pre @ r # post) v fs))"
proof (induction pre arbitrary: v fs)
  case (Cons x pre)
  note eq = Cons [THEN conjunct1] and ends = Cons [THEN conjunct2]
  show ?case
    by (auto simp: eq ends [unfolded eq] Let_def split: sum.split prod.split) (metis ends eq snd_conv)
qed (simp add: assms)

text \<open>C37: While the handle is held, the stream yields the first value and then every change of the fetched
  values, each value once per change; the polling task ends at the first turn after the handle was dropped,
  whatever would follow.\<close>

theorem http_stream_exact:
  assumes "rh_channel_capacity http \<noteq> 0"
    and "fetch_or_cache to_json from_json io cache fetch fs = (fs1, Some (Inr v))"
    and "\<forall>r\<in>set rounds. \<not> pr_closed r \<and> pr_send_ok r" and "pr_closed last_round"
  shows "(\<exists>fs2. http_stream to_json from_json io http cache fetch rounds fs =
      (fs2, Some (Inr (remdups_adj (v # fetched_values rounds))))) \<and>
    (\<forall>post. http_stream to_json from_json io http cache fetch (rounds @ last_round # post) fs =
      http_stream to_json from_json io http cache fetch (rounds @ [last_round]) fs \<and>
      snd (snd (keep_stream_updated to_json cache (rounds @ last_round # post) v fs1)))"
proof (intro conjI allI)
  obtain sent fs2 ended where keep: "keep_stream_updated to_json cache rounds v fs1 = (sent, fs2, ended)"
    by (metis prod_cases3)
  with keep_stream_changes [OF assms(3) keep] assms(1,2)
  show "\<exists>fs2. http_stream to_json from_json io http cache fetch rounds fs =
      (fs2, Some (Inr (remdups_adj (v # fetched_values rounds))))"
    by (simp add: http_stream_def)
next
  fix post
  show "http_stream to_json from_json io http cache fetch (rounds @ last_round # post) fs =
      http_stream to_json from_json io http cache fetch (rounds @ [last_round]) fs"
    using assms(1,2) keep_stream_closed [OF assms(4), of to_json cache rounds post v fs1] by (simp add: http_stream_def)
  show "snd (snd (keep_stream_updated to_json cache (rounds @ last_round # post) v fs1))"
    using keep_stream_closed [OF assms(4)] by blast
qed

theorem http_stream_exact_witness:
  "\<exists>fs2. http_stream Inr Inr all_fine
     \<lparr>rh_urls = [()], rh_update_interval = 1, rh_channel_capacity = 1, rh_cache_dir = None\<rparr> None (\<lambda>_. Some (Inr ''a''))
     [\<lparr>pr_closed = False, pr_fetched = Inr ''a'', pr_io = all_fine, pr_send_ok = True\<rparr>,
      \<lparr>pr_closed = False, pr_fetched = Inr ''b'', pr_io = all_fine, pr_send_ok = True\<rparr>] Map.empty =
     (fs2, Some (Inr [''a'', ''b'']))"
proof -
  let ?http = "\<lparr>rh_urls = [()], rh_update_interval = 1, rh_channel_capacity = 1 :: nat, rh_cache_dir = None\<rparr>"
  let ?rounds = "[\<lparr>pr_closed = False, pr_fetched = Inr ''a'', pr_io = all_fine, pr_send_ok = True\<rparr>,
      \<lparr>pr_closed = False, pr_fetched = Inr ''b'', pr_io = all_fine, pr_send_ok = True\<rparr>]"
  let ?last = "\<lparr>pr_closed = True, pr_fetched = Inr ''b'', pr_io = all_fine, pr_send_ok = True\<rparr>"
  have cap: "rh_channel_capacity ?http \<noteq> 0" by simp
  have fetch: "fetch_or_cache Inr Inr all_fine None (\<lambda>_. Some (Inr ''a'')) Map.empty = (Map.empty, Some (Inr ''a''))"
    by (simp add: fetch_or_cache_def save_cache_def)
  have rounds: "\<forall>r\<in>set ?rounds. \<not> pr_closed r \<and> pr_send_ok r" and last: "pr_closed ?last" by simp_all
  from http_stream_exact [OF cap fetch rounds last, THEN conjunct1] show ?thesis by simp
qed

text \<open>A handle that follows the stream holds the value fetched last.\<close>

lemma handle_holds_last: "vs \<noteq> [] \<Longrightarrow> auto_updated_handle vs = Inr (last vs)"
proof (cases vs)
  case (Cons v rest)
  have "fold (\<lambda>v h. v) rest v = last (v # rest)" by (induction rest arbitrary: v) auto
  with Cons show ?thesis by simp
qed simp

section \<open>The router\<close>

text \<open>The first router that answers decides; the call fails only if every router fails.\<close>

lemma try_each_url_Inr:
  "try_each_url request urls = Inr r \<longleftrightarrow>
     (\<exists>pre url post. urls = pre @ url # post \<and> request url = Inr r \<and> (\<forall>u\<in>set pre. \<exists>e. request u = Inl e))"
proof (induction urls)
  case (Cons u urls)
  show ?case unfolding first_of_Cons Cons [symmetric] by (cases "request u") auto
qed simp

end
