(* ===== verification/Lazer_Formats.thy ===== *)
theory Lazer_Formats
  imports Lazer_Message Packed_Evm
begin

text \<open>
  The magic numbers of all binary formats (\<^verbatim>\<open>sdk/rust/protocol/src/lib.rs\<close>): the crate keeps them distinct,
  in both byte orders.  Hence no bytes are accepted by the readers of two formats.
\<close>

section \<open>The magic numbers\<close>

definition ALL_MAGICS :: "u32 list" where
  "ALL_MAGICS =
     [BINARY_UPDATE_FORMAT_MAGIC, PAYLOAD_FORMAT_MAGIC, PACKED_EVM_PAYLOAD_FORMAT_MAGIC, SOLANA_FORMAT_MAGIC,
      JSON_FORMAT_MAGIC, EVM_FORMAT_MAGIC, PROTOCOL_LE_ECDSA_FORMAT_MAGIC, LE_UNSIGNED_FORMAT_MAGIC]"

definition swap_bytes :: "u32 \<Rightarrow> u32" where
  "swap_bytes w = get_uint BE (put_uint LE 4 w)"

lemmas all_magic_defs = magic_defs BINARY_UPDATE_FORMAT_MAGIC_def PAYLOAD_FORMAT_MAGIC_def
  PACKED_EVM_PAYLOAD_FORMAT_MAGIC_def

lemma magics_are_pairwise_distinct: "distinct (ALL_MAGICS @ map swap_bytes ALL_MAGICS)"
  by code_simp

section \<open>Readers\<close>

text \<open>The readers of the crate, by the format they read.\<close>

datatype wire_format =
  W_Binary_Update | W_Evm | W_Solana | W_Le_Ecdsa | W_Le_Unsigned | W_Json | W_Payload byte_order | W_Packed_Evm

fun accepts :: "(bytes \<Rightarrow> anyhow + 'json) \<Rightarrow> wire_format \<Rightarrow> bytes \<Rightarrow> bool" where
  "accepts from_json W_Binary_Update bs = is_ok (bwu_deserialize_slice from_json bs)"
| "accepts from_json W_Evm bs = is_ok (evm_deserialize_slice bs)"
| "accepts from_json W_Solana bs = is_ok (solana_deserialize_slice bs)"
| "accepts from_json W_Le_Ecdsa bs = is_ok (le_ecdsa_deserialize_slice bs)"
| "accepts from_json W_Le_Unsigned bs = is_ok (le_unsigned_deserialize_slice bs)"
| "accepts from_json W_Json bs =
     (case message_deserialize_slice from_json bs of Inr (Json _) \<Rightarrow> True | _ \<Rightarrow> False)"
| "accepts from_json (W_Payload LE) bs = is_ok (payload_deserialize_slice_le bs)"
| "accepts from_json (W_Payload BE) bs = is_ok (payload_deserialize_slice_be bs)"
| "accepts from_json W_Packed_Evm bs = is_ok (packed_deserialize_slice bs)"

fun magic_bytes :: "wire_format \<Rightarrow> bytes" where
  "magic_bytes W_Binary_Update = put_uint LE 4 BINARY_UPDATE_FORMAT_MAGIC"
| "magic_bytes W_Evm = put_uint LE 4 EVM_FORMAT_MAGIC"
| "magic_bytes W_Solana = put_uint LE 4 SOLANA_FORMAT_MAGIC"
| "magic_bytes W_Le_Ecdsa = put_uint LE 4 PROTOCOL_LE_ECDSA_FORMAT_MAGIC"
| "magic_bytes W_Le_Unsigned = put_uint LE 4 LE_UNSIGNED_FORMAT_MAGIC"
| "magic_bytes W_Json = put_uint LE 4 JSON_FORMAT_MAGIC"
| "magic_bytes (W_Payload bo) = put_uint bo 4 PAYLOAD_FORMAT_MAGIC"
| "magic_bytes W_Packed_Evm = put_uint BE 4 PACKED_EVM_PAYLOAD_FORMAT_MAGIC"

lemma get_range_magic:
  "get_range 0 4 bs = Some head \<Longrightarrow> get_uint LE head = (m :: u32) \<Longrightarrow> take 4 bs = put_uint LE 4 m"
  by (auto simp: get_range_def put_get_uint split: if_splits)

lemma read_u32_magic: "read_u32 bo bs = Inr (m, r) \<Longrightarrow> take 4 bs = put_uint bo 4 m"
  by (simp add: read_uint_Inr_iff)

lemma json_message_magic:
  assumes "message_deserialize_slice from_json bs = Inr (Json p)"
  shows "take 4 bs = put_uint LE 4 JSON_FORMAT_MAGIC"
  using assms
  by (auto simp: message_deserialize_slice_def Let_def intro: get_range_magic split: if_splits)

lemma accepts_magic: "accepts from_json f bs \<Longrightarrow> take 4 bs = magic_bytes f"
proof (cases f)
  case (W_Payload bo)
  then show "accepts from_json f bs \<Longrightarrow> ?thesis"
    by (cases bo) (auto simp: is_ok_iff payload_deserialize_slice_le_def payload_deserialize_slice_be_def
        payload_deserialize_def intro: read_u32_magic split: if_splits)
qed (auto simp: is_ok_iff bwu_deserialize_slice_def evm_deserialize_slice_def evm_deserialize_def
    solana_deserialize_slice_def solana_deserialize_def le_ecdsa_deserialize_slice_def le_ecdsa_deserialize_def
    le_unsigned_deserialize_slice_def le_unsigned_deserialize_def packed_deserialize_slice_def Let_def
    intro: read_u32_magic get_range_magic json_message_magic split: if_splits sum.splits message.splits)

definition all_formats :: "wire_format list" where
  "all_formats = [W_Binary_Update, W_Evm, W_Solana, W_Le_Ecdsa, W_Le_Unsigned, W_Json, W_Payload LE, W_Payload BE,
     W_Packed_Evm]"

lemma in_all_formats: "f \<in> set all_formats"
proof (cases f)
  case (W_Payload bo)
  then show ?thesis by (cases bo) (simp_all add: all_formats_def)
qed (simp_all add: all_formats_def)

lemma magic_bytes_inj: "magic_bytes f = magic_bytes g \<Longrightarrow> f = g"
proof -
  have "distinct (map magic_bytes all_formats)" by code_simp
  then have "inj_on magic_bytes (set all_formats)" by (simp add: distinct_map)
  then show "magic_bytes f = magic_bytes g \<Longrightarrow> f = g" using in_all_formats by (auto dest: inj_onD)
qed

section \<open>Sizes of packed payloads\<close>

definition BLOCK_SERIALIZED_SIZE :: nat where "BLOCK_SERIALIZED_SIZE = 48"

definition num_blocks :: "packed_evm_payload \<Rightarrow> nat" where
  "num_blocks p = (length (pp_feeds p) + (NUM_FEEDS - 1)) div NUM_FEEDS"

definition serialized_size :: "packed_evm_payload \<Rightarrow> nat" where
  "serialized_size p = PACKED_HEADER_SIZE + num_blocks p * BLOCK_SERIALIZED_SIZE"

lemma length_chunks_four: "length (chunks 4 xs) = (length xs + 3) div 4"
proof (induction "4 :: nat" xs rule: chunks.induct)
  case (1 xs)
  show ?case
  proof (cases "xs = []")
    case False
    then have "length (chunks 4 xs) = Suc ((length xs - 4 + 3) div 4)"
      using 1 by (subst chunks.simps) simp
    moreover have "Suc ((n - 4 + 3) div 4) = (n + 3) div 4" if "0 < n" for n :: nat
      using that by (cases "n < 4") (auto simp: div_add_self2 Suc_diff_le le_div_geq)
    ultimately show ?thesis using False by simp
  qed (simp add: chunks.simps)
qed

lemma length_concat_const: "\<forall>x \<in> set xs. length (f x) = k \<Longrightarrow> length (concat (map f xs)) = length xs * k"
  by (induction xs) simp_all

lemma length_concat_replicate: "length (concat (replicate n xs)) = n * length xs"
  by (induction n) simp_all

lemma length_block_serialize:
  assumes "length (bk_feeds b) \<le> 4"
  shows "length (block_serialize b) = BLOCK_SERIALIZED_SIZE"
proof -
  have "length (concat (map (\<lambda>f. put_uint BE 4 (pe_feed_id f)) (bk_feeds b))) = length (bk_feeds b) * 4"
    "length (concat (map (\<lambda>f. lane_to_bytes (pe_lane f)) (bk_feeds b))) = length (bk_feeds b) * 6"
    by (rule length_concat_const, simp)+
  then show ?thesis
    using assms
    by (simp add: block_serialize_def BLOCK_SERIALIZED_SIZE_def NUM_FEEDS_def LANE_SIZE_def length_concat_replicate
        diff_mult_distrib)
qed

lemma length_chunk_le: "c \<in> set (chunks 4 xs) \<Longrightarrow> length c \<le> 4"
proof -
  assume "c \<in> set (chunks 4 xs)"
  then have "length c \<in> set (chunk_counts 4 (length xs))"
    using length_chunks [of 4 xs] by (metis image_eqI set_map zero_less_numeral)
  then show ?thesis using chunk_counts_le [of 4 "length xs"] by (simp add: list_all_iff)
qed

text \<open>A payload takes six bytes and 48 bytes for each block of up to four feeds.\<close>

lemma packed_serialize_length:
  assumes "packed_serialize p = Inr data"
  shows "length data = serialized_size p"
proof -
  have "length (concat (map block_serialize (payload_blocks p))) = length (payload_blocks p) * BLOCK_SERIALIZED_SIZE"
    by (rule length_concat_const)
      (auto simp: payload_blocks_def NUM_FEEDS_def intro!: length_block_serialize length_chunk_le)
  then show ?thesis
    using assms
    by (auto simp: packed_serialize_Inr packed_header_def serialized_size_def num_blocks_def PACKED_HEADER_SIZE_def
        payload_blocks_def NUM_FEEDS_def length_chunks_four)
qed

section \<open>Exclusive formats\<close>

text \<open>C38: no bytes are read successfully in two formats.  In particular a payload is never mistaken for an
  envelope, a signed envelope for an unsigned one, or a payload of one byte order for one of the other.
\<close>

theorem formats_are_exclusive:
  assumes "accepts from_json f bs" and "accepts from_json g bs"
  shows "f = g"
  using accepts_magic [OF assms(1)] accepts_magic [OF assms(2)] by (simp add: magic_bytes_inj)

theorem formats_are_exclusive_witness:
  "let bs = put_uint LE 4 LE_UNSIGNED_FORMAT_MAGIC @ [2, 0, 7, 8];
       from_json = \<lambda>_ :: bytes. Inl UnexpectedEof :: anyhow + unit
   in accepts from_json W_Le_Unsigned bs \<and> (\<forall>g. accepts from_json g bs \<longrightarrow> W_Le_Unsigned = g)"
proof -
  let ?bs = "put_uint LE 4 LE_UNSIGNED_FORMAT_MAGIC @ [2, 0, 7, 8]"
  let ?from_json = "\<lambda>_ :: bytes. Inl UnexpectedEof :: anyhow + unit"
  have a: "accepts ?from_json W_Le_Unsigned ?bs" by code_simp
  show ?thesis using a formats_are_exclusive [OF a] by (simp add: Let_def)
qed

end
