(* ===== verification/Lazer_Json.thy ===== *)
theory Lazer_Json
  imports Lazer_Api Dynamic_Values
begin

text \<open>
  The JSON forms of the protocol's types, as \<^verbatim>\<open>sdk/rust/protocol/src\<close> prescribes them with the attributes
  of its structs (names in camel case, defaults, skipped and flattened fields, aliases) and with its own
  readers and writers (\<^verbatim>\<open>serde_str.rs\<close>, the channel of \<^verbatim>\<open>api.rs\<close>, \<^verbatim>\<open>dynamic_value.rs\<close>).  A JSON
  text is the tree of its values; an object keeps the order and the repetitions of its fields.  Readers are
  given on the forms that writers produce: an object for a struct and a string for the name of a variant.
  Of the errors only the fact is kept, not which of several comes first.
\<close>

section \<open>Values and fields\<close>

datatype json =
    J_Null | J_Bool bool | J_Int int | J_Float u64 | J_String string
  | J_Array "json list" | J_Object "(string \<times> json) list"

type_synonym fields = "(string \<times> json) list"

text \<open>The values of the fields with one of the given names: a field and its aliases.\<close>

definition fields_named :: "string list \<Rightarrow> fields \<Rightarrow> json list" where
  "fields_named names kvs = map snd (filter (\<lambda>(k, _). k \<in> set names) kvs)"

definition single_field :: "string list \<Rightarrow> fields \<Rightarrow> string + json option" where
  "single_field names kvs =
     (case fields_named names kvs of
        [] \<Rightarrow> Inr None
      | [v] \<Rightarrow> Inr (Some v)
      | _ \<Rightarrow> Inl (''duplicate field '' @ hd names))"

text \<open>A field that must be there, one with a default value, and one of an \<^verbatim>\<open>Option\<close>.\<close>

definition required_field :: "string list \<Rightarrow> (json \<Rightarrow> string + 'a) \<Rightarrow> fields \<Rightarrow> string + 'a" where
  "required_field names of_json kvs =
     and_then (single_field names kvs) (\<lambda>v.
       case v of None \<Rightarrow> Inl (''missing field '' @ hd names) | Some j \<Rightarrow> of_json j)"

definition default_field :: "string list \<Rightarrow> 'a \<Rightarrow> (json \<Rightarrow> string + 'a) \<Rightarrow> fields \<Rightarrow> string + 'a" where
  "default_field names dflt of_json kvs =
     and_then (single_field names kvs) (\<lambda>v. case v of None \<Rightarrow> Inr dflt | Some j \<Rightarrow> of_json j)"

fun json_option :: "(json \<Rightarrow> string + 'a) \<Rightarrow> json \<Rightarrow> string + 'a option" where
  "json_option of_json J_Null = Inr None"
| "json_option of_json j = map_ok Some (of_json j)"

definition option_field :: "string list \<Rightarrow> (json \<Rightarrow> string + 'a) \<Rightarrow> fields \<Rightarrow> string + 'a option" where
  "option_field names of_json = default_field names None (json_option of_json)"

fun map_results :: "('a \<Rightarrow> 'e + 'b) \<Rightarrow> 'a list \<Rightarrow> 'e + 'b list" where
  "map_results f [] = Inr []"
| "map_results f (x # xs) = and_then (f x) (\<lambda>y. and_then (map_results f xs) (\<lambda>ys. Inr (y # ys)))"

fun json_list :: "(json \<Rightarrow> string + 'a) \<Rightarrow> json \<Rightarrow> string + 'a list" where
  "json_list of_json (J_Array js) = map_results of_json js"
| "json_list of_json _ = Inl ''expected a sequence''"

fun json_object :: "(fields \<Rightarrow> string + 'a) \<Rightarrow> json \<Rightarrow> string + 'a" where
  "json_object of_fields (J_Object kvs) = of_fields kvs"
| "json_object of_fields _ = Inl ''expected an object''"

text \<open>\<^verbatim>\<open>skip_serializing_if = "Option::is_none"\<close>, and an \<^verbatim>\<open>Option\<close> that is always written.\<close>

definition skip_none :: "string \<Rightarrow> ('a \<Rightarrow> json) \<Rightarrow> 'a option \<Rightarrow> fields" where
  "skip_none name to_json v = (case v of None \<Rightarrow> [] | Some x \<Rightarrow> [(name, to_json x)])"

definition or_null :: "('a \<Rightarrow> json) \<Rightarrow> 'a option \<Rightarrow> json" where
  "or_null to_json v = (case v of None \<Rightarrow> J_Null | Some x \<Rightarrow> to_json x)"

lemma fields_named_simps [simp]:
  "fields_named names [] = []"
  "fields_named names ((k, v) # kvs) = (if k \<in> set names then [v] else []) @ fields_named names kvs"
  "fields_named names (kvs @ kvs') = fields_named names kvs @ fields_named names kvs'"
  by (simp_all add: fields_named_def)

lemma fields_named_skip_none [simp]:
  "fields_named names (skip_none k f v) =
     (if k \<in> set names then case v of None \<Rightarrow> [] | Some x \<Rightarrow> [f x] else [])"
  by (simp add: skip_none_def split: option.split)

lemma list_all_True [simp]: "list_all (\<lambda>_. True) xs"
  by (simp add: list_all_iff)

text \<open>
  The contract of a writer and a reader of a type.  A written value is no \<^verbatim>\<open>null\<close>, so that an optional
  value can be told from its absence.  Lists, optional values and fields follow.
\<close>

locale json_form =
  fixes to_json :: "'a \<Rightarrow> json"
    and of_json :: "json \<Rightarrow> string + 'a"
    and valid :: "'a \<Rightarrow> bool"
  assumes of_to: "valid x \<Longrightarrow> of_json (to_json x) = Inr x"
    and not_null: "valid x \<Longrightarrow> to_json x \<noteq> J_Null"
begin

lemma of_to_list: "list_all valid xs \<Longrightarrow> json_list of_json (J_Array (map to_json xs)) = Inr xs"
  by (induction xs) (simp_all add: of_to)

lemma of_to_Some: "valid x \<Longrightarrow> json_option of_json (to_json x) = Inr (Some x)"
  using not_null [of x] by (cases "to_json x") (simp_all add: of_to flip: of_to)

lemma of_or_null: "pred_option valid v \<Longrightarrow> json_option of_json (or_null to_json v) = Inr v"
  by (cases v) (simp_all add: or_null_def of_to_Some)

lemma required: "fields_named names kvs = [to_json x] \<Longrightarrow> valid x \<Longrightarrow> required_field names of_json kvs = Inr x"
  by (simp add: required_field_def single_field_def of_to)

lemma defaulted: "fields_named names kvs = [to_json x] \<Longrightarrow> valid x \<Longrightarrow> default_field names d of_json kvs = Inr x"
  by (simp add: default_field_def single_field_def of_to)

lemma skipped:
  "fields_named names kvs = (case v of None \<Rightarrow> [] | Some x \<Rightarrow> [to_json x]) \<Longrightarrow> pred_option valid v \<Longrightarrow>
   option_field names of_json kvs = Inr v"
  by (cases v) (simp_all add: option_field_def default_field_def single_field_def of_to_Some)

lemma nullable:
  "fields_named names kvs = [or_null to_json v] \<Longrightarrow> pred_option valid v \<Longrightarrow> option_field names of_json kvs = Inr v"
  by (simp add: option_field_def default_field_def single_field_def of_or_null)

end

section \<open>Numbers, strings and names\<close>

fun json_uint :: "json \<Rightarrow> string + 'a::len word" where
  "json_uint (J_Int i) = ok_or ''integer out of range'' (to_unsigned i)"
| "json_uint _ = Inl ''expected an unsigned integer''"

fun json_sint :: "json \<Rightarrow> string + 'a::len word" where
  "json_sint (J_Int i) = ok_or ''integer out of range'' (to_signed i)"
| "json_sint _ = Inl ''expected an integer''"

fun json_string :: "json \<Rightarrow> string + string" where
  "json_string (J_String s) = Inr s"
| "json_string _ = Inl ''expected a string''"

fun json_bool :: "json \<Rightarrow> string + bool" where
  "json_bool (J_Bool b) = Inr b"
| "json_bool _ = Inl ''expected a boolean''"

text \<open>\<^verbatim>\<open>Price\<close> is a \<^verbatim>\<open>NonZeroI64\<close>.\<close>

definition json_price :: "json \<Rightarrow> string + price" where
  "json_price j = and_then (json_sint j) (\<lambda>v. if v = 0 then Inl ''expected a nonzero i64'' else Inr v)"

text \<open>The names of the variants of an enumeration.\<close>

fun json_name :: "('a \<Rightarrow> string) \<Rightarrow> 'a list \<Rightarrow> json \<Rightarrow> string + 'a" where
  "json_name name variants (J_String s) = ok_or ''unknown variant'' (find (\<lambda>v. name v = s) variants)"
| "json_name name variants _ = Inl ''expected a string''"

interpretation uint_form: json_form "\<lambda>w :: 'a::len word. J_Int (uint w)" json_uint "\<lambda>_. True"
  by unfold_locales (simp_all add: to_unsigned_Some_iff)

interpretation sint_form: json_form "\<lambda>w :: 'a::len word. J_Int (sint w)" json_sint "\<lambda>_. True"
  by unfold_locales (simp_all add: to_signed_Some_iff)

interpretation string_form: json_form J_String json_string "\<lambda>_. True"
  by unfold_locales simp_all

interpretation bool_form: json_form J_Bool json_bool "\<lambda>_. True"
  by unfold_locales simp_all

interpretation price_form: json_form "\<lambda>p. J_Int (sint p)" json_price "\<lambda>p. p \<noteq> 0"
  by unfold_locales (auto simp: json_price_def to_signed_Some_iff)

lemma find_name: "inj_on name (set vs) \<Longrightarrow> v \<in> set vs \<Longrightarrow> find (\<lambda>x. name x = name v) vs = Some v"
  by (induction vs) (auto simp: inj_on_def)

section \<open>Decimal strings (serde_str.rs)\<close>

text \<open>\<^verbatim>\<open>Display\<close> and \<^verbatim>\<open>FromStr\<close> of \<^verbatim>\<open>i64\<close>.\<close>

definition dec_int :: "int \<Rightarrow> string" where
  "dec_int i = (if i < 0 then CHR ''-'' # dec (nat (- i)) else dec (nat i))"

fun parse_digits_i64 :: "bool \<Rightarrow> i64 \<Rightarrow> string \<Rightarrow> i64 option" where
  "parse_digits_i64 neg acc [] = Some acc"
| "parse_digits_i64 neg acc (c # cs) =
    Option.bind (digit_value c) (\<lambda>d.
    Option.bind (checked_mul_s acc 10) (\<lambda>m.
    Option.bind (if neg then checked_sub_s m (of_nat d) else checked_add_s m (of_nat d)) (\<lambda>a.
    parse_digits_i64 neg a cs)))"

definition parse_i64 :: "string \<Rightarrow> i64 option" where
  "parse_i64 s =
    (if s = [] \<or> s = ''+'' \<or> s = ''-'' then None
     else if hd s = CHR ''+'' then parse_digits_i64 False 0 (tl s)
     else if hd s = CHR ''-'' then parse_digits_i64 True 0 (tl s)
     else parse_digits_i64 False 0 s)"

text \<open>The readers take a borrowed string, which the text of a number without escapes always is.\<close>

definition serialize_price_str :: "price \<Rightarrow> json" where
  "serialize_price_str p = J_String (dec_int (sint p))"

definition deserialize_price_str :: "json \<Rightarrow> string + price" where
  "deserialize_price_str j =
     and_then (json_string j) (\<lambda>s.
     and_then (ok_or ''invalid digit or number out of range'' (parse_i64 s)) (\<lambda>v.
     if v = 0 then Inl ''zero price'' else Inr v))"

definition serialize_timestamp_str :: "timestamp_us \<Rightarrow> json" where
  "serialize_timestamp_str t = J_String (dec (unat t))"

definition deserialize_timestamp_str :: "json \<Rightarrow> string + timestamp_us" where
  "deserialize_timestamp_str j =
     and_then (json_string j) (\<lambda>s. ok_or ''invalid digit or number out of range'' (parse_uint s))"

lemma parse_digits_i64_append:
  "parse_digits_i64 neg acc (cs @ ds) = Option.bind (parse_digits_i64 neg acc cs) (\<lambda>a. parse_digits_i64 neg a ds)"
  by (induction cs arbitrary: acc) (auto split: bind_splits)

lemma sint_digit: "d < 10 \<Longrightarrow> sint (of_nat d :: i64) = int d"
proof -
  assume "d < 10"
  then have "to_signed (int d) = Some (word_of_int (int d) :: i64)" by (simp add: to_signed_def)
  then show ?thesis by (simp add: to_signed_Some_iff)
qed

lemma parse_digits_i64_dec:
  assumes "- (2 ^ 63) \<le> (if neg then - int n else int n)" "(if neg then - int n else int n) < 2 ^ 63"
  shows "\<exists>w. parse_digits_i64 neg 0 (dec n) = Some w \<and> sint w = (if neg then - int n else int n)"
  using assms
proof (induction n rule: dec.induct)
  case (1 n)
  let ?val = "\<lambda>n. if neg then - int n else int n"
  have step: "\<exists>w. parse_digits_i64 neg acc [digit_char (n mod 10)] = Some w \<and> sint w = ?val n"
    if acc: "sint acc = ?val (n div 10)" for acc :: i64
  proof -
    have "int n = int (n div 10) * 10 + int (n mod 10)" by (metis div_mult_mod_eq of_nat_add of_nat_mult of_nat_numeral)
    then have split: "?val n = ?val (n div 10) * 10 + ?val (n mod 10)" by simp
    have bounds: "- (2 ^ 63) \<le> ?val (n div 10) * 10" "?val (n div 10) * 10 < 2 ^ 63"
      using 1(2,3) split by (cases neg; simp)+
    obtain m where m: "checked_mul_s acc 10 = Some m" "sint m = ?val (n div 10) * 10"
      using to_signed_in_range [where x = "?val (n div 10) * 10" and 'a = 64] bounds acc
      by (auto simp: checked_mul_s_def)
    obtain a where a: "(if neg then checked_sub_s m (of_nat (n mod 10)) else checked_add_s m (of_nat (n mod 10))) = Some a"
      "sint a = ?val n"
    proof -
      obtain a :: i64 where "to_signed (?val n) = Some a" "sint a = ?val n"
        using to_signed_in_range [where x = "?val n" and 'a = 64] 1(2,3) by auto
      then show thesis
        using that split m(2) sint_digit [of "n mod 10"]
        by (auto simp: checked_sub_s_def checked_add_s_def split: if_splits)
    qed
    show ?thesis using m(1) a by (simp add: digit_value_char)
  qed
  show ?case
  proof (cases "n < 10")
    case True
    then show ?thesis using step [of 0] by (subst dec.simps) simp
  next
    case False
    have "- (2 ^ 63) \<le> ?val (n div 10)" "?val (n div 10) < 2 ^ 63"
      using 1(2,3) by (cases neg; simp; linarith)+
    with False obtain w where "parse_digits_i64 neg 0 (dec (n div 10)) = Some w" "sint w = ?val (n div 10)"
      using 1(1) by blast
    then show ?thesis using False step [of w] by (subst dec.simps) (simp add: parse_digits_i64_append)
  qed
qed

lemma hd_dec: "hd (dec n) \<noteq> CHR ''+''" "hd (dec n) \<noteq> CHR ''-''"
proof -
  have "hd (dec n) \<in> digit_char ` {..<10}" using dec_digits dec_not_Nil by (metis hd_in_set subsetD)
  then obtain d where "hd (dec n) = digit_char d" "d < 10" by auto
  then have "of_char (hd (dec n)) = 48 + d" by (simp add: digit_char_def)
  then show "hd (dec n) \<noteq> CHR ''+''" "hd (dec n) \<noteq> CHR ''-''" by auto
qed

lemma parse_i64_dec: "parse_i64 (dec_int (sint w)) = Some w"
proof -
  have range: "- (2 ^ 63) \<le> sint w" "sint w < 2 ^ 63"
    using sint_range [of w] sint_range_upper [of w] by simp_all
  show ?thesis
  proof (cases "sint w < 0")
    case True
    then show ?thesis
      using parse_digits_i64_dec [of True "nat (- sint w)"] range dec_not_Nil [of "nat (- sint w)"]
      by (auto simp: parse_i64_def dec_int_def intro: signed_word_eqI)
  next
    case False
    moreover have "dec (nat (sint w)) \<noteq> ''+''" "dec (nat (sint w)) \<noteq> ''-''"
      using hd_dec [of "nat (sint w)"] by auto
    ultimately show ?thesis
      using parse_digits_i64_dec [of False "nat (sint w)"] range hd_dec [of "nat (sint w)"]
        dec_not_Nil [of "nat (sint w)"]
      by (auto simp: parse_i64_def dec_int_def intro: signed_word_eqI)
  qed
qed

lemma parse_uint_unat: "parse_uint (dec (unat w)) = Some w" for w :: u64
proof -
  have "unat w < 2 ^ 64" using unsigned_less [of w] by simp
  then show ?thesis using parse_uint_dec [of "unat w", where 'a = 64] by simp
qed

interpretation price_str_form: json_form serialize_price_str deserialize_price_str "\<lambda>p. p \<noteq> 0"
  by unfold_locales (auto simp: serialize_price_str_def deserialize_price_str_def parse_i64_dec)

interpretation timestamp_str_form: json_form serialize_timestamp_str deserialize_timestamp_str "\<lambda>_. True"
  by unfold_locales (simp_all add: serialize_timestamp_str_def deserialize_timestamp_str_def parse_uint_unat)

section \<open>Payloads (api.rs)\<close>

fun session_name :: "market_session \<Rightarrow> string" where
  "session_name Regular = ''regular''"
| "session_name PreMarket = ''preMarket''"
| "session_name PostMarket = ''postMarket''"
| "session_name OverNight = ''overNight''"
| "session_name Closed = ''closed''"

definition all_sessions :: "market_session list" where
  "all_sessions = [Regular, PreMarket, PostMarket, OverNight, Closed]"

definition session_to_json :: "market_session \<Rightarrow> json" where
  "session_to_json s = J_String (session_name s)"

definition session_of_json :: "json \<Rightarrow> string + market_session" where
  "session_of_json = json_name session_name all_sessions"

interpretation session_form: json_form session_to_json session_of_json "\<lambda>_. True"
proof
  fix s
  show "session_of_json (session_to_json s) = Inr s"
    by (cases s) (simp_all add: session_to_json_def session_of_json_def all_sessions_def)
qed (simp add: session_to_json_def)

definition parsed_feed_to_fields :: "parsed_feed_payload \<Rightarrow> fields" where
  "parsed_feed_to_fields p =
     [(''priceFeedId'', J_Int (uint (pf_price_feed_id p)))] @
     skip_none ''price'' serialize_price_str (pf_price p) @
     skip_none ''bestBidPrice'' serialize_price_str (pf_best_bid_price p) @
     skip_none ''bestAskPrice'' serialize_price_str (pf_best_ask_price p) @
     skip_none ''publisherCount'' (\<lambda>w. J_Int (uint w)) (pf_publisher_count p) @
     skip_none ''exponent'' (\<lambda>w. J_Int (sint w)) (pf_exponent p) @
     skip_none ''confidence'' (\<lambda>w. J_Int (sint w)) (pf_confidence p) @
     skip_none ''fundingRate'' (\<lambda>w. J_Int (sint w)) (pf_funding_rate p) @
     skip_none ''fundingTimestamp'' (\<lambda>w. J_Int (uint w)) (pf_funding_timestamp p) @
     skip_none ''fundingRateInterval'' (\<lambda>w. J_Int (uint w)) (pf_funding_rate_interval p) @
     skip_none ''marketSession'' session_to_json (pf_market_session p) @
     skip_none ''emaPrice'' serialize_price_str (pf_ema_price p) @
     skip_none ''emaConfidence'' (\<lambda>w. J_Int (sint w)) (pf_ema_confidence p) @
     skip_none ''feedUpdateTimestamp'' (\<lambda>w. J_Int (uint w)) (pf_feed_update_timestamp p)"

definition parsed_feed_of_fields :: "fields \<Rightarrow> string + parsed_feed_payload" where
  "parsed_feed_of_fields kvs =
     and_then (required_field [''priceFeedId''] json_uint kvs) (\<lambda>price_feed_id.
     and_then (option_field [''price''] deserialize_price_str kvs) (\<lambda>price.
     and_then (option_field [''bestBidPrice''] deserialize_price_str kvs) (\<lambda>best_bid_price.
     and_then (option_field [''bestAskPrice''] deserialize_price_str kvs) (\<lambda>best_ask_price.
     and_then (option_field [''publisherCount''] json_uint kvs) (\<lambda>publisher_count.
     and_then (option_field [''exponent''] json_sint kvs) (\<lambda>exponent.
     and_then (option_field [''confidence''] json_price kvs) (\<lambda>confidence.
     and_then (option_field [''fundingRate''] json_sint kvs) (\<lambda>funding_rate.
     and_then (option_field [''fundingTimestamp''] json_uint kvs) (\<lambda>funding_timestamp.
     and_then (option_field [''fundingRateInterval''] json_uint kvs) (\<lambda>funding_rate_interval.
     and_then (option_field [''marketSession''] session_of_json kvs) (\<lambda>market_session.
     and_then (option_field [''emaPrice''] deserialize_price_str kvs) (\<lambda>ema_price.
     and_then (option_field [''emaConfidence''] json_price kvs) (\<lambda>ema_confidence.
     and_then (option_field [''feedUpdateTimestamp''] json_uint kvs) (\<lambda>feed_update_timestamp.
     Inr \<lparr>pf_price_feed_id = price_feed_id, pf_price = price, pf_best_bid_price = best_bid_price,
          pf_best_ask_price = best_ask_price, pf_publisher_count = publisher_count, pf_exponent = exponent,
          pf_confidence = confidence, pf_funding_rate = funding_rate, pf_funding_timestamp = funding_timestamp,
          pf_funding_rate_interval = funding_rate_interval, pf_market_session = market_session,
          pf_ema_price = ema_price, pf_ema_confidence = ema_confidence,
          pf_feed_update_timestamp = feed_update_timestamp\<rparr>))))))))))))))"

definition parsed_feed_ok :: "parsed_feed_payload \<Rightarrow> bool" where
  "parsed_feed_ok p \<longleftrightarrow> price_ok (pf_price p) \<and> price_ok (pf_best_bid_price p) \<and> price_ok (pf_best_ask_price p) \<and>
     price_ok (pf_confidence p) \<and> price_ok (pf_ema_price p) \<and> price_ok (pf_ema_confidence p)"

lemma pred_price_ok: "price_ok v \<Longrightarrow> pred_option (\<lambda>p. p \<noteq> 0) v"
  by (cases v) (simp_all add: price_ok_def)

lemma pred_option_True [simp]: "pred_option (\<lambda>_. True) v"
  by (cases v) simp_all

interpretation parsed_feed_form:
  json_form "\<lambda>p. J_Object (parsed_feed_to_fields p)" "json_object parsed_feed_of_fields" parsed_feed_ok
proof
  fix p
  assume ok: "parsed_feed_ok p"
  let ?kvs = "parsed_feed_to_fields p"
  have "required_field [''priceFeedId''] json_uint ?kvs = Inr (pf_price_feed_id p)"
    by (rule uint_form.required) (simp_all add: parsed_feed_to_fields_def)
  moreover have "option_field [''price''] deserialize_price_str ?kvs = Inr (pf_price p)"
    "option_field [''bestBidPrice''] deserialize_price_str ?kvs = Inr (pf_best_bid_price p)"
    "option_field [''bestAskPrice''] deserialize_price_str ?kvs = Inr (pf_best_ask_price p)"
    "option_field [''emaPrice''] deserialize_price_str ?kvs = Inr (pf_ema_price p)"
    by (rule price_str_form.skipped; use ok in \<open>simp add: parsed_feed_to_fields_def parsed_feed_ok_def pred_price_ok\<close>)+
  moreover have "option_field [''confidence''] json_price ?kvs = Inr (pf_confidence p)"
    "option_field [''emaConfidence''] json_price ?kvs = Inr (pf_ema_confidence p)"
    by (rule price_form.skipped; use ok in \<open>simp add: parsed_feed_to_fields_def parsed_feed_ok_def pred_price_ok\<close>)+
  moreover have "option_field [''publisherCount''] json_uint ?kvs = Inr (pf_publisher_count p)"
    "option_field [''fundingTimestamp''] json_uint ?kvs = Inr (pf_funding_timestamp p)"
    "option_field [''fundingRateInterval''] json_uint ?kvs = Inr (pf_funding_rate_interval p)"
    "option_field [''feedUpdateTimestamp''] json_uint ?kvs = Inr (pf_feed_update_timestamp p)"
    by (rule uint_form.skipped; simp add: parsed_feed_to_fields_def)+
  moreover have "option_field [''exponent''] json_sint ?kvs = Inr (pf_exponent p)"
    "option_field [''fundingRate''] json_sint ?kvs = Inr (pf_funding_rate p)"
    by (rule sint_form.skipped; simp add: parsed_feed_to_fields_def)+
  moreover have "option_field [''marketSession''] session_of_json ?kvs = Inr (pf_market_session p)"
    by (rule session_form.skipped) (simp_all add: parsed_feed_to_fields_def)
  ultimately show "json_object parsed_feed_of_fields (J_Object ?kvs) = Inr p"
    by (simp add: parsed_feed_of_fields_def)
qed simp

record parsed_payload =
  pj_timestamp_us :: timestamp_us
  pj_price_feeds :: "parsed_feed_payload list"

definition parsed_payload_to_fields :: "parsed_payload \<Rightarrow> fields" where
  "parsed_payload_to_fields p =
     [(''timestampUs'', serialize_timestamp_str (pj_timestamp_us p)),
      (''priceFeeds'', J_Array (map (\<lambda>f. J_Object (parsed_feed_to_fields f)) (pj_price_feeds p)))]"

definition parsed_payload_of_fields :: "fields \<Rightarrow> string + parsed_payload" where
  "parsed_payload_of_fields kvs =
     and_then (required_field [''timestampUs''] deserialize_timestamp_str kvs) (\<lambda>timestamp_us.
     and_then (required_field [''priceFeeds''] (json_list (json_object parsed_feed_of_fields)) kvs) (\<lambda>price_feeds.
     Inr \<lparr>pj_timestamp_us = timestamp_us, pj_price_feeds = price_feeds\<rparr>))"

definition parsed_payload_ok :: "parsed_payload \<Rightarrow> bool" where
  "parsed_payload_ok p \<longleftrightarrow> list_all parsed_feed_ok (pj_price_feeds p)"

lemma required_field_single: "fields_named names kvs = [j] \<Longrightarrow> required_field names f kvs = f j"
  by (simp add: required_field_def single_field_def)

lemma default_field_single: "fields_named names kvs = [j] \<Longrightarrow> default_field names d f kvs = f j"
  by (simp add: default_field_def single_field_def)

interpretation parsed_payload_form:
  json_form "\<lambda>p. J_Object (parsed_payload_to_fields p)" "json_object parsed_payload_of_fields" parsed_payload_ok
proof
  fix p
  assume "parsed_payload_ok p"
  then have "json_list (json_object parsed_feed_of_fields)
      (J_Array (map (\<lambda>f. J_Object (parsed_feed_to_fields f)) (pj_price_feeds p))) = Inr (pj_price_feeds p)"
    by (intro parsed_feed_form.of_to_list) (simp add: parsed_payload_ok_def)
  then show "json_object parsed_payload_of_fields (J_Object (parsed_payload_to_fields p)) = Inr p"
    by (simp add: parsed_payload_of_fields_def parsed_payload_to_fields_def required_field_def single_field_def
        timestamp_str_form.of_to del: json_list.simps)
qed simp

section \<open>Updates\<close>

fun encoding_name :: "json_binary_encoding \<Rightarrow> string" where
  "encoding_name Base64 = ''base64''"
| "encoding_name Hex = ''hex''"

definition encoding_of_json :: "json \<Rightarrow> string + json_binary_encoding" where
  "encoding_of_json = json_name encoding_name [Base64, Hex]"

interpretation encoding_form: json_form "\<lambda>e. J_String (encoding_name e)" encoding_of_json "\<lambda>_. True"
proof
  fix e
  show "encoding_of_json (J_String (encoding_name e)) = Inr e"
    by (cases e) (simp_all add: encoding_of_json_def)
qed simp

record json_binary_data =
  jb_encoding :: json_binary_encoding
  jb_data :: string

definition binary_data_to_json :: "json_binary_data \<Rightarrow> json" where
  "binary_data_to_json b =
     J_Object [(''encoding'', J_String (encoding_name (jb_encoding b))), (''data'', J_String (jb_data b))]"

definition binary_data_of_json :: "json \<Rightarrow> string + json_binary_data" where
  "binary_data_of_json = json_object (\<lambda>kvs.
     and_then (required_field [''encoding''] encoding_of_json kvs) (\<lambda>encoding.
     and_then (required_field [''data''] json_string kvs) (\<lambda>data.
     Inr \<lparr>jb_encoding = encoding, jb_data = data\<rparr>)))"

interpretation binary_data_form: json_form binary_data_to_json binary_data_of_json "\<lambda>_. True"
  by unfold_locales
    (simp_all add: binary_data_to_json_def binary_data_of_json_def required_field_single encoding_form.of_to)

record json_update =
  ju_parsed :: "parsed_payload option"
  ju_evm :: "json_binary_data option"
  ju_solana :: "json_binary_data option"
  ju_le_ecdsa :: "json_binary_data option"
  ju_le_unsigned :: "json_binary_data option"
  ju_packed_evm_ecdsa :: "json_binary_data option"

definition json_update_to_fields :: "json_update \<Rightarrow> fields" where
  "json_update_to_fields u =
     skip_none ''parsed'' (\<lambda>p. J_Object (parsed_payload_to_fields p)) (ju_parsed u) @
     skip_none ''evm'' binary_data_to_json (ju_evm u) @
     skip_none ''solana'' binary_data_to_json (ju_solana u) @
     skip_none ''leEcdsa'' binary_data_to_json (ju_le_ecdsa u) @
     skip_none ''leUnsigned'' binary_data_to_json (ju_le_unsigned u) @
     skip_none ''packedEvmEcdsa'' binary_data_to_json (ju_packed_evm_ecdsa u)"

definition json_update_of_fields :: "fields \<Rightarrow> string + json_update" where
  "json_update_of_fields kvs =
     and_then (option_field [''parsed''] (json_object parsed_payload_of_fields) kvs) (\<lambda>parsed.
     and_then (option_field [''evm''] binary_data_of_json kvs) (\<lambda>evm.
     and_then (option_field [''solana''] binary_data_of_json kvs) (\<lambda>solana.
     and_then (option_field [''leEcdsa''] binary_data_of_json kvs) (\<lambda>le_ecdsa.
     and_then (option_field [''leUnsigned''] binary_data_of_json kvs) (\<lambda>le_unsigned.
     and_then (option_field [''packedEvmEcdsa''] binary_data_of_json kvs) (\<lambda>packed_evm_ecdsa.
     Inr \<lparr>ju_parsed = parsed, ju_evm = evm, ju_solana = solana, ju_le_ecdsa = le_ecdsa,
          ju_le_unsigned = le_unsigned, ju_packed_evm_ecdsa = packed_evm_ecdsa\<rparr>))))))"

definition json_update_ok :: "json_update \<Rightarrow> bool" where
  "json_update_ok u \<longleftrightarrow> pred_option parsed_payload_ok (ju_parsed u)"

text \<open>An update is flattened into other structs, so its fields are read among others.\<close>

lemma json_update_read:
  assumes "json_update_ok u"
    and "\<forall>k \<in> fst ` set kvs. k \<notin> {''parsed'', ''evm'', ''solana'', ''leEcdsa'', ''leUnsigned'', ''packedEvmEcdsa''}"
  shows "json_update_of_fields (kvs @ json_update_to_fields u) = Inr u"
proof -
  let ?kvs = "kvs @ json_update_to_fields u"
  have other: "fields_named [k] kvs = []"
    if "k \<in> {''parsed'', ''evm'', ''solana'', ''leEcdsa'', ''leUnsigned'', ''packedEvmEcdsa''}" for k
    using assms(2) that by (auto simp: fields_named_def filter_empty_conv)
  have "option_field [''parsed''] (json_object parsed_payload_of_fields) ?kvs = Inr (ju_parsed u)"
    by (rule parsed_payload_form.skipped)
      (use assms(1) in \<open>simp_all add: json_update_to_fields_def json_update_ok_def other\<close>)
  moreover have "option_field [''evm''] binary_data_of_json ?kvs = Inr (ju_evm u)"
    "option_field [''solana''] binary_data_of_json ?kvs = Inr (ju_solana u)"
    "option_field [''leEcdsa''] binary_data_of_json ?kvs = Inr (ju_le_ecdsa u)"
    "option_field [''leUnsigned''] binary_data_of_json ?kvs = Inr (ju_le_unsigned u)"
    "option_field [''packedEvmEcdsa''] binary_data_of_json ?kvs = Inr (ju_packed_evm_ecdsa u)"
    by (rule binary_data_form.skipped; simp add: json_update_to_fields_def other)+
  ultimately show ?thesis by (simp add: json_update_of_fields_def)
qed

section \<open>Requests\<close>

fun property_name :: "price_feed_property \<Rightarrow> string" where
  "property_name P_Price = ''price''"
| "property_name P_BestBidPrice = ''bestBidPrice''"
| "property_name P_BestAskPrice = ''bestAskPrice''"
| "property_name P_PublisherCount = ''publisherCount''"
| "property_name P_Exponent = ''exponent''"
| "property_name P_Confidence = ''confidence''"
| "property_name P_FundingRate = ''fundingRate''"
| "property_name P_FundingTimestamp = ''fundingTimestamp''"
| "property_name P_FundingRateInterval = ''fundingRateInterval''"
| "property_name P_MarketSession = ''marketSession''"
| "property_name P_EmaPrice = ''emaPrice''"
| "property_name P_EmaConfidence = ''emaConfidence''"
| "property_name P_FeedUpdateTimestamp = ''feedUpdateTimestamp''"

definition property_of_json :: "json \<Rightarrow> string + price_feed_property" where
  "property_of_json = json_name property_name all_properties"

fun format_name :: "api_format \<Rightarrow> string" where
  "format_name F_Evm = ''evm''"
| "format_name F_Solana = ''solana''"
| "format_name F_LeEcdsa = ''leEcdsa''"
| "format_name F_LeUnsigned = ''leUnsigned''"
| "format_name F_PackedEvmEcdsa = ''packedEvmEcdsa''"

definition format_of_json :: "json \<Rightarrow> string + api_format" where
  "format_of_json = json_name format_name [F_Evm, F_Solana, F_LeEcdsa, F_LeUnsigned, F_PackedEvmEcdsa]"

fun delivery_name :: "delivery_format \<Rightarrow> string" where
  "delivery_name DF_Json = ''json''"
| "delivery_name DF_Binary = ''binary''"

definition delivery_of_json :: "json \<Rightarrow> string + delivery_format" where
  "delivery_of_json = json_name delivery_name [DF_Json, DF_Binary]"

text \<open>The channel's writer, and \<^verbatim>\<open>deserialize_any\<close> with its visitor.\<close>

fun channel_to_json :: "api_channel \<Rightarrow> json" where
  "channel_to_json (Ch_FixedRate r) = J_String (''fixed_rate@'' @ dec (unat (dur_as_millis r)) @ ''ms'')"
| "channel_to_json Ch_RealTime = J_String ''real_time''"

fun channel_of_json :: "json \<Rightarrow> string + api_channel" where
  "channel_of_json (J_String s) = visit_str s"
| "channel_of_json (J_Int i) =
     and_then (ok_or ''expected a channel name string or numeric channel ID'' (to_unsigned i)) visit_u64"
| "channel_of_json _ = Inl ''expected a channel name string or numeric channel ID''"

interpretation property_form: json_form "\<lambda>p. J_String (property_name p)" property_of_json "\<lambda>_. True"
proof
  fix p
  show "property_of_json (J_String (property_name p)) = Inr p"
    by (cases p) (simp_all add: property_of_json_def all_properties_def)
qed simp

interpretation format_form: json_form "\<lambda>f. J_String (format_name f)" format_of_json "\<lambda>_. True"
proof
  fix f
  show "format_of_json (J_String (format_name f)) = Inr f"
    by (cases f) (simp_all add: format_of_json_def)
qed simp

interpretation delivery_form: json_form "\<lambda>d. J_String (delivery_name d)" delivery_of_json "\<lambda>_. True"
proof
  fix d
  show "delivery_of_json (J_String (delivery_name d)) = Inr d"
    by (cases d) (simp_all add: delivery_of_json_def)
qed simp

lemma channel_to_json_display: "channel_to_json c = J_String (channel_display c)"
  by (cases c) simp_all

interpretation channel_form: json_form channel_to_json channel_of_json channel_ok
proof
  fix c
  assume "channel_ok c"
  then have "parse_channel_name (channel_display c) = Some c"
    by (cases rule: channel_ok_cases) (simp_all only: parse_display channel_display.simps(2))
  then show "channel_of_json (channel_to_json c) = Inr c" by (simp add: channel_to_json_display visit_str_def)
qed (simp add: channel_to_json_display)

definition ids_to_json :: "u32 list \<Rightarrow> json" where
  "ids_to_json ids = J_Array (map (\<lambda>i. J_Int (uint i)) ids)"

definition strings_to_json :: "string list \<Rightarrow> json" where
  "strings_to_json xs = J_Array (map J_String xs)"

definition properties_to_json :: "price_feed_property list \<Rightarrow> json" where
  "properties_to_json ps = J_Array (map (\<lambda>p. J_String (property_name p)) ps)"

definition formats_to_json :: "api_format list \<Rightarrow> json" where
  "formats_to_json fs = J_Array (map (\<lambda>f. J_String (format_name f)) fs)"

interpretation ids_form: json_form ids_to_json "json_list json_uint" "\<lambda>_. True"
  using uint_form.of_to_list by unfold_locales (simp_all add: ids_to_json_def)

interpretation strings_form: json_form strings_to_json "json_list json_string" "\<lambda>_. True"
  using string_form.of_to_list by unfold_locales (simp_all add: strings_to_json_def)

interpretation properties_form: json_form properties_to_json "json_list property_of_json" "\<lambda>_. True"
  using property_form.of_to_list by unfold_locales (simp_all add: properties_to_json_def)

interpretation formats_form: json_form formats_to_json "json_list format_of_json" "\<lambda>_. True"
  using format_form.of_to_list by unfold_locales (simp_all add: formats_to_json_def)

lemmas forms_read = uint_form.of_to ids_form.of_to strings_form.of_to properties_form.of_to formats_form.of_to
  encoding_form.of_to delivery_form.of_to channel_form.of_to ids_form.of_or_null strings_form.of_or_null
  string_form.of_to bool_form.of_to

definition default_parsed :: bool where "default_parsed = True"

definition latest_request_to_fields :: "latest_price_request \<Rightarrow> fields" where
  "latest_request_to_fields r =
     [(''priceFeedIds'', or_null ids_to_json (lp_price_feed_ids r)),
      (''symbols'', or_null strings_to_json (lp_symbols r)),
      (''properties'', properties_to_json (lp_properties r)),
      (''formats'', formats_to_json (lp_formats r)),
      (''jsonBinaryEncoding'', J_String (encoding_name (lp_json_binary_encoding r))),
      (''parsed'', J_Bool (lp_parsed r)),
      (''channel'', channel_to_json (lp_channel r))]"

definition latest_request_repr :: "fields \<Rightarrow> string + latest_price_request" where
  "latest_request_repr kvs =
     and_then (option_field [''priceFeedIds''] (json_list json_uint) kvs) (\<lambda>price_feed_ids.
     and_then (option_field [''symbols''] (json_list json_string) kvs) (\<lambda>syms.
     and_then (default_field [''properties''] [] (json_list property_of_json) kvs) (\<lambda>properties.
     and_then (required_field [''formats'', ''chains''] (json_list format_of_json) kvs) (\<lambda>formats.
     and_then (default_field [''jsonBinaryEncoding''] Base64 encoding_of_json kvs) (\<lambda>encoding.
     and_then (default_field [''parsed''] default_parsed json_bool kvs) (\<lambda>parsed.
     and_then (required_field [''channel''] channel_of_json kvs) (\<lambda>channel.
     Inr \<lparr>lp_price_feed_ids = price_feed_ids, lp_symbols = syms, lp_properties = properties,
          lp_formats = formats, lp_json_binary_encoding = encoding, lp_parsed = parsed,
          lp_channel = channel\<rparr>)))))))"

definition latest_request_of_fields :: "fields \<Rightarrow> string + latest_price_request" where
  "latest_request_of_fields kvs = and_then (latest_request_repr kvs) latest_price_request_new"

definition price_request_to_fields :: "price_request \<Rightarrow> fields" where
  "price_request_to_fields r =
     [(''timestamp'', J_Int (uint (rq_timestamp r))),
      (''priceFeedIds'', or_null ids_to_json (rq_price_feed_ids r)),
      (''symbols'', or_null strings_to_json (rq_symbols r)),
      (''properties'', properties_to_json (rq_properties r)),
      (''formats'', formats_to_json (rq_formats r)),
      (''jsonBinaryEncoding'', J_String (encoding_name (rq_json_binary_encoding r))),
      (''parsed'', J_Bool (rq_parsed r)),
      (''channel'', channel_to_json (rq_channel r))]"

definition price_request_repr :: "fields \<Rightarrow> string + price_request" where
  "price_request_repr kvs =
     and_then (required_field [''timestamp''] json_uint kvs) (\<lambda>timestamp.
     and_then (option_field [''priceFeedIds''] (json_list json_uint) kvs) (\<lambda>price_feed_ids.
     and_then (option_field [''symbols''] (json_list json_string) kvs) (\<lambda>syms.
     and_then (default_field [''properties''] [] (json_list property_of_json) kvs) (\<lambda>properties.
     and_then (required_field [''formats''] (json_list format_of_json) kvs) (\<lambda>formats.
     and_then (default_field [''jsonBinaryEncoding''] Base64 encoding_of_json kvs) (\<lambda>encoding.
     and_then (default_field [''parsed''] default_parsed json_bool kvs) (\<lambda>parsed.
     and_then (required_field [''channel''] channel_of_json kvs) (\<lambda>channel.
     Inr \<lparr>rq_timestamp = timestamp, rq_price_feed_ids = price_feed_ids, rq_symbols = syms,
          rq_properties = properties, rq_formats = formats, rq_json_binary_encoding = encoding,
          rq_parsed = parsed, rq_channel = channel\<rparr>))))))))"

definition price_request_of_fields :: "fields \<Rightarrow> string + price_request" where
  "price_request_of_fields kvs = and_then (price_request_repr kvs) price_request_new"

definition subscription_params_to_fields :: "subscription_params \<Rightarrow> fields" where
  "subscription_params_to_fields r =
     [(''priceFeedIds'', or_null ids_to_json (sp_price_feed_ids r)),
      (''symbols'', or_null strings_to_json (sp_symbols r)),
      (''properties'', properties_to_json (sp_properties r)),
      (''formats'', formats_to_json (sp_formats r)),
      (''deliveryFormat'', J_String (delivery_name (sp_delivery_format r))),
      (''jsonBinaryEncoding'', J_String (encoding_name (sp_json_binary_encoding r))),
      (''parsed'', J_Bool (sp_parsed r)),
      (''channel'', channel_to_json (sp_channel r)),
      (''ignoreInvalidFeeds'', J_Bool (sp_ignore_invalid_feeds r))]"

definition subscription_params_repr :: "fields \<Rightarrow> string + subscription_params" where
  "subscription_params_repr kvs =
     and_then (option_field [''priceFeedIds''] (json_list json_uint) kvs) (\<lambda>price_feed_ids.
     and_then (option_field [''symbols''] (json_list json_string) kvs) (\<lambda>syms.
     and_then (default_field [''properties''] [] (json_list property_of_json) kvs) (\<lambda>properties.
     and_then (required_field [''formats'', ''chains''] (json_list format_of_json) kvs) (\<lambda>formats.
     and_then (default_field [''deliveryFormat''] DF_Json delivery_of_json kvs) (\<lambda>delivery_format.
     and_then (default_field [''jsonBinaryEncoding''] Base64 encoding_of_json kvs) (\<lambda>encoding.
     and_then (default_field [''parsed''] default_parsed json_bool kvs) (\<lambda>parsed.
     and_then (required_field [''channel''] channel_of_json kvs) (\<lambda>channel.
     and_then (default_field [''ignoreInvalidFeeds'', ''ignoreInvalidFeedIds''] False json_bool kvs) (\<lambda>ignore_invalid_feeds.
     Inr \<lparr>sp_price_feed_ids = price_feed_ids, sp_symbols = syms, sp_properties = properties,
          sp_formats = formats, sp_delivery_format = delivery_format, sp_json_binary_encoding = encoding,
          sp_parsed = parsed, sp_channel = channel, sp_ignore_invalid_feeds = ignore_invalid_feeds\<rparr>)))))))))"

definition subscription_params_of_fields :: "fields \<Rightarrow> string + subscription_params" where
  "subscription_params_of_fields kvs = and_then (subscription_params_repr kvs) subscription_params_new"

lemmas field_reads = required_field_def default_field_def option_field_def single_field_def

lemma latest_request_read:
  "channel_ok (lp_channel r) \<Longrightarrow> latest_request_of_fields (latest_request_to_fields r) = latest_price_request_new r"
  by (cases r) (simp add: latest_request_of_fields_def latest_request_repr_def latest_request_to_fields_def field_reads
      forms_read del: json_list.simps json_uint.simps channel_of_json.simps)

lemma price_request_read:
  "channel_ok (rq_channel r) \<Longrightarrow> price_request_of_fields (price_request_to_fields r) = price_request_new r"
  by (cases r) (simp add: price_request_of_fields_def price_request_repr_def price_request_to_fields_def field_reads
      forms_read del: json_list.simps json_uint.simps channel_of_json.simps)

text \<open>The parameters of a subscription are flattened into its request, after the fields in \<open>kvs\<close>.\<close>

definition params_keys :: "string set" where
  "params_keys = {''priceFeedIds'', ''symbols'', ''properties'', ''formats'', ''chains'', ''deliveryFormat'',
     ''jsonBinaryEncoding'', ''parsed'', ''channel'', ''ignoreInvalidFeeds'', ''ignoreInvalidFeedIds''}"

lemma fields_named_other: "set names \<inter> fst ` set kvs = {} \<Longrightarrow> fields_named names kvs = []"
  by (force simp: fields_named_def filter_empty_conv)

lemma subscription_params_read:
  assumes "channel_ok (sp_channel r)" and "params_keys \<inter> fst ` set kvs = {}"
  shows "subscription_params_of_fields (kvs @ subscription_params_to_fields r) = subscription_params_new r"
proof -
  have other: "fields_named names kvs = []" if "set names \<subseteq> params_keys" for names
    using assms(2) that by (intro fields_named_other) blast
  show ?thesis
    by (cases r) (use assms(1) in \<open>simp add: subscription_params_of_fields_def subscription_params_repr_def subscription_params_to_fields_def
        field_reads forms_read other params_keys_def
        del: json_list.simps json_uint.simps channel_of_json.simps\<close>)
qed

text \<open>What is read is validated, whatever the object.\<close>

lemma required_field_Inr: "required_field names f kvs = Inr x \<Longrightarrow> \<exists>j. f j = Inr x"
  by (auto simp: required_field_def split: option.splits)

lemma channel_of_json_ok: "channel_of_json j = Inr c \<Longrightarrow> channel_ok c"
  by (cases j) (auto simp: visit_str_def visit_u64_def map_err_Inr_iff dest: parse_channel_name_ok channel_try_from_ok)

lemma requests_read_valid:
  "latest_request_of_fields kvs = Inr r \<Longrightarrow> latest_price_request_new r = Inr r \<and> channel_ok (lp_channel r)"
  "price_request_of_fields kvs = Inr r' \<Longrightarrow> price_request_new r' = Inr r' \<and> channel_ok (rq_channel r')"
  "subscription_params_of_fields kvs = Inr r'' \<Longrightarrow> subscription_params_new r'' = Inr r'' \<and> channel_ok (sp_channel r'')"
  by (auto simp: latest_request_of_fields_def latest_request_repr_def latest_price_request_new_def
      price_request_of_fields_def price_request_repr_def price_request_new_def
      subscription_params_of_fields_def subscription_params_repr_def subscription_params_new_def
      dest!: required_field_Inr [of "[''channel'']"] channel_of_json_ok)

record reduce_price_request =
  rd_payload :: json_update
  rd_price_feed_ids :: "u32 list"

definition reduce_request_to_fields :: "reduce_price_request \<Rightarrow> fields" where
  "reduce_request_to_fields r =
     [(''payload'', J_Object (json_update_to_fields (rd_payload r))),
      (''priceFeedIds'', ids_to_json (rd_price_feed_ids r))]"

definition reduce_request_of_fields :: "fields \<Rightarrow> string + reduce_price_request" where
  "reduce_request_of_fields kvs =
     and_then (required_field [''payload''] (json_object json_update_of_fields) kvs) (\<lambda>payload.
     and_then (required_field [''priceFeedIds''] (json_list json_uint) kvs) (\<lambda>price_feed_ids.
     Inr \<lparr>rd_payload = payload, rd_price_feed_ids = price_feed_ids\<rparr>))"

lemma reduce_request_read:
  assumes "json_update_ok (rd_payload r)"
  shows "reduce_request_of_fields (reduce_request_to_fields r) = Inr r"
proof -
  have "json_update_of_fields (json_update_to_fields (rd_payload r)) = Inr (rd_payload r)"
    using json_update_read [OF assms, of "[]"] by simp
  then show ?thesis
    by (simp add: reduce_request_of_fields_def reduce_request_to_fields_def field_reads forms_read del: json_list.simps)
qed

section \<open>Classes of feeds (lib.rs)\<close>

datatype asset_class =
    Asset_Crypto | Asset_Fx | Asset_Equity | Asset_Metal | Asset_Rates | Asset_Nav | Asset_Commodity
  | Asset_FundingRate | Asset_Eco | Asset_Kalshi | Asset_InterestRate

fun asset_class_as_str :: "asset_class \<Rightarrow> string" where
  "asset_class_as_str Asset_Crypto = ''crypto''"
| "asset_class_as_str Asset_Fx = ''fx''"
| "asset_class_as_str Asset_Equity = ''equity''"
| "asset_class_as_str Asset_Metal = ''metal''"
| "asset_class_as_str Asset_Rates = ''rates''"
| "asset_class_as_str Asset_Nav = ''nav''"
| "asset_class_as_str Asset_Commodity = ''commodity''"
| "asset_class_as_str Asset_FundingRate = ''funding-rate''"
| "asset_class_as_str Asset_Eco = ''eco''"
| "asset_class_as_str Asset_Kalshi = ''kalshi''"
| "asset_class_as_str Asset_InterestRate = ''interest-rate''"

definition all_asset_classes :: "asset_class list" where
  "all_asset_classes = [Asset_Crypto, Asset_Fx, Asset_Equity, Asset_Metal, Asset_Rates, Asset_Nav, Asset_Commodity,
     Asset_FundingRate, Asset_Eco, Asset_Kalshi, Asset_InterestRate]"

datatype instrument_type = Instr_Spot | Instr_Rate | Instr_Future | Instr_Index | Instr_Nav

fun instrument_type_name :: "instrument_type \<Rightarrow> string" where
  "instrument_type_name Instr_Spot = ''spot''"
| "instrument_type_name Instr_Rate = ''rate''"
| "instrument_type_name Instr_Future = ''future''"
| "instrument_type_name Instr_Index = ''index''"
| "instrument_type_name Instr_Nav = ''nav''"

interpretation asset_class_form:
  json_form "\<lambda>c. J_String (asset_class_as_str c)" "json_name asset_class_as_str all_asset_classes" "\<lambda>_. True"
proof
  fix c
  show "json_name asset_class_as_str all_asset_classes (J_String (asset_class_as_str c)) = Inr c"
    by (cases c) (simp_all add: all_asset_classes_def)
qed simp

interpretation instrument_type_form:
  json_form "\<lambda>t. J_String (instrument_type_name t)"
    "json_name instrument_type_name [Instr_Spot, Instr_Rate, Instr_Future, Instr_Index, Instr_Nav]" "\<lambda>_. True"
proof
  fix t
  show "json_name instrument_type_name [Instr_Spot, Instr_Rate, Instr_Future, Instr_Index, Instr_Nav]
      (J_String (instrument_type_name t)) = Inr t"
    by (cases t) simp_all
qed simp

section \<open>Dynamic values (dynamic_value.rs)\<close>

text \<open>
  \<open>format_duration\<close> is \<^verbatim>\<open>humantime::format_duration\<close> of a duration in microseconds, \<open>hex_encode\<close> is
  \<^verbatim>\<open>hex::encode\<close>.
\<close>

fun dynamic_to_json :: "(u64 \<Rightarrow> string) \<Rightarrow> (bytes \<Rightarrow> string) \<Rightarrow> dynamic_value \<Rightarrow> json"
and dynamic_list_to_json :: "(u64 \<Rightarrow> string) \<Rightarrow> (bytes \<Rightarrow> string) \<Rightarrow> dynamic_value list \<Rightarrow> json list"
and dynamic_map_to_json :: "(u64 \<Rightarrow> string) \<Rightarrow> (bytes \<Rightarrow> string) \<Rightarrow> (string \<times> dynamic_value) list \<Rightarrow> fields" where
  "dynamic_to_json format_duration hex_encode (DV_String v) = J_String v"
| "dynamic_to_json format_duration hex_encode (DV_F64 v) = J_Float v"
| "dynamic_to_json format_duration hex_encode (DV_U64 v) = J_Int (uint v)"
| "dynamic_to_json format_duration hex_encode (DV_I64 v) = J_Int (sint v)"
| "dynamic_to_json format_duration hex_encode (DV_Bool v) = J_Bool v"
| "dynamic_to_json format_duration hex_encode (DV_Timestamp v) = J_Int (uint v)"
| "dynamic_to_json format_duration hex_encode (DV_Duration v) = J_String (format_duration v)"
| "dynamic_to_json format_duration hex_encode (DV_Bytes v) = J_String (hex_encode v)"
| "dynamic_to_json format_duration hex_encode (DV_List v) = J_Array (dynamic_list_to_json format_duration hex_encode v)"
| "dynamic_to_json format_duration hex_encode (DV_Map v) = J_Object (dynamic_map_to_json format_duration hex_encode v)"
| "dynamic_list_to_json format_duration hex_encode [] = []"
| "dynamic_list_to_json format_duration hex_encode (v # vs) =
     dynamic_to_json format_duration hex_encode v # dynamic_list_to_json format_duration hex_encode vs"
| "dynamic_map_to_json format_duration hex_encode [] = []"
| "dynamic_map_to_json format_duration hex_encode (e # m) =
     (fst e, dynamic_to_json format_duration hex_encode (snd e)) # dynamic_map_to_json format_duration hex_encode m"

text \<open>The fields of a map are its keys, so that a written object repeats no field.\<close>

lemma dynamic_map_keys: "map fst (dynamic_map_to_json format_duration hex_encode m) = map fst m"
  by (induction m) simp_all

end
