(* ===== verification/Client_Json.thy ===== *)
theory Client_Json
  imports Client_Stream Lazer_Json
begin

text \<open>
  The JSON messages between the streaming client and the server (\<^verbatim>\<open>sdk/rust/protocol/src/api.rs\<close>): a tag
  \<^verbatim>\<open>type\<close> among the fields names the variant, the parameters of a subscription and the content of an update
  are flattened into their messages.
\<close>

section \<open>Requests of the client\<close>

definition subscribe_request_to_fields :: "subscribe_request \<Rightarrow> fields" where
  "subscribe_request_to_fields r =
     (''subscriptionId'', J_Int (uint (sr_subscription_id r))) # subscription_params_to_fields (sr_params r)"

definition subscribe_request_of_fields :: "fields \<Rightarrow> string + subscribe_request" where
  "subscribe_request_of_fields kvs =
     and_then (required_field [''subscriptionId''] json_uint kvs) (\<lambda>subscription_id.
     and_then (subscription_params_of_fields kvs) (\<lambda>params.
     Inr \<lparr>sr_subscription_id = subscription_id, sr_params = params\<rparr>))"

definition unsubscribe_request_to_fields :: "unsubscribe_request \<Rightarrow> fields" where
  "unsubscribe_request_to_fields r = [(''subscriptionId'', J_Int (uint (ur_subscription_id r)))]"

definition unsubscribe_request_of_fields :: "fields \<Rightarrow> string + unsubscribe_request" where
  "unsubscribe_request_of_fields kvs =
     map_ok (\<lambda>i. \<lparr>ur_subscription_id = i\<rparr>) (required_field [''subscriptionId''] json_uint kvs)"

fun ws_request_to_fields :: "ws_request \<Rightarrow> fields" where
  "ws_request_to_fields (Ws_Subscribe r) = (''type'', J_String ''subscribe'') # subscribe_request_to_fields r"
| "ws_request_to_fields (Ws_Unsubscribe r) = (''type'', J_String ''unsubscribe'') # unsubscribe_request_to_fields r"

definition ws_request_of_fields :: "fields \<Rightarrow> string + ws_request" where
  "ws_request_of_fields kvs =
     and_then (required_field [''type''] json_string kvs) (\<lambda>tag.
     if tag = ''subscribe'' then map_ok Ws_Subscribe (subscribe_request_of_fields kvs)
     else if tag = ''unsubscribe'' then map_ok Ws_Unsubscribe (unsubscribe_request_of_fields kvs)
     else Inl ''unknown variant'')"

section \<open>Responses of the server\<close>

definition details_to_json :: "invalid_feed_subscription_details \<Rightarrow> json" where
  "details_to_json d =
     J_Object
      [(''unknownIds'', ids_to_json (unknown_ids d)),
       (''unknownSymbols'', strings_to_json (unknown_symbols d)),
       (''unsupportedChannels'', ids_to_json (unsupported_channels d)),
       (''unstable'', ids_to_json (unstable_ids d)),
       (''notEntitled'', ids_to_json (not_entitled d))]"

definition details_of_json :: "json \<Rightarrow> string + invalid_feed_subscription_details" where
  "details_of_json = json_object (\<lambda>kvs.
     and_then (required_field [''unknownIds''] (json_list json_uint) kvs) (\<lambda>ids.
     and_then (required_field [''unknownSymbols''] (json_list json_string) kvs) (\<lambda>syms.
     and_then (required_field [''unsupportedChannels''] (json_list json_uint) kvs) (\<lambda>channels.
     and_then (required_field [''unstable''] (json_list json_uint) kvs) (\<lambda>unstable.
     and_then (default_field [''notEntitled''] [] (json_list json_uint) kvs) (\<lambda>entitled.
     Inr \<lparr>unknown_ids = ids, unknown_symbols = syms, unsupported_channels = channels,
          unstable_ids = unstable, not_entitled = entitled\<rparr>))))))"

fun ws_response_to_fields :: "json_update ws_response \<Rightarrow> fields" where
  "ws_response_to_fields (WR_Error error) = [(''type'', J_String ''error''), (''error'', J_String error)]"
| "ws_response_to_fields (WR_Subscribed i) =
     [(''type'', J_String ''subscribed''), (''subscriptionId'', J_Int (uint i))]"
| "ws_response_to_fields (WR_SubscribedWithInvalidFeedIdsIgnored i ids details) =
     [(''type'', J_String ''subscribedWithInvalidFeedIdsIgnored''), (''subscriptionId'', J_Int (uint i)),
      (''subscribedFeedIds'', ids_to_json ids), (''ignoredInvalidFeedIds'', details_to_json details)]"
| "ws_response_to_fields (WR_Unsubscribed i) =
     [(''type'', J_String ''unsubscribed''), (''subscriptionId'', J_Int (uint i))]"
| "ws_response_to_fields (WR_SubscriptionError i error) =
     [(''type'', J_String ''subscriptionError''), (''subscriptionId'', J_Int (uint i)), (''error'', J_String error)]"
| "ws_response_to_fields (WR_StreamUpdated i payload) =
     [(''type'', J_String ''streamUpdated''), (''subscriptionId'', J_Int (uint i))] @ json_update_to_fields payload"

definition ws_response_of_fields :: "fields \<Rightarrow> string + json_update ws_response" where
  "ws_response_of_fields kvs =
     (let subscription_id = required_field [''subscriptionId''] json_uint kvs;
          error = required_field [''error''] json_string kvs
      in and_then (required_field [''type''] json_string kvs) (\<lambda>tag.
        if tag = ''error'' then map_ok WR_Error error
        else if tag = ''subscribed'' then map_ok WR_Subscribed subscription_id
        else if tag = ''subscribedWithInvalidFeedIdsIgnored'' then
          and_then subscription_id (\<lambda>i.
          and_then (required_field [''subscribedFeedIds''] (json_list json_uint) kvs) (\<lambda>ids.
          and_then (required_field [''ignoredInvalidFeedIds''] details_of_json kvs) (\<lambda>details.
          Inr (WR_SubscribedWithInvalidFeedIdsIgnored i ids details))))
        else if tag = ''unsubscribed'' then map_ok WR_Unsubscribed subscription_id
        else if tag = ''subscriptionError'' then
          and_then subscription_id (\<lambda>i. map_ok (WR_SubscriptionError i) error)
        else if tag = ''streamUpdated'' then
          and_then subscription_id (\<lambda>i. map_ok (WR_StreamUpdated i) (json_update_of_fields kvs))
        else Inl ''unknown variant''))"

section \<open>Round trips\<close>

lemma uint_read: "json_uint (J_Int (uint w)) = Inr w"
  by (rule uint_form.of_to) simp

interpretation details_form: json_form details_to_json details_of_json "\<lambda>_. True"
  by unfold_locales
    (simp_all add: details_to_json_def details_of_json_def field_reads forms_read del: json_list.simps)

lemma subscribe_request_read:
  assumes "channel_ok (sp_channel (sr_params r))"
  shows "ws_request_of_fields (ws_request_to_fields (Ws_Subscribe r)) =
    map_ok (\<lambda>params. Ws_Subscribe (r\<lparr>sr_params := params\<rparr>)) (subscription_params_new (sr_params r))"
proof -
  let ?kvs = "[(''type'', J_String ''subscribe''), (''subscriptionId'', J_Int (uint (sr_subscription_id r)))]"
  have p: "subscription_params_of_fields (?kvs @ subscription_params_to_fields (sr_params r)) =
      subscription_params_new (sr_params r)"
    by (rule subscription_params_read [OF assms]) (simp add: params_keys_def)
  have "fields_named [''type''] (subscription_params_to_fields (sr_params r)) = []"
    "fields_named [''subscriptionId''] (subscription_params_to_fields (sr_params r)) = []"
    by (simp_all add: subscription_params_to_fields_def)
  with p show ?thesis
    by (cases "subscription_params_new (sr_params r)")
      (simp_all add: ws_request_of_fields_def subscribe_request_to_fields_def subscribe_request_of_fields_def
        required_field_def single_field_def uint_read del: json_uint.simps)
qed

lemma unsubscribe_request_read:
  "ws_request_of_fields (ws_request_to_fields (Ws_Unsubscribe r)) = Inr (Ws_Unsubscribe r)"
  by (simp add: ws_request_of_fields_def unsubscribe_request_to_fields_def unsubscribe_request_of_fields_def
      required_field_def single_field_def uint_read del: json_uint.simps)

lemma ws_response_read:
  assumes "\<And>i u. r = WR_StreamUpdated i u \<Longrightarrow> json_update_ok u"
  shows "ws_response_of_fields (ws_response_to_fields r) = Inr r"
proof (cases r)
  case (WR_StreamUpdated i u)
  let ?kvs = "[(''type'', J_String ''streamUpdated''), (''subscriptionId'', J_Int (uint i))]"
  have u: "json_update_of_fields (?kvs @ json_update_to_fields u) = Inr u"
    by (rule json_update_read) (use assms WR_StreamUpdated in simp_all)
  have "fields_named [''type''] (json_update_to_fields u) = []"
    "fields_named [''subscriptionId''] (json_update_to_fields u) = []"
    by (simp_all add: json_update_to_fields_def)
  with u show ?thesis
    by (simp add: WR_StreamUpdated ws_response_of_fields_def Let_def required_field_def single_field_def uint_read
        del: json_uint.simps)
qed (simp_all add: ws_response_of_fields_def Let_def required_field_def single_field_def uint_read forms_read
    details_form.of_to del: json_uint.simps json_list.simps)

text \<open>The type invariants: channels that can be built and nonzero prices.  A valid request passes the validation.\<close>

fun ws_request_typed :: "ws_request \<Rightarrow> bool" where
  "ws_request_typed (Ws_Subscribe r) = channel_ok (sp_channel (sr_params r))"
| "ws_request_typed (Ws_Unsubscribe r) = True"

fun ws_request_valid :: "ws_request \<Rightarrow> bool" where
  "ws_request_valid (Ws_Subscribe r) =
     (is_ok (subscription_params_new (sr_params r)) \<and> channel_ok (sp_channel (sr_params r)))"
| "ws_request_valid (Ws_Unsubscribe r) = True"

fun ws_response_typed :: "json_update ws_response \<Rightarrow> bool" where
  "ws_response_typed (WR_StreamUpdated i u) = json_update_ok u"
| "ws_response_typed _ = True"

lemma params_new_Inr: "subscription_params_new v = Inr w \<Longrightarrow> w = v"
  by (auto simp: subscription_params_new_def)

lemma ws_request_read_iff:
  assumes "ws_request_typed q"
  shows "ws_request_of_fields (ws_request_to_fields q) = Inr q' \<longleftrightarrow> ws_request_valid q \<and> q' = q"
proof (cases q)
  case (Ws_Subscribe r)
  show ?thesis
  proof (cases "subscription_params_new (sr_params r)")
    case (Inr x)
    then have "x = sr_params r" by (rule params_new_Inr)
    with Inr Ws_Subscribe assms show ?thesis
      by (auto simp: subscribe_request_read simp del: ws_request_to_fields.simps)
  qed (use Ws_Subscribe assms in \<open>simp add: subscribe_request_read del: ws_request_to_fields.simps\<close>)
qed (auto simp: unsubscribe_request_read simp del: ws_request_to_fields.simps)

lemma ws_request_read_valid: "ws_request_of_fields kvs = Inr q \<Longrightarrow> ws_request_valid q"
  by (auto simp: ws_request_of_fields_def subscribe_request_of_fields_def dest!: requests_read_valid(3)
      split: if_splits)

text \<open>C39: the messages between the streaming client and the server survive their JSON form.  A request is read
  back exactly when it passes the validation, and then unchanged; no object at all is read as a request that
  does not pass it; and every response, with the updates in it, is read as it was written.
\<close>

theorem ws_messages_round_trip:
  assumes "ws_request_typed q" and "ws_response_typed r"
  shows "(ws_request_of_fields (ws_request_to_fields q) = Inr q' \<longleftrightarrow> ws_request_valid q \<and> q' = q) \<and>
    (ws_request_of_fields kvs = Inr q' \<longrightarrow> ws_request_valid q') \<and>
    ws_response_of_fields (ws_response_to_fields r) = Inr r"
proof -
  have "json_update_ok u" if "r = WR_StreamUpdated i u" for i u
    using assms(2) that by simp
  then have "ws_response_of_fields (ws_response_to_fields r) = Inr r" by (rule ws_response_read)
  with ws_request_read_iff [OF assms(1)] ws_request_read_valid show ?thesis by blast
qed

definition sample_subscribe :: subscribe_request where
  "sample_subscribe = \<lparr>sr_subscription_id = 7, sr_params =
     \<lparr>sp_price_feed_ids = Some [1, 2], sp_symbols = None, sp_properties = [P_Price], sp_formats = [F_Solana],
      sp_delivery_format = DF_Json, sp_json_binary_encoding = Hex, sp_parsed = True, sp_channel = Ch_RealTime,
      sp_ignore_invalid_feeds = False\<rparr>\<rparr>"

definition sample_update :: json_update where
  "sample_update = \<lparr>ju_parsed = Some \<lparr>pj_timestamp_us = 5, pj_price_feeds = [(parsed_feed_none 1)\<lparr>pf_price := Some (- 3)\<rparr>]\<rparr>,
     ju_evm = None, ju_solana = Some \<lparr>jb_encoding = Hex, jb_data = ''00ff''\<rparr>, ju_le_ecdsa = None, ju_le_unsigned = None,
     ju_packed_evm_ecdsa = None\<rparr>"

theorem ws_messages_round_trip_witness:
  "ws_request_valid (Ws_Subscribe sample_subscribe) \<and> ws_response_typed (WR_StreamUpdated 7 sample_update) \<and>
   ws_request_of_fields (ws_request_to_fields (Ws_Subscribe sample_subscribe)) = Inr (Ws_Subscribe sample_subscribe) \<and>
   ws_response_of_fields (ws_response_to_fields (WR_StreamUpdated 7 sample_update)) =
     Inr (WR_StreamUpdated 7 sample_update)"
proof -
  have v: "ws_request_valid (Ws_Subscribe sample_subscribe)"
    by (simp add: sample_subscribe_def subscription_params_new_def validate_price_request_def
        validate_price_feed_ids_or_symbols_def validate_unique_elements_def validate_requested_payload_def)
  have t: "ws_request_typed (Ws_Subscribe sample_subscribe)" by (simp add: sample_subscribe_def)
  have r: "ws_response_typed (WR_StreamUpdated 7 sample_update)"
    by (simp add: sample_update_def json_update_ok_def parsed_payload_ok_def parsed_feed_ok_def parsed_feed_none_def
        price_ok_def)
  show ?thesis
    using v r ws_messages_round_trip [OF t r, of "Ws_Subscribe sample_subscribe"] by blast
qed

end
