(* ===== verification/Solana_Storage.thy ===== *)
theory Solana_Storage
  imports Lazer_Solana
begin

text \<open>
  The account that holds the storage of the Solana program
  (\<^verbatim>\<open>contracts/solana/programs/pyth-lazer-solana-contract/src/lib.rs\<close>): its bytes, after the
  discriminator, in the Borsh format that the derived serializers use: the fields in their order, integers in
  little-endian order, the elements of an array without a length.  The space of the account is fixed when it
  is created, so every storage has to fit it.
\<close>

section \<open>The layout\<close>

definition PUBKEY_BYTES :: nat where "PUBKEY_BYTES = 32"
definition EVM_ADDRESS_LEN :: nat where "EVM_ADDRESS_LEN = 20"
definition EXTRA_SPACE :: nat where "EXTRA_SPACE = 43"
definition ANCHOR_DISCRIMINATOR_BYTES :: nat where "ANCHOR_DISCRIMINATOR_BYTES = 8"

definition STORAGE_SERIALIZED_LEN :: nat where
  "STORAGE_SERIALIZED_LEN =
     PUBKEY_BYTES + PUBKEY_BYTES + 8 + 1 + (PUBKEY_BYTES + 8) * SPACE_FOR_TRUSTED_SIGNERS + 1 +
     (EVM_ADDRESS_LEN + 8) * SPACE_FOR_TRUSTED_ECDSA_SIGNERS + EXTRA_SPACE"

definition account_space :: nat where
  "account_space = ANCHOR_DISCRIMINATOR_BYTES + STORAGE_SERIALIZED_LEN"

definition signer_to_bytes :: "trusted_signer_info \<Rightarrow> bytes" where
  "signer_to_bytes s = tsi_pubkey s @ put_uint LE 8 (tsi_expires_at s)"

definition signer_from_bytes :: "nat \<Rightarrow> bytes \<Rightarrow> anyhow + trusted_signer_info \<times> bytes" where
  "signer_from_bytes key_len r =
     and_then (read_exact key_len r) (\<lambda>(pubkey, r).
     and_then (read_u64 LE r) (\<lambda>(expires_at, r).
     Inr (\<lparr>tsi_pubkey = pubkey, tsi_expires_at = expires_at\<rparr>, r)))"

text \<open>The last field of the account, \<^verbatim>\<open>_extra_space\<close>, is kept beside the storage.\<close>

definition storage_to_bytes :: "storage \<times> bytes \<Rightarrow> bytes" where
  "storage_to_bytes = (\<lambda>(st, extra).
     st_top_authority st @ st_treasury st @ put_uint LE 8 (st_single_update_fee_in_lamports st) @
     [st_num_trusted_signers st] @ concat (map signer_to_bytes (st_trusted_signers st)) @
     [st_num_trusted_ecdsa_signers st] @ concat (map signer_to_bytes (st_trusted_ecdsa_signers st)) @ extra)"

definition storage_from_bytes :: "bytes \<Rightarrow> anyhow + (storage \<times> bytes) \<times> bytes" where
  "storage_from_bytes r =
     and_then (read_exact PUBKEY_BYTES r) (\<lambda>(top_authority, r).
     and_then (read_exact PUBKEY_BYTES r) (\<lambda>(treasury, r).
     and_then (read_u64 LE r) (\<lambda>(fee, r).
     and_then (read_u8 r) (\<lambda>(num, r).
     and_then (read_many (signer_from_bytes PUBKEY_BYTES) SPACE_FOR_TRUSTED_SIGNERS r) (\<lambda>(signers, r).
     and_then (read_u8 r) (\<lambda>(num_ecdsa, r).
     and_then (read_many (signer_from_bytes EVM_ADDRESS_LEN) SPACE_FOR_TRUSTED_ECDSA_SIGNERS r) (\<lambda>(ecdsa_signers, r).
     and_then (read_exact EXTRA_SPACE r) (\<lambda>(extra, r).
     Inr ((\<lparr>st_top_authority = top_authority, st_treasury = treasury, st_single_update_fee_in_lamports = fee,
            st_num_trusted_signers = num, st_trusted_signers = signers, st_num_trusted_ecdsa_signers = num_ecdsa,
            st_trusted_ecdsa_signers = ecdsa_signers\<rparr>, extra), r)))))))))"

section \<open>The account fits\<close>

definition signer_ok :: "nat \<Rightarrow> trusted_signer_info \<Rightarrow> bool" where
  "signer_ok key_len s \<longleftrightarrow> length (tsi_pubkey s) = key_len"

fun storage_fits :: "storage \<times> bytes \<Rightarrow> bool" where
  "storage_fits (st, extra) \<longleftrightarrow>
     length (st_top_authority st) = PUBKEY_BYTES \<and> length (st_treasury st) = PUBKEY_BYTES \<and>
     length (st_trusted_signers st) = SPACE_FOR_TRUSTED_SIGNERS \<and>
     list_all (signer_ok PUBKEY_BYTES) (st_trusted_signers st) \<and>
     length (st_trusted_ecdsa_signers st) = SPACE_FOR_TRUSTED_ECDSA_SIGNERS \<and>
     list_all (signer_ok EVM_ADDRESS_LEN) (st_trusted_ecdsa_signers st) \<and>
     length extra = EXTRA_SPACE"

interpretation signer_codec: canonical_codec signer_to_bytes "signer_from_bytes k" "signer_ok k" for k
proof
  fix s r
  assume "signer_ok k s"
  then show "signer_from_bytes k (signer_to_bytes s @ r) = Inr (s, r)"
    by (simp add: signer_from_bytes_def signer_to_bytes_def signer_ok_def codec_simps)
next
  fix bs s r
  assume "signer_from_bytes k bs = Inr (s, r)"
  then show "signer_ok k s \<and> bs = signer_to_bytes s @ r"
    by (auto simp: signer_from_bytes_def signer_to_bytes_def signer_ok_def read_exact_Inr_iff read_uint_Inr_iff)
qed

interpretation storage_codec: canonical_codec storage_to_bytes storage_from_bytes storage_fits
proof
  fix x r
  assume "storage_fits x"
  then show "storage_from_bytes (storage_to_bytes x @ r) = Inr (x, r)"
    using signer_codec.read_many_enc [of PUBKEY_BYTES "st_trusted_signers (fst x)"]
      signer_codec.read_many_enc [of EVM_ADDRESS_LEN "st_trusted_ecdsa_signers (fst x)"]
    by (cases x) (simp add: storage_from_bytes_def storage_to_bytes_def codec_simps)
next
  fix bs x r
  assume "storage_from_bytes bs = Inr (x, r)"
  then show "storage_fits x \<and> bs = storage_to_bytes x @ r"
    by (auto simp: storage_from_bytes_def storage_to_bytes_def read_exact_Inr_iff read_uint_Inr_iff read_u8_Inr_iff
        signer_codec.read_many_iff)
qed

lemma storage_length: "STORAGE_SERIALIZED_LEN = 373" "account_space = 381"
  by code_simp+

lemma length_signers:
  "list_all (signer_ok k) xs \<Longrightarrow> length (concat (map signer_to_bytes xs)) = length xs * (k + 8)"
  by (induction xs) (simp_all add: signer_to_bytes_def signer_ok_def)

lemma storage_to_bytes_length: "storage_fits x \<Longrightarrow> length (storage_to_bytes x) = STORAGE_SERIALIZED_LEN"
  by (cases x) (simp add: storage_to_bytes_def STORAGE_SERIALIZED_LEN_def
      length_signers [of PUBKEY_BYTES] length_signers [of EVM_ADDRESS_LEN])

text \<open>A new account is zeroed, and its bytes are the storage that \<^verbatim>\<open>initialize\<close> starts from.\<close>

lemma zeroed_account: "storage_from_bytes (replicate STORAGE_SERIALIZED_LEN 0) = Inr ((zeroed_storage, replicate 43 0), [])"
proof -
  have "storage_fits (zeroed_storage, replicate 43 0)" by code_simp
  moreover have "storage_to_bytes (zeroed_storage, replicate 43 0) = replicate STORAGE_SERIALIZED_LEN 0" by code_simp
  ultimately show ?thesis using storage_codec.dec_enc [of "(zeroed_storage, replicate 43 0)" "[]"] by simp
qed

lemma initialize_fits:
  assumes "sol_initialize top_authority treasury None = Inr st"
    and "length top_authority = PUBKEY_BYTES" and "length treasury = PUBKEY_BYTES"
  shows "storage_fits (st, replicate EXTRA_SPACE 0)"
proof -
  have "storage_fits (zeroed_storage, replicate EXTRA_SPACE 0)" by code_simp
  with assms show ?thesis by (auto simp: sol_initialize_def)
qed

section \<open>Updates keep the size\<close>

lemma list_all_modify_first:
  "modify_first p f xs = Some ys \<Longrightarrow> list_all q xs \<Longrightarrow> (\<And>x. q x \<Longrightarrow> q (f x)) \<Longrightarrow> list_all q ys"
  by (induction xs arbitrary: ys) (auto split: if_splits)

lemma edit_signers_ok:
  assumes "edit_signers k e xs = Inr ys" and "list_all (signer_ok n) xs" and "length k = n"
  shows "list_all (signer_ok n) ys"
proof (cases "e = 0")
  case True
  with assms show ?thesis
    by (auto simp: edit_signers_def list_all_iff dest!: in_set_takeD in_set_dropD)
next
  case False
  with assms show ?thesis
    by (auto simp: edit_signers_def signer_ok_def split: option.splits dest: list_all_modify_first [where q = "signer_ok n"])
qed

lemma update_signers_ok:
  assumes "update_signers n num xs k e = Inr (num', ys)" and "list_all (signer_ok n) xs" and "length k = n"
  shows "list_all (signer_ok n) ys \<and> length ys = length xs"
proof -
  from assms(1) obtain zs where zs: "edit_signers k e (take (unat num) xs) = Inr zs" "length zs \<le> length xs"
    "ys = zs @ replicate (length xs - length zs) (default_signer n)"
    by (auto simp: update_signers_def Let_def not_less split: if_splits)
  have "list_all (signer_ok n) (take (unat num) xs)"
    using assms(2) by (auto simp: list_all_iff dest: in_set_takeD)
  from edit_signers_ok [OF zs(1) this assms(3)] zs(2,3) show ?thesis
    by (auto simp: list_all_iff signer_ok_def default_signer_def)
qed

text \<open>
  No instruction changes the number of bytes of the account: after each, the storage is written in exactly the
  space that was allocated, and read back as it is.
\<close>

theorem account_never_outgrows_space:
  assumes "storage_fits (st, extra)"
    and "sol_update signers authority k e st = Inr st' \<and> length k = PUBKEY_BYTES \<or>
         sol_update_ecdsa_signer signers authority k e st = Inr st' \<and> length k = EVM_ADDRESS_LEN"
  shows "length (storage_to_bytes (st', extra)) = STORAGE_SERIALIZED_LEN \<and>
    storage_from_bytes (storage_to_bytes (st', extra)) = Inr ((st', extra), [])"
proof -
  have "storage_fits (st', extra)"
    using assms
    by (auto simp: sol_update_def sol_update_ecdsa_signer_def PUBKEY_BYTES_def EVM_ADDRESS_LEN_def
        dest!: update_signers_ok)
  then show ?thesis
    using storage_to_bytes_length storage_codec.dec_enc [of "(st', extra)" "[]"] by simp
qed

text \<open>
  The account of the test \<^verbatim>\<open>test_storage_compat_after_adding_ecdsa\<close>, written before the program had ECDSA
  signers: what was unused space then reads as no such signers.  The test reads the account with its
  discriminator, which shifts every field by eight bytes.
\<close>

definition compat_account :: bytes where
  "compat_account =
    [209, 117, 255, 185, 196, 175, 68, 9, 221, 56, 75, 202, 174, 248, 122, 155, 212, 29, 112, 50, 82, 65, 161,
     137, 16, 164, 61, 134, 119, 132, 149, 1, 178, 177, 3, 187, 25, 187, 143, 244, 233, 140, 161, 230, 115,
     255, 214, 103, 208, 40, 16, 101, 45, 35, 153, 15, 145, 134, 250, 244, 248, 255, 51, 165, 169, 186, 183,
     210, 155, 137, 30, 84, 1, 0, 0, 0, 0, 0, 0, 0, 1, 116, 49, 58, 101, 37, 237, 249, 153, 54, 170, 20, 119,
     233, 76, 114, 188, 92, 198, 23, 178, 23, 69, 245, 240, 50, 150, 243, 21, 68, 97, 242, 20, 255, 255, 255,
     255, 255, 255, 255, 127]
    @ replicate 260 0"

lemma compat_account_read:
  "map_ok (\<lambda>((st, extra), r). (st_single_update_fee_in_lamports st, st_num_trusted_signers st,
       map tsi_expires_at (st_trusted_signers st), st_num_trusted_ecdsa_signers st, st_trusted_ecdsa_signers st, extra, r))
     (storage_from_bytes (drop ANCHOR_DISCRIMINATOR_BYTES compat_account)) =
   Inr (1, 1, [0x7FFFFFFFFFFFFFFF, 0, 0, 0, 0], 0, replicate 2 (default_signer 20), replicate 43 0, [])"
  by code_simp

lemma compat_account_shifted:
  "map_ok (\<lambda>((st, extra), r). (st_single_update_fee_in_lamports st, st_num_trusted_signers st,
       map tsi_expires_at (st_trusted_signers st), r))
     (storage_from_bytes compat_account) =
   Inr (6061433450835458729, 1, [1509375770176493106, 0, 0, 0, 0], replicate 8 0)"
  by code_simp

end
