(* ===== verification/Jrpc_Json.thy ===== *)
theory Jrpc_Json
  imports Agent_Sessions Lazer_Json
begin

text \<open>
  The JSON forms of the JSON-RPC messages between publishers and the agent, and of the symbols' metadata
  (\<^verbatim>\<open>sdk/rust/protocol/src/jrpc.rs\<close>, \<^verbatim>\<open>symbol_state.rs\<close>), as trees of JSON values.  The names of time spans
  belong to the \<^verbatim>\<open>humantime\<close> crate and are a parameter with the contract that a written span is read back.
  A struct inside the parameters of a request is read from an object or from the list of its fields, as the
  derived readers do; the name of a variant is read from a string only.
\<close>

section \<open>Names\<close>

fun trading_status_name :: "trading_status \<Rightarrow> string" where
  "trading_status_name TS_Open = ''open''"
| "trading_status_name TS_Closed = ''closed''"
| "trading_status_name TS_Halted = ''halted''"
| "trading_status_name TS_CorpAction = ''corpAction''"

definition trading_status_to_json :: "trading_status \<Rightarrow> json" where
  "trading_status_to_json s = J_String (trading_status_name s)"

definition trading_status_of_json :: "json \<Rightarrow> string + trading_status" where
  "trading_status_of_json = json_name trading_status_name [TS_Open, TS_Closed, TS_Halted, TS_CorpAction]"

interpretation trading_status_form: json_form trading_status_to_json trading_status_of_json "\<lambda>_. True"
proof
  fix s
  show "trading_status_of_json (trading_status_to_json s) = Inr s"
    by (cases s) (simp_all add: trading_status_to_json_def trading_status_of_json_def)
qed (simp add: trading_status_to_json_def)

text \<open>A state that this version does not know is read as unknown (\<^verbatim>\<open>serde(other)\<close>).\<close>

definition symbol_state_to_json :: "symbol_state \<Rightarrow> json" where
  "symbol_state_to_json s = J_String (symbol_state_display s)"

fun symbol_state_of_json :: "json \<Rightarrow> string + symbol_state" where
  "symbol_state_of_json (J_String s) =
     Inr (case find (\<lambda>v. symbol_state_display v = s) [SS_ComingSoon, SS_Stable, SS_Inactive, SS_Beta, SS_Expired] of
            Some v \<Rightarrow> v | None \<Rightarrow> SS_Unknown)"
| "symbol_state_of_json _ = Inl ''expected a string''"

interpretation symbol_state_form: json_form symbol_state_to_json symbol_state_of_json "\<lambda>_. True"
proof
  fix s
  show "symbol_state_of_json (symbol_state_to_json s) = Inr s"
    by (cases s) (simp_all add: symbol_state_to_json_def)
qed (simp add: symbol_state_to_json_def)

section \<open>Time spans\<close>

record humantime =
  ht_format :: "std_duration \<Rightarrow> string"
  ht_parse :: "string \<Rightarrow> string + std_duration"

definition humantime_contract :: "humantime \<Rightarrow> bool" where
  "humantime_contract ht \<longleftrightarrow> (\<forall>d. sd_nanos d < 1000000000 \<longrightarrow> ht_parse ht (ht_format ht d) = Inr d)"

definition span_to_json :: "humantime \<Rightarrow> std_duration \<Rightarrow> json" where
  "span_to_json ht d = J_String (ht_format ht d)"

definition span_of_json :: "humantime \<Rightarrow> json \<Rightarrow> string + std_duration" where
  "span_of_json ht j = and_then (json_string j) (ht_parse ht)"

definition span_ok :: "std_duration \<Rightarrow> bool" where "span_ok d \<longleftrightarrow> sd_nanos d < 1000000000"

lemma span_read:
  assumes "humantime_contract ht" and "pred_option span_ok v"
  shows "json_option (span_of_json ht) (or_null (span_to_json ht) v) = Inr v"
  using assms by (cases v) (simp_all add: humantime_contract_def span_ok_def span_of_json_def span_to_json_def or_null_def)

section \<open>Requests\<close>

fun jrpc_id_to_json :: "jrpc_id \<Rightarrow> json" where
  "jrpc_id_to_json (Id_String s) = J_String s"
| "jrpc_id_to_json (Id_Int i) = J_Int (sint i)"
| "jrpc_id_to_json Id_Null = J_Null"

fun jrpc_id_of_json :: "json \<Rightarrow> string + jrpc_id" where
  "jrpc_id_of_json (J_String s) = Inr (Id_String s)"
| "jrpc_id_of_json (J_Int i) = ok_or ''data did not match any variant'' (map_option Id_Int (to_signed i))"
| "jrpc_id_of_json J_Null = Inr Id_Null"
| "jrpc_id_of_json _ = Inl ''data did not match any variant''"

lemma jrpc_id_read [simp]: "jrpc_id_of_json (jrpc_id_to_json i) = Inr i"
  by (cases i) (simp_all add: sint_form.of_to [where 'a = 64, simplified])

text \<open>The only version of the protocol.\<close>

fun version_of_json :: "json \<Rightarrow> string + unit" where
  "version_of_json (J_String s) = (if s = ''2.0'' then Inr () else Inl ''unknown variant'')"
| "version_of_json _ = Inl ''expected a string''"

abbreviation "price_to_json \<equiv> \<lambda>p :: price. J_Int (sint p)"

fun update_params_to_fields :: "humantime \<Rightarrow> update_params \<Rightarrow> fields" where
  "update_params_to_fields ht (UP_PriceUpdate price bid ask status session) =
     [(''type'', J_String ''price''), (''price'', or_null price_to_json price),
      (''best_bid_price'', or_null price_to_json bid), (''best_ask_price'', or_null price_to_json ask),
      (''trading_status'', or_null trading_status_to_json status),
      (''market_session'', or_null session_to_json session)]"
| "update_params_to_fields ht (UP_FundingRateUpdate price rate interval) =
     [(''type'', J_String ''funding_rate''), (''price'', or_null price_to_json price), (''rate'', J_Int (sint rate)),
      (''funding_rate_interval'', or_null (span_to_json ht) interval)]"

definition update_params_of_fields :: "humantime \<Rightarrow> fields \<Rightarrow> string + update_params" where
  "update_params_of_fields ht kvs =
     and_then (required_field [''type''] json_string kvs) (\<lambda>tag.
     if tag = ''price'' then
       and_then (option_field [''price''] json_price kvs) (\<lambda>price.
       and_then (option_field [''best_bid_price''] json_price kvs) (\<lambda>bid.
       and_then (option_field [''best_ask_price''] json_price kvs) (\<lambda>ask.
       and_then (option_field [''trading_status''] trading_status_of_json kvs) (\<lambda>status.
       and_then (option_field [''market_session''] session_of_json kvs) (\<lambda>session.
       Inr (UP_PriceUpdate price bid ask status session))))))
     else if tag = ''funding_rate'' then
       and_then (option_field [''price''] json_price kvs) (\<lambda>price.
       and_then (required_field [''rate''] json_sint kvs) (\<lambda>rate.
       and_then (option_field [''funding_rate_interval''] (span_of_json ht) kvs) (\<lambda>interval.
       Inr (UP_FundingRateUpdate price rate interval))))
     else Inl ''unknown variant'')"

text \<open>
  The derived readers also take a struct as the list of its fields in the order of their declaration: every
  field must be there, but one with an own default may be missing at the end, and nothing may follow.  The
  tag of a variant is then the first element.
\<close>

definition update_params_of_seq :: "humantime \<Rightarrow> string \<Rightarrow> json list \<Rightarrow> string + update_params" where
  "update_params_of_seq ht tag js =
     (if tag = ''price'' then
        (case js of
           [price, bid, ask, status, session] \<Rightarrow>
             and_then (json_option json_price price) (\<lambda>price.
             and_then (json_option json_price bid) (\<lambda>bid.
             and_then (json_option json_price ask) (\<lambda>ask.
             and_then (json_option trading_status_of_json status) (\<lambda>status.
             and_then (json_option session_of_json session) (\<lambda>session.
             Inr (UP_PriceUpdate price bid ask status session))))))
         | _ \<Rightarrow> Inl ''invalid length'')
      else if tag = ''funding_rate'' then
        (case js of
           price # rate # rest \<Rightarrow>
             and_then (json_option json_price price) (\<lambda>price.
             and_then (json_sint rate) (\<lambda>rate.
             (case rest of
                [] \<Rightarrow> Inr (UP_FundingRateUpdate price rate None)
              | [interval] \<Rightarrow>
                  and_then (json_option (span_of_json ht) interval) (\<lambda>interval.
                  Inr (UP_FundingRateUpdate price rate interval))
              | _ \<Rightarrow> Inl ''invalid length'')))
         | _ \<Rightarrow> Inl ''invalid length'')
      else Inl ''unknown variant'')"

fun update_params_of_json :: "humantime \<Rightarrow> json \<Rightarrow> string + update_params" where
  "update_params_of_json ht (J_Object kvs) = update_params_of_fields ht kvs"
| "update_params_of_json ht (J_Array (tag # js)) = and_then (json_string tag) (\<lambda>tag. update_params_of_seq ht tag js)"
| "update_params_of_json ht _ = Inl ''expected internally tagged enum''"

definition feed_update_params_to_json :: "humantime \<Rightarrow> feed_update_params \<Rightarrow> json" where
  "feed_update_params_to_json ht p =
     J_Object [(''feed_id'', J_Int (uint (fp_feed_id p))), (''source_timestamp'', J_Int (uint (fp_source_timestamp p))),
       (''update'', J_Object (update_params_to_fields ht (fp_update p)))]"

fun feed_update_params_of_json :: "humantime \<Rightarrow> json \<Rightarrow> string + feed_update_params" where
  "feed_update_params_of_json ht (J_Object kvs) =
     and_then (required_field [''feed_id''] json_uint kvs) (\<lambda>feed_id.
     and_then (required_field [''source_timestamp''] json_uint kvs) (\<lambda>source_timestamp.
     and_then (required_field [''update''] (update_params_of_json ht) kvs) (\<lambda>update.
     Inr \<lparr>fp_feed_id = feed_id, fp_source_timestamp = source_timestamp, fp_update = update\<rparr>)))"
| "feed_update_params_of_json ht (J_Array [feed_id, source_timestamp, update]) =
     and_then (json_uint feed_id) (\<lambda>feed_id.
     and_then (json_uint source_timestamp) (\<lambda>source_timestamp.
     and_then (update_params_of_json ht update) (\<lambda>update.
     Inr \<lparr>fp_feed_id = feed_id, fp_source_timestamp = source_timestamp, fp_update = update\<rparr>)))"
| "feed_update_params_of_json ht _ = Inl ''expected struct FeedUpdateParams''"

definition metadata_params_to_json :: "get_metadata_params \<Rightarrow> json" where
  "metadata_params_to_json p =
     J_Object [(''names'', or_null strings_to_json (gm_names p)),
               (''asset_types'', or_null strings_to_json (gm_asset_types p))]"

fun metadata_params_of_json :: "json \<Rightarrow> string + get_metadata_params" where
  "metadata_params_of_json (J_Object kvs) =
     and_then (option_field [''names''] (json_list json_string) kvs) (\<lambda>names.
     and_then (option_field [''asset_types''] (json_list json_string) kvs) (\<lambda>types.
     Inr \<lparr>gm_names = names, gm_asset_types = types\<rparr>))"
| "metadata_params_of_json (J_Array [names, types]) =
     and_then (json_option (json_list json_string) names) (\<lambda>names.
     and_then (json_option (json_list json_string) types) (\<lambda>types.
     Inr \<lparr>gm_names = names, gm_asset_types = types\<rparr>))"
| "metadata_params_of_json _ = Inl ''expected struct GetMetadataParams''"

text \<open>The method is the tag and the parameters are the content; both are fields of the request.\<close>

fun jrpc_call_to_fields :: "humantime \<Rightarrow> jrpc_call \<Rightarrow> fields" where
  "jrpc_call_to_fields ht (PushUpdate p) =
     [(''method'', J_String ''push_update''), (''params'', feed_update_params_to_json ht p)]"
| "jrpc_call_to_fields ht (PushUpdates ps) =
     [(''method'', J_String ''push_updates''), (''params'', J_Array (map (feed_update_params_to_json ht) ps))]"
| "jrpc_call_to_fields ht (GetMetadata p) =
     [(''method'', J_String ''get_metadata''), (''params'', metadata_params_to_json p)]"

definition jrpc_call_of_fields :: "humantime \<Rightarrow> fields \<Rightarrow> string + jrpc_call" where
  "jrpc_call_of_fields ht kvs =
     and_then (required_field [''method''] json_string kvs) (\<lambda>tag.
     if tag = ''push_update'' then
       map_ok PushUpdate (required_field [''params''] (feed_update_params_of_json ht) kvs)
     else if tag = ''push_updates'' then
       map_ok PushUpdates (required_field [''params''] (json_list (feed_update_params_of_json ht)) kvs)
     else if tag = ''get_metadata'' then
       map_ok GetMetadata (required_field [''params''] metadata_params_of_json kvs)
     else Inl ''unknown variant'')"

definition jrpc_request_to_fields :: "humantime \<Rightarrow> jrpc_request \<Rightarrow> fields" where
  "jrpc_request_to_fields ht r =
     (''jsonrpc'', J_String ''2.0'') # jrpc_call_to_fields ht (jr_params r) @ [(''id'', jrpc_id_to_json (jr_id r))]"

definition jrpc_request_of_fields :: "humantime \<Rightarrow> fields \<Rightarrow> string + jrpc_request" where
  "jrpc_request_of_fields ht kvs =
     and_then (required_field [''jsonrpc''] version_of_json kvs) (\<lambda>_.
     and_then (jrpc_call_of_fields ht kvs) (\<lambda>params.
     and_then (default_field [''id''] Id_Null jrpc_id_of_json kvs) (\<lambda>id.
     Inr \<lparr>jr_params = params, jr_id = id\<rparr>)))"

section \<open>Requests are read as they were written\<close>

text \<open>The invariants of the types: prices are not zero, and a second has fewer than a billion nanoseconds.\<close>

fun update_params_ok :: "update_params \<Rightarrow> bool" where
  "update_params_ok (UP_PriceUpdate price bid ask _ _) =
     (pred_option (\<lambda>p. p \<noteq> 0) price \<and> pred_option (\<lambda>p. p \<noteq> 0) bid \<and> pred_option (\<lambda>p. p \<noteq> 0) ask)"
| "update_params_ok (UP_FundingRateUpdate price _ interval) =
     (pred_option (\<lambda>p. p \<noteq> 0) price \<and> pred_option span_ok interval)"

fun jrpc_call_ok :: "jrpc_call \<Rightarrow> bool" where
  "jrpc_call_ok (PushUpdate p) = update_params_ok (fp_update p)"
| "jrpc_call_ok (PushUpdates ps) = list_all (\<lambda>p. update_params_ok (fp_update p)) ps"
| "jrpc_call_ok (GetMetadata _) = True"

lemmas jrpc_forms_read = forms_read sint_form.of_to price_form.of_or_null trading_status_form.of_or_null
  session_form.of_or_null span_read

lemma update_params_read:
  assumes "humantime_contract ht" and "update_params_ok u"
  shows "update_params_of_fields ht (update_params_to_fields ht u) = Inr u"
  using assms
  by (cases u) (simp_all add: update_params_of_fields_def field_reads jrpc_forms_read
      del: json_uint.simps json_sint.simps json_option.simps)

lemma feed_update_params_read:
  assumes "humantime_contract ht" and "update_params_ok (fp_update p)"
  shows "feed_update_params_of_json ht (feed_update_params_to_json ht p) = Inr p"
  using update_params_read [OF assms]
  by (simp add: feed_update_params_to_json_def field_reads forms_read del: json_uint.simps)

text \<open>The list of the fields of an update is read as the update, too.\<close>

lemma positional_params_read:
  assumes "humantime_contract ht" and "update_params_ok (fp_update p)"
  shows "feed_update_params_of_json ht
    (J_Array [J_Int (uint (fp_feed_id p)), J_Int (uint (fp_source_timestamp p)),
       J_Array (map snd (update_params_to_fields ht (fp_update p)))]) = Inr p"
proof -
  have "update_params_of_json ht (J_Array (map snd (update_params_to_fields ht (fp_update p)))) = Inr (fp_update p)"
    using assms by (cases "fp_update p") (simp_all add: update_params_of_seq_def jrpc_forms_read
        del: json_uint.simps json_sint.simps json_option.simps)
  then show ?thesis by (simp add: uint_form.of_to del: json_uint.simps update_params_of_json.simps)
qed

lemma feed_update_params_list_read:
  assumes "humantime_contract ht" and "list_all (\<lambda>p. update_params_ok (fp_update p)) ps"
  shows "json_list (feed_update_params_of_json ht) (J_Array (map (feed_update_params_to_json ht) ps)) = Inr ps"
  using assms(2) by (induction ps) (simp_all add: feed_update_params_read [OF assms(1)])

lemma metadata_params_read: "metadata_params_of_json (metadata_params_to_json p) = Inr p"
  by (simp add: metadata_params_to_json_def field_reads forms_read
      del: json_list.simps json_option.simps)

lemma jrpc_request_read:
  assumes "humantime_contract ht" and "jrpc_call_ok (jr_params r)"
  shows "jrpc_request_of_fields ht (jrpc_request_to_fields ht r) = Inr r"
proof -
  let ?kvs = "jrpc_request_to_fields ht r"
  have names: "fields_named [''jsonrpc''] ?kvs = [J_String ''2.0'']" "fields_named [''id''] ?kvs = [jrpc_id_to_json (jr_id r)]"
    by (cases "jr_params r"; simp add: jrpc_request_to_fields_def)+
  have "jrpc_call_of_fields ht ?kvs = Inr (jr_params r)"
    using assms(2) feed_update_params_read [OF assms(1)] feed_update_params_list_read [OF assms(1)]
    by (cases "jr_params r") (simp_all add: jrpc_call_of_fields_def jrpc_request_to_fields_def field_reads
        metadata_params_read del: json_list.simps)
  with names show ?thesis by (simp add: jrpc_request_of_fields_def field_reads)
qed

section \<open>Metadata of symbols\<close>

definition symbol_metadata_to_fields :: "humantime \<Rightarrow> symbol_metadata \<Rightarrow> fields" where
  "symbol_metadata_to_fields ht m =
     [(''pyth_lazer_id'', J_Int (uint (sm_pyth_lazer_id m))), (''name'', J_String (sm_name m)),
      (''symbol'', J_String (sm_symbol m)), (''description'', J_String (sm_description m)),
      (''asset_type'', J_String (sm_asset_type m)), (''exponent'', J_Int (sint (sm_exponent m))),
      (''cmc_id'', or_null (\<lambda>i. J_Int (uint i)) (sm_cmc_id m)),
      (''funding_rate_interval'', or_null (span_to_json ht) (sm_funding_rate_interval m)),
      (''min_publishers'', J_Int (uint (sm_min_publishers m))),
      (''min_channel'', channel_to_json (sm_min_channel m)), (''state'', symbol_state_to_json (sm_state m)),
      (''hermes_id'', or_null J_String (sm_hermes_id m)), (''quote_currency'', or_null J_String (sm_quote_currency m)),
      (''nasdaq_symbol'', or_null J_String (sm_nasdaq_symbol m))] @
     skip_none ''cusip'' J_String (sm_cusip m) @ skip_none ''auction_date'' J_String (sm_auction_date m) @
     skip_none ''issue_date'' J_String (sm_issue_date m) @ skip_none ''maturity_date'' J_String (sm_maturity_date m) @
     skip_none ''coupon'' J_String (sm_coupon m) @
     skip_none ''next_auction_date'' J_String (sm_next_auction_date m)"

definition symbol_metadata_of_fields :: "humantime \<Rightarrow> fields \<Rightarrow> string + symbol_metadata" where
  "symbol_metadata_of_fields ht kvs =
     and_then (required_field [''pyth_lazer_id''] json_uint kvs) (\<lambda>pyth_lazer_id.
     and_then (required_field [''name''] json_string kvs) (\<lambda>name.
     and_then (required_field [''symbol''] json_string kvs) (\<lambda>symbol.
     and_then (required_field [''description''] json_string kvs) (\<lambda>description.
     and_then (required_field [''asset_type''] json_string kvs) (\<lambda>asset_type.
     and_then (required_field [''exponent''] json_sint kvs) (\<lambda>exponent.
     and_then (option_field [''cmc_id''] json_uint kvs) (\<lambda>cmc_id.
     and_then (option_field [''funding_rate_interval'', ''interval''] (span_of_json ht) kvs) (\<lambda>interval.
     and_then (required_field [''min_publishers''] json_uint kvs) (\<lambda>min_publishers.
     and_then (required_field [''min_channel''] channel_of_json kvs) (\<lambda>min_channel.
     and_then (required_field [''state''] symbol_state_of_json kvs) (\<lambda>state.
     and_then (option_field [''hermes_id''] json_string kvs) (\<lambda>hermes_id.
     and_then (option_field [''quote_currency''] json_string kvs) (\<lambda>quote_currency.
     and_then (option_field [''nasdaq_symbol''] json_string kvs) (\<lambda>nasdaq_symbol.
     and_then (option_field [''cusip''] json_string kvs) (\<lambda>cusip.
     and_then (option_field [''auction_date''] json_string kvs) (\<lambda>auction_date.
     and_then (option_field [''issue_date''] json_string kvs) (\<lambda>issue_date.
     and_then (option_field [''maturity_date''] json_string kvs) (\<lambda>maturity_date.
     and_then (option_field [''coupon''] json_string kvs) (\<lambda>coupon.
     and_then (option_field [''next_auction_date''] json_string kvs) (\<lambda>next_auction_date.
     Inr \<lparr>sm_pyth_lazer_id = pyth_lazer_id, sm_name = name, sm_symbol = symbol, sm_description = description,
          sm_asset_type = asset_type, sm_exponent = exponent, sm_cmc_id = cmc_id, sm_funding_rate_interval = interval,
          sm_min_publishers = min_publishers, sm_min_channel = min_channel, sm_state = state,
          sm_hermes_id = hermes_id, sm_quote_currency = quote_currency, sm_nasdaq_symbol = nasdaq_symbol,
          sm_cusip = cusip, sm_auction_date = auction_date, sm_issue_date = issue_date,
          sm_maturity_date = maturity_date, sm_coupon = coupon, sm_next_auction_date = next_auction_date\<rparr>))))))))))))))))))))"

definition symbol_metadata_ok :: "symbol_metadata \<Rightarrow> bool" where
  "symbol_metadata_ok m \<longleftrightarrow> channel_ok (sm_min_channel m) \<and> pred_option span_ok (sm_funding_rate_interval m)"

lemma symbol_metadata_read:
  assumes "humantime_contract ht" and "symbol_metadata_ok m"
  shows "symbol_metadata_of_fields ht (symbol_metadata_to_fields ht m) = Inr m"
proof -
  let ?kvs = "symbol_metadata_to_fields ht m"
  have strs: "option_field [''cusip''] json_string ?kvs = Inr (sm_cusip m)"
    "option_field [''auction_date''] json_string ?kvs = Inr (sm_auction_date m)"
    "option_field [''issue_date''] json_string ?kvs = Inr (sm_issue_date m)"
    "option_field [''maturity_date''] json_string ?kvs = Inr (sm_maturity_date m)"
    "option_field [''coupon''] json_string ?kvs = Inr (sm_coupon m)"
    "option_field [''next_auction_date''] json_string ?kvs = Inr (sm_next_auction_date m)"
    by (rule string_form.skipped; simp add: symbol_metadata_to_fields_def option.pred_True)+
  have nulls: "option_field [''hermes_id''] json_string ?kvs = Inr (sm_hermes_id m)"
    "option_field [''quote_currency''] json_string ?kvs = Inr (sm_quote_currency m)"
    "option_field [''nasdaq_symbol''] json_string ?kvs = Inr (sm_nasdaq_symbol m)"
    "option_field [''cmc_id''] json_uint ?kvs = Inr (sm_cmc_id m)"
    by (rule string_form.nullable uint_form.nullable; simp add: symbol_metadata_to_fields_def option.pred_True)+
  have span: "option_field [''funding_rate_interval'', ''interval''] (span_of_json ht) ?kvs =
      Inr (sm_funding_rate_interval m)"
    using span_read [OF assms(1)] assms(2)
    by (simp add: option_field_def default_field_def single_field_def symbol_metadata_to_fields_def symbol_metadata_ok_def)
  have ch: "required_field [''min_channel''] channel_of_json ?kvs = Inr (sm_min_channel m)"
    by (rule channel_form.required) (use assms(2) in \<open>simp_all add: symbol_metadata_to_fields_def symbol_metadata_ok_def\<close>)
  have req: "required_field [''pyth_lazer_id''] json_uint ?kvs = Inr (sm_pyth_lazer_id m)"
    "required_field [''name''] json_string ?kvs = Inr (sm_name m)"
    "required_field [''symbol''] json_string ?kvs = Inr (sm_symbol m)"
    "required_field [''description''] json_string ?kvs = Inr (sm_description m)"
    "required_field [''asset_type''] json_string ?kvs = Inr (sm_asset_type m)"
    "required_field [''exponent''] json_sint ?kvs = Inr (sm_exponent m)"
    "required_field [''min_publishers''] json_uint ?kvs = Inr (sm_min_publishers m)"
    "required_field [''state''] symbol_state_of_json ?kvs = Inr (sm_state m)"
    by (rule uint_form.required string_form.required sint_form.required symbol_state_form.required;
        simp add: symbol_metadata_to_fields_def)+
  show ?thesis
    by (simp add: symbol_metadata_of_fields_def req strs nulls span ch)
qed

section \<open>Responses\<close>

text \<open>The data of an error is the text of a message or the parameters that could not be sent.\<close>

fun error_data_to_json :: "humantime \<Rightarrow> error_data \<Rightarrow> json" where
  "error_data_to_json ht (Data_String t) = J_String t"
| "error_data_to_json ht (Data_Params p) = feed_update_params_to_json ht p"

definition error_object_to_json :: "humantime \<Rightarrow> jrpc_error_object \<Rightarrow> json" where
  "error_object_to_json ht e =
     J_Object ([(''code'', J_Int (eo_code e)), (''message'', J_String (eo_message e))] @
       skip_none ''data'' (error_data_to_json ht) (eo_data e))"

fun jrpc_response_to_fields :: "humantime \<Rightarrow> jrpc_response \<Rightarrow> fields" where
  "jrpc_response_to_fields ht (Success_Text t i) =
     [(''jsonrpc'', J_String ''2.0''), (''result'', J_String t), (''id'', jrpc_id_to_json i)]"
| "jrpc_response_to_fields ht (Success_Symbols ms i) =
     [(''jsonrpc'', J_String ''2.0''),
      (''result'', J_Array (map (\<lambda>m. J_Object (symbol_metadata_to_fields ht m)) ms)), (''id'', jrpc_id_to_json i)]"
| "jrpc_response_to_fields ht (Error_Response e i) =
     [(''jsonrpc'', J_String ''2.0''), (''error'', error_object_to_json ht e), (''id'', jrpc_id_to_json i)]"

text \<open>
  The reader of a response: a success with a result of the type that the caller expects, otherwise an error.
  The data of an error is any JSON value.
\<close>

record read_error =
  re_code :: i64
  re_message :: string
  re_data :: "json option"

datatype 'a read_response = Read_Success 'a jrpc_id | Read_Error read_error jrpc_id

definition error_object_of_json :: "json \<Rightarrow> string + read_error" where
  "error_object_of_json = json_object (\<lambda>kvs.
     and_then (required_field [''code''] json_sint kvs) (\<lambda>code.
     and_then (required_field [''message''] json_string kvs) (\<lambda>message.
     and_then (option_field [''data''] Inr kvs) (\<lambda>data.
     Inr \<lparr>re_code = code, re_message = message, re_data = data\<rparr>))))"

definition success_of_fields :: "(json \<Rightarrow> string + 'a) \<Rightarrow> fields \<Rightarrow> string + 'a read_response" where
  "success_of_fields of_json kvs =
     and_then (required_field [''jsonrpc''] version_of_json kvs) (\<lambda>_.
     and_then (required_field [''result''] of_json kvs) (\<lambda>result.
     and_then (required_field [''id''] jrpc_id_of_json kvs) (\<lambda>id.
     Inr (Read_Success result id))))"

definition error_of_fields :: "fields \<Rightarrow> string + 'a read_response" where
  "error_of_fields kvs =
     and_then (required_field [''jsonrpc''] version_of_json kvs) (\<lambda>_.
     and_then (required_field [''error''] error_object_of_json kvs) (\<lambda>error.
     and_then (required_field [''id''] jrpc_id_of_json kvs) (\<lambda>id.
     Inr (Read_Error error id))))"

definition jrpc_response_of_fields :: "(json \<Rightarrow> string + 'a) \<Rightarrow> fields \<Rightarrow> string + 'a read_response" where
  "jrpc_response_of_fields of_json kvs =
     (case success_of_fields of_json kvs of
        Inr r \<Rightarrow> Inr r
      | Inl _ \<Rightarrow> (case error_of_fields kvs of Inr r \<Rightarrow> Inr r | Inl _ \<Rightarrow> Inl ''data did not match any variant''))"

definition symbols_of_json :: "humantime \<Rightarrow> json \<Rightarrow> string + symbol_metadata list" where
  "symbols_of_json ht = json_list (json_object (symbol_metadata_of_fields ht))"

text \<open>What a client reads from a response that the agent wrote, whatever type of result it expects.\<close>

lemma success_text_read:
  "jrpc_response_of_fields json_string (jrpc_response_to_fields ht (Success_Text t i)) = Inr (Read_Success t i)"
  by (simp add: jrpc_response_of_fields_def success_of_fields_def field_reads)

lemma success_symbols_read:
  assumes "humantime_contract ht" and "list_all symbol_metadata_ok ms"
  shows "jrpc_response_of_fields (symbols_of_json ht) (jrpc_response_to_fields ht (Success_Symbols ms i)) =
    Inr (Read_Success ms i)"
proof -
  have "symbols_of_json ht (J_Array (map (\<lambda>m. J_Object (symbol_metadata_to_fields ht m)) ms)) = Inr ms"
    using assms(2) by (induction ms) (simp_all add: symbols_of_json_def symbol_metadata_read [OF assms(1)])
  then show ?thesis
    by (simp add: jrpc_response_of_fields_def success_of_fields_def field_reads)
qed

lemma error_read:
  assumes "to_signed (eo_code e) = Some c"
  shows "jrpc_response_of_fields of_json (jrpc_response_to_fields ht (Error_Response e i)) =
    Inr (Read_Error \<lparr>re_code = c, re_message = eo_message e, re_data = map_option (error_data_to_json ht) (eo_data e)\<rparr> i)"
proof -
  have "error_data_to_json ht d \<noteq> J_Null" for d
    by (cases d) (simp_all add: feed_update_params_to_json_def)
  then have "json_option Inr (error_data_to_json ht d) = Inr (Some (error_data_to_json ht d))" for d
    by (cases "error_data_to_json ht d") auto
  then have "error_object_of_json (error_object_to_json ht e) =
      Inr \<lparr>re_code = c, re_message = eo_message e, re_data = map_option (error_data_to_json ht) (eo_data e)\<rparr>"
    using assms by (cases "eo_data e") (simp_all add: error_object_of_json_def error_object_to_json_def field_reads)
  then show ?thesis
    by (simp add: jrpc_response_of_fields_def success_of_fields_def error_of_fields_def field_reads)
qed

section \<open>A session over JSON\<close>

text \<open>
  The parser of the agent's session: the text of JSON belongs to \<^verbatim>\<open>serde_json\<close> and is the argument
  \<open>tree\<close>.  The client reads the text of a reply as the tree that was written.
\<close>

definition parse_request :: "(bytes \<Rightarrow> string + json) \<Rightarrow> humantime \<Rightarrow> bytes \<Rightarrow> string + jrpc_request" where
  "parse_request tree ht buf = and_then (tree buf) (json_object (jrpc_request_of_fields ht))"

lemma parse_written:
  assumes "humantime_contract ht" and "jrpc_call_ok (jr_params r)"
    and "tree buf = Inr (J_Object (jrpc_request_to_fields ht r))"
  shows "parse_request tree ht buf = Inr r"
  using assms by (simp add: parse_request_def jrpc_request_read)

text \<open>
  Texts that are no request whatever a reader makes of the parameters: no JSON, no object, or an object in which
  a field is missing or the version or the method is another string.
\<close>

definition not_a_request :: "string + json \<Rightarrow> bool" where
  "not_a_request t \<longleftrightarrow>
     (case t of
        Inr (J_Object kvs) \<Rightarrow>
          fields_named [''params''] kvs = [] \<or>
          (case fields_named [''jsonrpc''] kvs of
             [] \<Rightarrow> True | [J_String version] \<Rightarrow> version \<noteq> ''2.0'' | _ \<Rightarrow> False) \<or>
          (case fields_named [''method''] kvs of
             [] \<Rightarrow> True
           | [J_String method] \<Rightarrow> method \<notin> {''push_update'', ''push_updates'', ''get_metadata''}
           | _ \<Rightarrow> False)
      | _ \<Rightarrow> True)"

lemma bad_version_refused:
  "(case fields_named [''jsonrpc''] kvs of [] \<Rightarrow> True | [J_String version] \<Rightarrow> version \<noteq> ''2.0'' | _ \<Rightarrow> False) \<Longrightarrow>
     \<not> is_ok (required_field [''jsonrpc''] version_of_json kvs)"
  by (auto simp: required_field_def single_field_def split: list.splits json.splits)

lemma missing_field: "fields_named names kvs = [] \<Longrightarrow> required_field names f kvs = Inl (''missing field '' @ hd names)"
  by (simp add: required_field_def single_field_def)

lemma bad_method_refused:
  assumes "fields_named [''params''] kvs = [] \<or>
    (case fields_named [''method''] kvs of
       [] \<Rightarrow> True | [J_String method] \<Rightarrow> method \<notin> {''push_update'', ''push_updates'', ''get_metadata''} | _ \<Rightarrow> False)"
  shows "\<not> is_ok (jrpc_call_of_fields ht kvs)"
  using assms
proof
  assume "fields_named [''params''] kvs = []"
  then show ?thesis
    by (cases "required_field [''method''] json_string kvs") (simp_all add: jrpc_call_of_fields_def missing_field)
next
  assume "case fields_named [''method''] kvs of
       [] \<Rightarrow> True | [J_String method] \<Rightarrow> method \<notin> {''push_update'', ''push_updates'', ''get_metadata''} | _ \<Rightarrow> False"
  then show ?thesis
    by (auto simp: jrpc_call_of_fields_def required_field_def single_field_def split: list.splits json.splits)
qed

lemma not_a_request_refused:
  assumes "not_a_request (tree buf)"
  obtains e where "parse_request tree ht buf = Inl e"
proof -
  have "\<not> is_ok (jrpc_request_of_fields ht kvs)" if "tree buf = Inr (J_Object kvs)" for kvs
  proof -
    have "\<not> is_ok (required_field [''jsonrpc''] version_of_json kvs) \<or> \<not> is_ok (jrpc_call_of_fields ht kvs)"
      using assms that bad_version_refused [of kvs] bad_method_refused [of kvs ht] by (auto simp: not_a_request_def)
    then show ?thesis
      by (cases "required_field [''jsonrpc''] version_of_json kvs"; cases "jrpc_call_of_fields ht kvs")
        (simp_all add: jrpc_request_of_fields_def)
  qed
  then have "\<not> is_ok (parse_request tree ht buf)" if "tree buf = Inr (J_Object kvs)" for kvs
    using that by (simp add: parse_request_def)
  moreover have "\<not> is_ok (parse_request tree ht buf)" if "\<forall>kvs. tree buf \<noteq> Inr (J_Object kvs)"
  proof (cases "tree buf")
    case (Inr j)
    with that show ?thesis by (cases j) (simp_all add: parse_request_def)
  qed (simp add: parse_request_def)
  ultimately have "\<not> is_ok (parse_request tree ht buf)" by blast
  then show thesis using that by (cases "parse_request tree ht buf") simp_all
qed

lemma filter_symbols_ok: "list_all P symbols \<Longrightarrow> list_all P (filter_symbols symbols params)"
  by (auto simp: filter_symbols_def list_all_iff)

text \<open>The replies that a client reads, with a reader of the results it expects.\<close>

abbreviation client_reads :: "humantime \<Rightarrow> (json \<Rightarrow> string + 'a) \<Rightarrow> jrpc_response list \<Rightarrow> (string + 'a read_response) list" where
  "client_reads ht of_json replies \<equiv> map (\<lambda>r. jrpc_response_of_fields of_json (jrpc_response_to_fields ht r)) replies"

text \<open>C40: A JSON-RPC session end to end.  When a publisher writes a request as JSON, to push one update or a list of
  updates, and the agent reads it, then the updates of the request are queued in order with all their fields, and
  the client reads one success with its own identifier, or nothing if it gave none; a request for metadata is
  answered with exactly the matching symbols, as the client reads them; and a text that is no JSON object, or one
  without version, method or parameters, or with another version or method, queues nothing and is answered with
  a parse error.\<close>

theorem jrpc_session_over_json:
  assumes ht: "humantime_contract ht" and up: "se_channel_open s" "se_socket_open s"
    and typed: "list_all (\<lambda>p. update_params_ok (fp_update p)) us" "list_all symbol_metadata_ok symbols"
  shows "(tree buf = Inr (J_Object (jrpc_request_to_fields ht \<lparr>jr_params = call, jr_id = i\<rparr>)) \<and>
      (call = PushUpdates us \<or> (\<exists>u. call = PushUpdate u \<and> us = [u])) \<longrightarrow>
      (\<exists>s' replies. handle_jrpc_message (parse_request tree ht) into_pb fetched buf s = (Inr (), s') \<and>
         se_pushed s' = se_pushed s @ map (feed_update_of_params into_pb) us \<and> se_sent s' = se_sent s @ replies \<and>
         client_reads ht json_string replies = (if i = Id_Null then [] else [Inr (Read_Success ''success'' i)]))) \<and>
    (tree buf = Inr (J_Object (jrpc_request_to_fields ht \<lparr>jr_params = GetMetadata params, jr_id = i\<rparr>)) \<and> i \<noteq> Id_Null \<longrightarrow>
      (\<exists>s' reply. handle_jrpc_message (parse_request tree ht) into_pb (Inr symbols) buf s = (Inr (), s') \<and>
         se_pushed s' = se_pushed s \<and> se_sent s' = se_sent s @ [reply] \<and>
         client_reads ht (symbols_of_json ht) [reply] = [Inr (Read_Success (filter_symbols symbols params) i)])) \<and>
    (not_a_request (tree buf) \<longrightarrow>
      (\<exists>s' reply message. handle_jrpc_message (parse_request tree ht) into_pb fetched buf s = (Inr (), s') \<and>
         se_pushed s' = se_pushed s \<and> se_sent s' = se_sent s @ [reply] \<and>
         client_reads ht json_string [reply] =
           [Inr (Read_Error \<lparr>re_code = - 32700, re_message = ''Parse error'', re_data = Some (J_String message)\<rparr> Id_Null)]))"
proof (intro conjI impI)
  assume a: "tree buf = Inr (J_Object (jrpc_request_to_fields ht \<lparr>jr_params = call, jr_id = i\<rparr>)) \<and>
      (call = PushUpdates us \<or> (\<exists>u. call = PushUpdate u \<and> us = [u]))"
  then have p: "parse_request tree ht buf = Inr \<lparr>jr_params = call, jr_id = i\<rparr>"
    using typed(1) by (intro parse_written [OF ht]) auto
  have "client_reads ht json_string (success_replies i) = (if i = Id_Null then [] else [Inr (Read_Success ''success'' i)])"
    by (simp add: success_replies_def success_text_read del: jrpc_response_to_fields.simps)
  moreover have "handle_jrpc_message (parse_request tree ht) into_pb fetched buf s =
      (Inr (), s\<lparr>se_pushed := se_pushed s @ map (feed_update_of_params into_pb) us,
                  se_sent := se_sent s @ success_replies i\<rparr>)"
    using a p up
    by (auto simp: handle_jrpc_message_def handle_jrpc_inner_def push_updates_open push_feed_update_def send_success_open)
  ultimately show "\<exists>s' replies. handle_jrpc_message (parse_request tree ht) into_pb fetched buf s = (Inr (), s') \<and>
         se_pushed s' = se_pushed s @ map (feed_update_of_params into_pb) us \<and> se_sent s' = se_sent s @ replies \<and>
         client_reads ht json_string replies = (if i = Id_Null then [] else [Inr (Read_Success ''success'' i)])"
    by (intro exI conjI) (assumption | simp)+
next
  assume a: "tree buf = Inr (J_Object (jrpc_request_to_fields ht \<lparr>jr_params = GetMetadata params, jr_id = i\<rparr>)) \<and> i \<noteq> Id_Null"
  then have p: "parse_request tree ht buf = Inr \<lparr>jr_params = GetMetadata params, jr_id = i\<rparr>"
    by (intro parse_written [OF ht]) simp_all
  let ?reply = "Success_Symbols (filter_symbols symbols params) i"
  have h: "handle_jrpc_message (parse_request tree ht) into_pb (Inr symbols) buf s = (Inr (), s\<lparr>se_sent := se_sent s @ [?reply]\<rparr>)"
    using p a up by (cases i) (simp_all add: handle_jrpc_message_def handle_jrpc_inner_def handle_get_metadata_def send_reply_def)
  have "client_reads ht (symbols_of_json ht) [?reply] = [Inr (Read_Success (filter_symbols symbols params) i)]"
    using success_symbols_read [OF ht filter_symbols_ok [OF typed(2)]] by simp
  with h show "\<exists>s' reply. handle_jrpc_message (parse_request tree ht) into_pb (Inr symbols) buf s = (Inr (), s') \<and>
         se_pushed s' = se_pushed s \<and> se_sent s' = se_sent s @ [reply] \<and>
         client_reads ht (symbols_of_json ht) [reply] = [Inr (Read_Success (filter_symbols symbols params) i)]"
    by (intro exI conjI) (assumption | simp)+
next
  assume "not_a_request (tree buf)"
  then obtain e where e: "parse_request tree ht buf = Inl e" by (rule not_a_request_refused)
  let ?reply = "Error_Response (error_object (ParseError e)) Id_Null"
  have h: "handle_jrpc_message (parse_request tree ht) into_pb fetched buf s = (Inr (), s\<lparr>se_sent := se_sent s @ [?reply]\<rparr>)"
    using e up by (simp add: handle_jrpc_message_def handle_jrpc_inner_def send_reply_def)
  have "client_reads ht json_string [?reply] =
      [Inr (Read_Error \<lparr>re_code = - 32700, re_message = ''Parse error'', re_data = Some (J_String e)\<rparr> Id_Null)]"
    using error_read [of "error_object (ParseError e)" "- 32700" json_string ht Id_Null] by (simp add: to_signed_def)
  with h show "\<exists>s' reply message. handle_jrpc_message (parse_request tree ht) into_pb fetched buf s = (Inr (), s') \<and>
         se_pushed s' = se_pushed s \<and> se_sent s' = se_sent s @ [reply] \<and>
         client_reads ht json_string [reply] =
           [Inr (Read_Error \<lparr>re_code = - 32700, re_message = ''Parse error'', re_data = Some (J_String message)\<rparr> Id_Null)]"
    by (intro exI conjI) (assumption | simp)+
qed

text \<open>A spelling of time spans that satisfies the contract.\<close>

definition tally :: humantime where
  "tally = \<lparr>ht_format = (\<lambda>d. replicate (unat (sd_secs d)) CHR ''s'' @ replicate (unat (sd_nanos d)) CHR ''n''),
     ht_parse = (\<lambda>t. Inr \<lparr>sd_secs = of_nat (length (filter (\<lambda>c. c = CHR ''s'') t)),
                           sd_nanos = of_nat (length (filter (\<lambda>c. c = CHR ''n'') t))\<rparr>)\<rparr>"

lemma tally_contract: "humantime_contract tally"
  by (simp add: humantime_contract_def tally_def)

definition demo_update :: feed_update_params where
  "demo_update = \<lparr>fp_feed_id = 1, fp_source_timestamp = 124214124124,
     fp_update = UP_FundingRateUpdate (Some 1234567890) 1234567891 (Some \<lparr>sd_secs = 28800, sd_nanos = 0\<rparr>)\<rparr>"

definition demo_tree :: "bytes \<Rightarrow> string + json" where
  "demo_tree = (\<lambda>_. Inr (J_Object (jrpc_request_to_fields tally \<lparr>jr_params = PushUpdates [demo_update], jr_id = Id_Int 1\<rparr>)))"

definition demo_session :: "jrpc_response session" where
  "demo_session = \<lparr>se_channel_open = True, se_pushed = [], se_socket_open = True, se_sent = []\<rparr>"

theorem jrpc_session_over_json_witness:
  "\<exists>s' replies. handle_jrpc_message (parse_request demo_tree tally) (\<lambda>d. \<lparr>pb_seconds = 0, pb_nanos = 0\<rparr>) (Inr []) [] demo_session = (Inr (), s') \<and>
     map fu_feed_id (se_pushed s') = [Some 1] \<and> se_sent s' = replies \<and>
     client_reads tally json_string replies = [Inr (Read_Success ''success'' (Id_Int 1))]"
proof -
  have ok: "list_all (\<lambda>p. update_params_ok (fp_update p)) [demo_update]"
    by (simp add: demo_update_def span_ok_def)
  have s: "se_channel_open demo_session" "se_socket_open demo_session" "se_pushed demo_session = []" "se_sent demo_session = []"
    by (simp_all add: demo_session_def)
  have t: "demo_tree [] = Inr (J_Object (jrpc_request_to_fields tally \<lparr>jr_params = PushUpdates [demo_update], jr_id = Id_Int 1\<rparr>)) \<and>
      (PushUpdates [demo_update] = PushUpdates [demo_update] \<or>
       (\<exists>u. PushUpdates [demo_update] = PushUpdate u \<and> [demo_update] = [u]))"
    by (simp add: demo_tree_def)
  have sym: "list_all symbol_metadata_ok []" by simp
  obtain s' replies where "handle_jrpc_message (parse_request demo_tree tally) (\<lambda>d. \<lparr>pb_seconds = 0, pb_nanos = 0\<rparr>) (Inr []) [] demo_session = (Inr (), s')"
    "se_pushed s' = map (feed_update_of_params (\<lambda>d. \<lparr>pb_seconds = 0, pb_nanos = 0\<rparr>)) [demo_update]" "se_sent s' = replies"
    "client_reads tally json_string replies = [Inr (Read_Success ''success'' (Id_Int 1))]"
    using mp [OF conjunct1 [OF jrpc_session_over_json [OF tally_contract s(1,2) ok sym, where tree = demo_tree and buf = "[]" and call = "PushUpdates [demo_update]" and i = "Id_Int 1" and fetched = "Inr []"
          and into_pb = "\<lambda>d. \<lparr>pb_seconds = 0, pb_nanos = 0\<rparr>"]] t] s(3,4)
    by (auto simp del: jrpc_response_to_fields.simps)
  then show ?thesis
    by (intro exI conjI) (assumption | simp add: feed_update_of_params_def demo_update_def)+
qed

end
