(* ===== verification/Time_Conversions.thy ===== *)
theory Time_Conversions
  imports Complex_Main Jrpc_Json Lazer_Price
begin

text \<open>
  The conversions of \<^verbatim>\<open>sdk/rust/protocol/src/time.rs\<close> to the clock types of the standard library and of
  \<^verbatim>\<open>chrono\<close>, the readings of the clock, the humantime form of durations, the remaining constants and
  accessors, and the conversion of prices and rates to floating point.
\<close>

section \<open>Constants and accessors\<close>

definition TS_UNIX_EPOCH :: timestamp_us where "TS_UNIX_EPOCH = 0"
definition TS_MAX :: timestamp_us where "TS_MAX = - 1"
definition DUR_ZERO :: u64 where "DUR_ZERO = 0"

definition ts_from_micros :: "u64 \<Rightarrow> timestamp_us" where "ts_from_micros micros = micros"
definition ts_as_micros :: "timestamp_us \<Rightarrow> u64" where "ts_as_micros t = t"
definition dur_from_micros :: "u64 \<Rightarrow> u64" where "dur_from_micros micros = micros"
definition dur_as_micros :: "u64 \<Rightarrow> u64" where "dur_as_micros d = d"
definition dur_as_nanos_i128 :: "u64 \<Rightarrow> i128" where "dur_as_nanos_i128 d = ucast d * 1000"
definition dur_is_zero :: "u64 \<Rightarrow> bool" where "dur_is_zero d \<longleftrightarrow> d = 0"
definition dur_is_positive :: "u64 \<Rightarrow> bool" where "dur_is_positive d \<longleftrightarrow> 0 < d"

definition MAX_RATE :: u64 where "MAX_RATE = ALL_RATES ! (length ALL_RATES - 1)"

section \<open>Durations of the standard library\<close>

text \<open>\<^verbatim>\<open>Duration::from_micros\<close> and \<^verbatim>\<open>Duration::as_micros\<close>.\<close>

definition std_from_micros :: "u64 \<Rightarrow> std_duration" where
  "std_from_micros micros = \<lparr>sd_secs = micros div 1000000, sd_nanos = ucast (micros mod 1000000) * 1000\<rparr>"

definition std_as_micros :: "std_duration \<Rightarrow> u128" where
  "std_as_micros d = ucast (sd_secs d) * 1000000 + ucast (sd_nanos d div 1000)"

definition std_of_dur :: "u64 \<Rightarrow> std_duration" where
  "std_of_dur d = std_from_micros (dur_as_micros d)"

definition dur_of_std :: "std_duration \<Rightarrow> anyhow + u64" where
  "dur_of_std d = try_into_u64 (uint (std_as_micros d))"

text \<open>A span that is more precise than a microsecond is cut off.\<close>

lemma std_as_micros_value:
  assumes "span_ok d"
  shows "uint (std_as_micros d) = uint (sd_secs d) * 1000000 + uint (sd_nanos d) div 1000"
proof -
  have s: "uint (sd_secs d) < 2 ^ 64" using uint_range_upper [of "sd_secs d"] by simp
  have n: "uint (sd_nanos d div 1000) = uint (sd_nanos d) div 1000" by (simp add: uint_div)
  have small: "uint (sd_nanos d) < 1000000000" using assms by (simp add: span_ok_def word_less_def)
  have u: "uint (ucast (sd_secs d) :: u128) = uint (sd_secs d)"
    "uint (ucast (sd_nanos d div 1000) :: u128) = uint (sd_nanos d) div 1000"
    using s small n by (simp_all add: unsigned_ucast_eq take_bit_int_eq_self pos_imp_zdiv_nonneg_iff)
  have "uint (sd_secs d) * 1000000 < 2 ^ 128" "uint (sd_secs d) * 1000000 + uint (sd_nanos d) div 1000 < 2 ^ 128"
    using s small by simp_all
  then show ?thesis
    unfolding std_as_micros_def uint_word_ariths u using uint_ge_0 [of "sd_secs d"]
    by (simp add: pos_imp_zdiv_nonneg_iff)
qed

lemma std_from_micros_fields:
  "span_ok (std_from_micros m)" "uint (sd_secs (std_from_micros m)) = uint m div 1000000"
  "uint (sd_nanos (std_from_micros m)) = uint m mod 1000000 * 1000"
proof -
  show "uint (sd_secs (std_from_micros m)) = uint m div 1000000" by (simp add: std_from_micros_def uint_div)
  have m: "0 \<le> uint m mod 1000000" "uint m mod 1000000 < 1000000" by simp_all
  have "uint (ucast (m mod 1000000) :: u32) = uint m mod 1000000"
    using m by (simp add: unsigned_ucast_eq take_bit_int_eq_self uint_mod)
  then show n: "uint (sd_nanos (std_from_micros m)) = uint m mod 1000000 * 1000"
    using m by (simp add: std_from_micros_def uint_word_ariths mod_pos_pos_trivial)
  show "span_ok (std_from_micros m)" using n m(2) by (simp add: span_ok_def word_less_def)
qed

text \<open>A duration survives the conversion; a longer span is refused, a finer one rounded down.\<close>

lemma dur_of_std_iff:
  assumes "span_ok d"
  shows "dur_of_std d = Inr w \<longleftrightarrow> uint w = uint (sd_secs d) * 1000000 + uint (sd_nanos d) div 1000"
  using std_as_micros_value [OF assms] by (simp add: dur_of_std_def)

lemma dur_std_back: "dur_of_std (std_of_dur d) = Inr d"
  using std_from_micros_fields [of d]
  by (simp add: std_of_dur_def dur_as_micros_def dur_of_std_iff)

section \<open>The clock of the system\<close>

text \<open>
  \<^verbatim>\<open>SystemTime\<close> on Unix: signed seconds and nanoseconds since the epoch.  A time before the epoch has no
  \<^verbatim>\<open>duration_since\<close> it, and an addition fails when the seconds leave their type.
\<close>

record system_time =
  st_secs :: i64
  st_nanos :: u32

definition since_epoch :: "system_time \<Rightarrow> std_duration option" where
  "since_epoch t = (if sint (st_secs t) < 0 then None else Some \<lparr>sd_secs = st_secs t, sd_nanos = st_nanos t\<rparr>)"

definition epoch_plus :: "std_duration \<Rightarrow> system_time option" where
  "epoch_plus d = (if uint (sd_secs d) < 2 ^ 63 then Some \<lparr>st_secs = sd_secs d, st_nanos = sd_nanos d\<rparr> else None)"

definition ts_of_system_time :: "system_time \<Rightarrow> anyhow + timestamp_us" where
  "ts_of_system_time value =
     and_then (ctx ''invalid system time'' (since_epoch value)) (\<lambda>d. try_into_u64 (uint (std_as_micros d)))"

definition system_time_of_ts :: "timestamp_us \<Rightarrow> anyhow + system_time" where
  "system_time_of_ts value = ctx ''checked_add failed'' (epoch_plus (std_from_micros (ts_as_micros value)))"

text \<open>Every timestamp is a time of the system, and is read back from it.\<close>

lemma system_time_back: "\<exists>t. system_time_of_ts ts = Inr t \<and> ts_of_system_time t = Inr ts"
proof -
  let ?d = "std_from_micros ts"
  have s: "uint (sd_secs ?d) < 2 ^ 63"
    using std_from_micros_fields(2) [of ts] uint_range_upper [of ts] by simp
  then have "sint (sd_secs ?d) = uint (sd_secs ?d)" using sint_small [of "sd_secs ?d"] by simp
  then have "\<not> sint (sd_secs ?d) < 0" using uint_ge_0 [of "sd_secs ?d"] by simp
  moreover have "uint (std_as_micros ?d) = uint ts"
    using std_as_micros_value [OF std_from_micros_fields(1)] std_from_micros_fields(2,3) [of ts] by simp
  ultimately show ?thesis
    using s by (cases ?d) (simp add: system_time_of_ts_def ts_of_system_time_def epoch_plus_def since_epoch_def ts_as_micros_def ctx_def)
qed

text \<open>\<^verbatim>\<open>now\<close> panics (\<open>None\<close>) before the epoch; the other readings follow it.\<close>

definition ts_now :: "system_time \<Rightarrow> timestamp_us option" where
  "ts_now clock = (case ts_of_system_time clock of Inr t \<Rightarrow> Some t | Inl _ \<Rightarrow> None)"

definition ts_elapsed :: "system_time \<Rightarrow> timestamp_us \<Rightarrow> (anyhow + u64) option" where
  "ts_elapsed clock t = map_option (\<lambda>now. duration_since now t) (ts_now clock)"

definition ts_saturating_elapsed :: "system_time \<Rightarrow> timestamp_us \<Rightarrow> u64 option" where
  "ts_saturating_elapsed clock t = map_option (\<lambda>now. saturating_duration_since now t) (ts_now clock)"

lemma ts_now_None:
  assumes "st_nanos clock < 1000000000"
  shows "ts_now clock = None \<longleftrightarrow> sint (st_secs clock) < 0 \<or> 2 ^ 64 \<le> uint (st_secs clock) * 1000000 + uint (st_nanos clock) div 1000"
proof -
  have v: "uint (std_as_micros \<lparr>sd_secs = st_secs clock, sd_nanos = st_nanos clock\<rparr>) =
      uint (st_secs clock) * 1000000 + uint (st_nanos clock) div 1000"
    using std_as_micros_value [of "\<lparr>sd_secs = st_secs clock, sd_nanos = st_nanos clock\<rparr>"] assms by (simp add: span_ok_def)
  have "0 \<le> uint (st_secs clock) * 1000000 + uint (st_nanos clock) div 1000"
    by (simp add: pos_imp_zdiv_nonneg_iff)
  then show ?thesis
    by (auto simp: ts_now_def ts_of_system_time_def since_epoch_def ctx_def v try_into_u64_def to_unsigned_def)
qed

section \<open>Calendar times\<close>

text \<open>What the crate uses of \<^verbatim>\<open>chrono\<close>: microseconds since the epoch, in both directions.\<close>

record 'dt chrono_api =
  timestamp_micros :: "'dt \<Rightarrow> i64"
  from_timestamp_micros :: "i64 \<Rightarrow> 'dt option"

definition ts_of_chrono :: "'dt chrono_api \<Rightarrow> 'dt \<Rightarrow> anyhow + timestamp_us" where
  "ts_of_chrono ch value = try_into_u64 (sint (timestamp_micros ch value))"

definition chrono_of_ts :: "'dt chrono_api \<Rightarrow> timestamp_us \<Rightarrow> anyhow + 'dt" where
  "chrono_of_ts ch value =
     and_then (ok_or TryFromIntError (to_signed (uint (ts_as_micros value)))) (\<lambda>micros.
     ok_or (Message (''cannot convert timestamp to datetime: TimestampUs('' @ dec (unat value) @ '')''))
       (from_timestamp_micros ch micros))"

definition chrono_contract :: "'dt chrono_api \<Rightarrow> bool" where
  "chrono_contract ch \<longleftrightarrow> (\<forall>m dt. from_timestamp_micros ch m = Some dt \<longrightarrow> timestamp_micros ch dt = m)"

lemma chrono_back:
  assumes "chrono_contract ch" and "chrono_of_ts ch ts = Inr dt"
  shows "ts_of_chrono ch dt = Inr ts"
proof -
  obtain m where "sint m = uint ts" "from_timestamp_micros ch m = Some dt"
    using assms(2) by (auto simp: chrono_of_ts_def ts_as_micros_def to_signed_Some_iff)
  with assms(1) show ?thesis by (auto simp: chrono_contract_def ts_of_chrono_def)
qed

section \<open>Durations in words\<close>

definition dur_to_humantime :: "humantime \<Rightarrow> u64 \<Rightarrow> json" where
  "dur_to_humantime ht value = span_to_json ht (std_of_dur value)"

definition dur_of_humantime :: "humantime \<Rightarrow> json \<Rightarrow> string + u64" where
  "dur_of_humantime ht j =
     and_then (span_of_json ht j) (\<lambda>d. map_err (\<lambda>_. ''out of range integral type conversion attempted'') (dur_of_std d))"

lemma dur_humantime_back:
  assumes "humantime_contract ht"
  shows "dur_of_humantime ht (dur_to_humantime ht d) = Inr d"
proof -
  have "span_ok (std_of_dur d)" by (simp add: std_of_dur_def std_from_micros_fields(1))
  then have "span_of_json ht (span_to_json ht (std_of_dur d)) = Inr (std_of_dur d)"
    using assms by (simp add: span_of_json_def span_to_json_def humantime_contract_def span_ok_def)
  then show ?thesis by (simp add: dur_of_humantime_def dur_to_humantime_def dur_std_back)
qed

section \<open>Floating point\<close>

text \<open>
  \<^verbatim>\<open>to_f64\<close> of prices and rates, over the conversion of an integer and the two operations of
  \<^verbatim>\<open>f64\<close> that it uses.
\<close>

record 'f f64_ops =
  f64_of_i64 :: "i64 \<Rightarrow> 'f"
  f64_mul :: "'f \<Rightarrow> 'f \<Rightarrow> 'f"
  f64_div :: "'f \<Rightarrow> 'f \<Rightarrow> 'f"

definition price_to_f64 :: "'f f64_ops \<Rightarrow> i64 \<Rightarrow> i16 \<Rightarrow> 'e price_error + 'f" where
  "price_to_f64 ops mantissa exponent =
     and_then (ok_or PriceOverflow (exponent_factor_get exponent)) (\<lambda>f.
       case f of
         Factor_Mul coef \<Rightarrow> Inr (f64_div ops (f64_of_i64 ops mantissa) (f64_of_i64 ops coef))
       | Factor_Div coef \<Rightarrow> Inr (f64_mul ops (f64_of_i64 ops mantissa) (f64_of_i64 ops coef)))"

definition rate_to_f64 :: "'f f64_ops \<Rightarrow> i64 \<Rightarrow> i16 \<Rightarrow> 'e rate_error + 'f" where
  "rate_to_f64 ops mantissa exponent =
     and_then (ok_or Rate_Overflow (exponent_factor_get exponent)) (\<lambda>f.
       case f of
         Factor_Mul coef \<Rightarrow> Inr (f64_div ops (f64_of_i64 ops mantissa) (f64_of_i64 ops coef))
       | Factor_Div coef \<Rightarrow> Inr (f64_mul ops (f64_of_i64 ops mantissa) (f64_of_i64 ops coef)))"

text \<open>With exact operations the result is the mantissa scaled by the power of ten; the only errors are
  exponents of more than 18 digits.\<close>

definition exact_ops :: "rat f64_ops" where
  "exact_ops = \<lparr>f64_of_i64 = (\<lambda>i. of_int (sint i)), f64_mul = (*), f64_div = (/)\<rparr>"

lemma to_f64_exact:
  "price_to_f64 exact_ops m e =
     (if \<bar>sint e\<bar> \<le> 18 then Inr (of_int (sint m) * 10 powi sint e) else Inl PriceOverflow)"
  "rate_to_f64 exact_ops m e =
     (if \<bar>sint e\<bar> \<le> 18 then Inr (of_int (sint m) * 10 powi sint e) else Inl Rate_Overflow)"
proof -
  have p: "(signed (pow10 n) :: rat) = 10 ^ n" if "n \<le> 18" for n
    using arg_cong [OF sint_pow10 [OF that], of "of_int :: int \<Rightarrow> rat"] by simp
  have neg: "(10 :: rat) powi i = 1 / 10 ^ nat (- i)" if "i < 0" for i
    using that by (simp add: power_int_def field_simps)
  show "price_to_f64 exact_ops m e =
     (if \<bar>sint e\<bar> \<le> 18 then Inr (of_int (sint m) * 10 powi sint e) else Inl PriceOverflow)"
    "rate_to_f64 exact_ops m e =
     (if \<bar>sint e\<bar> \<le> 18 then Inr (of_int (sint m) * 10 powi sint e) else Inl Rate_Overflow)"
    by (auto simp: price_to_f64_def rate_to_f64_def exact_ops_def exponent_factor_get_eq p neg power_int_def power_one_over)
qed

end
