(* ===== verification/Hermes_Json.thy ===== *)
theory Hermes_Json
  imports Hermes_Client Lazer_Json
begin

text \<open>
  The JSON forms of the Hermes-compatible interface (\<^verbatim>\<open>sdk/rust/protocol/src/hermes.rs\<close>): numbers that may
  lose precision are decimal strings, messages are told apart by their field \<^verbatim>\<open>type\<close>, and the responses of
  the server by a second tag \<^verbatim>\<open>status\<close> beside it.
\<close>

section \<open>The remaining types\<close>

record rpc_price_feed_metadata_v2 =
  rpm_prev_publish_time :: i64
  rpm_proof_available_time :: i64
  rpm_slot :: i64

record parsed_price_update =
  ppu_ema_price :: rpc_price
  ppu_id :: string
  ppu_metadata :: rpc_price_feed_metadata_v2
  ppu_price :: rpc_price

section \<open>Prices\<close>

text \<open>\<^verbatim>\<open>DisplayFromStr\<close> of unsigned and signed numbers.\<close>

definition uint_str_to_json :: "u64 \<Rightarrow> json" where "uint_str_to_json w = J_String (dec (unat w))"

definition uint_str_of_json :: "json \<Rightarrow> string + u64" where
  "uint_str_of_json j = and_then (json_string j) (\<lambda>s. ok_or ''invalid digit or number out of range'' (parse_uint s))"

definition sint_str_to_json :: "i64 \<Rightarrow> json" where "sint_str_to_json w = J_String (dec_int (sint w))"

definition sint_str_of_json :: "json \<Rightarrow> string + i64" where
  "sint_str_of_json j = and_then (json_string j) (\<lambda>s. ok_or ''invalid digit or number out of range'' (parse_i64 s))"

interpretation uint_str_form: json_form uint_str_to_json uint_str_of_json "\<lambda>_. True"
  by unfold_locales (simp_all add: uint_str_to_json_def uint_str_of_json_def parse_uint_unat)

interpretation sint_str_form: json_form sint_str_to_json sint_str_of_json "\<lambda>_. True"
  by unfold_locales (simp_all add: sint_str_to_json_def sint_str_of_json_def parse_i64_dec)

definition rpc_price_to_json :: "rpc_price \<Rightarrow> json" where
  "rpc_price_to_json p =
     J_Object [(''conf'', uint_str_to_json (rpc_conf p)), (''expo'', J_Int (sint (rpc_expo p))),
       (''price'', sint_str_to_json (rpc_price_value p)), (''publish_time'', J_Int (sint (rpc_publish_time p)))]"

definition rpc_price_of_json :: "json \<Rightarrow> string + rpc_price" where
  "rpc_price_of_json = json_object (\<lambda>kvs.
     and_then (required_field [''conf''] uint_str_of_json kvs) (\<lambda>conf.
     and_then (required_field [''expo''] json_sint kvs) (\<lambda>expo.
     and_then (required_field [''price''] sint_str_of_json kvs) (\<lambda>price.
     and_then (required_field [''publish_time''] json_sint kvs) (\<lambda>publish_time.
     Inr \<lparr>rpc_conf = conf, rpc_expo = expo, rpc_price_value = price, rpc_publish_time = publish_time\<rparr>)))))"

lemmas hermes_forms = uint_str_form.of_to sint_str_form.of_to uint_form.of_to sint_form.of_to string_form.of_to
  bool_form.of_to channel_form.of_to

interpretation rpc_price_form: json_form rpc_price_to_json rpc_price_of_json "\<lambda>_. True"
  by unfold_locales (simp_all add: rpc_price_to_json_def rpc_price_of_json_def field_reads hermes_forms
      del: json_uint.simps json_sint.simps)

section \<open>Feeds and their metadata\<close>

definition ws_metadata_to_json :: "ws_price_feed_metadata \<Rightarrow> json" where
  "ws_metadata_to_json m =
     J_Object [(''slot'', J_Int (uint (wpm_slot m))), (''emitter_chain'', J_Int (uint (wpm_emitter_chain m))),
       (''price_service_receive_time'', J_Int (sint (wpm_price_service_receive_time m))),
       (''prev_publish_time'', J_Int (sint (wpm_prev_publish_time m)))]"

definition ws_metadata_of_json :: "json \<Rightarrow> string + ws_price_feed_metadata" where
  "ws_metadata_of_json = json_object (\<lambda>kvs.
     and_then (required_field [''slot''] json_uint kvs) (\<lambda>slot.
     and_then (required_field [''emitter_chain''] json_uint kvs) (\<lambda>emitter_chain.
     and_then (required_field [''price_service_receive_time''] json_sint kvs) (\<lambda>receive_time.
     and_then (required_field [''prev_publish_time''] json_sint kvs) (\<lambda>prev_publish_time.
     Inr \<lparr>wpm_slot = slot, wpm_emitter_chain = emitter_chain, wpm_price_service_receive_time = receive_time,
          wpm_prev_publish_time = prev_publish_time\<rparr>)))))"

interpretation ws_metadata_form: json_form ws_metadata_to_json ws_metadata_of_json "\<lambda>_. True"
  by unfold_locales (simp_all add: ws_metadata_to_json_def ws_metadata_of_json_def field_reads hermes_forms
      del: json_uint.simps json_sint.simps)

definition ws_price_feed_to_json :: "ws_price_feed \<Rightarrow> json" where
  "ws_price_feed_to_json f =
     J_Object ([(''id'', J_String (wpf_id f)), (''price'', rpc_price_to_json (wpf_price f)),
       (''ema_price'', rpc_price_to_json (wpf_ema_price f))] @
       skip_none ''metadata'' ws_metadata_to_json (wpf_metadata f) @ skip_none ''vaa'' J_String (wpf_vaa f))"

definition ws_price_feed_of_json :: "json \<Rightarrow> string + ws_price_feed" where
  "ws_price_feed_of_json = json_object (\<lambda>kvs.
     and_then (required_field [''id''] json_string kvs) (\<lambda>id.
     and_then (required_field [''price''] rpc_price_of_json kvs) (\<lambda>price.
     and_then (required_field [''ema_price''] rpc_price_of_json kvs) (\<lambda>ema_price.
     and_then (option_field [''metadata''] ws_metadata_of_json kvs) (\<lambda>metadata.
     and_then (option_field [''vaa''] json_string kvs) (\<lambda>vaa.
     Inr \<lparr>wpf_id = id, wpf_price = price, wpf_ema_price = ema_price, wpf_metadata = metadata, wpf_vaa = vaa\<rparr>))))))"

interpretation ws_price_feed_form: json_form ws_price_feed_to_json ws_price_feed_of_json "\<lambda>_. True"
proof
  fix f :: ws_price_feed
  let ?kvs = "[(''id'', J_String (wpf_id f)), (''price'', rpc_price_to_json (wpf_price f)),
       (''ema_price'', rpc_price_to_json (wpf_ema_price f))] @
       skip_none ''metadata'' ws_metadata_to_json (wpf_metadata f) @ skip_none ''vaa'' J_String (wpf_vaa f)"
  have "option_field [''metadata''] ws_metadata_of_json ?kvs = Inr (wpf_metadata f)"
    by (rule ws_metadata_form.skipped) (simp_all add: option.pred_True)
  moreover have "option_field [''vaa''] json_string ?kvs = Inr (wpf_vaa f)"
    by (rule string_form.skipped) (simp_all add: option.pred_True)
  moreover have "required_field [''price''] rpc_price_of_json ?kvs = Inr (wpf_price f)"
    "required_field [''ema_price''] rpc_price_of_json ?kvs = Inr (wpf_ema_price f)"
    "required_field [''id''] json_string ?kvs = Inr (wpf_id f)"
    by (rule rpc_price_form.required string_form.required; simp)+
  ultimately show "ws_price_feed_of_json (ws_price_feed_to_json f) = Inr f"
    by (simp add: ws_price_feed_of_json_def ws_price_feed_to_json_def)
qed (simp add: ws_price_feed_to_json_def)

definition rpc_metadata_to_json :: "rpc_price_feed_metadata_v2 \<Rightarrow> json" where
  "rpc_metadata_to_json m =
     J_Object [(''prev_publish_time'', J_Int (sint (rpm_prev_publish_time m))),
       (''proof_available_time'', J_Int (sint (rpm_proof_available_time m))), (''slot'', J_Int (sint (rpm_slot m)))]"

definition rpc_metadata_of_json :: "json \<Rightarrow> string + rpc_price_feed_metadata_v2" where
  "rpc_metadata_of_json = json_object (\<lambda>kvs.
     and_then (required_field [''prev_publish_time''] json_sint kvs) (\<lambda>prev_publish_time.
     and_then (required_field [''proof_available_time''] json_sint kvs) (\<lambda>proof_available_time.
     and_then (required_field [''slot''] json_sint kvs) (\<lambda>slot.
     Inr \<lparr>rpm_prev_publish_time = prev_publish_time, rpm_proof_available_time = proof_available_time, rpm_slot = slot\<rparr>))))"

interpretation rpc_metadata_form: json_form rpc_metadata_to_json rpc_metadata_of_json "\<lambda>_. True"
  by unfold_locales (simp_all add: rpc_metadata_to_json_def rpc_metadata_of_json_def field_reads hermes_forms
      del: json_sint.simps)

definition parsed_price_update_to_json :: "parsed_price_update \<Rightarrow> json" where
  "parsed_price_update_to_json u =
     J_Object [(''ema_price'', rpc_price_to_json (ppu_ema_price u)), (''id'', J_String (ppu_id u)),
       (''metadata'', rpc_metadata_to_json (ppu_metadata u)), (''price'', rpc_price_to_json (ppu_price u))]"

definition parsed_price_update_of_json :: "json \<Rightarrow> string + parsed_price_update" where
  "parsed_price_update_of_json = json_object (\<lambda>kvs.
     and_then (required_field [''ema_price''] rpc_price_of_json kvs) (\<lambda>ema_price.
     and_then (required_field [''id''] json_string kvs) (\<lambda>id.
     and_then (required_field [''metadata''] rpc_metadata_of_json kvs) (\<lambda>metadata.
     and_then (required_field [''price''] rpc_price_of_json kvs) (\<lambda>price.
     Inr \<lparr>ppu_ema_price = ema_price, ppu_id = id, ppu_metadata = metadata, ppu_price = price\<rparr>)))))"

interpretation parsed_price_update_form: json_form parsed_price_update_to_json parsed_price_update_of_json "\<lambda>_. True"
  by unfold_locales (simp_all add: parsed_price_update_to_json_def parsed_price_update_of_json_def field_reads
      rpc_price_form.of_to rpc_metadata_form.of_to)

section \<open>Listings of feeds\<close>

definition attributes_to_json :: "price_feed_attributes \<Rightarrow> json" where
  "attributes_to_json a =
     J_Object ([(''asset_type'', J_String (pfa_asset_type a))] @ skip_none ''base'' J_String (pfa_base a) @
       skip_none ''cms_symbol'' J_String (pfa_cms_symbol a) @ skip_none ''country'' J_String (pfa_country a) @
       skip_none ''cqs_symbol'' J_String (pfa_cqs_symbol a) @
       [(''description'', J_String (pfa_description a)), (''display_symbol'', J_String (pfa_display_symbol a))] @
       skip_none ''generic_symbol'' J_String (pfa_generic_symbol a) @
       skip_none ''nasdaq_symbol'' J_String (pfa_nasdaq_symbol a) @
       skip_none ''publish_interval'' J_String (pfa_publish_interval a) @
       skip_none ''quote_currency'' J_String (pfa_quote_currency a) @ skip_none ''schedule'' J_String (pfa_schedule a) @
       [(''symbol'', J_String (pfa_symbol a)), (''min_channel'', channel_to_json (pfa_min_channel a))])"

definition attributes_of_fields :: "fields \<Rightarrow> string + price_feed_attributes" where
  "attributes_of_fields kvs =
     and_then (required_field [''asset_type''] json_string kvs) (\<lambda>asset_type.
     and_then (option_field [''base''] json_string kvs) (\<lambda>base.
     and_then (option_field [''cms_symbol''] json_string kvs) (\<lambda>cms_symbol.
     and_then (option_field [''country''] json_string kvs) (\<lambda>country.
     and_then (option_field [''cqs_symbol''] json_string kvs) (\<lambda>cqs_symbol.
     and_then (required_field [''description''] json_string kvs) (\<lambda>description.
     and_then (required_field [''display_symbol''] json_string kvs) (\<lambda>display_symbol.
     and_then (option_field [''generic_symbol''] json_string kvs) (\<lambda>generic_symbol.
     and_then (option_field [''nasdaq_symbol''] json_string kvs) (\<lambda>nasdaq_symbol.
     and_then (option_field [''publish_interval''] json_string kvs) (\<lambda>publish_interval.
     and_then (option_field [''quote_currency''] json_string kvs) (\<lambda>quote_currency.
     and_then (option_field [''schedule''] json_string kvs) (\<lambda>schedule.
     and_then (required_field [''symbol''] json_string kvs) (\<lambda>symbol.
     and_then (required_field [''min_channel''] channel_of_json kvs) (\<lambda>min_channel.
     Inr \<lparr>pfa_asset_type = asset_type, pfa_base = base, pfa_cms_symbol = cms_symbol, pfa_country = country,
          pfa_cqs_symbol = cqs_symbol, pfa_description = description, pfa_display_symbol = display_symbol,
          pfa_generic_symbol = generic_symbol, pfa_nasdaq_symbol = nasdaq_symbol,
          pfa_publish_interval = publish_interval, pfa_quote_currency = quote_currency, pfa_schedule = schedule,
          pfa_symbol = symbol, pfa_min_channel = min_channel\<rparr>))))))))))))))"

definition attributes_of_json :: "json \<Rightarrow> string + price_feed_attributes" where
  "attributes_of_json = json_object attributes_of_fields"

interpretation attributes_form:
  json_form attributes_to_json attributes_of_json "\<lambda>a. channel_ok (pfa_min_channel a)"
proof
  fix a :: price_feed_attributes
  assume ok: "channel_ok (pfa_min_channel a)"
  obtain kvs where kvs: "attributes_to_json a = J_Object kvs" by (simp add: attributes_to_json_def)
  note def = kvs [symmetric, unfolded attributes_to_json_def json.inject]
  have o: "option_field [''base''] json_string kvs = Inr (pfa_base a)"
    "option_field [''cms_symbol''] json_string kvs = Inr (pfa_cms_symbol a)"
    "option_field [''country''] json_string kvs = Inr (pfa_country a)"
    "option_field [''cqs_symbol''] json_string kvs = Inr (pfa_cqs_symbol a)"
    "option_field [''generic_symbol''] json_string kvs = Inr (pfa_generic_symbol a)"
    "option_field [''nasdaq_symbol''] json_string kvs = Inr (pfa_nasdaq_symbol a)"
    "option_field [''publish_interval''] json_string kvs = Inr (pfa_publish_interval a)"
    "option_field [''quote_currency''] json_string kvs = Inr (pfa_quote_currency a)"
    "option_field [''schedule''] json_string kvs = Inr (pfa_schedule a)"
    by (rule string_form.skipped; simp add: def option.pred_True)+
  have r: "required_field [''asset_type''] json_string kvs = Inr (pfa_asset_type a)"
    "required_field [''description''] json_string kvs = Inr (pfa_description a)"
    "required_field [''display_symbol''] json_string kvs = Inr (pfa_display_symbol a)"
    "required_field [''symbol''] json_string kvs = Inr (pfa_symbol a)"
    "required_field [''min_channel''] channel_of_json kvs = Inr (pfa_min_channel a)"
    by (rule string_form.required channel_form.required; simp add: def ok)+
  show "attributes_of_json (attributes_to_json a) = Inr a"
    by (simp add: kvs attributes_of_json_def attributes_of_fields_def o r)
qed (simp add: attributes_to_json_def)

definition market_hours_to_json :: "market_hours \<Rightarrow> json" where
  "market_hours_to_json h =
     J_Object [(''is_open'', J_Bool (mh_is_open h)), (''next_open'', or_null (\<lambda>t. J_Int (sint t)) (mh_next_open h)),
       (''next_close'', or_null (\<lambda>t. J_Int (sint t)) (mh_next_close h))]"

definition market_hours_of_json :: "json \<Rightarrow> string + market_hours" where
  "market_hours_of_json = json_object (\<lambda>kvs.
     and_then (required_field [''is_open''] json_bool kvs) (\<lambda>is_open.
     and_then (option_field [''next_open''] json_sint kvs) (\<lambda>next_open.
     and_then (option_field [''next_close''] json_sint kvs) (\<lambda>next_close.
     Inr \<lparr>mh_is_open = is_open, mh_next_open = next_open, mh_next_close = next_close\<rparr>))))"

interpretation market_hours_form: json_form market_hours_to_json market_hours_of_json "\<lambda>_. True"
  by unfold_locales (simp_all add: market_hours_to_json_def market_hours_of_json_def field_reads hermes_forms
      sint_form.of_or_null option.pred_True del: json_sint.simps json_option.simps)

definition feed_metadata_to_json :: "price_feed_metadata \<Rightarrow> json" where
  "feed_metadata_to_json m =
     J_Object [(''id'', J_String (pfm_id m)), (''market_hours'', or_null market_hours_to_json (pfm_market_hours m)),
       (''attributes'', attributes_to_json (pfm_attributes m))]"

definition feed_metadata_of_json :: "json \<Rightarrow> string + price_feed_metadata" where
  "feed_metadata_of_json = json_object (\<lambda>kvs.
     and_then (required_field [''id''] json_string kvs) (\<lambda>id.
     and_then (option_field [''market_hours''] market_hours_of_json kvs) (\<lambda>hours.
     and_then (required_field [''attributes''] attributes_of_json kvs) (\<lambda>attributes.
     Inr \<lparr>pfm_id = id, pfm_market_hours = hours, pfm_attributes = attributes\<rparr>))))"

interpretation feed_metadata_form:
  json_form feed_metadata_to_json feed_metadata_of_json "\<lambda>m. channel_ok (pfa_min_channel (pfm_attributes m))"
  by unfold_locales (simp_all add: feed_metadata_to_json_def feed_metadata_of_json_def field_reads
      attributes_form.of_to market_hours_form.of_or_null option.pred_True del: json_option.simps)

section \<open>Messages\<close>

fun hermes_client_message_to_fields :: "hermes_client_message \<Rightarrow> fields" where
  "hermes_client_message_to_fields (Hermes_Subscribe ids o') =
     [(''type'', J_String ''subscribe''), (''ids'', strings_to_json ids), (''verbose'', J_Bool (so_verbose o')),
      (''binary'', J_Bool (so_binary o')), (''allow_out_of_order'', J_Bool (so_allow_out_of_order o')),
      (''ignore_invalid_price_ids'', J_Bool (so_ignore_invalid_price_ids o'))]"
| "hermes_client_message_to_fields (Hermes_Unsubscribe ids) =
     [(''type'', J_String ''unsubscribe''), (''ids'', strings_to_json ids)]"

definition hermes_client_message_of_fields :: "fields \<Rightarrow> string + hermes_client_message" where
  "hermes_client_message_of_fields kvs =
     and_then (required_field [''type''] json_string kvs) (\<lambda>tag.
     if tag = ''subscribe'' then
       and_then (required_field [''ids''] (json_list json_string) kvs) (\<lambda>ids.
       and_then (default_field [''verbose''] False json_bool kvs) (\<lambda>verbose.
       and_then (default_field [''binary''] False json_bool kvs) (\<lambda>binary.
       and_then (default_field [''allow_out_of_order''] False json_bool kvs) (\<lambda>out_of_order.
       and_then (default_field [''ignore_invalid_price_ids''] False json_bool kvs) (\<lambda>ignore_invalid.
       Inr (Hermes_Subscribe ids \<lparr>so_verbose = verbose, so_binary = binary, so_allow_out_of_order = out_of_order,
              so_ignore_invalid_price_ids = ignore_invalid\<rparr>))))))
     else if tag = ''unsubscribe'' then
       map_ok Hermes_Unsubscribe (required_field [''ids''] (json_list json_string) kvs)
     else Inl ''unknown variant'')"

fun hermes_response_to_fields :: "hermes_server_response \<Rightarrow> fields" where
  "hermes_response_to_fields HR_Success = [(''status'', J_String ''success'')]"
| "hermes_response_to_fields (HR_Err error) = [(''status'', J_String ''error''), (''error'', J_String error)]"

definition hermes_response_of_fields :: "fields \<Rightarrow> string + hermes_server_response" where
  "hermes_response_of_fields kvs =
     and_then (required_field [''status''] json_string kvs) (\<lambda>tag.
     if tag = ''success'' then Inr HR_Success
     else if tag = ''error'' then map_ok HR_Err (required_field [''error''] json_string kvs)
     else Inl ''unknown variant'')"

fun hermes_server_message_to_fields :: "hermes_server_message \<Rightarrow> fields" where
  "hermes_server_message_to_fields (HM_Response r) = (''type'', J_String ''response'') # hermes_response_to_fields r"
| "hermes_server_message_to_fields (HM_PriceUpdate f) =
     [(''type'', J_String ''price_update''), (''price_feed'', ws_price_feed_to_json f)]"

definition hermes_server_message_of_fields :: "fields \<Rightarrow> string + hermes_server_message" where
  "hermes_server_message_of_fields kvs =
     and_then (required_field [''type''] json_string kvs) (\<lambda>tag.
     if tag = ''response'' then map_ok HM_Response (hermes_response_of_fields kvs)
     else if tag = ''price_update'' then map_ok HM_PriceUpdate (required_field [''price_feed''] ws_price_feed_of_json kvs)
     else Inl ''unknown variant'')"

text \<open>Both directions of the connection are read as they were written.\<close>

theorem hermes_messages_round_trip:
  "hermes_client_message_of_fields (hermes_client_message_to_fields m) = Inr m"
  "hermes_server_message_of_fields (hermes_server_message_to_fields r) = Inr r"
proof -
  show "hermes_client_message_of_fields (hermes_client_message_to_fields m) = Inr m"
    by (cases m) (simp_all add: hermes_client_message_of_fields_def field_reads forms_read del: json_list.simps)
  show "hermes_server_message_of_fields (hermes_server_message_to_fields r) = Inr r"
  proof (cases r)
    case (HM_Response x)
    then show ?thesis
      by (cases x) (simp_all add: hermes_server_message_of_fields_def hermes_response_of_fields_def field_reads)
  next
    case (HM_PriceUpdate f)
    then show ?thesis
      by (simp add: hermes_server_message_of_fields_def field_reads ws_price_feed_form.of_to)
  qed
qed

text \<open>An old client that gives only the ids gets the defaults: no options.\<close>

lemma hermes_subscribe_defaults:
  "hermes_client_message_of_fields [(''type'', J_String ''subscribe''), (''ids'', strings_to_json ids)] =
     Inr (Hermes_Subscribe ids \<lparr>so_verbose = False, so_binary = False, so_allow_out_of_order = False,
            so_ignore_invalid_price_ids = False\<rparr>)"
  by (simp add: hermes_client_message_of_fields_def field_reads forms_read del: json_list.simps)

text \<open>The names of the asset types in JSON are those that they are displayed with.\<close>

definition all_asset_types :: "asset_type list" where
  "all_asset_types = [AT_Crypto, AT_Fx, AT_Equity, AT_Metal, AT_Rates, AT_CryptoRedemptionRate, AT_Commodities,
     AT_CryptoIndex, AT_CryptoNav, AT_Eco, AT_Kalshi]"

definition asset_type_of_json :: "json \<Rightarrow> string + asset_type" where
  "asset_type_of_json = json_name asset_type_display all_asset_types"

interpretation asset_type_form: json_form "\<lambda>t. J_String (asset_type_display t)" asset_type_of_json "\<lambda>_. True"
proof
  fix t
  show "asset_type_of_json (J_String (asset_type_display t)) = Inr t"
    by (cases t) (simp_all add: asset_type_of_json_def all_asset_types_def)
qed simp

end
