(* ===== verification/Agent_Setup.thy ===== *)
theory Agent_Setup
  imports Agent_Connect Agent_Relayer Lazer_Json
begin

text \<open>
  The start of the agent and its outer loop (\<^verbatim>\<open>agent/src\<close>): the configuration and its defaults
  (\<^verbatim>\<open>config.rs\<close>), the command line (\<^verbatim>\<open>main.rs\<close>), the construction of the publisher
  (\<^verbatim>\<open>lazer_publisher.rs\<close>), the loop that accepts connections (\<^verbatim>\<open>http_server.rs\<close>), sending with a
  time limit (\<^verbatim>\<open>websocket_utils.rs\<close>, \<^verbatim>\<open>relayer_session.rs\<close>) and the cached metadata
  (\<^verbatim>\<open>metadata.rs\<close>).  The readers of single values of the \<^verbatim>\<open>config\<close> crate, files, keys and sockets are
  arguments.  Durations are nanoseconds unless they are values of the configuration.
\<close>

section \<open>Configuration\<close>

record agent_config =
  ac_listen_address :: string
  ac_relayer_urls :: "string list"
  ac_relayer_connections :: "nat option"
  ac_authorization_token :: "string option"
  ac_publish_keypair_path :: string
  ac_publish_interval_duration :: std_duration
  ac_history_service_url :: string
  ac_enable_update_deduplication :: bool
  ac_update_deduplication_ttl :: std_duration
  ac_proxy_url :: "url_parts option"
  ac_legacy_sched_interval_duration :: std_duration

text \<open>\<^verbatim>\<open>Duration::from_millis\<close>.\<close>

definition std_from_millis :: "u64 \<Rightarrow> std_duration" where
  "std_from_millis ms = \<lparr>sd_secs = ms div 1000, sd_nanos = ucast (ms mod 1000) * 1000000\<rparr>"

definition default_publish_interval :: std_duration where
  "default_publish_interval = std_from_millis 25"

definition default_update_deduplication_ttl :: std_duration where
  "default_update_deduplication_ttl = std_from_millis 500"

definition default_legacy_sched_interval :: std_duration where
  "default_legacy_sched_interval = std_from_millis 500"

definition default_history_service_url :: string where
  "default_history_service_url = ''https://pyth.dourolabs.app/v1/symbols''"

text \<open>
  How the \<^verbatim>\<open>config\<close> crate reads single values.  The fields of the struct follow the attributes: a field
  without default is required unless it is optional, a null value is no optional value.
\<close>

record 'v config_readers =
  cr_is_null :: "'v \<Rightarrow> bool"
  cr_address :: "'v \<Rightarrow> string + string"
  cr_url :: "'v \<Rightarrow> string + string"
  cr_proxy :: "'v \<Rightarrow> string + url_parts"
  cr_text :: "'v \<Rightarrow> string + string"
  cr_list :: "'v \<Rightarrow> string + 'v list"
  cr_usize :: "'v \<Rightarrow> string + nat"
  cr_bool :: "'v \<Rightarrow> string + bool"
  cr_span :: "'v \<Rightarrow> string + std_duration"

type_synonym 'v settings = "(string \<times> 'v) list"

definition required_setting :: "('v \<Rightarrow> string + 'a) \<Rightarrow> string \<Rightarrow> 'v settings \<Rightarrow> string + 'a" where
  "required_setting read name settings =
     (case map_of settings name of
        None \<Rightarrow> Inl (''missing field '' @ name)
      | Some v \<Rightarrow> read v)"

definition default_setting :: "'a \<Rightarrow> ('v \<Rightarrow> string + 'a) \<Rightarrow> string \<Rightarrow> 'v settings \<Rightarrow> string + 'a" where
  "default_setting d read name settings =
     (case map_of settings name of None \<Rightarrow> Inr d | Some v \<Rightarrow> read v)"

definition optional_setting ::
  "'v config_readers \<Rightarrow> ('v \<Rightarrow> string + 'a) \<Rightarrow> string \<Rightarrow> 'v settings \<Rightarrow> string + 'a option" where
  "optional_setting rd read name settings =
     default_setting None
       (\<lambda>v. if cr_is_null rd v then Inr None else and_then (read v) (\<lambda>x. Inr (Some x))) name settings"

definition config_of_settings :: "'v config_readers \<Rightarrow> 'v settings \<Rightarrow> string + agent_config" where
  "config_of_settings rd s =
     and_then (required_setting (cr_address rd) ''listen_address'' s) (\<lambda>address.
     and_then (required_setting (\<lambda>v. and_then (cr_list rd v) (map_results (cr_url rd))) ''relayer_urls'' s) (\<lambda>urls.
     and_then (optional_setting rd (cr_usize rd) ''relayer_connections'' s) (\<lambda>connections.
     and_then (optional_setting rd (cr_text rd) ''authorization_token'' s) (\<lambda>token.
     and_then (required_setting (cr_text rd) ''publish_keypair_path'' s) (\<lambda>keypair.
     and_then (default_setting default_publish_interval (cr_span rd) ''publish_interval_duration'' s) (\<lambda>interval.
     and_then (default_setting default_history_service_url (cr_url rd) ''history_service_url'' s) (\<lambda>history.
     and_then (default_setting False (cr_bool rd) ''enable_update_deduplication'' s) (\<lambda>dedup.
     and_then (default_setting default_update_deduplication_ttl (cr_span rd) ''update_deduplication_ttl'' s) (\<lambda>ttl.
     and_then (optional_setting rd (cr_proxy rd) ''proxy_url'' s) (\<lambda>proxy.
     and_then (default_setting default_legacy_sched_interval (cr_span rd) ''legacy_sched_interval_duration'' s) (\<lambda>sched.
     Inr \<lparr>ac_listen_address = address, ac_relayer_urls = urls, ac_relayer_connections = connections,
          ac_authorization_token = token, ac_publish_keypair_path = keypair,
          ac_publish_interval_duration = interval, ac_history_service_url = history,
          ac_enable_update_deduplication = dedup, ac_update_deduplication_ttl = ttl,
          ac_proxy_url = proxy, ac_legacy_sched_interval_duration = sched\<rparr>)))))))))))"

text \<open>The sources of the configuration: the file, and the environment, which takes precedence.\<close>

definition load_config ::
  "'v config_readers \<Rightarrow> string + 'v settings \<Rightarrow> string + 'v settings \<Rightarrow> string + agent_config" where
  "load_config rd file environment =
     and_then file (\<lambda>f. and_then environment (\<lambda>e. config_of_settings rd (e @ f)))"

section \<open>The command line\<close>

datatype log_format = Log_Json | Log_Compact | Log_Pretty

record cli =
  cli_config :: string
  cli_log_format :: log_format

definition cli_of_args :: "string option \<Rightarrow> log_format option \<Rightarrow> cli" where
  "cli_of_args config format =
     \<lparr>cli_config = (case config of Some c \<Rightarrow> c | None \<Rightarrow> ''config/config.toml''),
      cli_log_format = (case format of Some f \<Rightarrow> f | None \<Rightarrow> Log_Json)\<rparr>"

section \<open>The publisher\<close>

definition AGENT_DEDUP_CACHE_SIZE :: nat where "AGENT_DEDUP_CACHE_SIZE = 100000"

text \<open>What the start of the agent takes from its surroundings.\<close>

record ('v, 'k, 'b, 'c) agent_env =
  ae_rust_log_ok :: bool
  ae_readers :: "'v config_readers"
  ae_file :: "string \<Rightarrow> string + 'v settings"
  ae_environment :: "string + 'v settings"
  ae_read_keypair_file :: "string \<Rightarrow> string + bytes"
  ae_from_keypair_bytes :: "bytes \<Rightarrow> 'k option"
  ae_verifying_key :: "'k \<Rightarrow> bytes"
  ae_base64 :: "bytes \<Rightarrow> string"
  ae_backoff :: "'b backoff_ops"
  ae_new_cache :: "nat \<Rightarrow> 'c"
  ae_now :: nat
  ae_bind :: "string \<Rightarrow> string + unit"

text \<open>The two failures at the start that are panics, and the two that are returned from \<^verbatim>\<open>main\<close>.\<close>

datatype startup_failure =
    Panic_Rust_Log | Config_Failed string | Panic_Signing_Key string | Bind_Failed string

record ('k, 'b, 'c, 'x) lazer_publisher =
  lz_signing_key :: 'k
  lz_token :: string
  lz_clamp_warning :: bool
  lz_pool :: "'b pool"
  lz_task :: "('c, 'x) publisher_task"

definition publisher_settings :: "agent_config \<Rightarrow> publisher_config" where
  "publisher_settings config =
     \<lparr>enable_update_deduplication = ac_enable_update_deduplication config,
      update_deduplication_ttl = ac_update_deduplication_ttl config\<rparr>"

definition lazer_publisher_new ::
  "('v, 'k, 'b, 'c) agent_env \<Rightarrow> agent_config \<Rightarrow> startup_failure + ('k, 'b, 'c, 'x) lazer_publisher" where
  "lazer_publisher_new env config =
     (case load_signing_key (ae_read_keypair_file env (ac_publish_keypair_path config)) (ae_from_keypair_bytes env) of
        Inl e \<Rightarrow> Inl (Panic_Signing_Key e)
      | Inr key \<Rightarrow>
          let num_relayers = length (ac_relayer_urls config);
              num_connections = resolve_num_connections (ac_relayer_connections config) num_relayers
          in Inr
            \<lparr>lz_signing_key = key,
             lz_token = publisher_token (ae_base64 env) (ae_verifying_key env) (ac_authorization_token config) key,
             lz_clamp_warning = (case ac_relayer_connections config of Some n \<Rightarrow> n \<noteq> num_connections | None \<Rightarrow> False),
             lz_pool = initial_pool (ae_backoff env) (ae_now env) (ac_relayer_urls config) (ac_relayer_connections config),
             lz_task = initial_task (publisher_settings config) num_connections (ae_new_cache env AGENT_DEDUP_CACHE_SIZE)\<rparr>)"

text \<open>\<^verbatim>\<open>run\<close> of \<^verbatim>\<open>lib.rs\<close> up to the loop that accepts connections, and \<^verbatim>\<open>main\<close>.\<close>

definition agent_run ::
  "('v, 'k, 'b, 'c) agent_env \<Rightarrow> agent_config \<Rightarrow> startup_failure + ('k, 'b, 'c, 'x) lazer_publisher" where
  "agent_run env config =
     and_then (lazer_publisher_new env config) (\<lambda>publisher.
       case ae_bind env (ac_listen_address config) of
         Inl e \<Rightarrow> Inl (Bind_Failed e)
       | Inr _ \<Rightarrow> Inr publisher)"

definition agent_main ::
  "('v, 'k, 'b, 'c) agent_env \<Rightarrow> cli \<Rightarrow> startup_failure + agent_config \<times> ('k, 'b, 'c, 'x) lazer_publisher" where
  "agent_main env args =
     (if \<not> ae_rust_log_ok env then Inl Panic_Rust_Log
      else case load_config (ae_readers env) (ae_file env (cli_config args)) (ae_environment env) of
        Inl e \<Rightarrow> Inl (Config_Failed e)
      | Inr config \<Rightarrow> and_then (agent_run env config) (\<lambda>publisher. Inr (config, publisher)))"

section \<open>Accepting connections\<close>

text \<open>A request as the server sees it: whether the agent is ready at that time, the path, and the handshake.\<close>

record http_request =
  rq_ready :: bool
  rq_path :: string
  rq_upgrade :: bool
  rq_handshake :: "string + nat"

record http_connection =
  hc_nodelay :: "string + unit"
  hc_requests :: "http_request list"
  hc_served :: "string + unit"

datatype accept_result = Accept_Failed string | Accepted http_connection

definition answer_request :: "http_request \<Rightarrow> http_response \<times> agent_request option" where
  "answer_request r = request_handler (rq_path r) (rq_ready r) (rq_upgrade r) (rq_handshake r)"

definition try_handle_connection ::
  "http_connection \<Rightarrow> (http_response \<times> agent_request option) list \<times> (string + unit)" where
  "try_handle_connection c =
     (case hc_nodelay c of
        Inl e \<Rightarrow> ([], Inl e)
      | Inr _ \<Rightarrow> (map answer_request (hc_requests c), hc_served c))"

text \<open>The loop of \<^verbatim>\<open>http_server::run\<close>: each accepted connection is handled by a task of its own.\<close>

fun accept_loop :: "accept_result list \<Rightarrow> ((http_response \<times> agent_request option) list \<times> (string + unit)) list" where
  "accept_loop [] = []"
| "accept_loop (Accept_Failed e # rs) = accept_loop rs"
| "accept_loop (Accepted c # rs) = try_handle_connection c # accept_loop rs"

section \<open>Time limits\<close>

text \<open>
  An operation that ends after some time with a result, or never (\<open>None\<close>).  \<open>timeout\<close> is
  \<^verbatim>\<open>tokio::time::timeout\<close>: the time that passes and the result, if it comes in time.
\<close>

type_synonym 'r timed = "(nat \<times> 'r) option"

definition timeout :: "nat \<Rightarrow> 'r timed \<Rightarrow> nat \<times> 'r option" where
  "timeout limit operation =
     (case operation of
        None \<Rightarrow> (limit, None)
      | Some (t, r) \<Rightarrow> if t \<le> limit then (t, Some r) else (limit, None))"

fun after_success :: "(string + unit) timed \<Rightarrow> (string + unit) timed \<Rightarrow> (string + unit) timed" where
  "after_success (Some (t, Inr u)) next = map_option (\<lambda>(t', r). (t + t', r)) next"
| "after_success operation next = operation"

definition SEND_TIMEOUT :: nat where "SEND_TIMEOUT = 10 * 1000000000"
definition CONNECT_TIMEOUT :: nat where "CONNECT_TIMEOUT = 10 * 1000000000"

fun or_elapsed :: "nat \<times> (string + unit) option \<Rightarrow> nat \<times> (string + unit)" where
  "or_elapsed (t, Some r) = (t, r)"
| "or_elapsed (t, None) = (t, Inl ''deadline has elapsed'')"

text \<open>The arguments of the senders are the two operations on the Websocket.\<close>

definition send_text :: "(string + unit) timed \<Rightarrow> (string + unit) timed \<Rightarrow> nat \<times> (string + unit)" where
  "send_text send flush = or_elapsed (timeout SEND_TIMEOUT (after_success send flush))"

definition send_text_no_flush :: "(string + unit) timed \<Rightarrow> nat \<times> (string + unit)" where
  "send_text_no_flush send = or_elapsed (timeout SEND_TIMEOUT send)"

definition flush_sender :: "(string + unit) timed \<Rightarrow> nat \<times> (string + unit)" where
  "flush_sender flush = or_elapsed (timeout SEND_TIMEOUT flush)"

definition send_json ::
  "string + string \<Rightarrow> (string \<Rightarrow> (string + unit) timed) \<Rightarrow> (string + unit) timed \<Rightarrow> nat \<times> (string + unit)" where
  "send_json text send flush =
     (case text of Inl e \<Rightarrow> (0, Inl e) | Inr t \<Rightarrow> send_text (send t) flush)"

text \<open>\<^verbatim>\<open>RelayerWsSession::send_transaction\<close>, which has no limit.\<close>

definition send_transaction ::
  "('t \<Rightarrow> string + bytes) \<Rightarrow> (bytes \<Rightarrow> (string + unit) timed) \<Rightarrow> (string + unit) timed \<Rightarrow> 't \<Rightarrow> (string + unit) timed" where
  "send_transaction write send flush transaction =
     (case write transaction of
        Inl e \<Rightarrow> Some (0, Inl e)
      | Inr buf \<Rightarrow> after_success (send buf) flush)"

text \<open>The first part of \<^verbatim>\<open>run_relayer_connection\<close>: the time that the attempt takes, and whether it failed.\<close>

definition connect_attempt :: "(anyhow + 'ws) timed \<Rightarrow> nat \<times> (connection_outcome + 'ws)" where
  "connect_attempt connect =
     (case timeout CONNECT_TIMEOUT connect of
        (t, Some (Inr ws)) \<Rightarrow> (t, Inr ws)
      | (t, Some (Inl e)) \<Rightarrow> (t, Inl ConnectFailed)
      | (t, None) \<Rightarrow> (t, Inl ConnectFailed))"

section \<open>Errors of a session\<close>

datatype session_error = Soketto_Closed | Soketto_Io bool string | Soketto_Other string | Other_Error string

datatype log_line = Log_Debug string | Log_Warn string

text \<open>In \<open>Soketto_Io reset e\<close>, \<open>reset\<close> says whether the kind of the error is \<^verbatim>\<open>ConnectionReset\<close>.\<close>

fun handle_websocket_error :: "session_error \<Rightarrow> log_line" where
  "handle_websocket_error Soketto_Closed = Log_Debug ''connection to client was closed''"
| "handle_websocket_error (Soketto_Io reset e) =
     (if reset then Log_Debug ''Client disconnected WebSocket connection''
      else Log_Warn (''Websocket IO error: '' @ e))"
| "handle_websocket_error (Soketto_Other e) = Log_Warn (''error while handling connection: '' @ e)"
| "handle_websocket_error (Other_Error e) = Log_Warn (''error while handling connection: '' @ e)"

text \<open>\<^verbatim>\<open>handle_publisher\<close>, \<^verbatim>\<open>handle_jrpc\<close> and \<^verbatim>\<open>handle_legacy\<close> over the result of the session.\<close>

fun handle_session :: "session_error + unit \<Rightarrow> log_line list" where
  "handle_session (Inl e) = [handle_websocket_error e]"
| "handle_session (Inr u) = []"

section \<open>Cached metadata\<close>

text \<open>
  The \<^verbatim>\<open>cached\<close> attribute of \<^verbatim>\<open>fetch_metadata\<close>: one entry for all addresses, kept for less than 60 seconds;
  only successes are kept.  The state is the entry with the second in which it was stored.
\<close>

definition METADATA_TTL :: nat where "METADATA_TTL = 60"

definition cached_metadata ::
  "nat \<Rightarrow> (nat \<times> 'm list) option \<Rightarrow> (string + 'm list) \<Rightarrow> (string + 'm list) \<times> (nat \<times> 'm list) option" where
  "cached_metadata now entry fetched =
     (case entry of
        Some (t, v) \<Rightarrow>
          if now - t < METADATA_TTL then (Inr v, entry)
          else (case fetched of Inr w \<Rightarrow> (Inr w, Some (now, w)) | Inl e \<Rightarrow> (Inl e, None))
      | None \<Rightarrow> (case fetched of Inr w \<Rightarrow> (Inr w, Some (now, w)) | Inl e \<Rightarrow> (Inl e, None)))"

section \<open>What is read from the configuration\<close>

lemmas setting_defs = required_setting_def default_setting_def optional_setting_def

lemma config_of_settings_cong:
  "map_of s = map_of s' \<Longrightarrow> config_of_settings rd s = config_of_settings rd s'"
  by (simp add: config_of_settings_def setting_defs)

text \<open>The environment overrides the file: what the file says about a name of the environment has no effect.\<close>

lemma environment_overrides_file:
  "load_config rd (Inr (filter (\<lambda>(name, v). map_of environment name = None) fs)) (Inr environment) =
   load_config rd (Inr fs) (Inr environment)"
proof -
  have "map_of (environment @ filter (\<lambda>(name, v). map_of environment name = None) fs) name =
      map_of (environment @ fs) name" for name
    by (induction fs) (auto simp: map_add_def split: option.split)
  then have "map_of (environment @ filter (\<lambda>(name, v). map_of environment name = None) fs) =
      map_of (environment @ fs)" by (rule ext)
  from config_of_settings_cong [OF this] show ?thesis by (simp add: load_config_def)
qed

lemma config_required:
  assumes "config_of_settings rd s = Inr c"
  shows "{''listen_address'', ''relayer_urls'', ''publish_keypair_path''} \<subseteq> dom (map_of s)"
  using assms by (auto simp: config_of_settings_def required_setting_def split: option.splits)

text \<open>A configuration with the three required settings alone.\<close>

lemma config_minimal:
  assumes "cr_address rd a = Inr address" and "cr_list rd l = Inr us" and "map_results (cr_url rd) us = Inr urls"
    and "cr_text rd k = Inr path"
  shows "config_of_settings rd [(''listen_address'', a), (''relayer_urls'', l), (''publish_keypair_path'', k)] =
    Inr \<lparr>ac_listen_address = address, ac_relayer_urls = urls, ac_relayer_connections = None,
      ac_authorization_token = None, ac_publish_keypair_path = path,
      ac_publish_interval_duration = \<lparr>sd_secs = 0, sd_nanos = 25000000\<rparr>,
      ac_history_service_url = ''https://pyth.dourolabs.app/v1/symbols'',
      ac_enable_update_deduplication = False,
      ac_update_deduplication_ttl = \<lparr>sd_secs = 0, sd_nanos = 500000000\<rparr>,
      ac_proxy_url = None, ac_legacy_sched_interval_duration = \<lparr>sd_secs = 0, sd_nanos = 500000000\<rparr>\<rparr>"
  using assms
  by (simp add: config_of_settings_def setting_defs std_from_millis_def default_publish_interval_def
      default_history_service_url_def default_update_deduplication_ttl_def default_legacy_sched_interval_def)

section \<open>The start of the agent\<close>

text \<open>The agent starts exactly if the log filter, the configuration, the key and the address are good.\<close>

lemma agent_main_Inr_iff:
  "agent_main env args = Inr (config, publisher) \<longleftrightarrow>
     ae_rust_log_ok env \<and>
     load_config (ae_readers env) (ae_file env (cli_config args)) (ae_environment env) = Inr config \<and>
     lazer_publisher_new env config = Inr publisher \<and>
     (\<exists>u. ae_bind env (ac_listen_address config) = Inr u)"
  by (cases "ae_bind env (ac_listen_address config)") (auto simp: agent_main_def agent_run_def split: sum.splits)

lemma lazer_publisher_new_Inr:
  assumes "lazer_publisher_new env config = Inr p"
  shows "lz_pool p = initial_pool (ae_backoff env) (ae_now env) (ac_relayer_urls config) (ac_relayer_connections config)"
    and "lz_task p = initial_task (publisher_settings config)
           (resolve_num_connections (ac_relayer_connections config) (length (ac_relayer_urls config))) (ae_new_cache env AGENT_DEDUP_CACHE_SIZE)"
    and "\<exists>bytes. ae_read_keypair_file env (ac_publish_keypair_path config) = Inr bytes \<and>
           ae_from_keypair_bytes env bytes = Some (lz_signing_key p)"
    and "lz_token p = (case ac_authorization_token config of
           Some token \<Rightarrow> token | None \<Rightarrow> ae_base64 env (ae_verifying_key env (lz_signing_key p)))"
  using assms
  by (auto simp: lazer_publisher_new_def load_signing_key_def publisher_token_def Let_def split: sum.splits option.splits)

text \<open>A warning is logged exactly for a number of connections that cannot be used.\<close>

lemma clamp_warning_iff:
  assumes "lazer_publisher_new env config = Inr p"
  shows "lz_clamp_warning p \<longleftrightarrow>
    (\<exists>n. ac_relayer_connections config = Some n \<and>
       (length (ac_relayer_urls config) < n \<or> n = 0 \<and> ac_relayer_urls config \<noteq> []))"
proof -
  have "max (min n k) (if 0 < k then 1 else 0) = n \<longleftrightarrow> \<not> (k < n \<or> n = 0 \<and> k \<noteq> 0)" for n k :: nat
    by (auto simp: max_def min_def)
  moreover have "lz_clamp_warning p = (case ac_relayer_connections config of
      Some n \<Rightarrow> n \<noteq> resolve_num_connections (Some n) (length (ac_relayer_urls config)) | None \<Rightarrow> False)"
    using assms by (auto simp: lazer_publisher_new_def Let_def split: sum.splits option.split)
  ultimately show ?thesis
    by (auto simp: resolve_num_connections_def split: option.splits)
qed

lemma worker_step_ready:
  "worker_step ops w s s' \<Longrightarrow> pl_is_ready s' \<Longrightarrow>
     pl_is_ready s \<or> (\<exists>j t. w < length (pl_workers s') \<and> pl_workers s' ! w = Connected j t)"
  by (erule worker_stepE) (auto simp: pool_ops)

lemma ready_after_connection:
  assumes "pool_run ops s0 s" and "\<not> pl_is_ready s0" and "pl_is_ready s"
  shows "\<exists>s1 w j t. pool_run ops s0 s1 \<and> w < length (pl_workers s1) \<and> pl_workers s1 ! w = Connected j t"
  using assms
proof (induction rule: pool_run.induct)
  case (pool_worker s w s')
  then show ?case using worker_step_ready [of ops w s s'] by (blast intro: pool_run.pool_worker)
qed (auto simp: advance_def)

text \<open>
  An agent that has started: it is not ready, no relayer gets two connections in any run of its workers, it has
  never more connections than relayers, and it becomes ready only by a connection, so never without relayers.
\<close>

theorem started_agent:
  assumes "agent_main env args = Inr (config, p)"
  defines "runs \<equiv> pool_run (ae_backoff env) (lz_pool p)"
  shows "\<not> pl_is_ready (lz_pool p)"
    and "runs s \<Longrightarrow> pool_inv s \<and> length (pl_workers s) \<le> length (ac_relayer_urls config)"
    and "runs s \<Longrightarrow> pl_is_ready s \<Longrightarrow>
      \<exists>s1 w j t. runs s1 \<and> w < length (pl_workers s1) \<and> pl_workers s1 ! w = Connected j t"
    and "runs s \<Longrightarrow> ac_relayer_urls config = [] \<Longrightarrow> \<not> pl_is_ready s"
proof -
  have new: "lazer_publisher_new env config = Inr p" using assms(1) by (simp add: agent_main_Inr_iff)
  note pool = lazer_publisher_new_Inr(1) [OF new]
  show unready: "\<not> pl_is_ready (lz_pool p)" by (simp add: pool initial_pool_def)
  show inv: "pool_inv s \<and> length (pl_workers s) \<le> length (ac_relayer_urls config)" if "runs s" for s
    using that pool_run_inv pool_run_lengths resolve_num_connections_bounds(1) unfolding runs_def pool by metis
  show conn: "\<exists>s1 w j t. runs s1 \<and> w < length (pl_workers s1) \<and> pl_workers s1 ! w = Connected j t"
    if "runs s" "pl_is_ready s" for s
    using ready_after_connection [OF that(1) [unfolded runs_def] unready that(2)] unfolding runs_def .
  show "\<not> pl_is_ready s" if "runs s" "ac_relayer_urls config = []"
    using conn [OF that(1)] inv that(2) by fastforce
qed

section \<open>Connections\<close>

lemma accept_loop_append [simp]: "accept_loop (rs @ rs') = accept_loop rs @ accept_loop rs'"
  by (induction rs rule: accept_loop.induct) simp_all

text \<open>A failure to accept a connection disturbs no other, and neither does an error of a connection.\<close>

lemma accept_loop_all:
  "accept_loop rs = map try_handle_connection [c. Accepted c \<leftarrow> rs]"
  by (induction rs rule: accept_loop.induct) simp_all

text \<open>The sessions that a connection starts.\<close>

lemma connection_sessions:
  "r \<in> set (List.map_filter snd (fst (try_handle_connection c))) \<longleftrightarrow>
     hc_nodelay c = Inr () \<and>
     (\<exists>q \<in> set (hc_requests c). rq_path q = route r \<and> rq_upgrade q \<and> (\<exists>status. rq_handshake q = Inr status))"
proof (cases "hc_nodelay c")
  case (Inr u)
  have "r \<in> set (List.map_filter snd (map answer_request qs)) \<longleftrightarrow> (\<exists>q \<in> set qs. snd (answer_request q) = Some r)" for qs
    by (induction qs) (auto simp: map_filter_simps split: option.split)
  with Inr show ?thesis
    by (simp add: try_handle_connection_def answer_request_def request_handler_session_iff)
qed (simp add: try_handle_connection_def map_filter_simps)

section \<open>No send blocks a session\<close>

lemma timeout_bound: "fst (timeout limit operation) \<le> limit"
  by (simp add: timeout_def split: option.split)

lemma or_elapsed_ok [simp]: "snd (or_elapsed x) = Inr u \<longleftrightarrow> snd x = Some (Inr u)"
  by (cases x rule: or_elapsed.cases) simp_all

lemma or_elapsed_fst [simp]: "fst (or_elapsed x) = fst x"
  by (cases x rule: or_elapsed.cases) simp_all

lemma timeout_Some_iff: "snd (timeout limit operation) = Some r \<longleftrightarrow> (\<exists>t \<le> limit. operation = Some (t, r))"
  by (auto simp: timeout_def split: option.split)

lemma after_success_ok_iff:
  "after_success send flush = Some (t, Inr u) \<longleftrightarrow>
     (\<exists>t1 t2. send = Some (t1, Inr ()) \<and> flush = Some (t2, Inr ()) \<and> t = t1 + t2)"
  by (cases "(send, flush)" rule: after_success.cases) auto

text \<open>A send takes at most ten seconds, and succeeds exactly if writing and flushing succeed within them.\<close>

theorem send_text_bounded:
  "fst (send_text send flush) \<le> SEND_TIMEOUT"
  "snd (send_text send flush) = Inr () \<longleftrightarrow>
     (\<exists>t1 t2. send = Some (t1, Inr ()) \<and> flush = Some (t2, Inr ()) \<and> t1 + t2 \<le> SEND_TIMEOUT)"
  using timeout_bound by (auto simp: send_text_def timeout_Some_iff after_success_ok_iff)

lemma send_json_bounded: "fst (send_json text send flush) \<le> SEND_TIMEOUT"
  by (simp add: send_json_def send_text_bounded split: sum.split)

text \<open>The send to a relayer has no limit: it does not end if the operations on the socket do not.\<close>

lemma send_transaction_unbounded: "write t = Inr buf \<Longrightarrow> send buf = None \<Longrightarrow> send_transaction write send flush t = None"
  by (simp add: send_transaction_def)

lemma connect_attempt_bounded:
  "fst (connect_attempt connect) \<le> CONNECT_TIMEOUT"
  "snd (connect_attempt connect) = Inr ws \<longleftrightarrow> (\<exists>t \<le> CONNECT_TIMEOUT. connect = Some (t, Inr ws))"
  by (auto simp: connect_attempt_def timeout_def split: option.split sum.split)

text \<open>Only a connection that was closed or reset is not worth a warning.\<close>

lemma handle_websocket_error_debug_iff:
  "(\<exists>m. handle_websocket_error e = Log_Debug m) \<longleftrightarrow> e = Soketto_Closed \<or> (\<exists>m. e = Soketto_Io True m)"
  by (cases e) auto

section \<open>Metadata in the cache\<close>

text \<open>A list that was fetched is served for a minute, and errors are never kept.\<close>

lemma cached_metadata_fresh:
  assumes "cached_metadata now entry fetched = (Inr v, entry')"
  shows "\<exists>t. entry' = Some (t, v) \<and> now - t < METADATA_TTL"
  using assms by (auto simp: cached_metadata_def METADATA_TTL_def split: option.splits sum.splits if_splits)

lemma cached_metadata_kept:
  assumes "cached_metadata now entry fetched = (Inr v, entry')" and "now \<le> later"
    and "\<And>t w. entry = Some (t, w) \<Longrightarrow> METADATA_TTL \<le> now - t" and "later < now + METADATA_TTL"
  shows "cached_metadata later entry' fetched' = (Inr v, entry')"
  using assms by (fastforce simp: cached_metadata_def METADATA_TTL_def split: option.splits sum.splits if_splits)

lemma cached_metadata_error:
  "cached_metadata now entry fetched = (Inl e, entry') \<Longrightarrow> fetched = Inl e \<and> entry' = None"
  by (auto simp: cached_metadata_def split: option.splits sum.splits if_splits)

end
