(* ===== verification/Agent_Pipeline.thy ===== *)
theory Agent_Pipeline
  imports Agent_Sessions Agent_Relayer
begin

text \<open>
  The way of a price through the agent: the bytes of a publisher, its session, the publishing task, the broadcast
  channel and the connection to a relayer.  The decoder of the publisher's bytes, the Protobuf writer and the
  signature are arguments, the last two with a contract.
\<close>

section \<open>What the relayer can rely on\<close>

definition transport_contract ::
  "('b \<Rightarrow> lazer_transaction option) \<Rightarrow> (bytes \<Rightarrow> 'b \<Rightarrow> bytes \<Rightarrow> bool) \<Rightarrow> ('c, 'b) publisher_services \<Rightarrow> bool" where
  "transport_contract parse verify sv \<longleftrightarrow>
     (\<forall>t. \<exists>b. write_to_bytes sv t = Inr b \<and> parse b = Some t) \<and>
     (\<forall>b. verify (verifying_key sv) b (sign_bytes sv b))"

text \<open>A connection that keeps up: nothing was skipped, no send failed, and nobody closed it.\<close>

fun keeps_up :: "'t connection_event \<Rightarrow> bool" where
  "keeps_up (Recv_Transaction t sent_ok) \<longleftrightarrow> sent_ok"
| "keeps_up Relayer_Message \<longleftrightarrow> True"
| "keeps_up Relayer_Error \<longleftrightarrow> True"
| "keeps_up _ \<longleftrightarrow> False"

fun received_transactions :: "'t connection_event list \<Rightarrow> 't list" where
  "received_transactions [] = []"
| "received_transactions (Recv_Transaction t sent_ok # es) = t # received_transactions es"
| "received_transactions (e # es) = received_transactions es"

lemma connection_loop_forwards:
  "list_all keeps_up es \<Longrightarrow> connection_loop es = (received_transactions es, False)"
  by (induction es rule: received_transactions.induct) auto

lemma receive_updates:
  "tk_pending_updates (fold receive_update us t) = tk_pending_updates t @ us"
  "tk_config (fold receive_update us t) = tk_config t"
  "tk_broadcast (fold receive_update us t) = tk_broadcast t"
  "tk_receivers (fold receive_update us t) = tk_receivers t"
  "tk_ttl_cache (fold receive_update us t) = tk_ttl_cache t"
  by (induction us arbitrary: t) (simp_all add: receive_update_def)

lemma batch_without_dedup:
  assumes "\<not> enable_update_deduplication (tk_config t)" and "tk_receivers t > 0" and "tk_pending_updates t \<noteq> []"
    and "write_to_bytes sv (publisher_transaction (sort_key timestamp_key (tk_pending_updates t)) now) = Inr b"
  shows "\<exists>t'. batch_transaction sv now t = (Inr (), t') \<and>
    tk_broadcast t' = tk_broadcast t @ [\<lparr>sx_signature = sign_bytes sv b, sx_public_key = verifying_key sv, sx_payload = b\<rparr>]"
proof -
  have "sort_key timestamp_key (tk_pending_updates t) \<noteq> []"
    using assms(3) length_sort [of timestamp_key "tk_pending_updates t"] by (metis length_0_conv)
  then show ?thesis using assms by (simp add: batch_transaction_def relayer_send_def batch_updates_def Let_def)
qed

lemma session_queues_v2:
  assumes "se_channel_open s" and "list_all (\<lambda>(buf, d). decode2 buf = Inr d) bufs"
  shows "publisher_loop (decode_update decode1 decode2 PublisherV2) (map fst bufs) n s =
    (n, Inr (), s\<lparr>se_pushed := se_pushed s @ map (\<lambda>(buf, d). feed_update_of_v2 d) bufs\<rparr>)"
  using assms by (induction bufs arbitrary: s) (auto simp: handle_publisher_message_def push_feed_update_def)

section \<open>From the publisher to the relayer\<close>

text \<open>Prices of a binary publisher reach the relayers.  When a publisher sends updates that can be decoded, the
  session takes all of them; with de-duplication off the next tick of the publishing task broadcasts one
  transaction, if there are connections, and every relayer connection that keeps up forwards it; the relayer
  finds a valid signature of the agent's key over a transaction with exactly these updates in the order of
  their source times, updates of equal times in the order in which they were sent.\<close>

theorem binary_prices_reach_relayers:
  assumes contract: "transport_contract parse verify sv"
    and session: "se_channel_open s" "se_pushed s = []"
    and sent: "list_all (\<lambda>(buf, d). decode2 buf = Inr d) bufs" "bufs \<noteq> []"
    and config: "\<not> enable_update_deduplication config" "num_connections > 0"
  shows "\<exists>s' t'. publisher_loop (decode_update decode1 decode2 PublisherV2) (map fst bufs) 0 s = (0, Inr (), s') \<and>
    se_sent s' = se_sent s \<and>
    batch_transaction sv now (fold receive_update (se_pushed s') (initial_task config num_connections cache)) = (Inr (), t') \<and>
    (\<forall>es. list_all keeps_up es \<and> received_transactions es = tk_broadcast t' \<longrightarrow>
      (\<exists>x. connection_loop es = ([x], False) \<and> sx_public_key x = verifying_key sv \<and>
        verify (sx_public_key x) (sx_payload x) (sx_signature x) \<and>
        parse (sx_payload x) =
          Some (publisher_transaction (sort_key timestamp_key (map (\<lambda>(buf, d). feed_update_of_v2 d) bufs)) now)))"
proof -
  let ?us = "map (\<lambda>(buf, d). feed_update_of_v2 d) bufs"
  let ?s' = "s\<lparr>se_pushed := ?us\<rparr>"
  let ?t = "fold receive_update ?us (initial_task config num_connections cache)"
  obtain b where b: "write_to_bytes sv (publisher_transaction (sort_key timestamp_key ?us) now) = Inr b"
    "parse b = Some (publisher_transaction (sort_key timestamp_key ?us) now)"
    using contract unfolding transport_contract_def by blast
  have t: "tk_pending_updates ?t = ?us" "tk_config ?t = config" "tk_receivers ?t = num_connections" "tk_broadcast ?t = []"
    by (simp_all add: receive_updates initial_task_def)
  have ne: "?us \<noteq> []" using sent(2) by simp
  obtain t' where t': "batch_transaction sv now ?t = (Inr (), t')"
    "tk_broadcast t' = [\<lparr>sx_signature = sign_bytes sv b, sx_public_key = verifying_key sv, sx_payload = b\<rparr>]"
    using batch_without_dedup [of ?t sv now b] config b(1) ne unfolding t by auto
  have "\<exists>x. connection_loop es = ([x], False) \<and> sx_public_key x = verifying_key sv \<and>
      verify (sx_public_key x) (sx_payload x) (sx_signature x) \<and>
      parse (sx_payload x) = Some (publisher_transaction (sort_key timestamp_key ?us) now)"
    if "list_all keeps_up es" "received_transactions es = tk_broadcast t'" for es
    using that contract b(2) by (simp add: connection_loop_forwards t'(2) transport_contract_def)
  with session_queues_v2 [OF session(1) sent(1), of decode1 0] t'(1) show ?thesis
    by (intro exI [of _ ?s'] exI [of _ t']) (simp add: session(2))
qed

definition pipe_services :: "(unit, lazer_transaction) publisher_services" where
  "pipe_services = \<lparr>hash_order = id, cache_get = (\<lambda>c k. (None, c)), cache_insert = (\<lambda>k u ttl c. c),
     write_to_bytes = Inr, sign_bytes = (\<lambda>b. [7]), verifying_key = [5]\<rparr>"

definition pipe_config :: publisher_config where
  "pipe_config = \<lparr>enable_update_deduplication = False, update_deduplication_ttl = \<lparr>sd_secs = 0, sd_nanos = 0\<rparr>\<rparr>"

definition demo_publisher :: "server_response session" where
  "demo_publisher = \<lparr>se_channel_open = True, se_pushed = [], se_socket_open = True, se_sent = []\<rparr>"

definition demo_price :: price_feed_data_v2 where
  "demo_price = \<lparr>v2_price_feed_id = 1, v2_source_timestamp_us = 2, v2_publisher_timestamp_us = 3, v2_price = Some 4,
     v2_best_bid_price = None, v2_best_ask_price = None, v2_funding_rate = None\<rparr>"

definition demo_decode :: "bytes \<Rightarrow> string + price_feed_data_v2" where
  "demo_decode buf = (if buf = [1] then Inr demo_price else Inl ''e'')"

lemma forwarding_events:
  "list_all keeps_up (map (\<lambda>x. Recv_Transaction x True) xs)"
  "received_transactions (map (\<lambda>x. Recv_Transaction x True) xs) = xs"
  by (induction xs) simp_all

theorem binary_prices_reach_relayers_witness:
  "\<exists>es (x :: lazer_transaction signed_transaction). list_all keeps_up es \<and> connection_loop es = ([x], False) \<and>
     sx_public_key x = [5] \<and> sx_signature x = [7] \<and>
     sx_payload x = publisher_transaction [feed_update_of_v2 demo_price] \<lparr>pb_seconds = 9, pb_nanos = 0\<rparr>"
proof -
  have c: "transport_contract Some (\<lambda>k b signature. k = [5] \<and> signature = [7]) pipe_services"
    by (simp add: transport_contract_def pipe_services_def)
  have h: "se_channel_open demo_publisher" "se_pushed demo_publisher = []"
    "list_all (\<lambda>(buf, d). demo_decode buf = Inr d) [([1], demo_price)]" "[([1 :: u8], demo_price)] \<noteq> []"
    "\<not> enable_update_deduplication pipe_config" "(1 :: nat) > 0"
    by (simp_all add: demo_publisher_def demo_decode_def pipe_config_def)
  obtain t' :: "(unit, lazer_transaction) publisher_task" where t': "\<forall>es. list_all keeps_up es \<and> received_transactions es = tk_broadcast t' \<longrightarrow>
      (\<exists>x. connection_loop es = ([x], False) \<and> sx_public_key x = verifying_key pipe_services \<and>
        (sx_public_key x = [5] \<and> sx_signature x = [7]) \<and>
        Some (sx_payload x) = Some (publisher_transaction
          (sort_key timestamp_key (map (\<lambda>(buf, d). feed_update_of_v2 d) [([1 :: u8], demo_price)]))
          \<lparr>pb_seconds = 9, pb_nanos = 0\<rparr>))"
    using binary_prices_reach_relayers [OF c h, of "\<lambda>_. Inl []" "\<lparr>pb_seconds = 9, pb_nanos = 0\<rparr>" "()"]
    by blast
  let ?es = "map (\<lambda>x. Recv_Transaction x True) (tk_broadcast t')"
  have one: "sort_key timestamp_key (map (\<lambda>(buf, d). feed_update_of_v2 d) [([1 :: u8], demo_price)]) =
      [feed_update_of_v2 demo_price]" by simp
  have es: "list_all keeps_up ?es" "received_transactions ?es = tk_broadcast t'" by (rule forwarding_events)+
  show ?thesis
    using t' [rule_format, OF conjI [OF es]] unfolding one option.inject
    by (elim exE conjE) (intro exI conjI, rule es(1), assumption+)
qed

end
