(* ===== verification/Spec2Isabelle.thy ===== *)
theory Spec2Isabelle
  imports Stellar_System Lazer_Solana Solana_Signature Stellar_Sdk Lazer_Message Lazer_Time Lazer_Price Packed_Evm
    Lazer_Api Dynamic_Values Agent_Relayer Agent_Runs Agent_Connect Hermes_Client Client_Http
    Lazer_Formats Client_Json Solana_Storage Time_Conversions Hermes_Json Agent_Setup Agent_Pipeline
begin

text \<open>
  Pyth Lazer distributes signed price updates.  Publishers send prices to an \<^emph>\<open>agent\<close>, the agent signs and
  forwards them to relayers; servers aggregate prices into payloads, sign them in one of several envelope
  formats and deliver them to clients over Websockets and HTTP; consumers check the payloads, on chain with
  the verifier contracts on Stellar and Solana.  On Stellar a second contract, the Wormhole executor, carries
  out governance decisions that guardians signed, among them the updates of the verifier's trusted signers.
  This development models these Rust crates and proves what makes them correct.  Paths are relative to
  \<^verbatim>\<open>src/\<close>.

  \<^bold>\<open>Conventions.\<close>  Machine integers are words of their width; checked, saturating and wrapping operations are
  written out (\<^verbatim>\<open>Lazer_Prelude\<close>).  \<^verbatim>\<open>Result\<close> is a sum with the error on the left and the operator
  \<^verbatim>\<open>?\<close> is \<open>and_then\<close>; a panic is a value of the error type or \<open>None\<close>, as each theory says.  A struct is a
  record, an enum a datatype.  A loop is a recursive function, structural or with a measure, so no model uses
  fuel: every function is total, and what does not end in the code (the tasks of the agent and of the clients)
  is a state with steps, whose runs are inductive relations.

  \<^bold>\<open>Theories.\<close>
  \<^item> \<^verbatim>\<open>Lazer_Prelude\<close>: machine integers, results, byte encodings and readers; the locales \<open>codec\<close> (an
    encoder with a decoder of a prefix) and \<open>canonical_codec\<close> (which accepts nothing but encodings).
  \<^item> \<^verbatim>\<open>Soroban_Host\<close>, \<^verbatim>\<open>Signer_Registry\<close>: how a Stellar contract function ends, storage with its
    time to live, the host's ordered map; the locale \<open>signer_registry\<close>, the laws of a store of trusted signers,
    interpreted on the stores of both verifier contracts.
  \<^item> \<^verbatim>\<open>Executor_Guardian\<close>, \<^verbatim>\<open>Executor_Vaa\<close>, \<^verbatim>\<open>Executor_Governance\<close>, \<^verbatim>\<open>Executor_Contract\<close>:
    \<^verbatim>\<open>contracts/stellar/contracts/wormhole-executor-stellar/src\<close>, file by file (\<^verbatim>\<open>guardian.rs\<close>,
    \<^verbatim>\<open>bytes.rs\<close> with \<^verbatim>\<open>vaa.rs\<close>, \<^verbatim>\<open>governance.rs\<close>, \<^verbatim>\<open>lib.rs\<close>).  The histories of a deployed
    contract are the relation \<open>reachable\<close> over its storage and the log of its effects.  Shown: exact parsers of
    VAAs and governance messages, authenticity and no replay of governance, rotation and an invariant of the
    guardian sets, and that two verified VAAs share signers.
  \<^item> \<^verbatim>\<open>Lazer_Stellar\<close>: \<^verbatim>\<open>contracts/stellar/contracts/pyth-lazer-stellar/src\<close>, the verifier on Stellar;
    \<^verbatim>\<open>Stellar_Sdk\<close>: \<^verbatim>\<open>contracts/stellar/sdk/rust/src\<close>, the payload parser and client of its consumers.
    Shown: verification accepts exactly well-formed envelopes of trusted signers, removal is effective, access
    control, and that the parser reads what the protocol crate writes.  \<^verbatim>\<open>Stellar_System\<close>: both contracts
    together, with the executor's calls to the verifier; the trusted signers are those that governance decided.
  \<^item> \<^verbatim>\<open>Lazer_Solana\<close>, \<^verbatim>\<open>Solana_Storage\<close>, \<^verbatim>\<open>Solana_Signature\<close>:
    \<^verbatim>\<open>contracts/solana/programs/pyth-lazer-solana-contract/src\<close>, the storage with its fixed arrays of
    signers and the bytes of its account, which no update outgrows, all handlers, and the check of the Ed25519
    instruction of the same transaction, sound and complete.
  \<^item> \<^verbatim>\<open>Lazer_Payload\<close>, \<^verbatim>\<open>Lazer_Message\<close>, \<^verbatim>\<open>Packed_Price\<close>, \<^verbatim>\<open>Packed_Evm\<close>, \<^verbatim>\<open>Lazer_Formats\<close>: the payloads and envelopes of
    \<^verbatim>\<open>sdk/rust/protocol/src\<close> (\<^verbatim>\<open>payload/\<close>, \<^verbatim>\<open>message.rs\<close>, \<^verbatim>\<open>binary_update.rs\<close>).  Shown: round trips of all formats,
    that no bytes are read in two of them, and that the packing loop of a price with its rounding states
    is rounding half to even at the first exponent that fits.
  \<^item> \<^verbatim>\<open>Lazer_Time\<close>, \<^verbatim>\<open>Time_Conversions\<close>, \<^verbatim>\<open>Lazer_Price\<close>, \<^verbatim>\<open>Lazer_Api\<close>, \<^verbatim>\<open>Publisher_Types\<close>,
    \<^verbatim>\<open>Dynamic_Values\<close>: \<^verbatim>\<open>time.rs\<close>, \<^verbatim>\<open>price.rs\<close>, \<^verbatim>\<open>rate.rs\<close>, \<^verbatim>\<open>api.rs\<close>,
    \<^verbatim>\<open>publisher.rs\<close>, the enumerations, and the conversions of \<^verbatim>\<open>publisher_sdk/rust/src\<close>; the locale
    \<open>payload_request\<close> for the three request types and \<open>wire_enum\<close> for enumerations and their Protobuf values.
    Shown: exact scaling and comparison of prices, exact request validation, channel names, conversions.
  \<^item> \<^verbatim>\<open>Lazer_Json\<close>, \<^verbatim>\<open>Client_Json\<close>, \<^verbatim>\<open>Jrpc_Json\<close>, \<^verbatim>\<open>Hermes_Json\<close>: the JSON forms that the
    attributes of the structs prescribe (\<^verbatim>\<open>api.rs\<close>, \<^verbatim>\<open>serde_str.rs\<close>, \<^verbatim>\<open>dynamic_value.rs\<close>, \<^verbatim>\<open>jrpc.rs\<close>,
    \<^verbatim>\<open>hermes.rs\<close>); the locale \<open>json_form\<close>, a writer and a
    reader of a type with the laws for lists, optional values and fields, is interpreted on every type.  Shown:
    the messages between client and server are read as they were written, requests are read only if valid, and
    a JSON-RPC session end to end.
  \<^item> \<^verbatim>\<open>Agent_Publisher\<close>, \<^verbatim>\<open>Agent_Relayer\<close>, \<^verbatim>\<open>Agent_Sessions\<close>, \<^verbatim>\<open>Agent_Legacy\<close>, \<^verbatim>\<open>Agent_Runs\<close>, \<^verbatim>\<open>Agent_Connect\<close>, \<^verbatim>\<open>Agent_Setup\<close>,
    \<^verbatim>\<open>Agent_Pipeline\<close>: \<^verbatim>\<open>agent/src\<close>:
    the publishing task with its two steps (a received update, a tick), the pool of relayer slots shared
    by concurrent workers (one step per access to a slot), the sessions of publishers with the binary,
    the JSON-RPC and the older protocol with their receive loops and timers, the routes of the HTTP
    server and the connection to a relayer through a proxy, the configuration and the start of the agent, and
    time limits.  Shown: the data handed to the relayer connections is current with de-duplication on or off, mutual exclusion and progress of the workers, the sessions' replies and
    limits, that a notification follows the reply with its subscription, and that the proxy's answer is
    understood however it is cut into reads; and the way of a price from a publisher to a relayer.
  \<^item> \<^verbatim>\<open>Client_Common\<close>, \<^verbatim>\<open>Client_Stream\<close>, \<^verbatim>\<open>Hermes_Client\<close>, \<^verbatim>\<open>Client_Http\<close>:
    \<^verbatim>\<open>sdk/rust/client/src\<close> with \<^verbatim>\<open>hermes.rs\<close>: the two streaming clients, each with connection tasks
    that reconnect and subscribe again and a task that forwards without repetitions, and the HTTP clients with
    the cache file and the stream of changes.  The locale \<open>resubscription\<close> says when the bookkeeping of
    requests restores the server's table, \<open>resubscribing_task\<close> what a step of a connection task may do; both
    are interpreted for both clients.  Shown: subscriptions survive reconnects, a task ends only with its
    consumer, the exact de-duplication window, atomic cache files, streams of exactly the changes.
  \<^item> this theory: the properties that span components, from a payload built by the protocol crate to the
    update a consumer on Stellar receives, and back.

  \<^bold>\<open>Parameters.\<close>  Code that is not part of the repository is an argument, with a named contract where a property
  relies on it: hashes, signature recovery and the other functions of the hosts; the Ed25519 program (through
  the instructions it was called with); JSON (\<open>json_contract\<close> and round-trip hypotheses), hexadecimal strings
  (\<open>hex_contract\<close>), URLs, \<^verbatim>\<open>bincode\<close> and the Protobuf writer; the decimal type; the expiring caches
  (\<open>cache_contract\<close>, \<open>ttl_contract\<close>); the exponential back-off (\<open>unlimited_backoff\<close>); the spelling of time
  spans and dates (\<open>humantime_contract\<close>, \<open>chrono_contract\<close>); the operations of floating point; the readers
  of the configuration; the transport between agent and relayer (\<open>transport_contract\<close>); clocks, sockets
  and files, whose outcomes are chosen by the environment.  Every contract is shown to be satisfiable where a
  property uses it.

  The servers that clients talk to (\<open>ws_server\<close>, \<open>hermes_server\<close>) are no code of this repository; they are
  the specification of what a sequence of requests means.

  \<^bold>\<open>Not modelled.\<close>  The text of JSON, and forms that the readers of \<^verbatim>\<open>serde\<close> accept but its writers never
  produce (the names of variants as objects or numbers, and structs as arrays outside the parameters of a
  JSON-RPC request); sockets and TLS, of which only the outcomes appear; generated Protobuf code; examples,
  tests, deployment scripts and the TypeScript packages.
\<close>

section \<open>From the publisher of a payload to its consumer on Stellar\<close>

text \<open>The envelope of the contract's verifier is the LE-ECDSA message of the protocol crate.\<close>

lemma le_ecdsa_is_envelope:
  "le_ecdsa_serialize m = Inr bs \<longleftrightarrow>
     length (lee_payload m) < 65536 \<and> bs = encode_envelope (lee_signature m) (lee_recovery_id m) (lee_payload m)"
  by (auto simp: le_ecdsa_serialize_def len_u16_def encode_envelope_def PROTOCOL_LE_ECDSA_FORMAT_MAGIC_def
      LE_ECDSA_FORMAT_MAGIC_def)

lemma client_verify_update_Inr:
  "client_verify_update kec rec env data = Inr u \<longleftrightarrow>
     (\<exists>payload env'. verify_update kec rec data env = Inr (payload, env') \<and> parse_payload payload = Inr u)"
proof (cases "verify_update kec rec data env")
  case (Inl f)
  then show ?thesis by (cases f) (simp_all add: client_verify_update_def)
next
  case (Inr r)
  moreover obtain p env' where "r = (p, env')" by (cases r)
  ultimately show ?thesis by (cases "parse_payload p") (simp_all add: client_verify_update_def)
qed

lemma verify_update_Inr_exists:
  "(\<exists>env'. verify_update kec rec data env = Inr (p, env')) \<longleftrightarrow>
     (\<exists>sg rid pk cpk e. length sg = 64 \<and> rid \<le> 3 \<and> length p < 65536 \<and> data = encode_envelope sg rid p \<and>
        rec (kec p) sg (ucast rid) = Some pk \<and> compress_pubkey pk = Inr cpk \<and>
        signer_expiry env cpk = Some e \<and> lz_timestamp env < e)"
proof -
  have "signer_expiry env cpk = Some e \<Longrightarrow>
      \<exists>env'. extend_trusted_signers_ttl (extend_lazer_instance_ttl env) = Inr env'" for cpk e
    using extend_trusted_signers_total [of "extend_lazer_instance_ttl env"] by (simp add: signer_expiry_def)
  then show ?thesis unfolding verify_update_Inr_iff by blast
qed

text \<open>C7: Delivery.  A payload built from aggregated data, written by the protocol crate, wrapped in an
  LE-ECDSA message and signed by a key that the Stellar contract trusts, is accepted by the consumer's
  client, which returns the timestamp, the channel and the fields of every feed as they were
  published.\<close>

theorem published_update_is_delivered:
  assumes "payload_serialize LE (payload_new ts ch feeds ps) = Inr payload"
    and "list_all (\<lambda>(i, data). list_all (\<lambda>p. value_ok (property_value data p)) ps) feeds"
    and "parse_channel ch = Inr c"
    and "le_ecdsa_serialize \<lparr>lee_payload = payload, lee_signature = sg, lee_recovery_id = rid\<rparr> = Inr data"
    and "length sg = 64" and "rid \<le> 3"
    and "recover (keccak256 payload) sg (ucast rid) = Some pk" and "compress_pubkey pk = Inr k"
    and "signer_expiry env k = Some e" and "lz_timestamp env < e"
  shows "client_verify_update keccak256 recover env data =
     Inr \<lparr>up_timestamp = ts, up_channel = c, up_feeds = map (\<lambda>(i, d). feed_of_parsed (parsed_feed_new i d ps)) feeds\<rparr>"
proof -
  let ?d = "payload_new ts ch feeds ps"
  have ok: "payload_ok ?d" and bytes: "payload = payload_bytes LE ?d"
    using serialized_payload_ok [OF assms(1)] assms(2) by (fastforce simp: payload_new_def list_all_iff)+
  have "map sdk_feed_of (pd_feeds ?d) = map (\<lambda>(i, data). feed_of_parsed (parsed_feed_new i data ps)) feeds"
    by (auto simp: payload_new_def sdk_feed_of_new)
  then have "parse_payload payload =
      Inr \<lparr>up_timestamp = ts, up_channel = c, up_feeds = map (\<lambda>(i, d). feed_of_parsed (parsed_feed_new i d ps)) feeds\<rparr>"
    using parse_payload_bytes [OF ok, of c "[]"] assms(3) by (simp add: bytes) (simp add: payload_new_def)
  moreover have env: "length payload < 65536" "data = encode_envelope sg rid payload"
    using assms(4) by (simp_all add: le_ecdsa_is_envelope)
  have "\<exists>env'. verify_update keccak256 recover data env = Inr (payload, env')"
    unfolding verify_update_Inr_exists using env assms(5-) by blast
  ultimately show ?thesis unfolding client_verify_update_Inr by blast
qed

theorem published_update_is_delivered_witness:
  "let data = (aggregated_empty (- 8) Regular 77)\<lparr>ag_price := Some 5\<rparr>; ps = [P_Price, P_FundingRate, P_Exponent]
   in \<exists>payload msg. payload_serialize LE (payload_new 9 1 [(1, data)] ps) = Inr payload \<and>
        le_ecdsa_serialize \<lparr>lee_payload = payload, lee_signature = replicate 64 0, lee_recovery_id = 0\<rparr> = Inr msg \<and>
        map_ok (map sf_price \<circ> up_feeds) (client_verify_update (\<lambda>x. x) (\<lambda>h s r. Some (4 # s)) demo_lazer msg) = Inr [Some 5]"
proof -
  let ?data = "(aggregated_empty (- 8) Regular 77)\<lparr>ag_price := Some 5\<rparr>" and ?ps = "[P_Price, P_FundingRate, P_Exponent]"
  let ?payload = "payload_bytes LE (payload_new 9 1 [(1, ?data)] ?ps)"
  have ser: "payload_serialize LE (payload_new 9 1 [(1, ?data)] ?ps) = Inr ?payload"
    by (simp add: payload_serialize_Inr payload_new_def)
  have ok: "list_all (\<lambda>(i :: u32, data). list_all (\<lambda>p. value_ok (property_value data p)) ?ps) [(1, ?data)]"
    by (simp add: price_ok_def)
  have ch: "parse_channel 1 = Inr RealTime" by (simp add: parse_channel_def)
  have "length ?payload < 65536"
    by (simp add: payload_bytes_def payload_new_def feed_bytes_def write_option_price_def write_option_rate_def
        aggregated_empty_def)
  then obtain msg where msg: "le_ecdsa_serialize \<lparr>lee_payload = ?payload, lee_signature = replicate 64 0, lee_recovery_id = 0\<rparr> = Inr msg"
    by (simp add: le_ecdsa_is_envelope)
  have key: "compress_pubkey (4 # replicate 64 0) = Inr (2 # replicate 32 0)"
    by (simp add: compress_pubkey_def lazer_get_byte_eq take_replicate drop_replicate)
  have e: "signer_expiry demo_lazer (2 # replicate 32 0) = Some 200" "lz_timestamp demo_lazer < 200"
    by (simp_all add: signer_expiry_def demo_lazer_def get_trusted_signers_def signers_entry_def)
  show ?thesis
    using ser msg published_update_is_delivered [OF ser ok ch msg, of "\<lambda>h s r. Some (4 # s)" "\<lambda>x. x", OF _ _ _ key e]
    by (simp add: feed_of_parsed_def parsed_feed_new_def parsed_feed_none_def)
qed

text \<open>C8: Authenticity.  Whatever data a consumer on Stellar passes to the client, an update that the
  client returns is the parse of a payload whose hash was signed by a key that the contract trusts at
  that time, and the data is the LE-ECDSA message of exactly that payload and signature.\<close>

theorem consumed_update_is_authentic:
  "client_verify_update keccak256 recover env data = Inr u \<longleftrightarrow>
     (\<exists>m pk k e. le_ecdsa_serialize m = Inr data \<and> length (lee_signature m) = 64 \<and> lee_recovery_id m \<le> 3 \<and>
        recover (keccak256 (lee_payload m)) (lee_signature m) (ucast (lee_recovery_id m)) = Some pk \<and>
        compress_pubkey pk = Inr k \<and> signer_expiry env k = Some e \<and> lz_timestamp env < e \<and>
        parse_payload (lee_payload m) = Inr u)" (is "?l \<longleftrightarrow> ?r")
proof
  assume ?l
  then obtain p sg rid pk k e where "length sg = 64" "rid \<le> 3" "length p < 65536" "data = encode_envelope sg rid p"
    "recover (keccak256 p) sg (ucast rid) = Some pk" "compress_pubkey pk = Inr k" "signer_expiry env k = Some e"
    "lz_timestamp env < e" "parse_payload p = Inr u"
    unfolding client_verify_update_Inr using verify_update_Inr_exists [of keccak256 recover data env] by blast
  then show ?r
    by (intro exI [of _ "\<lparr>lee_payload = p, lee_signature = sg, lee_recovery_id = rid\<rparr>"]) (auto simp: le_ecdsa_is_envelope)
next
  assume ?r
  then show ?l
    unfolding client_verify_update_Inr le_ecdsa_is_envelope using verify_update_Inr_exists [of keccak256 recover data env]
    by blast
qed

section \<open>From the guardians to the consumer\<close>

text \<open>C1: The chain of trust.  Whatever the history of the two contracts on Stellar, an update that a
  consumer's client returns is the parse of a payload signed by a key that is trusted since the
  construction of the verifier and was not decided on since, or by the last decision on it in a
  governance action, whose VAA came from the owner and was signed by more than two thirds of a stored
  guardian set that had not expired; and the expiry that was decided lies ahead.\<close>

theorem consumed_update_is_governed:
  assumes sys: "system_reachable host lazer code alive init s"
    and upd: "client_verify_update (h_keccak256 host) (h_recover host) (sys_lazer s) data = Inr u"
  shows "\<exists>m pk k e. le_ecdsa_serialize m = Inr data \<and> parse_payload (lee_payload m) = Inr u \<and>
    h_recover host (h_keccak256 host (lee_payload m)) (lee_signature m) (ucast (lee_recovery_id m)) = Some pk \<and>
    compress_pubkey pk = Inr k \<and> timestamp (sys_executor s) < e \<and>
    (init k = Some e \<and> (\<forall>(_, _, eff) \<in> set (sys_log s). \<forall>e'. decided lazer eff \<noteq> Some (k, e')) \<or>
     (\<exists>pre env vaa eff post v g. sys_log s = pre @ (env, vaa, eff) # post \<and> decided lazer eff = Some (k, e) \<and>
        (\<forall>(_, _, eff') \<in> set post. \<forall>e'. decided lazer eff' \<noteq> Some (k, e')) \<and>
        valid_vaa v \<and> vaa = encode_vaa v \<and> guardian_sets env (vaa_guardian_set_index v) = Some g \<and>
        (case gs_expiration_time g of Some t \<Rightarrow> timestamp env < t | None \<Rightarrow> True) \<and>
        owner_emitter_chain env = Some (ucast (vb_emitter_chain (vaa_body v))) \<and>
        owner_emitter_address env = Some (vb_emitter_address (vaa_body v)) \<and>
        (length (gs_keys g) < 2 ^ 32 \<longrightarrow>
           2 * length (gs_keys g) < 3 * card (signers (h_keccak256 host) (h_recover host) (gs_keys g) v))))"
proof -
  obtain p sg rid pk k e where v: "length p < 65536" "data = encode_envelope sg rid p" "length sg = 64"
    "h_recover host (h_keccak256 host p) sg (ucast rid) = Some pk" "compress_pubkey pk = Inr k"
    "signer_expiry (sys_lazer s) k = Some e" "lz_timestamp (sys_lazer s) < e" "parse_payload p = Inr u"
    using upd unfolding client_verify_update_Inr
    using verify_update_Inr_exists [of "h_keccak256 host" "h_recover host" data "sys_lazer s"] by blast
  have now: "timestamp (sys_executor s) < e" using system_signers(4) [OF sys] v(7) by simp
  have g: "governed lazer init (sys_log s) k = Some e"
    by (rule map_le_SomeD [OF system_signers(1) [OF sys] v(6)])
  let ?m = "\<lparr>lee_payload = p, lee_signature = sg, lee_recovery_id = rid\<rparr>"
  have m: "le_ecdsa_serialize ?m = Inr data" "parse_payload (lee_payload ?m) = Inr u"
    "h_recover host (h_keccak256 host (lee_payload ?m)) (lee_signature ?m) (ucast (lee_recovery_id ?m)) = Some pk"
    using v by (simp_all add: le_ecdsa_is_envelope)
  from governed_last [OF g] show ?thesis
  proof
    assume "init k = Some e \<and> (\<forall>(_, _, eff) \<in> set (sys_log s). \<forall>e'. decided lazer eff \<noteq> Some (k, e'))"
    with m v(5) now show ?thesis by blast
  next
    assume "\<exists>pre env vaa eff post. sys_log s = pre @ (env, vaa, eff) # post \<and> decided lazer eff = Some (k, e) \<and>
       (\<forall>(_, _, eff') \<in> set post. \<forall>e'. decided lazer eff' \<noteq> Some (k, e'))"
    then obtain pre env vaa eff post where l: "sys_log s = pre @ (env, vaa, eff) # post"
      "decided lazer eff = Some (k, e)" "\<forall>(_, _, eff') \<in> set post. \<forall>e'. decided lazer eff' \<noteq> Some (k, e')"
      by blast
    then have "(env, vaa, eff) \<in> set (sys_log s)" by simp
    from system_log_authentic [OF sys this] m v(5) now l show ?thesis by blast
  qed
qed

theorem consumed_update_is_governed_witness:
  "\<exists>s data u pre env vaa eff post. system_reachable demo_system_host [8] [] True Map.empty s \<and>
     client_verify_update (h_keccak256 demo_system_host) (h_recover demo_system_host) (sys_lazer s) data = Inr u \<and>
     up_timestamp u = 9 \<and> sys_log s = pre @ (env, vaa, eff) # post \<and> (\<exists>k e. decided [8] eff = Some (k, e))"
proof -
  let ?h = demo_system_host and ?d = "payload_new 9 1 [] []"
  obtain s where s: "govern_system ?h [8] (\<lambda>a. False) (encode_vaa (demo_vaa_of demo_decision_body)) demo_start = Inr s"
    "signer_expiry (sys_lazer s) = [demo_key \<mapsto> 5000]"
    using demo_decided by blast
  have r: "system_reachable ?h [8] [] True Map.empty s"
    by (rule system_reachable.action [OF demo_start_reachable demo_original s(1)])
  have "lz_timestamp (sys_lazer demo_start) = 1000"
    by (simp add: demo_start_def extend_lazer_instance_ttl_def)
  then have t: "lz_timestamp (sys_lazer s) < 5000"
    using govern_system_timestamp [OF s(1)] by simp
  let ?p = "payload_bytes LE ?d" and ?sg = "replicate 64 0"
  have p: "parse_payload ?p = Inr \<lparr>up_timestamp = 9, up_channel = RealTime, up_feeds = []\<rparr>"
    using parse_payload_bytes [of ?d RealTime "[]"] by (simp add: payload_new_def payload_ok_def parse_channel_def)
  have len: "length ?p < 65536" by (simp add: payload_bytes_def payload_new_def)
  have key: "compress_pubkey (4 # ?sg) = Inr demo_key"
    by (simp add: compress_pubkey_def lazer_get_byte_eq take_replicate drop_replicate demo_key_def)
  have "h_recover ?h (h_keccak256 ?h ?p) ?sg (ucast (0 :: u8)) = Some (4 # ?sg)"
    by (simp add: demo_system_host_def demo_host_def)
  then have "\<exists>env'. verify_update (h_keccak256 ?h) (h_recover ?h) (encode_envelope ?sg 0 ?p) (sys_lazer s) = Inr (?p, env')"
    unfolding verify_update_Inr_exists using len key s(2) t
    by (intro exI [of _ ?sg] exI [of _ 0] exI [of _ "4 # ?sg"] exI [of _ demo_key] exI [of _ 5000]) simp
  then have c: "client_verify_update (h_keccak256 ?h) (h_recover ?h) (sys_lazer s) (encode_envelope ?sg 0 ?p) =
      Inr \<lparr>up_timestamp = 9, up_channel = RealTime, up_feeds = []\<rparr>"
    unfolding client_verify_update_Inr using p by blast
  have "\<exists>pre env vaa eff post k e. sys_log s = pre @ (env, vaa, eff) # post \<and> decided [8] eff = Some (k, e)"
    using consumed_update_is_governed [OF r c] by blast
  with r c show ?thesis by (metis update.select_convs(1))
qed

end
